(* ===== verification/Engine_Prelude.thy ===== *)
theory Engine_Prelude
  imports Main "HOL-Library.Word"
begin

text \<open>
  Shared vocabulary of the development: bytes and machine words, the faults a C++ operation can
  run into where the language gives it no meaning, results that carry such a fault, raw memory
  reads and writes, and the list and word lemmas that several components use.
\<close>

unbundle bit_operations_syntax

named_theorems res_simps \<open>unfolding and evaluation of fault-carrying results\<close>
named_theorems byte_simps \<open>round trips of integers through their bytes\<close>

section \<open>Words, bytes and faults\<close>

type_synonym byte = "8 word"
type_synonym u16 = "16 word"
type_synonym u24 = "24 word"
type_synonym u32 = "32 word"
type_synonym u64 = "64 word"

text \<open>
  Where the C++ code would read or write outside an object, dereference a null pointer, divide by
  zero, stay in a loop for ever, convert a floating point number that does not fit, overflow a signed
  integer, shift by more than the width or leave an exception uncaught, the model stops with a fault. A theorem that a result is
  \<open>Inr\<close> therefore states that none of these happens.
\<close>

datatype fault =
    Over_Read | Over_Write | Null_Deref | Div_By_Zero | Endless_Loop | Bad_Cast | Int_Overflow | Bad_Shift | Uncaught

type_synonym 'a res = "fault + 'a"

definition bindR :: "'a res \<Rightarrow> ('a \<Rightarrow> 'b res) \<Rightarrow> 'b res" where
  "bindR m f = (case m of Inl e \<Rightarrow> Inl e | Inr x \<Rightarrow> f x)"

lemma bindR_Inl [simp, res_simps]: "bindR (Inl e) f = Inl e"
  by (simp add: bindR_def)

lemma bindR_Inr [simp, res_simps]: "bindR (Inr x) f = f x"
  by (simp add: bindR_def)

lemma bindR_eq_Inr [res_simps]: "bindR m f = Inr y \<longleftrightarrow> (\<exists>x. m = Inr x \<and> f x = Inr y)"
  by (cases m) auto

lemma bindR_assoc: "bindR (bindR m f) g = bindR m (\<lambda>x. bindR (f x) g)"
  by (cases m) auto

lemma bindR_cong [fundef_cong]:
  "m = m' \<Longrightarrow> (\<And>x. m' = Inr x \<Longrightarrow> f x = f' x) \<Longrightarrow> bindR m f = bindR m' f'"
  by (cases m') auto

text \<open>The conversion of a wider integer to \<^verbatim>\<open>int\<close>: two's complement of 32 bits.\<close>

definition to_int32 :: "int \<Rightarrow> int" where
  "to_int32 i = sint (word_of_int i :: 32 word)"

lemma to_int32_id [simp]: "- (2 ^ 31) \<le> i \<Longrightarrow> i < 2 ^ 31 \<Longrightarrow> to_int32 i = i"
  by (simp add: to_int32_def signed_of_int signed_take_bit_int_eq_self)

lemma to_int32_nat: "n < 2 ^ 31 \<Longrightarrow> to_int32 (int n) = int n"
  by simp

section \<open>Raw memory\<close>

text \<open>
  A pointer into a buffer is modelled by the bytes from it to the end of the buffer, or by the
  buffer and an index.
\<close>

definition byte_at :: "byte list \<Rightarrow> nat \<Rightarrow> byte res" where
  "byte_at bs i = (if i < length bs then Inr (bs ! i) else Inl Over_Read)"

definition read_bytes :: "byte list \<Rightarrow> nat \<Rightarrow> nat \<Rightarrow> byte list res" where
  "read_bytes bs off n =
     (if off + n \<le> length bs then Inr (take n (drop off bs)) else Inl Over_Read)"

lemma byte_at_in [simp]: "i < length bs \<Longrightarrow> byte_at bs i = Inr (bs ! i)"
  by (simp add: byte_at_def)

lemma byte_at_out [simp]: "length bs \<le> i \<Longrightarrow> byte_at bs i = Inl Over_Read"
  by (simp add: byte_at_def)

lemma read_bytes_in [simp]: "off + n \<le> length bs \<Longrightarrow> read_bytes bs off n = Inr (take n (drop off bs))"
  by (simp add: read_bytes_def)

lemma byte_at_drop: "drop off bs = b # bs' \<Longrightarrow> byte_at bs off = Inr b"
  by (metis byte_at_in drop_eq_Nil hd_drop_conv_nth leI list.distinct(1) list.sel(1))

lemma read_bytes_drop:
  "drop off bs = xs @ bs' \<Longrightarrow> length xs = n \<Longrightarrow> off \<le> length bs \<Longrightarrow> read_bytes bs off n = Inr xs"
proof -
  assume a: "drop off bs = xs @ bs'" "length xs = n" "off \<le> length bs"
  then have "length bs - off = n + length bs'"
    by (metis length_append length_drop)
  with a show ?thesis by (simp add: read_bytes_def)
qed

lemma drop_drop_append: "drop off bs = xs @ bs' \<Longrightarrow> drop (off + length xs) bs = bs'"
  by (metis append_eq_conv_conj add.commute drop_drop)

lemma drop_append_le: "drop off bs = xs @ bs' \<Longrightarrow> off \<le> length bs \<Longrightarrow> off + length xs \<le> length bs"
proof -
  assume a: "drop off bs = xs @ bs'" and le: "off \<le> length bs"
  from a have "length bs - off = length xs + length bs'" by (metis length_append length_drop)
  with le show ?thesis by simp
qed

section \<open>Lists\<close>

lemma take_length_append [simp]: "n = length xs \<Longrightarrow> take n (xs @ ys) = xs"
  by simp

lemma drop_length_append [simp]: "n = length xs \<Longrightarrow> drop n (xs @ ys) = ys"
  by simp

lemma length_eq_1: "length xs = Suc 0 \<longleftrightarrow> (\<exists>a. xs = [a])"
  by (auto simp: length_Suc_conv)

lemma length_eq_3: "length xs = 3 \<longleftrightarrow> (\<exists>a b c. xs = [a, b, c])"
  by (auto simp: length_Suc_conv numeral_3_eq_3)

lemma length_eq_4: "length xs = 4 \<longleftrightarrow> (\<exists>a b c d. xs = [a, b, c, d])"
  by (auto simp: length_Suc_conv eval_nat_numeral)

lemma apfst_add_0 [simp]: "apfst ((+) (0::nat)) x = x"
  by (cases x) simp

lemma map_upd_fold_same: "m k = Some v \<Longrightarrow> m(k \<mapsto> v) = m"
  by (rule ext) simp

section \<open>Words\<close>

lemma unat_ucast_byte: "unat (ucast (b :: byte) :: 32 word) = unat b"
  using unsigned_less [where ?'a = nat, of b] by (simp add: unsigned_ucast_eq take_bit_eq_mod)

lemma unat_byte_less: "unat (b :: byte) < 256"
  using unsigned_less [where ?'a = nat, of b] by simp

lemma unat_less_power: "unat (w :: 'a::len word) < 2 ^ LENGTH('a)"
  by (rule unsigned_less)

lemma drop_bit_unat: "unat (drop_bit n (w :: 'a::len word)) = unat w div 2 ^ n"
  by (simp add: unsigned_drop_bit_eq drop_bit_eq_div [where ?'a = nat]
      take_bit_eq_mod [where ?'a = nat] mod_less [OF unat_less_power])

lemma unat_ucast_mod: "unat (ucast (w :: 'a::len word) :: 'b::len word) = unat w mod 2 ^ LENGTH('b)"
  by (simp add: unsigned_ucast_eq take_bit_eq_mod)

lemma ucast_ucast_24: "ucast (ucast (w :: 24 word) :: 32 word) = (w :: 24 word)"
  by (rule bit_word_eqI) (simp add: bit_simps)

lemma and_3f: "(x :: 'a::len word) AND 0x3f = take_bit 6 x"
  by (simp add: take_bit_eq_mask mask_eq_exp_minus_1)

lemma unat_take_bit: "unat (take_bit n (x :: 'a::len word)) = unat x mod 2 ^ n"
  by (simp add: unsigned_take_bit_eq take_bit_eq_mod [where ?'a = nat])

lemma sint_of_nat_nonneg:
  assumes "n < 2 ^ 32" "0 \<le> sint (of_nat n :: 32 word)"
  shows "n < 2 ^ 31"
proof -
  have "uint (of_nat n :: 32 word) = int n"
    using assms(1) by (simp add: unsigned_of_nat take_bit_nat_eq_self)
  then have "\<not> bit (int n) 31"
    using assms(2) by (simp add: sint_uint)
  then have "even (int n div 2147483648)"
    by (simp add: bit_iff_odd)
  moreover have "0 \<le> int n div 2147483648" "int n div 2147483648 < 2" using assms(1) by simp_all
  moreover have "x = 0" if "even x" "0 \<le> x" "x < 2" for x :: int using that by presburger
  ultimately have "int n div 2147483648 = 0" by blast
  then show ?thesis by simp
qed

lemma small_multiple_not_2_32:
  fixes n k :: nat
  assumes "0 < n" "n < 2 ^ 31" "k \<in> {1, 2, 3, 5, 6, 7}"
  shows "n * k mod 2 ^ 32 \<noteq> 0"
proof
  assume "n * k mod 2 ^ 32 = 0"
  then obtain j where j: "n * k = 4294967296 * j" by (auto simp: mod_eq_0_iff_dvd dvd_def)
  have "n * k \<le> n * 7" using assms(3) by (intro mult_le_mono2) auto
  with j assms(2) have "j < 4" by simp
  moreover have "j \<noteq> 0" using j assms by (intro notI) auto
  ultimately have "j = 1 \<or> j = 2 \<or> j = 3" by linarith
  with assms j show False by (elim disjE insertE emptyE; simp; presburger)
qed
end
