(* ===== verification/Byte_Order.thy ===== *)
theory Byte_Order
  imports Engine_Prelude
begin

text \<open>
  The big- and little-endian readers and writers of \<^verbatim>\<open>RtmpMuxUtil\<close> (\<open>rtmp_mux_util.cpp\<close>) and of
  \<^verbatim>\<open>AmfUtil\<close> (\<open>amf_document.cpp\<close>). A reader takes the memory from its pointer on and faults where
  that memory is too short; a writer gives the bytes it stores at its pointer, so the length of
  its result is the number the C++ function returns. The lemmas show that each reader undoes the
  writer of the same width.
\<close>

unbundle bit_operations_syntax

section \<open>RtmpMuxUtil: readers\<close>

definition ReadInt8 :: "byte list \<Rightarrow> byte res" where
  "ReadInt8 c = byte_at c 0"

definition ReadInt16 :: "byte list \<Rightarrow> u16 res" where
  "ReadInt16 c = bindR (byte_at c 0) (\<lambda>c0. bindR (byte_at c 1) (\<lambda>c1.
     Inr (push_bit 8 (ucast c0) OR ucast c1)))"

definition ReadInt24 :: "byte list \<Rightarrow> u32 res" where
  "ReadInt24 c = bindR (byte_at c 0) (\<lambda>c0. bindR (byte_at c 1) (\<lambda>c1. bindR (byte_at c 2) (\<lambda>c2.
     Inr (push_bit 16 (ucast c0) OR push_bit 8 (ucast c1) OR ucast c2))))"

definition ReadInt32 :: "byte list \<Rightarrow> u32 res" where
  "ReadInt32 c = bindR (byte_at c 0) (\<lambda>c0. bindR (byte_at c 1) (\<lambda>c1. bindR (byte_at c 2) (\<lambda>c2.
     bindR (byte_at c 3) (\<lambda>c3.
     Inr (push_bit 24 (ucast c0) OR push_bit 16 (ucast c1) OR push_bit 8 (ucast c2) OR ucast c3)))))"

text \<open>\<open>ReadInt32LE\<close> copies the bytes into an integer of the (little-endian) host.\<close>

definition ReadInt32LE :: "byte list \<Rightarrow> u32 res" where
  "ReadInt32LE c = bindR (byte_at c 0) (\<lambda>c0. bindR (byte_at c 1) (\<lambda>c1. bindR (byte_at c 2) (\<lambda>c2.
     bindR (byte_at c 3) (\<lambda>c3.
     Inr (push_bit 24 (ucast c3) OR push_bit 16 (ucast c2) OR push_bit 8 (ucast c1) OR ucast c0)))))"

section \<open>RtmpMuxUtil: writers\<close>

definition WriteInt8 :: "byte \<Rightarrow> byte list" where
  "WriteInt8 nVal = [nVal]"

definition WriteInt16 :: "u16 \<Rightarrow> byte list" where
  "WriteInt16 nVal = [ucast (drop_bit 8 nVal), ucast nVal]"

definition WriteInt24 :: "u32 \<Rightarrow> byte list" where
  "WriteInt24 nVal = [ucast (drop_bit 16 nVal), ucast (drop_bit 8 nVal), ucast nVal]"

definition WriteInt32 :: "u32 \<Rightarrow> byte list" where
  "WriteInt32 nVal =
     [ucast (drop_bit 24 nVal), ucast (drop_bit 16 nVal), ucast (drop_bit 8 nVal), ucast nVal]"

definition WriteInt32LE :: "u32 \<Rightarrow> byte list" where
  "WriteInt32LE nVal =
     [ucast nVal, ucast (drop_bit 8 nVal), ucast (drop_bit 16 nVal), ucast (drop_bit 24 nVal)]"

lemma length_writers [simp]:
  "length (WriteInt8 b) = 1" "length (WriteInt16 h) = 2" "length (WriteInt24 w) = 3"
  "length (WriteInt32 w) = 4" "length (WriteInt32LE w) = 4"
  by (simp_all add: WriteInt8_def WriteInt16_def WriteInt24_def WriteInt32_def WriteInt32LE_def)

section \<open>Joining the bytes of a word\<close>

lemma join_16 [byte_simps]:
  "push_bit 8 (ucast (ucast (drop_bit 8 w) :: byte)) OR ucast (ucast w :: byte) = (w :: u16)"
  (is "?l = w")
proof (rule bit_word_eqI)
  fix n assume "n < LENGTH(16)"
  then consider "n < 8" | "8 \<le> n" "n < 16" by force
  then show "bit ?l n = bit w n"
    by cases (auto simp: bit_simps)
qed

lemma join_32 [byte_simps]:
  "push_bit 24 (ucast (ucast (drop_bit 24 w) :: byte)) OR
   push_bit 16 (ucast (ucast (drop_bit 16 w) :: byte)) OR
   push_bit 8 (ucast (ucast (drop_bit 8 w) :: byte)) OR ucast (ucast w :: byte) = (w :: u32)"
  (is "?l = w")
proof (rule bit_word_eqI)
  fix n assume "n < LENGTH(32)"
  then consider "n < 8" | "8 \<le> n" "n < 16" | "16 \<le> n" "n < 24" | "24 \<le> n" "n < 32" by force
  then show "bit ?l n = bit w n"
    by cases (auto simp: bit_simps)
qed

text \<open>Three bytes carry the low 24 bits of the word.\<close>

lemma join_24 [byte_simps]:
  "push_bit 16 (ucast (ucast (drop_bit 16 w) :: byte)) OR
   push_bit 8 (ucast (ucast (drop_bit 8 w) :: byte)) OR ucast (ucast w :: byte)
     = take_bit 24 (w :: u32)"
  (is "?l = ?r")
proof (rule bit_word_eqI)
  fix n assume "n < LENGTH(32)"
  then consider "n < 8" | "8 \<le> n" "n < 16" | "16 \<le> n" "n < 24" | "24 \<le> n" "n < 32" by force
  then show "bit ?l n = bit ?r n"
    by cases (auto simp: bit_simps)
qed

section \<open>Each reader undoes its writer\<close>

lemmas writer_defs =
  WriteInt8_def WriteInt16_def WriteInt24_def WriteInt32_def WriteInt32LE_def

lemmas reader_defs =
  ReadInt8_def ReadInt16_def ReadInt24_def ReadInt32_def ReadInt32LE_def

lemma ReadInt16_WriteInt16 [byte_simps]: "ReadInt16 (WriteInt16 w @ rest) = Inr w"
  by (simp add: writer_defs reader_defs byte_simps)

lemma ReadInt24_WriteInt24 [byte_simps]: "ReadInt24 (WriteInt24 w @ rest) = Inr (take_bit 24 w)"
  by (simp add: writer_defs reader_defs byte_simps)

lemma ReadInt32_WriteInt32 [byte_simps]: "ReadInt32 (WriteInt32 w @ rest) = Inr w"
  by (simp add: writer_defs reader_defs join_32)

lemma ReadInt32LE_WriteInt32LE [byte_simps]: "ReadInt32LE (WriteInt32LE w @ rest) = Inr w"
  by (simp add: writer_defs reader_defs join_32)

end
