(* ===== verification/Chunk_Types.thy ===== *)
theory Chunk_Types
  imports Byte_Order
begin

text \<open>
  The data of the RTMP chunk layer: the constants of \<open>rtmp_define.h\<close> that the model uses, and
  \<^verbatim>\<open>RtmpChunkHeader\<close> and \<^verbatim>\<open>RtmpMessage\<close> of \<open>rtmp_datastructure.h\<close>, \<^verbatim>\<open>RtmpMuxMessageHeader\<close> of
  \<open>rtmp_mux_util.h\<close>.
\<close>

section \<open>Constants\<close>

abbreviation RTMP_MAX_PACKET_SIZE :: nat where "RTMP_MAX_PACKET_SIZE \<equiv> 20 * 1024 * 1024"
abbreviation RTMP_PACKET_HEADER_SIZE_MAX :: nat where "RTMP_PACKET_HEADER_SIZE_MAX \<equiv> 3 + (11 + 4)"
abbreviation RTMP_EXTEND_TIMESTAMP :: "'a::len word" where "RTMP_EXTEND_TIMESTAMP \<equiv> 0x00ffffff"
abbreviation RTMP_EXTEND_TIMESTAMP_SIZE :: nat where "RTMP_EXTEND_TIMESTAMP_SIZE \<equiv> 4"
abbreviation RTMP_DEFAULT_CHUNK_SIZE :: nat where "RTMP_DEFAULT_CHUNK_SIZE \<equiv> 128"

section \<open>Chunk headers\<close>

datatype chunk_type = T0 | T1 | T2 | T3

text \<open>The code of a chunk type: the two top bits of the first byte of a chunk.\<close>

fun chunk_type_code :: "chunk_type \<Rightarrow> byte" where
  "chunk_type_code T0 = 0x00"
| "chunk_type_code T1 = 0x40"
| "chunk_type_code T2 = 0x80"
| "chunk_type_code T3 = 0xC0"

text \<open>\<open>RtmpChunkMsgSize\<close>: the message header of each type.\<close>

fun chunk_msg_size :: "chunk_type \<Rightarrow> nat" where
  "chunk_msg_size T0 = 11"
| "chunk_msg_size T1 = 7"
| "chunk_msg_size T2 = 3"
| "chunk_msg_size T3 = 0"

text \<open>\<open>RtmpChunkHeader::completed\<close>: the values accumulated over the chunks of one stream.\<close>

record completed_header =
  completed_timestamp_delta :: u32
  completed_timestamp :: int
  completed_length :: u32
  completed_type_id :: byte
  completed_stream_id :: u32

text \<open>
  \<open>RtmpChunkHeader::header\<close> is a packed union whose members \<open>type_0\<close>, \<open>type_1\<close> and \<open>type_2\<close> lay
  their common prefix over the same bits: the 24-bit timestamp (called \<open>timestamp_delta\<close> in
  \<open>type_1\<close> and \<open>type_2\<close>), the 24-bit length and the type id.
\<close>

record message_header =
  hdr_timestamp :: u24
  hdr_length :: u24
  hdr_type_id :: byte
  hdr_stream_id :: u32

text \<open>
  \<open>expected_type_3_header\<close> is a \<open>uint32_t\<close> that the code fills and compares bytewise: four bytes
  here. The sizes set from small constants are natural numbers; the payload sizes, whose
  arithmetic can wrap, are words.
\<close>

record chunk_header =
  is_extended :: bool
  header_size :: nat
  basic_header_size :: nat
  message_header_size :: nat
  payload_size :: u32
  expected_type_3_header :: "byte list"
  expected_payload_size :: u32
  format_type :: chunk_type
  stream_id :: u32
  extended_timestamp :: u32
  completed :: completed_header
  header :: message_header

definition new_chunk_header :: chunk_header where
  "new_chunk_header =
     \<lparr>is_extended = False, header_size = 0, basic_header_size = 0, message_header_size = 0,
      payload_size = 0, expected_type_3_header = [0, 0, 0, 0], expected_payload_size = 0,
      format_type = T0, stream_id = 0, extended_timestamp = 0,
      completed = \<lparr>completed_timestamp_delta = 0, completed_timestamp = 0, completed_length = 0,
                   completed_type_id = 0, completed_stream_id = 0\<rparr>,
      header = \<lparr>hdr_timestamp = 0, hdr_length = 0, hdr_type_id = 0, hdr_stream_id = 0\<rparr>\<rparr>"

definition RecalculateHeaderSize :: "chunk_header \<Rightarrow> chunk_header" where
  "RecalculateHeaderSize h =
     h\<lparr>header_size := basic_header_size h + message_header_size h + (if is_extended h then 4 else 0)\<rparr>"

section \<open>Messages\<close>

record rtmp_message =
  msg_header :: chunk_header
  msg_payload :: "byte list"

record mux_message_header =
  mux_chunk_stream_id :: u32
  mux_timestamp :: u32
  mux_type_id :: byte
  mux_stream_id :: u32
  mux_body_size :: u32

text \<open>The default constructor.\<close>

definition new_mux_message_header :: mux_message_header where
  "new_mux_message_header =
     \<lparr>mux_chunk_stream_id = 0, mux_timestamp = 0, mux_type_id = 0, mux_stream_id = 0, mux_body_size = 0\<rparr>"

end
