(* ===== verification/Mux_Util.thy ===== *)
theory Mux_Util
  imports Chunk_Types
begin

text \<open>
  \<^verbatim>\<open>RtmpMuxUtil\<close> (\<open>rtmp_mux_util.cpp\<close>): the sizes of chunk headers, the bytes of a chunk header and
  of a chunked body, and the extraction of a body from raw chunks. A function that writes at a
  pointer is modelled by the bytes it writes there, in order; the C++ function returns their
  number. \<open>chunk_blocks\<close> is the specification of a chunked body.
\<close>

unbundle bit_operations_syntax

section \<open>Header sizes\<close>

definition GetBasicHeaderSizeByRawData :: "byte \<Rightarrow> nat" where
  "GetBasicHeaderSizeByRawData d =
     (let csid = d AND 0x3f in if csid = 0 then 2 else if csid = 1 then 3 else 1)"

definition GetBasicHeaderSizeByChunkStreamID :: "u32 \<Rightarrow> nat" where
  "GetBasicHeaderSizeByChunkStreamID csid =
     (if 64 + 256 \<le> csid then 3 else if 64 \<le> csid then 2 else 1)"

text \<open>\<open>raw_data\<close> is the memory at the pointer, \<open>raw_data_size\<close> what the caller says of it.\<close>

definition GetChunkHeaderSize :: "chunk_type \<Rightarrow> nat \<Rightarrow> byte list \<Rightarrow> nat \<Rightarrow> nat res" where
  "GetChunkHeaderSize ty basic raw_data raw_data_size =
     (let hs = basic + chunk_msg_size ty
      in if raw_data_size < hs then Inr 0
         else if ty = T0 \<or> ty = T1 \<or> ty = T2
         then bindR (ReadInt24 (drop basic raw_data)) (\<lambda>ts.
                if ts = RTMP_EXTEND_TIMESTAMP
                then (if raw_data_size < hs + RTMP_EXTEND_TIMESTAMP_SIZE then Inr 0
                      else Inr (hs + RTMP_EXTEND_TIMESTAMP_SIZE))
                else Inr hs)
         else Inr hs)"

section \<open>Writing headers\<close>

definition GetChunkBasicHeaderRaw :: "chunk_type \<Rightarrow> u32 \<Rightarrow> byte list" where
  "GetChunkBasicHeaderRaw ty csid =
     (if 64 + 256 \<le> csid then
        [1 OR (chunk_type_code ty AND 0xc0), ucast (csid - 64), ucast (drop_bit 8 (csid - 64))]
      else if 64 \<le> csid then
        [0 OR (chunk_type_code ty AND 0xc0), ucast (csid - 64)]
      else
        [ucast (csid AND 0x3f) OR (chunk_type_code ty AND 0xc0)])"

text \<open>The timestamp field of a header, and the extended timestamp that follows the header.\<close>

definition timestamp_field :: "bool \<Rightarrow> u24 \<Rightarrow> byte list" where
  "timestamp_field ext ts = WriteInt24 (if ext then RTMP_EXTEND_TIMESTAMP else ucast ts)"

definition extended_field :: "bool \<Rightarrow> u24 \<Rightarrow> byte list" where
  "extended_field ext ts = (if ext then WriteInt32 (ucast ts) else [])"

definition GetChunkHeaderRaw :: "chunk_header \<Rightarrow> bool \<Rightarrow> byte list" where
  "GetChunkHeaderRaw ch extend_type =
     (let h = header ch
      in GetChunkBasicHeaderRaw (format_type ch) (stream_id ch) @
         (case format_type ch of
            T0 \<Rightarrow> timestamp_field extend_type (hdr_timestamp h) @ WriteInt24 (ucast (hdr_length h)) @
                  [hdr_type_id h] @ WriteInt32LE (hdr_stream_id h) @
                  extended_field extend_type (hdr_timestamp h)
          | T1 \<Rightarrow> timestamp_field extend_type (hdr_timestamp h) @ WriteInt24 (ucast (hdr_length h)) @
                  [hdr_type_id h] @ extended_field extend_type (hdr_timestamp h)
          | T2 \<Rightarrow> timestamp_field extend_type (hdr_timestamp h) @
                  extended_field extend_type (hdr_timestamp h)
          | T3 \<Rightarrow> []))"

section \<open>Writing a chunked body\<close>

definition GetChunkDataRawSize :: "nat \<Rightarrow> u32 \<Rightarrow> nat \<Rightarrow> bool \<Rightarrow> nat" where
  "GetChunkDataRawSize chunk_size csid chunk_data_size extend_type =
     (if chunk_size = 0 \<or> chunk_data_size = 0 then 0
      else let t3 = GetBasicHeaderSizeByChunkStreamID csid +
                      (if extend_type then RTMP_EXTEND_TIMESTAMP_SIZE else 0);
               block_count = (chunk_data_size - 1) div chunk_size
           in chunk_data_size + block_count * t3)"

text \<open>The loop over \<open>nIndex\<close>; \<open>rd\<close> is \<open>read_data_size\<close>.\<close>

function GetChunkDataRaw_loop ::
    "nat \<Rightarrow> byte list \<Rightarrow> byte list \<Rightarrow> nat \<Rightarrow> nat \<Rightarrow> nat \<Rightarrow> byte list" where
  "GetChunkDataRaw_loop chunk_size t3 chunk_data block_count nIndex rd =
     (if nIndex < block_count then
        let size = (if chunk_size < length chunk_data - rd then chunk_size
                    else length chunk_data - rd)
        in (if 0 < nIndex then t3 else []) @ take size (drop rd chunk_data) @
           GetChunkDataRaw_loop chunk_size t3 chunk_data block_count (Suc nIndex) (rd + size)
      else [])"
  by pat_completeness auto
termination
  by (relation "measure (\<lambda>(_, _, _, n, i, _). n - i)") auto

declare GetChunkDataRaw_loop.simps [simp del]

definition GetChunkDataRaw :: "nat \<Rightarrow> u32 \<Rightarrow> byte list \<Rightarrow> bool \<Rightarrow> u32 \<Rightarrow> byte list" where
  "GetChunkDataRaw chunk_size csid chunk_data extend_type time =
     (if chunk_size = 0 \<or> chunk_data = [] then []
      else GetChunkDataRaw_loop chunk_size
             (GetChunkBasicHeaderRaw T3 csid @ (if extend_type then WriteInt32 time else []))
             chunk_data ((length chunk_data - 1) div chunk_size + 1) 0 0)"

section \<open>Reading a chunked body\<close>

text \<open>
  \<open>GetChunkData\<close> copies the blocks of \<open>raw\<close> to \<open>chunk_data\<close> and returns the number of raw bytes
  read, 0 on failure; the model returns that number with the bytes copied so far.
\<close>

function GetChunkData_loop ::
    "nat \<Rightarrow> nat \<Rightarrow> nat \<Rightarrow> byte list \<Rightarrow> nat \<Rightarrow> nat \<Rightarrow> nat \<Rightarrow> byte list \<Rightarrow> (nat \<times> byte list) res" where
  "GetChunkData_loop chunk_size t3_size need raw block_count nIndex rd acc =
     (if nIndex < block_count then
        bindR (if 0 < nIndex
               then bindR (byte_at raw rd) (\<lambda>b.
                      Inr (GetBasicHeaderSizeByRawData b = 1, rd + t3_size))
               else Inr (True, rd)) (\<lambda>(is_type_3, rd').
          if \<not> is_type_3 then Inr (0, acc)
          else let size = (if chunk_size < need - rd' then chunk_size else need - rd')
               in bindR (read_bytes raw rd' size) (\<lambda>block.
                    GetChunkData_loop chunk_size t3_size need raw block_count (Suc nIndex)
                      (rd' + size) (acc @ block)))
      else Inr (rd, acc))"
  by pat_completeness auto
termination
  by (relation "measure (\<lambda>(_, _, _, _, n, i, _, _). n - i)") auto

declare GetChunkData_loop.simps [simp del]

definition GetChunkData :: "nat \<Rightarrow> byte list \<Rightarrow> nat \<Rightarrow> nat \<Rightarrow> bool \<Rightarrow> (nat \<times> byte list) res" where
  "GetChunkData chunk_size raw_data raw_data_size chunk_data_size extend_type =
     (let t3_size = 1 + (if extend_type then RTMP_EXTEND_TIMESTAMP_SIZE else 0)
      in if chunk_size = 0 \<or> raw_data_size = 0 \<or> chunk_data_size = 0 then Inr (0, [])
         else let block_count = (chunk_data_size - 1) div chunk_size + 1;
                  need = chunk_data_size + (block_count - 1) * t3_size
              in if raw_data_size < need then Inr (0, [])
                 else GetChunkData_loop chunk_size t3_size need raw_data block_count 0 0 [])"

section \<open>Specification of a chunked body\<close>

text \<open>Blocks of \<open>cs\<close> bytes (the last one what is left), with \<open>sep\<close> between two blocks.\<close>

function chunk_blocks :: "nat \<Rightarrow> byte list \<Rightarrow> byte list \<Rightarrow> byte list" where
  "chunk_blocks cs sep d =
     (if cs = 0 \<or> length d \<le> cs then d
      else take cs d @ sep @ chunk_blocks cs sep (drop cs d))"
  by pat_completeness auto
termination
  by (relation "measure (\<lambda>(_, _, d). length d)") auto

declare chunk_blocks.simps [simp del]

lemma chunk_blocks_short [simp]: "length d \<le> cs \<Longrightarrow> chunk_blocks cs sep d = d"
  by (subst chunk_blocks.simps) simp

lemma chunk_blocks_long:
  "0 < cs \<Longrightarrow> cs < length d \<Longrightarrow> chunk_blocks cs sep d = take cs d @ sep @ chunk_blocks cs sep (drop cs d)"
  by (subst chunk_blocks.simps) simp

lemma blocks_count_step:
  "0 < cs \<Longrightarrow> cs < n \<Longrightarrow> (n - 1) div cs = Suc ((n - cs - 1) div cs)" for n cs :: nat
proof -
  assume "0 < cs" "cs < n"
  moreover from this have "n - 1 = cs + (n - cs - 1)" by simp
  ultimately show ?thesis by (metis div_add_self1 less_not_refl plus_1_eq_Suc add.commute)
qed

lemma blocks_count_last:
  "0 < n \<Longrightarrow> n \<le> cs \<Longrightarrow> (n - 1) div cs = 0" for n cs :: nat
  by (simp add: div_eq_0_iff)

lemma length_chunk_blocks:
  "0 < cs \<Longrightarrow> length (chunk_blocks cs sep d) = length d + (length d - 1) div cs * length sep"
proof (induction cs sep d rule: chunk_blocks.induct)
  case (1 cs sep d)
  show ?case
  proof (cases "length d \<le> cs")
    case True
    with "1.prems" have "(length d - 1) div cs = 0"
      using blocks_count_last [of "length d" cs] by (cases d) simp_all
    with True show ?thesis by simp
  next
    case False
    with 1 blocks_count_step [of cs "length d"] show ?thesis
      by (simp add: chunk_blocks_long)
  qed
qed

section \<open>The writers meet the specification\<close>

lemma length_GetChunkBasicHeaderRaw [simp]:
  "length (GetChunkBasicHeaderRaw ty csid) = GetBasicHeaderSizeByChunkStreamID csid"
  by (simp add: GetChunkBasicHeaderRaw_def GetBasicHeaderSizeByChunkStreamID_def)

lemma GetBasicHeaderSizeByChunkStreamID_bounds:
  "0 < GetBasicHeaderSizeByChunkStreamID csid" "GetBasicHeaderSizeByChunkStreamID csid \<le> 3"
  by (simp_all add: GetBasicHeaderSizeByChunkStreamID_def)

lemma length_timestamp_field [simp]: "length (timestamp_field ext ts) = 3"
  by (simp add: timestamp_field_def)

lemma length_extended_field [simp]: "length (extended_field ext ts) = (if ext then 4 else 0)"
  by (simp add: extended_field_def)

lemma length_GetChunkHeaderRaw:
  "length (GetChunkHeaderRaw ch ext) =
     GetBasicHeaderSizeByChunkStreamID (stream_id ch) + chunk_msg_size (format_type ch) +
     (if ext \<and> format_type ch \<noteq> T3 then 4 else 0)"
  by (cases "format_type ch") (simp_all add: GetChunkHeaderRaw_def Let_def)

lemma GetChunkDataRaw_loop_blocks:
  assumes "0 < cs" "rd < length d" "bc = nIndex + (length d - rd - 1) div cs + 1"
  shows "GetChunkDataRaw_loop cs t3 d bc nIndex rd =
    (if 0 < nIndex then t3 else []) @ chunk_blocks cs t3 (drop rd d)"
  using assms
proof (induction "length d - rd" arbitrary: nIndex rd rule: less_induct)
  case less
  let ?n = "length d - rd"
  show ?case
  proof (cases "cs < ?n")
    case True
    with less.prems have "GetChunkDataRaw_loop cs t3 d bc (Suc nIndex) (rd + cs) =
        t3 @ chunk_blocks cs t3 (drop (rd + cs) d)"
      using less.hyps [of "rd + cs" "Suc nIndex"] blocks_count_step [of cs ?n] by simp
    with True less.prems show ?thesis
      by (subst GetChunkDataRaw_loop.simps) (simp add: chunk_blocks_long add.commute)
  next
    case False
    with less.prems have "bc = Suc nIndex"
      using blocks_count_last [of ?n cs] by simp
    with False less.prems show ?thesis
      by (subst GetChunkDataRaw_loop.simps, subst GetChunkDataRaw_loop.simps) simp
  qed
qed

text \<open>The separator of the blocks: a type 3 header, with the extended timestamp if there is one.\<close>

definition type_3_separator :: "u32 \<Rightarrow> bool \<Rightarrow> u32 \<Rightarrow> byte list" where
  "type_3_separator csid ext time = GetChunkBasicHeaderRaw T3 csid @ (if ext then WriteInt32 time else [])"

lemma length_type_3_separator:
  "length (type_3_separator csid ext time) =
     GetBasicHeaderSizeByChunkStreamID csid + (if ext then 4 else 0)"
  by (simp add: type_3_separator_def)

lemma GetChunkDataRaw_blocks:
  "0 < cs \<Longrightarrow> GetChunkDataRaw cs csid d ext time = chunk_blocks cs (type_3_separator csid ext time) d"
  by (auto simp: GetChunkDataRaw_def GetChunkDataRaw_loop_blocks type_3_separator_def)

lemma length_GetChunkDataRaw:
  "0 < cs \<Longrightarrow> length (GetChunkDataRaw cs csid d ext time) = GetChunkDataRawSize cs csid (length d) ext"
  by (auto simp: GetChunkDataRaw_blocks length_chunk_blocks GetChunkDataRawSize_def
      length_type_3_separator Let_def)

section \<open>Reading undoes writing\<close>

lemma GetChunkData_loop_blocks:
  assumes "0 < cs" "d \<noteq> []" "bc = nIndex + (length d - 1) div cs + 1"
    and "drop rd raw = (if 0 < nIndex then sep else []) @ chunk_blocks cs sep d @ rest"
    and "need = rd + length ((if 0 < nIndex then sep else []) @ chunk_blocks cs sep d)"
    and "rd \<le> length raw" "length sep = t3" "sep = b # sep'" "GetBasicHeaderSizeByRawData b = 1"
  shows "GetChunkData_loop cs t3 need raw bc nIndex rd acc = Inr (need, acc @ d)"
  using assms
proof (induction "length d" arbitrary: d nIndex rd acc rule: less_induct)
  case less
  define t3h where "t3h = (if 0 < nIndex then sep else [])"
  define rd' where "rd' = rd + length t3h"
  have raw: "drop rd raw = t3h @ chunk_blocks cs sep d @ rest"
    using less.prems(4) by (simp add: t3h_def)
  have raw': "drop rd' raw = chunk_blocks cs sep d @ rest"
    using drop_drop_append [OF raw] by (simp add: rd'_def)
  have le: "rd' + length (chunk_blocks cs sep d) \<le> length raw" "rd' \<le> length raw"
    using drop_append_le [OF raw] drop_append_le [OF raw'] less.prems(6) by (auto simp: rd'_def)
  have need: "need = rd' + length (chunk_blocks cs sep d)"
    using less.prems(5) by (simp add: rd'_def t3h_def)
  have sep: "(if 0 < nIndex
      then bindR (byte_at raw rd) (\<lambda>b. Inr (GetBasicHeaderSizeByRawData b = 1, rd + t3))
      else Inr (True, rd)) = Inr (True, rd')"
    using less.prems(7-9) raw by (auto simp: rd'_def t3h_def byte_at_drop)
  show ?case
  proof (cases "cs < length d")
    case True
    have split: "drop rd' raw = take cs d @ sep @ chunk_blocks cs sep (drop cs d) @ rest"
      using raw' True less.prems(1) by (simp add: chunk_blocks_long)
    have blk: "read_bytes raw rd' cs = Inr (take cs d)"
      using read_bytes_drop [OF split] le True by simp
    have nxt: "drop (rd' + cs) raw = sep @ chunk_blocks cs sep (drop cs d) @ rest"
      using drop_drop_append [OF split] True by simp
    have "GetChunkData_loop cs t3 need raw bc (Suc nIndex) (rd' + cs) (acc @ take cs d) =
        Inr (need, (acc @ take cs d) @ drop cs d)"
    proof (rule less.hyps)
      show "rd' + cs \<le> length raw"
        using drop_append_le [OF split] le True by simp
      show "need = rd' + cs + length ((if 0 < Suc nIndex then sep else []) @ chunk_blocks cs sep (drop cs d))"
        using need True less.prems(1) by (simp add: chunk_blocks_long)
      show "bc = Suc nIndex + (length (drop cs d) - 1) div cs + 1"
        using less.prems(1,3) True blocks_count_step [of cs "length d"] by simp
    qed (use less.prems True nxt in auto)
    moreover have "cs < need - rd'"
      using need True less.prems(1,8) by (simp add: chunk_blocks_long)
    moreover have "nIndex < bc" using less.prems(3) by simp
    ultimately show ?thesis
      by (subst GetChunkData_loop.simps) (simp add: sep blk Let_def)
  next
    case False
    then have bc: "bc = Suc nIndex"
      using less.prems(1-3) blocks_count_last [of "length d" cs] by (cases d) simp_all
    have blk: "read_bytes raw rd' (length d) = Inr d"
      using read_bytes_drop [of rd' raw d rest] raw' le False by simp
    from False need have "\<not> cs < need - rd'" "need - rd' = length d" by simp_all
    then show ?thesis
      using need bc False
      by (subst GetChunkData_loop.simps, subst GetChunkData_loop.simps) (simp add: sep blk Let_def)
  qed
qed

text \<open>The first byte of a type 3 header tells the size of its basic header.\<close>

lemma type_3_first_byte:
  assumes "2 \<le> csid" "csid < 64"
  shows "GetChunkBasicHeaderRaw T3 csid = [ucast csid OR 0xc0]"
    and "GetBasicHeaderSizeByRawData (ucast csid OR 0xc0) = 1"
proof -
  have n: "2 \<le> unat csid" "unat csid < 64"
    using assms by (auto simp: word_le_nat_alt word_less_nat_alt)
  have t: "take_bit 6 csid = csid"
    using n by (simp add: word_unat_eq_iff unat_take_bit)
  show "GetChunkBasicHeaderRaw T3 csid = [ucast csid OR 0xc0]"
    using n t by (simp add: GetChunkBasicHeaderRaw_def and_3f word_le_nat_alt)
  have "take_bit 6 (ucast csid OR 0xc0 :: byte) = ucast csid"
    using n by (simp add: take_bit_or word_unat_eq_iff unat_take_bit unat_ucast_mod)
  moreover have "(ucast csid :: byte) \<noteq> 0 \<and> (ucast csid :: byte) \<noteq> 1"
    using n by (auto simp: word_unat_eq_iff unat_ucast_mod)
  ultimately show "GetBasicHeaderSizeByRawData (ucast csid OR 0xc0) = 1"
    by (simp add: GetBasicHeaderSizeByRawData_def and_3f Let_def)
qed

text \<open>Chunk stream ids with a one-byte basic header: \<open>GetChunkData\<close> reads back what was written.\<close>

lemma GetChunkData_GetChunkDataRaw:
  assumes "0 < cs" "d \<noteq> []" "2 \<le> csid" "csid < 64"
  shows "GetChunkData cs (GetChunkDataRaw cs csid d ext time @ rest)
      (length (GetChunkDataRaw cs csid d ext time) + n) (length d) ext =
    Inr (length (GetChunkDataRaw cs csid d ext time), d)"
proof -
  let ?sep = "type_3_separator csid ext time"
  let ?raw = "chunk_blocks cs ?sep d"
  note first = type_3_first_byte [OF assms(3,4)]
  have len: "length ?sep = 1 + (if ext then 4 else 0)"
    using arg_cong [OF first(1), of length] by (simp add: length_type_3_separator)
  have "GetChunkData_loop cs (1 + (if ext then 4 else 0)) (length ?raw) (?raw @ rest)
      ((length d - 1) div cs + 1) 0 0 [] = Inr (length ?raw, [] @ d)"
    by (rule GetChunkData_loop_blocks [where sep = ?sep and rest = rest])
      (use assms(1,2) len first in \<open>auto simp: type_3_separator_def\<close>)
  moreover have "length ?raw = length d + (length d - 1) div cs * length ?sep"
    using assms(1) by (rule length_chunk_blocks)
  ultimately show ?thesis
    using assms(1,2) by (simp add: GetChunkData_def GetChunkDataRaw_blocks Let_def len)
qed

end
