(* ===== verification/Export_Chunk.thy ===== *)
theory Export_Chunk
  imports Mux_Util
begin

text \<open>
  \<^verbatim>\<open>RtmpExportChunk\<close> (\<open>rtmp_export_chunk.h\<close>, \<open>rtmp_export_chunk.cpp\<close>): a message header and its body
  in, the chunks of the message out. The state is the last message header sent on every chunk
  stream. \<open>GetStream\<close> hands out the entry of the map itself, so that an update of the entry is an
  update of the map; the message header an entry keeps is the caller's object, which the callers
  make anew for each message, so the model keeps its value. A null \<open>data\<close> and an empty one behave
  alike. The lemmas: the output is a chunk header followed by the chunked body, and it fits the
  buffer allocated for it.
\<close>

unbundle bit_operations_syntax

section \<open>State\<close>

record export_stream =
  es_message_header :: mux_message_header
  es_timestamp_delta :: u32

definition new_export_stream :: export_stream where
  "new_export_stream = \<lparr>es_message_header = new_mux_message_header, es_timestamp_delta = 0\<rparr>"

record export_chunk =
  stream_map :: "u32 \<Rightarrow> export_stream option"
  compress_header :: bool
  export_chunk_size :: nat

definition new_export_chunk :: "bool \<Rightarrow> nat \<Rightarrow> export_chunk" where
  "new_export_chunk compress chunk_size =
     \<lparr>stream_map = Map.empty, compress_header = compress, export_chunk_size = chunk_size\<rparr>"

section \<open>Operations\<close>

definition export_Destroy :: "export_chunk \<Rightarrow> export_chunk" where
  "export_Destroy s = s\<lparr>stream_map := Map.empty\<rparr>"

definition GetStream :: "export_chunk \<Rightarrow> u32 \<Rightarrow> export_stream \<times> export_chunk" where
  "GetStream s csid =
     (case stream_map s csid of
        Some stream \<Rightarrow> (stream, s)
      | None \<Rightarrow> (new_export_stream, s\<lparr>stream_map := (stream_map s)(csid \<mapsto> new_export_stream)\<rparr>))"

text \<open>
  The timestamp fields are 24 bits wide and are compared after the assignment to them.
\<close>

definition GetChunkHeader :: "bool \<Rightarrow> export_stream \<Rightarrow> mux_message_header \<Rightarrow> chunk_header" where
  "GetChunkHeader compress stream mh =
     (let last = es_message_header stream;
          same = compress \<and> mux_chunk_stream_id last = mux_chunk_stream_id mh;
          extend = (\<lambda>h. if RTMP_EXTEND_TIMESTAMP \<le> hdr_timestamp (header h) then h\<lparr>is_extended := True\<rparr> else h);
          h0 = new_chunk_header\<lparr>stream_id := mux_chunk_stream_id mh\<rparr>
      in if same \<and> mux_body_size last = mux_body_size mh \<and> mux_stream_id last = mux_stream_id mh \<and>
            mux_type_id last = mux_type_id mh
         then extend (h0\<lparr>format_type := T2,
                header := (header h0)\<lparr>hdr_timestamp := ucast (mux_timestamp mh - mux_timestamp last)\<rparr>\<rparr>)
         else if same \<and> mux_stream_id last = mux_stream_id mh
         then extend (h0\<lparr>format_type := T1,
                header := (header h0)\<lparr>hdr_timestamp := ucast (mux_timestamp mh - mux_timestamp last),
                  hdr_length := ucast (mux_body_size mh), hdr_type_id := mux_type_id mh\<rparr>\<rparr>)
         else extend (h0\<lparr>format_type := T0,
                header := \<lparr>hdr_timestamp = ucast (mux_timestamp mh), hdr_length = ucast (mux_body_size mh),
                  hdr_type_id = mux_type_id mh, hdr_stream_id = mux_stream_id mh\<rparr>\<rparr>))"

text \<open>
  \<open>None\<close> is the null pointer returned for a bad chunk stream id. The bytes are written into a buffer
  of \<open>buffer_size\<close> bytes; more bytes than that are a fault.
\<close>

definition ExportStreamData ::
    "export_chunk \<Rightarrow> mux_message_header option \<Rightarrow> byte list \<Rightarrow> (byte list option \<times> export_chunk) res" where
  "ExportStreamData s message_header data =
     (case message_header of
        None \<Rightarrow> Inr (None, s)
      | Some mh \<Rightarrow>
          if mux_chunk_stream_id mh < 2 then Inr (None, s)
          else let csid = mux_chunk_stream_id mh;
                   (stream, s1) = GetStream s csid;
                   ch = GetChunkHeader (compress_header s) stream mh;
                   buffer_size = RTMP_PACKET_HEADER_SIZE_MAX +
                     GetChunkDataRawSize (export_chunk_size s) csid (unat (mux_body_size mh)) (is_extended ch);
                   type3_time = (case format_type ch of T3 \<Rightarrow> 0 | _ \<Rightarrow> ucast (hdr_timestamp (header ch)));
                   export_data = GetChunkHeaderRaw ch (is_extended ch) @
                     GetChunkDataRaw (export_chunk_size s) csid data (is_extended ch) type3_time
               in if buffer_size < length export_data then Inl Over_Write
                  else Inr (Some export_data,
                    s1\<lparr>stream_map := (stream_map s1)(csid \<mapsto>
                      \<lparr>es_message_header = mh,
                       es_timestamp_delta = mux_timestamp mh - mux_timestamp (es_message_header stream)\<rparr>)\<rparr>))"

section \<open>The output\<close>

lemma GetChunkHeader_fields [simp]:
  "stream_id (GetChunkHeader c st mh) = mux_chunk_stream_id mh"
  "format_type (GetChunkHeader c st mh) \<noteq> T3"
  by (simp_all add: GetChunkHeader_def Let_def)

lemma max_u24: "(0xFFFFFF :: u24) \<le> x \<longleftrightarrow> x = 0xFFFFFF"
  using unat_less_power [of x] by (auto simp: word_le_nat_alt word_unat_eq_iff)

text \<open>The header is extended exactly when its field has no other value left.\<close>

lemma GetChunkHeader_extended:
  "is_extended (GetChunkHeader c st mh) \<longleftrightarrow>
     hdr_timestamp (header (GetChunkHeader c st mh)) = RTMP_EXTEND_TIMESTAMP"
  by (simp add: GetChunkHeader_def Let_def max_u24 new_chunk_header_def)

definition export_stream_of :: "export_chunk \<Rightarrow> u32 \<Rightarrow> export_stream" where
  "export_stream_of s csid = (case stream_map s csid of Some st \<Rightarrow> st | None \<Rightarrow> new_export_stream)"

lemma GetStream_eq:
  "fst (GetStream s csid) = export_stream_of s csid"
  "(stream_map (snd (GetStream s csid)))(csid \<mapsto> x) = (stream_map s)(csid \<mapsto> x)"
  "compress_header (snd (GetStream s csid)) = compress_header s"
  "export_chunk_size (snd (GetStream s csid)) = export_chunk_size s"
  by (auto simp: GetStream_def export_stream_of_def split: option.splits)

text \<open>The bytes of a message: its chunk header and its body in blocks.\<close>

definition exported_header :: "export_chunk \<Rightarrow> mux_message_header \<Rightarrow> chunk_header" where
  "exported_header s mh =
     GetChunkHeader (compress_header s) (export_stream_of s (mux_chunk_stream_id mh)) mh"

definition exported_bytes :: "export_chunk \<Rightarrow> mux_message_header \<Rightarrow> byte list \<Rightarrow> byte list" where
  "exported_bytes s mh data =
     (let ch = exported_header s mh in
        GetChunkHeaderRaw ch (is_extended ch) @
        chunk_blocks (export_chunk_size s)
          (type_3_separator (mux_chunk_stream_id mh) (is_extended ch) (ucast (hdr_timestamp (header ch)))) data)"

definition exported_state :: "export_chunk \<Rightarrow> mux_message_header \<Rightarrow> export_chunk" where
  "exported_state s mh =
     s\<lparr>stream_map := (stream_map s)(mux_chunk_stream_id mh \<mapsto>
        \<lparr>es_message_header = mh,
         es_timestamp_delta = mux_timestamp mh -
           mux_timestamp (es_message_header (export_stream_of s (mux_chunk_stream_id mh)))\<rparr>)\<rparr>"

lemma exported_header_raw_bound:
  "length (GetChunkHeaderRaw ch ext) \<le> RTMP_PACKET_HEADER_SIZE_MAX"
  using GetBasicHeaderSizeByChunkStreamID_bounds(2) [of "stream_id ch"]
  by (cases "format_type ch") (simp_all add: length_GetChunkHeaderRaw)

text \<open>The room of the buffer, and the bytes written into it.\<close>

definition export_room :: "export_chunk \<Rightarrow> mux_message_header \<Rightarrow> nat" where
  "export_room s mh = RTMP_PACKET_HEADER_SIZE_MAX +
     GetChunkDataRawSize (export_chunk_size s) (mux_chunk_stream_id mh) (unat (mux_body_size mh))
       (is_extended (exported_header s mh))"

lemma length_exported_bytes:
  assumes "0 < export_chunk_size s"
  shows "length (exported_bytes s mh data) =
    length (GetChunkHeaderRaw (exported_header s mh) (is_extended (exported_header s mh))) +
    GetChunkDataRawSize (export_chunk_size s) (mux_chunk_stream_id mh) (length data)
      (is_extended (exported_header s mh))"
  using assms length_GetChunkDataRaw [OF assms, of "mux_chunk_stream_id mh" data]
  by (simp add: exported_bytes_def Let_def GetChunkDataRaw_blocks)

lemma ExportStreamData_cases:
  assumes "2 \<le> mux_chunk_stream_id mh" "0 < export_chunk_size s"
  shows "ExportStreamData s (Some mh) data =
    (if export_room s mh < length (exported_bytes s mh data) then Inl Over_Write
     else Inr (Some (exported_bytes s mh data), exported_state s mh))"
proof -
  obtain st s1 where g: "GetStream s (mux_chunk_stream_id mh) = (st, s1)" by force
  note eq = GetStream_eq [of s "mux_chunk_stream_id mh", unfolded g, simplified]
  let ?ch = "exported_header s mh" and ?t = "ucast (hdr_timestamp (header (exported_header s mh))) :: u32"
  have raw: "GetChunkHeaderRaw ?ch (is_extended ?ch) @
      GetChunkDataRaw (export_chunk_size s) (mux_chunk_stream_id mh) data (is_extended ?ch) ?t =
      exported_bytes s mh data"
    using assms(2) by (simp add: exported_bytes_def GetChunkDataRaw_blocks Let_def)
  have t3: "(case format_type ?ch of T3 \<Rightarrow> 0 | _ \<Rightarrow> ?t) = ?t"
    by (cases "format_type ?ch") (simp_all add: exported_header_def)
  have s1: "s1\<lparr>stream_map := (stream_map s)(mux_chunk_stream_id mh \<mapsto> x)\<rparr> =
      s\<lparr>stream_map := (stream_map s)(mux_chunk_stream_id mh \<mapsto> x)\<rparr>" for x
    using eq by simp
  have "\<not> mux_chunk_stream_id mh < 2" using assms(1) by (simp add: not_less)
  then show ?thesis
    by (simp only: ExportStreamData_def g Let_def eq s1 exported_state_def option.case prod.case if_False
        exported_header_def [symmetric] raw t3 export_room_def)
qed

text \<open>With the true body size in the header, the buffer is large enough.\<close>

lemma ExportStreamData_eq:
  assumes "2 \<le> mux_chunk_stream_id mh" "0 < export_chunk_size s"
    and "unat (mux_body_size mh) = length data"
  shows "ExportStreamData s (Some mh) data = Inr (Some (exported_bytes s mh data), exported_state s mh)"
  using exported_header_raw_bound [of "exported_header s mh" "is_extended (exported_header s mh)"] assms
  by (simp add: ExportStreamData_cases length_exported_bytes export_room_def)

end
