(* ===== verification/Byte_Stream.thy ===== *)
theory Byte_Stream
  imports Byte_Order
begin

text \<open>
  The read side of \<^verbatim>\<open>ov::ByteStream\<close> (\<open>core/byte_stream.h\<close>, \<open>core/byte_stream.cpp\<close>) over the bytes
  of an \<^verbatim>\<open>ov::Data\<close>: an offset into the data, moved by the reads. \<open>Read<T>()\<close> returns a null pointer
  when less than one \<open>T\<close> is left, and the numeric readers dereference it without a test; both are
  faults of the model. The locale \<open>byte_source\<close> is what a parser needs of a stream.
\<close>

unbundle bit_operations_syntax

section \<open>State and operations\<close>

record byte_stream =
  bs_data :: "byte list"
  bs_offset :: nat

definition stream_of :: "byte list \<Rightarrow> byte_stream" where
  "stream_of d = \<lparr>bs_data = d, bs_offset = 0\<rparr>"

text \<open>\<open>Remained\<close> subtracts in \<open>size_t\<close>, so an offset beyond the data wraps.\<close>

definition Remained :: "byte_stream \<Rightarrow> nat" where
  "Remained s =
     (if bs_offset s \<le> length (bs_data s) then length (bs_data s) - bs_offset s
      else 2 ^ 64 - (bs_offset s - length (bs_data s)))"

definition IsRemained :: "byte_stream \<Rightarrow> nat \<Rightarrow> bool" where
  "IsRemained s bytes \<longleftrightarrow> bytes \<le> Remained s"

definition IsEmpty :: "byte_stream \<Rightarrow> bool" where
  "IsEmpty s \<longleftrightarrow> Remained s = 0"

definition GetRemainData :: "byte_stream \<Rightarrow> byte list" where
  "GetRemainData s = drop (bs_offset s) (bs_data s)"

text \<open>\<open>Read<T>()\<close> for a type of \<open>n\<close> bytes, followed by the dereference.\<close>

definition stream_read :: "nat \<Rightarrow> byte_stream \<Rightarrow> (byte list \<times> byte_stream) res" where
  "stream_read n s =
     (if Remained s div n = 0 then Inl Null_Deref
      else bindR (read_bytes (bs_data s) (bs_offset s) n)
             (\<lambda>b. Inr (b, s\<lparr>bs_offset := bs_offset s + n\<rparr>)))"

definition Read8 :: "byte_stream \<Rightarrow> (byte \<times> byte_stream) res" where
  "Read8 s = bindR (stream_read 1 s) (\<lambda>(b, s'). Inr (b ! 0, s'))"

definition be24 :: "byte list \<Rightarrow> u24" where
  "be24 b = push_bit 16 (ucast (b ! 0)) OR push_bit 8 (ucast (b ! 1)) OR ucast (b ! 2)"

definition be32 :: "byte list \<Rightarrow> u32" where
  "be32 b = push_bit 24 (ucast (b ! 0)) OR push_bit 16 (ucast (b ! 1)) OR
            push_bit 8 (ucast (b ! 2)) OR ucast (b ! 3)"

definition le32 :: "byte list \<Rightarrow> u32" where
  "le32 b = push_bit 24 (ucast (b ! 3)) OR push_bit 16 (ucast (b ! 2)) OR
            push_bit 8 (ucast (b ! 1)) OR ucast (b ! 0)"

definition ReadBE24 :: "byte_stream \<Rightarrow> (u24 \<times> byte_stream) res" where
  "ReadBE24 s = bindR (stream_read 3 s) (\<lambda>(b, s'). Inr (be24 b, s'))"

definition ReadBE32 :: "byte_stream \<Rightarrow> (u32 \<times> byte_stream) res" where
  "ReadBE32 s = bindR (stream_read 4 s) (\<lambda>(b, s'). Inr (be32 b, s'))"

definition ReadLE32 :: "byte_stream \<Rightarrow> (u32 \<times> byte_stream) res" where
  "ReadLE32 s = bindR (stream_read 4 s) (\<lambda>(b, s'). Inr (le32 b, s'))"

text \<open>
  \<open>Peek(T*, count)\<close> copies up to \<open>count\<close> items and leaves the offset alone; \<open>Skip(count)\<close> reads
  into a null buffer. Both are for \<open>T = uint8_t\<close>.
\<close>

definition Peek :: "byte_stream \<Rightarrow> nat \<Rightarrow> byte list res" where
  "Peek s count = read_bytes (bs_data s) (bs_offset s) (min (Remained s) count)"

definition Skip :: "byte_stream \<Rightarrow> nat \<Rightarrow> nat \<times> byte_stream" where
  "Skip s count =
     (let n = min (Remained s) count in (n, s\<lparr>bs_offset := bs_offset s + n\<rparr>))"

section \<open>The stream as the bytes that remain\<close>

definition stream_ok :: "byte_stream \<Rightarrow> bool" where
  "stream_ok s \<longleftrightarrow> bs_offset s \<le> length (bs_data s)"

lemma stream_ok_stream_of [simp]: "stream_ok (stream_of d)"
  by (simp add: stream_ok_def stream_of_def)

lemma GetRemainData_stream_of [simp]: "GetRemainData (stream_of d) = d"
  by (simp add: GetRemainData_def stream_of_def)

lemma Remained_ok [simp]: "stream_ok s \<Longrightarrow> Remained s = length (GetRemainData s)"
  by (simp add: stream_ok_def Remained_def GetRemainData_def)

lemma IsRemained_ok [simp]: "stream_ok s \<Longrightarrow> IsRemained s n \<longleftrightarrow> n \<le> length (GetRemainData s)"
  by (simp add: IsRemained_def)

lemma IsEmpty_ok [simp]: "stream_ok s \<Longrightarrow> IsEmpty s \<longleftrightarrow> GetRemainData s = []"
  by (simp add: IsEmpty_def)

text \<open>The stream after \<open>n\<close> more bytes.\<close>

definition advance :: "nat \<Rightarrow> byte_stream \<Rightarrow> byte_stream" where
  "advance n s = s\<lparr>bs_offset := bs_offset s + n\<rparr>"

lemma advance_ok [simp]:
  "stream_ok s \<Longrightarrow> n \<le> length (GetRemainData s) \<Longrightarrow> stream_ok (advance n s)"
  by (auto simp: stream_ok_def advance_def GetRemainData_def)

lemma GetRemainData_advance [simp]: "GetRemainData (advance n s) = drop n (GetRemainData s)"
  by (simp add: advance_def GetRemainData_def add.commute)

lemma advance_0 [simp]: "advance 0 s = s"
  by (simp add: advance_def)

lemma advance_advance [simp]: "advance m (advance n s) = advance (n + m) s"
  by (simp add: advance_def add.assoc)

lemma stream_read_ok:
  "stream_ok s \<Longrightarrow> 0 < n \<Longrightarrow> n \<le> length (GetRemainData s) \<Longrightarrow>
   stream_read n s = Inr (take n (GetRemainData s), advance n s)"
  by (auto simp: stream_read_def stream_ok_def Remained_def GetRemainData_def advance_def
      div_eq_0_iff read_bytes_def)

lemma stream_read_short:
  "stream_ok s \<Longrightarrow> 0 < n \<Longrightarrow> length (GetRemainData s) < n \<Longrightarrow> stream_read n s = Inl Null_Deref"
  by (simp add: stream_read_def)

lemma Read8_ok:
  "stream_ok s \<Longrightarrow> 1 \<le> length (GetRemainData s) \<Longrightarrow>
   Read8 s = Inr (GetRemainData s ! 0, advance 1 s)"
  by (simp add: Read8_def stream_read_ok)

lemma ReadBE24_ok:
  "stream_ok s \<Longrightarrow> 3 \<le> length (GetRemainData s) \<Longrightarrow>
   ReadBE24 s = Inr (be24 (take 3 (GetRemainData s)), advance 3 s)"
  by (simp add: ReadBE24_def stream_read_ok)

lemma ReadBE32_ok:
  "stream_ok s \<Longrightarrow> 4 \<le> length (GetRemainData s) \<Longrightarrow>
   ReadBE32 s = Inr (be32 (take 4 (GetRemainData s)), advance 4 s)"
  by (simp add: ReadBE32_def stream_read_ok)

lemma ReadLE32_ok:
  "stream_ok s \<Longrightarrow> 4 \<le> length (GetRemainData s) \<Longrightarrow>
   ReadLE32 s = Inr (le32 (take 4 (GetRemainData s)), advance 4 s)"
  by (simp add: ReadLE32_def stream_read_ok)

lemmas stream_reads = Read8_ok ReadBE24_ok ReadBE32_ok ReadLE32_ok

lemma Skip_ok:
  "stream_ok s \<Longrightarrow> n \<le> length (GetRemainData s) \<Longrightarrow> Skip s n = (n, advance n s)"
  by (simp add: Skip_def advance_def Let_def)

lemma be24_WriteInt24 [byte_simps]: "be24 (WriteInt24 w) = ucast w"
proof (rule bit_word_eqI)
  fix n assume "n < LENGTH(24)"
  then consider "n < 8" | "8 \<le> n" "n < 16" | "16 \<le> n" "n < 24" by force
  then show "bit (be24 (WriteInt24 w)) n = bit (ucast w :: u24) n"
    by cases (auto simp: be24_def WriteInt24_def bit_simps)
qed

lemma be32_WriteInt32 [byte_simps]: "be32 (WriteInt32 w) = w"
  by (simp add: be32_def WriteInt32_def join_32)

lemma le32_WriteInt32LE [byte_simps]: "le32 (WriteInt32LE w) = w"
  by (simp add: le32_def WriteInt32LE_def join_32)

section \<open>What a parser relies on\<close>

text \<open>
  A byte source offers a test for \<open>n\<close> available bytes and a read of \<open>n\<close> bytes. Its contract: a
  read guarded by the test never faults, gives the next bytes in order and leaves the rest.
\<close>

locale byte_source =
  fixes ok :: "'s \<Rightarrow> bool"
    and rest :: "'s \<Rightarrow> byte list"
    and avail :: "'s \<Rightarrow> nat \<Rightarrow> bool"
    and get :: "nat \<Rightarrow> 's \<Rightarrow> (byte list \<times> 's) res"
  assumes avail_iff: "ok s \<Longrightarrow> avail s n \<longleftrightarrow> n \<le> length (rest s)"
    and get_avail: "ok s \<Longrightarrow> 0 < n \<Longrightarrow> avail s n \<Longrightarrow>
      \<exists>s'. get n s = Inr (take n (rest s), s') \<and> ok s' \<and> rest s' = drop n (rest s)"
    and get_short: "ok s \<Longrightarrow> 0 < n \<Longrightarrow> \<not> avail s n \<Longrightarrow> get n s = Inl Null_Deref"
begin

lemma get_faults_iff: "ok s \<Longrightarrow> 0 < n \<Longrightarrow> (\<exists>f. get n s = Inl f) \<longleftrightarrow> \<not> avail s n"
  using get_avail get_short by (metis Inl_Inr_False)

text \<open>Two guarded reads in a row take adjacent bytes: one test for their sum covers both.\<close>

lemma get_get:
  assumes "ok s" "0 < m" "0 < n" "avail s (m + n)"
  shows "\<exists>s' s''. get m s = Inr (take m (rest s), s') \<and>
    get n s' = Inr (take n (drop m (rest s)), s'') \<and> rest s'' = drop (m + n) (rest s)"
proof -
  have "avail s m" using assms avail_iff by auto
  with assms obtain s' where s': "get m s = Inr (take m (rest s), s')" "ok s'" "rest s' = drop m (rest s)"
    using get_avail by blast
  then have "avail s' n" using assms avail_iff by auto
  with s' assms show ?thesis
    using get_avail [of s' n] by (auto simp: add.commute)
qed

end

interpretation stream: byte_source stream_ok GetRemainData IsRemained stream_read
proof unfold_locales
  fix s :: byte_stream and n :: nat
  assume "stream_ok s" "0 < n" "IsRemained s n"
  then show "\<exists>s'. stream_read n s = Inr (take n (GetRemainData s), s') \<and> stream_ok s' \<and>
      GetRemainData s' = drop n (GetRemainData s)"
    by (intro exI [of _ "advance n s"]) (simp add: stream_read_ok)
qed (auto simp: stream_read_short)

end
