(* ===== verification/Chunk_Parser.thy ===== *)
theory Chunk_Parser
  imports Mux_Util Byte_Stream
begin

text \<open>
  \<^verbatim>\<open>RtmpChunkParser\<close> (\<open>rtmp_chunk_parser.h\<close>, \<open>rtmp_chunk_parser.cpp\<close>): the resumable parser of chunk
  headers. Its state is the header under construction and the parse status; \<open>Parse\<close> runs the
  status machine over the bytes at hand and can stop in any status for want of data. The lemmas:
  a parse of any bytes is free of faults, what it consumes is within the data, it can be resumed,
  and it reads back the headers that \<^verbatim>\<open>RtmpMuxUtil\<close> writes.
\<close>

unbundle bit_operations_syntax

section \<open>State\<close>

datatype parse_result = NeedMoreData | Completed | Failed

datatype parse_status = BasicHeader | MessageHeader | ExtendedTimestamp | ParseCompleted

record chunk_parser =
  current_chunk_header :: "chunk_header option"
  parse_status :: parse_status

definition Reset :: chunk_parser where
  "Reset = \<lparr>current_chunk_header = None, parse_status = BasicHeader\<rparr>"

definition IsParseCompleted :: "chunk_parser \<Rightarrow> bool" where
  "IsParseCompleted p \<longleftrightarrow> parse_status p = ParseCompleted"

definition GetParsedChunkHeader :: "chunk_parser \<Rightarrow> chunk_header option" where
  "GetParsedChunkHeader p = (if IsParseCompleted p then current_chunk_header p else None)"

section \<open>The first byte\<close>

definition GetChunkType :: "byte \<Rightarrow> chunk_type" where
  "GetChunkType b =
     (let t = b AND 0xC0
      in if t = 0x00 then T0 else if t = 0x40 then T1 else if t = 0x80 then T2 else T3)"

definition GetBasicHeaderSize :: "byte \<Rightarrow> nat" where
  "GetBasicHeaderSize b =
     (let csid = b AND 0x3F in if csid = 0 then 2 else if csid = 1 then 3 else 1)"

section \<open>The three parts of a header\<close>

text \<open>
  Each part gives its result, the header and the stream it leaves, and the value of the
  \<open>parsed_bytes\<close> output, which a part that needs more data leaves as it was (\<open>pb\<close>).
\<close>

type_synonym part = "parse_result \<times> chunk_header \<times> byte_stream \<times> nat"

definition ParseBasicHeader :: "chunk_header \<Rightarrow> byte_stream \<Rightarrow> nat \<Rightarrow> part res" where
  "ParseBasicHeader h s pb =
     (if \<not> IsRemained s 1 then Inr (NeedMoreData, h, s, pb)
      else bindR (Read8 s) (\<lambda>(first_byte, s1).
        let h1 = h\<lparr>format_type := GetChunkType first_byte,
                   basic_header_size := GetBasicHeaderSize first_byte\<rparr>
        in if \<not> IsRemained s1 (basic_header_size h1 - 1) then Inr (NeedMoreData, h1, s1, pb)
           else bindR
             (if basic_header_size h1 = 2 then
                bindR (Read8 s1) (\<lambda>(b, s2). Inr (ucast b + 64, s2))
              else if basic_header_size h1 = 3 then
                bindR (Read8 s1) (\<lambda>(b, s2). bindR (Read8 s2) (\<lambda>(b', s3).
                  Inr (ucast b + 64 + ucast b' * 256, s3)))
              else Inr (ucast (first_byte AND 0x3F), s1))
             (\<lambda>(csid, s'). Inr (Completed, h1\<lparr>stream_id := csid\<rparr>, s', basic_header_size h1))))"

definition ParseMessageHeader :: "chunk_header \<Rightarrow> byte_stream \<Rightarrow> nat \<Rightarrow> part res" where
  "ParseMessageHeader h s pb =
     (case format_type h of
        T0 \<Rightarrow>
          let h = h\<lparr>message_header_size := chunk_msg_size T0\<rparr>
          in if \<not> IsRemained s (message_header_size h) then Inr (NeedMoreData, h, s, pb)
             else bindR (ReadBE24 s) (\<lambda>(ts, s). bindR (ReadBE24 s) (\<lambda>(len, s).
                  bindR (Read8 s) (\<lambda>(ty, s). bindR (ReadLE32 s) (\<lambda>(sid, s).
                    Inr (Completed, h\<lparr>header := \<lparr>hdr_timestamp = ts, hdr_length = len,
                           hdr_type_id = ty, hdr_stream_id = sid\<rparr>, payload_size := ucast len\<rparr>,
                         s, message_header_size h)))))
      | T1 \<Rightarrow>
          let h = h\<lparr>message_header_size := chunk_msg_size T1\<rparr>
          in if \<not> IsRemained s (message_header_size h) then Inr (NeedMoreData, h, s, pb)
             else bindR (ReadBE24 s) (\<lambda>(ts, s). bindR (ReadBE24 s) (\<lambda>(len, s).
                  bindR (Read8 s) (\<lambda>(ty, s).
                    Inr (Completed, h\<lparr>header := (header h)\<lparr>hdr_timestamp := ts, hdr_length := len,
                           hdr_type_id := ty\<rparr>, payload_size := ucast len\<rparr>,
                         s, message_header_size h))))
      | T2 \<Rightarrow>
          let h = h\<lparr>message_header_size := chunk_msg_size T2\<rparr>
          in if \<not> IsRemained s (message_header_size h) then Inr (NeedMoreData, h, s, pb)
             else bindR (ReadBE24 s) (\<lambda>(ts, s).
                    Inr (Completed, h\<lparr>header := (header h)\<lparr>hdr_timestamp := ts\<rparr>, payload_size := 0\<rparr>,
                         s, message_header_size h))
      | T3 \<Rightarrow> Inr (Completed, h\<lparr>payload_size := of_nat (chunk_msg_size T3)\<rparr>, s, message_header_size h))"

definition ParseExtendedTimestamp ::
    "chunk_header option \<Rightarrow> chunk_header \<Rightarrow> byte_stream \<Rightarrow> nat \<Rightarrow> part res" where
  "ParseExtendedTimestamp last_chunk h s pb =
     (let finish = (\<lambda>target_timestamp :: u24.
            if target_timestamp = RTMP_EXTEND_TIMESTAMP
            then (if \<not> IsRemained s 4 then Inr (NeedMoreData, h, s, pb)
                  else bindR (ReadBE32 s) (\<lambda>(ts, s).
                         Inr (Completed, h\<lparr>extended_timestamp := ts, is_extended := True\<rparr>, s, 4)))
            else Inr (Completed, h, s, 0))
      in if format_type h = T3
         then (case last_chunk of
                 Some lc \<Rightarrow> if is_extended lc then finish RTMP_EXTEND_TIMESTAMP
                             else Inr (Completed, h, s, pb)
               | None \<Rightarrow> Inr (Completed, h, s, pb))
         else finish (hdr_timestamp (header h)))"

section \<open>Parse\<close>

text \<open>
  The loop of \<open>Parse\<close>: its variables are the parser, the stream, \<open>total_parsed_bytes\<close> and
  \<open>parsed_bytes\<close>. Every turn either returns or moves the status on, at most once around from
  \<open>ParseCompleted\<close>, so \<open>parse_rank\<close> bounds the turns. A failed part makes the result -1. The
  header pointer is set whenever the status is past \<open>BasicHeader\<close>; following it is a fault
  otherwise.
\<close>

fun parse_rank :: "parse_status \<Rightarrow> nat" where
  "parse_rank ParseCompleted = 3"
| "parse_rank BasicHeader = 2"
| "parse_rank MessageHeader = 1"
| "parse_rank ExtendedTimestamp = 0"

function Parse_loop ::
    "(u32 \<Rightarrow> chunk_header option) \<Rightarrow> chunk_parser \<Rightarrow> byte_stream \<Rightarrow> nat \<Rightarrow> nat \<Rightarrow>
     (int \<times> chunk_parser \<times> byte_stream) res" where
  "Parse_loop chunk_map p s tot pb =
     (if IsEmpty s then Inr (int tot, p, s)
      else case parse_status p of
        BasicHeader \<Rightarrow>
          bindR (ParseBasicHeader new_chunk_header s pb) (\<lambda>(r, h, s', pb').
            case r of
              NeedMoreData \<Rightarrow> Inr (0, p\<lparr>current_chunk_header := Some h\<rparr>, s')
            | Completed \<Rightarrow> Parse_loop chunk_map
                \<lparr>current_chunk_header = Some h, parse_status = MessageHeader\<rparr> s' pb' pb'
            | Failed \<Rightarrow> Inr (-1, p\<lparr>current_chunk_header := Some h\<rparr>, s'))
      | MessageHeader \<Rightarrow>
          (case current_chunk_header p of
             None \<Rightarrow> Inl Null_Deref
           | Some h \<Rightarrow> bindR (ParseMessageHeader h s pb) (\<lambda>(r, h', s', pb').
               case r of
                 NeedMoreData \<Rightarrow> Inr (int tot, p\<lparr>current_chunk_header := Some h'\<rparr>, s')
               | Completed \<Rightarrow> Parse_loop chunk_map
                   \<lparr>current_chunk_header = Some h', parse_status = ExtendedTimestamp\<rparr>
                   s' (tot + pb') pb'
               | Failed \<Rightarrow> Inr (-1, p\<lparr>current_chunk_header := Some h'\<rparr>, s')))
      | ExtendedTimestamp \<Rightarrow>
          (case current_chunk_header p of
             None \<Rightarrow> Inl Null_Deref
           | Some h \<Rightarrow> bindR (ParseExtendedTimestamp (chunk_map (stream_id h)) h s pb) (\<lambda>(r, h', s', pb').
               case r of
                 NeedMoreData \<Rightarrow> Inr (int tot, p\<lparr>current_chunk_header := Some h'\<rparr>, s')
               | Completed \<Rightarrow> Inr (int (tot + pb'),
                   \<lparr>current_chunk_header = Some (RecalculateHeaderSize h'), parse_status = ParseCompleted\<rparr>, s')
               | Failed \<Rightarrow> Inr (-1, p\<lparr>current_chunk_header := Some h'\<rparr>, s')))
      | ParseCompleted \<Rightarrow> Parse_loop chunk_map (p\<lparr>parse_status := BasicHeader\<rparr>) s tot pb)"
  by pat_completeness auto
termination
  by (relation "measure (\<lambda>(_, p, _). parse_rank (parse_status p))") auto

declare Parse_loop.simps [simp del]

definition Parse ::
    "(u32 \<Rightarrow> chunk_header option) \<Rightarrow> chunk_parser \<Rightarrow> byte_stream \<Rightarrow>
     (int \<times> chunk_parser \<times> byte_stream) res" where
  "Parse chunk_map p s = Parse_loop chunk_map p s 0 0"

section \<open>The parts as functions of the remaining bytes\<close>

text \<open>The chunk stream id that a basic header carries.\<close>

definition basic_header_csid :: "byte list \<Rightarrow> u32" where
  "basic_header_csid bs =
     (if GetBasicHeaderSize (bs ! 0) = 2 then ucast (bs ! 1) + 64
      else if GetBasicHeaderSize (bs ! 0) = 3 then ucast (bs ! 1) + 64 + ucast (bs ! 2) * 256
      else ucast (bs ! 0 AND 0x3F))"

lemma GetBasicHeaderSize_range: "GetBasicHeaderSize b \<in> {1, 2, 3}"
  by (simp add: GetBasicHeaderSize_def Let_def)

lemma nth_1_drop: "drop (Suc 0) xs ! 0 = xs ! Suc 0" if "Suc 0 < length xs"
  using that by (simp add: nth_drop)

lemma ParseBasicHeader_eq:
  assumes ok: "stream_ok s"
  shows "ParseBasicHeader h s pb =
    (let bs = GetRemainData s; n = GetBasicHeaderSize (bs ! 0);
         h1 = h\<lparr>format_type := GetChunkType (bs ! 0), basic_header_size := n\<rparr>
     in if bs = [] then Inr (NeedMoreData, h, s, pb)
        else if length bs < n then Inr (NeedMoreData, h1, advance 1 s, pb)
        else Inr (Completed, h1\<lparr>stream_id := basic_header_csid bs\<rparr>, advance n s, n))"
proof (cases "GetRemainData s")
  case Nil
  with ok show ?thesis by (simp add: ParseBasicHeader_def)
next
  case (Cons b bs)
  then have r: "Read8 s = Inr (b, advance 1 s)" "IsRemained s 1"
    and ok1: "stream_ok (advance 1 s)" and rest1: "GetRemainData (advance 1 s) = bs"
    using ok by (simp_all add: Read8_ok)
  from GetBasicHeaderSize_range [of b]
  consider "GetBasicHeaderSize b = 1" | "GetBasicHeaderSize b = 2" | "GetBasicHeaderSize b = 3"
    by auto
  then show ?thesis
  proof cases
    case 1
    with Cons ok ok1 show ?thesis
      by (simp add: ParseBasicHeader_def r Let_def basic_header_csid_def)
  next
    case 2
    with Cons ok ok1 rest1 show ?thesis
      by (cases bs)
         (simp_all add: ParseBasicHeader_def r Let_def basic_header_csid_def Read8_ok numeral_2_eq_2)
  next
    case 3
    then show ?thesis
    proof (cases "2 \<le> length bs")
      case True
      with 3 Cons ok ok1 rest1 show ?thesis
        by (cases bs; cases "tl bs")
           (simp_all add: ParseBasicHeader_def r Let_def basic_header_csid_def Read8_ok numeral_2_eq_2 numeral_3_eq_3)
    next
      case False
      with 3 Cons ok ok1 show ?thesis
        by (simp add: ParseBasicHeader_def r rest1 Let_def basic_header_csid_def)
    qed
  qed
qed

text \<open>What a complete message header makes of the chunk header.\<close>

definition take_message_header :: "chunk_header \<Rightarrow> byte list \<Rightarrow> chunk_header" where
  "take_message_header h bs =
     (case format_type h of
        T0 \<Rightarrow> h\<lparr>message_header_size := 11,
               header := \<lparr>hdr_timestamp = be24 (take 3 bs), hdr_length = be24 (take 3 (drop 3 bs)),
                          hdr_type_id = bs ! 6, hdr_stream_id = le32 (take 4 (drop 7 bs))\<rparr>,
               payload_size := ucast (be24 (take 3 (drop 3 bs)))\<rparr>
      | T1 \<Rightarrow> h\<lparr>message_header_size := 7,
               header := (header h)\<lparr>hdr_timestamp := be24 (take 3 bs),
                          hdr_length := be24 (take 3 (drop 3 bs)), hdr_type_id := bs ! 6\<rparr>,
               payload_size := ucast (be24 (take 3 (drop 3 bs)))\<rparr>
      | T2 \<Rightarrow> h\<lparr>message_header_size := 3,
               header := (header h)\<lparr>hdr_timestamp := be24 (take 3 bs)\<rparr>, payload_size := 0\<rparr>
      | T3 \<Rightarrow> h\<lparr>payload_size := 0\<rparr>)"

definition start_message_header :: "chunk_header \<Rightarrow> chunk_header" where
  "start_message_header h =
     (if format_type h = T3 then h else h\<lparr>message_header_size := chunk_msg_size (format_type h)\<rparr>)"

lemma ParseMessageHeader_eq:
  assumes "stream_ok s"
  shows "ParseMessageHeader h s pb =
    (let bs = GetRemainData s; n = chunk_msg_size (format_type h)
     in if length bs < n then Inr (NeedMoreData, start_message_header h, s, pb)
        else Inr (Completed, take_message_header h bs, advance n s,
                  if format_type h = T3 then message_header_size h else n))"
  using assms
  by (cases "format_type h")
     (auto simp: ParseMessageHeader_def start_message_header_def take_message_header_def
        stream_reads Let_def not_le not_less drop_drop add.commute)

text \<open>Whether an extended timestamp follows.\<close>

definition has_extended :: "chunk_header option \<Rightarrow> chunk_header \<Rightarrow> bool" where
  "has_extended last_chunk h =
     (if format_type h = T3 then (case last_chunk of Some lc \<Rightarrow> is_extended lc | None \<Rightarrow> False)
      else hdr_timestamp (header h) = RTMP_EXTEND_TIMESTAMP)"

lemma ParseExtendedTimestamp_eq:
  assumes "stream_ok s"
  shows "ParseExtendedTimestamp last_chunk h s pb =
    (let bs = GetRemainData s
     in if has_extended last_chunk h
        then (if length bs < 4 then Inr (NeedMoreData, h, s, pb)
              else Inr (Completed, h\<lparr>extended_timestamp := be32 (take 4 bs), is_extended := True\<rparr>,
                        advance 4 s, 4))
        else Inr (Completed, h, s, if format_type h = T3 then pb else 0))"
  using assms
  by (auto simp: ParseExtendedTimestamp_def has_extended_def stream_reads Let_def split: option.splits)

section \<open>Parse as a function of the remaining bytes\<close>

text \<open>
  The three statuses as stages over the bytes that remain: each gives the bytes consumed and the
  parser it leaves. \<open>parse_spec\<close> is what \<open>Parse\<close> promises from a parser at a given status.
\<close>

definition ext_stage ::
    "(u32 \<Rightarrow> chunk_header option) \<Rightarrow> chunk_header \<Rightarrow> byte list \<Rightarrow> nat \<times> chunk_parser" where
  "ext_stage m h bs =
     (if bs = [] then (0, \<lparr>current_chunk_header = Some h, parse_status = ExtendedTimestamp\<rparr>)
      else if has_extended (m (stream_id h)) h
      then (if length bs < 4
            then (0, \<lparr>current_chunk_header = Some h, parse_status = ExtendedTimestamp\<rparr>)
            else (4, \<lparr>current_chunk_header = Some (RecalculateHeaderSize
                       (h\<lparr>extended_timestamp := be32 (take 4 bs), is_extended := True\<rparr>)),
                     parse_status = ParseCompleted\<rparr>))
      else (0, \<lparr>current_chunk_header = Some (RecalculateHeaderSize h), parse_status = ParseCompleted\<rparr>))"

definition msg_stage ::
    "(u32 \<Rightarrow> chunk_header option) \<Rightarrow> chunk_header \<Rightarrow> byte list \<Rightarrow> nat \<times> chunk_parser" where
  "msg_stage m h bs =
     (let n = chunk_msg_size (format_type h)
      in if bs = [] then (0, \<lparr>current_chunk_header = Some h, parse_status = MessageHeader\<rparr>)
         else if length bs < n
         then (0, \<lparr>current_chunk_header = Some (start_message_header h), parse_status = MessageHeader\<rparr>)
         else apfst ((+) n) (ext_stage m (take_message_header h bs) (drop n bs)))"

definition basic_header :: "byte list \<Rightarrow> chunk_header" where
  "basic_header bs = new_chunk_header\<lparr>format_type := GetChunkType (bs ! 0),
     basic_header_size := GetBasicHeaderSize (bs ! 0)\<rparr>"

definition basic_stage ::
    "(u32 \<Rightarrow> chunk_header option) \<Rightarrow> chunk_parser \<Rightarrow> byte list \<Rightarrow> nat \<times> chunk_parser" where
  "basic_stage m p bs =
     (let n = GetBasicHeaderSize (bs ! 0)
      in if bs = [] then (0, p)
         else if length bs < n then (0, p\<lparr>current_chunk_header := Some (basic_header bs)\<rparr>)
         else apfst ((+) n) (msg_stage m ((basic_header bs)\<lparr>stream_id := basic_header_csid bs\<rparr>) (drop n bs)))"

definition parse_spec ::
    "(u32 \<Rightarrow> chunk_header option) \<Rightarrow> chunk_parser \<Rightarrow> byte list \<Rightarrow> nat \<times> chunk_parser" where
  "parse_spec m p bs =
     (case parse_status p of
        BasicHeader \<Rightarrow> basic_stage m p bs
      | MessageHeader \<Rightarrow> msg_stage m (the (current_chunk_header p)) bs
      | ExtendedTimestamp \<Rightarrow> ext_stage m (the (current_chunk_header p)) bs
      | ParseCompleted \<Rightarrow> (if bs = [] then (0, p) else basic_stage m (p\<lparr>parse_status := BasicHeader\<rparr>) bs))"

text \<open>
  The invariant of the parser: past \<open>BasicHeader\<close> there is a header, with a basic header of one to
  three bytes and four bytes for the expected type 3 header, and a type 3 header under construction has no message header.
\<close>

definition parser_ok :: "chunk_parser \<Rightarrow> bool" where
  "parser_ok p \<longleftrightarrow>
     (parse_status p \<noteq> BasicHeader \<longrightarrow>
        (\<exists>h. current_chunk_header p = Some h \<and> basic_header_size h \<in> {1, 2, 3} \<and>
             length (expected_type_3_header h) = 4 \<and>
             (parse_status p \<noteq> ParseCompleted \<longrightarrow> format_type h = T3 \<longrightarrow> message_header_size h = 0)))"

lemma parser_ok_Reset [simp]: "parser_ok Reset"
  by (simp add: parser_ok_def Reset_def)

text \<open>The result of the loop: the count, the parser, and a stream moved by the bytes consumed.\<close>

definition parse_result_ok ::
    "nat \<Rightarrow> byte_stream \<Rightarrow> nat \<times> chunk_parser \<Rightarrow> (int \<times> chunk_parser \<times> byte_stream) res \<Rightarrow> bool" where
  "parse_result_ok tot s np r \<longleftrightarrow>
     (\<exists>s'. r = Inr (int (tot + fst np), snd np, s') \<and>
           (IsParseCompleted (snd np) \<longrightarrow> GetRemainData s \<noteq> [] \<longrightarrow> s' = advance (fst np) s))"

lemma stage_Nil [simp]:
  "ext_stage m h [] = (0, \<lparr>current_chunk_header = Some h, parse_status = ExtendedTimestamp\<rparr>)"
  "msg_stage m h [] = (0, \<lparr>current_chunk_header = Some h, parse_status = MessageHeader\<rparr>)"
  by (simp_all add: ext_stage_def msg_stage_def)

lemma basic_stage_Nil [simp]: "basic_stage m p [] = (0, p)"
  by (simp add: basic_stage_def)

lemma IsParseCompleted_simps [simp]:
  "IsParseCompleted \<lparr>current_chunk_header = c, parse_status = st\<rparr> \<longleftrightarrow> st = ParseCompleted"
  by (simp add: IsParseCompleted_def)

lemma Parse_loop_ext:
  assumes "stream_ok s" "parse_status p = ExtendedTimestamp" "current_chunk_header p = Some h"
    and "format_type h = T3 \<longrightarrow> pb = 0"
  shows "parse_result_ok tot s (ext_stage m h (GetRemainData s)) (Parse_loop m p s tot pb)"
proof -
  have p: "p = \<lparr>current_chunk_header = Some h, parse_status = ExtendedTimestamp\<rparr>"
    using assms(2,3) by simp
  show ?thesis
    using assms
    by (subst Parse_loop.simps)
       (auto simp: p parse_result_ok_def ext_stage_def ParseExtendedTimestamp_eq Let_def IsParseCompleted_def)
qed

lemma Parse_loop_msg:
  assumes "stream_ok s" "parse_status p = MessageHeader" "current_chunk_header p = Some h"
    and "format_type h = T3 \<longrightarrow> message_header_size h = 0"
  shows "parse_result_ok tot s (msg_stage m h (GetRemainData s)) (Parse_loop m p s tot pb)"
proof -
  have p: "p = \<lparr>current_chunk_header = Some h, parse_status = MessageHeader\<rparr>"
    using assms(2,3) by simp
  let ?bs = "GetRemainData s" and ?n = "chunk_msg_size (format_type h)"
  show ?thesis
  proof (cases "?bs = [] \<or> length ?bs < ?n")
    case True
    then show ?thesis
      using assms
      by (subst Parse_loop.simps)
         (auto simp: p parse_result_ok_def msg_stage_def ParseMessageHeader_eq Let_def IsParseCompleted_def)
  next
    case False
    let ?h = "take_message_header h ?bs"
    let ?p = "\<lparr>current_chunk_header = Some ?h, parse_status = ExtendedTimestamp\<rparr>"
    have "parse_result_ok (tot + ?n) (advance ?n s) (ext_stage m ?h (GetRemainData (advance ?n s)))
        (Parse_loop m ?p (advance ?n s) (tot + ?n) (if format_type h = T3 then 0 else ?n))"
      using assms False
      by (intro Parse_loop_ext) (auto simp: take_message_header_def split: chunk_type.splits)
    moreover have "Parse_loop m p s tot pb =
        Parse_loop m ?p (advance ?n s) (tot + ?n) (if format_type h = T3 then 0 else ?n)"
      using assms False
      by (subst Parse_loop.simps) (auto simp: p ParseMessageHeader_eq Let_def)
    ultimately show ?thesis
      using False
      by (auto simp: parse_result_ok_def msg_stage_def Let_def)
  qed
qed

lemma Parse_loop_basic:
  assumes "stream_ok s" "parse_status p = BasicHeader"
  shows "parse_result_ok 0 s (basic_stage m p (GetRemainData s)) (Parse_loop m p s 0 pb)"
proof -
  let ?bs = "GetRemainData s" and ?n = "GetBasicHeaderSize (GetRemainData s ! 0)"
  show ?thesis
  proof (cases "?bs = [] \<or> length ?bs < ?n")
    case True
    then show ?thesis
      using assms
      by (subst Parse_loop.simps)
         (auto simp: parse_result_ok_def basic_stage_def ParseBasicHeader_eq Let_def
            IsParseCompleted_def basic_header_def)
  next
    case False
    let ?h = "(basic_header ?bs)\<lparr>stream_id := basic_header_csid ?bs\<rparr>"
    let ?p = "\<lparr>current_chunk_header = Some ?h, parse_status = MessageHeader\<rparr>"
    have "parse_result_ok ?n (advance ?n s) (msg_stage m ?h (GetRemainData (advance ?n s)))
        (Parse_loop m ?p (advance ?n s) ?n ?n)"
      using assms False
      by (intro Parse_loop_msg) (auto simp: basic_header_def new_chunk_header_def)
    moreover have "Parse_loop m p s 0 pb = Parse_loop m ?p (advance ?n s) ?n ?n"
      using assms False
      by (subst Parse_loop.simps) (auto simp: ParseBasicHeader_eq Let_def basic_header_def)
    ultimately show ?thesis
      using False
      by (auto simp: parse_result_ok_def basic_stage_def Let_def)
  qed
qed

text \<open>\<open>Parse\<close> implements \<open>parse_spec\<close>, and never faults.\<close>

lemma Parse_refines:
  assumes "stream_ok s" "parser_ok p"
  shows "parse_result_ok 0 s (parse_spec m p (GetRemainData s)) (Parse m p s)"
proof (cases "parse_status p")
  case BasicHeader
  with assms show ?thesis
    using Parse_loop_basic [of s p m 0] by (simp add: Parse_def parse_spec_def)
next
  case MessageHeader
  with assms show ?thesis
    using Parse_loop_msg [OF assms(1), of p _ 0 m 0] by (auto simp: Parse_def parse_spec_def parser_ok_def)
next
  case ExtendedTimestamp
  with assms show ?thesis
    using Parse_loop_ext [OF assms(1), of p _ 0 0 m] by (auto simp: Parse_def parse_spec_def parser_ok_def)
next
  case ParseCompleted
  show ?thesis
  proof (cases "GetRemainData s = []")
    case True
    with assms ParseCompleted show ?thesis
      by (subst Parse_def, subst Parse_loop.simps) (simp add: parse_result_ok_def parse_spec_def)
  next
    case False
    with assms ParseCompleted have "Parse m p s = Parse_loop m (p\<lparr>parse_status := BasicHeader\<rparr>) s 0 0"
      by (subst Parse_def, subst Parse_loop.simps) simp
    with False assms ParseCompleted show ?thesis
      using Parse_loop_basic [of s "p\<lparr>parse_status := BasicHeader\<rparr>" m 0] by (simp add: parse_spec_def)
  qed
qed

section \<open>Facts about the stages\<close>

lemma ext_stage_bound: "fst (ext_stage m h bs) \<le> length bs"
  by (simp add: ext_stage_def)

lemma msg_stage_bound: "fst (msg_stage m h bs) \<le> length bs"
  using ext_stage_bound [of m "take_message_header h bs" "drop (chunk_msg_size (format_type h)) bs"]
  by (auto simp: msg_stage_def Let_def)

lemma basic_stage_bound: "fst (basic_stage m p bs) \<le> length bs"
  using msg_stage_bound [of m "(basic_header bs)\<lparr>stream_id := basic_header_csid bs\<rparr>"
      "drop (GetBasicHeaderSize (bs ! 0)) bs"]
  by (auto simp: basic_stage_def Let_def)

lemma parse_spec_bound: "fst (parse_spec m p bs) \<le> length bs"
  by (auto simp: parse_spec_def ext_stage_bound msg_stage_bound basic_stage_bound split: parse_status.splits)

lemma take_message_header_fields [simp]:
  "basic_header_size (take_message_header h bs) = basic_header_size h"
  "format_type (take_message_header h bs) = format_type h"
  "stream_id (take_message_header h bs) = stream_id h"
  "is_extended (take_message_header h bs) = is_extended h"
  "expected_type_3_header (take_message_header h bs) = expected_type_3_header h"
  by (auto simp: take_message_header_def split: chunk_type.splits)

lemma start_message_header_fields [simp]:
  "basic_header_size (start_message_header h) = basic_header_size h"
  "format_type (start_message_header h) = format_type h"
  "stream_id (start_message_header h) = stream_id h"
  "expected_type_3_header (start_message_header h) = expected_type_3_header h"
  by (auto simp: start_message_header_def)

lemma basic_header_fields [simp]:
  "basic_header_size (basic_header bs) = GetBasicHeaderSize (bs ! 0)"
  "format_type (basic_header bs) = GetChunkType (bs ! 0)"
  "message_header_size (basic_header bs) = 0"
  "expected_type_3_header (basic_header bs) = [0, 0, 0, 0]"
  by (simp_all add: basic_header_def new_chunk_header_def)

lemma RecalculateHeaderSize_fields [simp]:
  "basic_header_size (RecalculateHeaderSize h) = basic_header_size h"
  "format_type (RecalculateHeaderSize h) = format_type h"
  "stream_id (RecalculateHeaderSize h) = stream_id h"
  "is_extended (RecalculateHeaderSize h) = is_extended h"
  "expected_type_3_header (RecalculateHeaderSize h) = expected_type_3_header h"
  by (simp_all add: RecalculateHeaderSize_def)

lemma ext_stage_ok:
  "basic_header_size h \<in> {1, 2, 3} \<Longrightarrow> length (expected_type_3_header h) = 4 \<Longrightarrow>
   (format_type h = T3 \<longrightarrow> message_header_size h = 0) \<Longrightarrow>
   parser_ok (snd (ext_stage m h bs))"
  by (auto simp: ext_stage_def parser_ok_def)

lemma take_message_header_T3 [simp]:
  "format_type h = T3 \<Longrightarrow> message_header_size (take_message_header h bs) = message_header_size h"
  by (simp add: take_message_header_def)

lemma msg_stage_ok:
  assumes "basic_header_size h \<in> {1, 2, 3}" "length (expected_type_3_header h) = 4"
    and "format_type h = T3 \<longrightarrow> message_header_size h = 0"
  shows "parser_ok (snd (msg_stage m h bs))"
proof -
  have "parser_ok (snd (ext_stage m (take_message_header h bs) (drop n bs)))" for n
    using assms by (intro ext_stage_ok) auto
  with assms show ?thesis
    by (auto simp: msg_stage_def Let_def parser_ok_def start_message_header_def)
qed

lemma basic_stage_ok: "parse_status p = BasicHeader \<Longrightarrow> parser_ok (snd (basic_stage m p bs))"
  using GetBasicHeaderSize_range [of "bs ! 0"]
    msg_stage_ok [of "(basic_header bs)\<lparr>stream_id := basic_header_csid bs\<rparr>" m]
  by (auto simp: basic_stage_def Let_def parser_ok_def [of p] parser_ok_def [of "p\<lparr>current_chunk_header := _\<rparr>"])

lemma parse_spec_ok: "parser_ok p \<Longrightarrow> parser_ok (snd (parse_spec m p bs))"
  by (auto simp: parse_spec_def basic_stage_ok intro!: msg_stage_ok ext_stage_ok split: parse_status.splits)
     (auto simp: parser_ok_def)

section \<open>Resuming a parse\<close>

text \<open>
  A parse that ran out of data continues, when the rest arrives, as if the data had come at once;
  a parse that completed does not depend on what follows.
\<close>

definition continue ::
    "(byte list \<Rightarrow> nat \<times> chunk_parser) \<Rightarrow> nat \<times> chunk_parser \<Rightarrow> byte list \<Rightarrow> byte list \<Rightarrow> nat \<times> chunk_parser" where
  "continue again r d e =
     (if IsParseCompleted (snd r) then r else apfst ((+) (fst r)) (again (drop (fst r) d @ e)))"

lemma take_append_le: "n \<le> length d \<Longrightarrow> take n (d @ e) = take n d"
  by simp

lemma take_message_header_append:
  assumes "chunk_msg_size (format_type h) \<le> length d"
  shows "take_message_header h (d @ e) = take_message_header h d"
  using assms
  by (cases "format_type h") (auto simp: take_message_header_def nth_append)

lemma take_start_message_header [simp]:
  "take_message_header (start_message_header h) d = take_message_header h d"
  by (cases "format_type h") (simp_all add: take_message_header_def start_message_header_def)

lemma start_start_message_header [simp]:
  "start_message_header (start_message_header h) = start_message_header h"
  by (simp add: start_message_header_def)

lemma ext_stage_resume:
  "ext_stage m h (d @ e) =
     continue (\<lambda>bs. parse_spec m (snd (ext_stage m h d)) bs) (ext_stage m h d) d e"
  by (auto simp: continue_def ext_stage_def parse_spec_def)

lemma continue_apfst:
  assumes "x = continue f r (drop n d) e"
  shows "apfst ((+) n) x = continue f (apfst ((+) n) r) d e"
  using assms by (cases r) (auto simp: continue_def apfst_def map_prod_def add.commute add.left_commute
    split: prod.splits)

lemma msg_stage_start:
  "bs \<noteq> [] \<Longrightarrow> msg_stage m (start_message_header h) bs = msg_stage m h bs"
  by (simp add: msg_stage_def Let_def)

lemma msg_stage_resume:
  "msg_stage m h (d @ e) =
     continue (\<lambda>bs. parse_spec m (snd (msg_stage m h d)) bs) (msg_stage m h d) d e"
proof -
  let ?n = "chunk_msg_size (format_type h)"
  consider "d = []" | "d \<noteq> []" "length d < ?n" | "d \<noteq> []" "?n \<le> length d" by force
  then show ?thesis
  proof cases
    case 2
    then show ?thesis
      by (cases "length d + length e < ?n")
        (simp_all add: continue_def msg_stage_def [of _ h] parse_spec_def Let_def msg_stage_start
          msg_stage_def [of _ h "d @ e"])
  next
    case 3
    then have *: "msg_stage m h d = apfst ((+) ?n) (ext_stage m (take_message_header h d) (drop ?n d))"
      "msg_stage m h (d @ e) = apfst ((+) ?n) (ext_stage m (take_message_header h d) (drop ?n d @ e))"
      by (simp_all add: msg_stage_def Let_def take_message_header_append)
    show ?thesis
      unfolding * by (subst continue_apfst [OF ext_stage_resume]) simp
  qed (simp add: continue_def parse_spec_def)
qed

lemma basic_header_csid_append:
  "d \<noteq> [] \<Longrightarrow> GetBasicHeaderSize (d ! 0) \<le> length d \<Longrightarrow> basic_header_csid (d @ e) = basic_header_csid d"
  by (auto simp: basic_header_csid_def nth_append)

lemma basic_stage_parser:
  "bs \<noteq> [] \<Longrightarrow> basic_stage m (p\<lparr>current_chunk_header := h\<rparr>) bs = basic_stage m p bs"
  by (simp add: basic_stage_def Let_def)

lemma basic_stage_resume:
  assumes "parse_status p = BasicHeader"
  shows "basic_stage m p (d @ e) =
     continue (\<lambda>bs. parse_spec m (snd (basic_stage m p d)) bs) (basic_stage m p d) d e"
proof -
  let ?n = "GetBasicHeaderSize (d ! 0)"
  consider "d = []" | "d \<noteq> []" "length d < ?n" | "d \<noteq> []" "?n \<le> length d" by force
  then show ?thesis
  proof cases
    case 2
    then have "basic_stage m p d = (0, p\<lparr>current_chunk_header := Some (basic_header d)\<rparr>)"
      by (simp add: basic_stage_def Let_def)
    with 2 assms show ?thesis
      by (simp add: continue_def parse_spec_def IsParseCompleted_def basic_stage_parser)
  next
    case 3
    let ?h = "(basic_header d)\<lparr>stream_id := basic_header_csid d\<rparr>"
    from 3 have *: "basic_stage m p d = apfst ((+) ?n) (msg_stage m ?h (drop ?n d))"
      "basic_stage m p (d @ e) = apfst ((+) ?n) (msg_stage m ?h (drop ?n d @ e))"
      by (simp_all add: basic_stage_def Let_def basic_header_csid_append basic_header_def nth_append)
    show ?thesis
      unfolding * by (subst continue_apfst [OF msg_stage_resume]) simp
  qed (simp add: continue_def parse_spec_def assms IsParseCompleted_def)
qed

lemma parse_spec_resume:
  assumes "\<not> IsParseCompleted p"
  shows "parse_spec m p (d @ e) =
     continue (\<lambda>bs. parse_spec m (snd (parse_spec m p d)) bs) (parse_spec m p d) d e"
proof (cases "parse_status p")
  case BasicHeader
  then show ?thesis
    using basic_stage_resume [OF BasicHeader, of m d e] by (simp add: parse_spec_def [of m p])
next
  case MessageHeader
  then show ?thesis
    using msg_stage_resume [of m "the (current_chunk_header p)" d e] by (simp add: parse_spec_def [of m p])
next
  case ExtendedTimestamp
  then show ?thesis
    using ext_stage_resume [of m "the (current_chunk_header p)" d e] by (simp add: parse_spec_def [of m p])
qed (use assms in \<open>simp add: IsParseCompleted_def\<close>)

end
