(* ===== verification/Message_Queue.thy ===== *)
theory Message_Queue
  imports Engine_Prelude
begin

text \<open>
  \<^verbatim>\<open>ov::Queue\<close> (\<open>core/queue.h\<close>): a first-in first-out queue with a stop flag. The mutex makes each
  operation atomic, so an operation is a function of the state. A \<open>Dequeue\<close> that has to wait is
  reported as \<open>Waits\<close>; the threshold only controls a log message. The locale \<open>message_queue\<close> is
  what the users of the queue rely on.
\<close>

section \<open>State and operations\<close>

record 'a queue =
  queue_items :: "'a list"
  queue_stop :: bool

definition new_queue :: "'a queue" where
  "new_queue = \<lparr>queue_items = [], queue_stop = False\<rparr>"

definition Enqueue :: "'a \<Rightarrow> 'a queue \<Rightarrow> 'a queue" where
  "Enqueue x q = q\<lparr>queue_items := queue_items q @ [x]\<rparr>"

datatype 'a dequeue_result = Waits | Stopped | Dequeued 'a

definition Dequeue :: "'a queue \<Rightarrow> 'a dequeue_result \<times> 'a queue" where
  "Dequeue q =
     (if queue_stop q then (Stopped, q)
      else case queue_items q of
        [] \<Rightarrow> (Waits, q)
      | x # xs \<Rightarrow> (Dequeued x, q\<lparr>queue_items := xs\<rparr>))"

definition queue_IsEmpty :: "'a queue \<Rightarrow> bool" where
  "queue_IsEmpty q \<longleftrightarrow> queue_items q = []"

definition queue_Clear :: "'a queue \<Rightarrow> 'a queue" where
  "queue_Clear q = q\<lparr>queue_items := []\<rparr>"

definition queue_Size :: "'a queue \<Rightarrow> nat" where
  "queue_Size q = length (queue_items q)"

definition queue_Stop :: "'a queue \<Rightarrow> 'a queue" where
  "queue_Stop q = q\<lparr>queue_stop := True\<rparr>"

lemmas queue_defs = new_queue_def Enqueue_def Dequeue_def queue_IsEmpty_def queue_Clear_def
  queue_Size_def queue_Stop_def

section \<open>What a queue promises\<close>

text \<open>
  The contract: the items come out in the order they went in, none is lost or made up, and a
  running queue that holds an item never waits.
\<close>

locale message_queue =
  fixes enq :: "'a \<Rightarrow> 'q \<Rightarrow> 'q"
    and deq :: "'q \<Rightarrow> 'a option \<times> 'q"
    and items :: "'q \<Rightarrow> 'a list"
    and running :: "'q \<Rightarrow> bool"
  assumes items_enq: "items (enq x q) = items q @ [x]"
    and running_enq: "running (enq x q) \<longleftrightarrow> running q"
    and deq_Cons: "running q \<Longrightarrow> items q = x # xs \<Longrightarrow> fst (deq q) = Some x \<and> items (snd (deq q)) = xs"
    and deq_Nil: "items q = [] \<Longrightarrow> deq q = (None, q)"
    and running_deq: "running (snd (deq q)) \<longleftrightarrow> running q"
begin

text \<open>Everything that can be taken out, in order.\<close>

fun drain :: "nat \<Rightarrow> 'q \<Rightarrow> 'a list" where
  "drain 0 q = []"
| "drain (Suc n) q = (case deq q of (None, _) \<Rightarrow> [] | (Some x, q') \<Rightarrow> x # drain n q')"

lemma drain_items: "running q \<Longrightarrow> drain n q = take n (items q)"
proof (induction n arbitrary: q)
  case (Suc n)
  show ?case
  proof (cases "items q")
    case Nil
    then show ?thesis by (simp add: deq_Nil)
  next
    case (Cons x xs)
    obtain o' q' where d: "deq q = (o', q')" by force
    with Cons Suc.prems have "o' = Some x" "items q' = xs" "running q'"
      using deq_Cons [of q x xs] running_deq [of q] by auto
    with d Cons Suc.IH show ?thesis by simp
  qed
qed simp

lemma items_enq_all: "items (fold enq xs q) = items q @ xs"
  by (induction xs arbitrary: q) (simp_all add: items_enq)

lemma running_enq_all: "running (fold enq xs q) \<longleftrightarrow> running q"
  by (induction xs arbitrary: q) (simp_all add: running_enq)

text \<open>First in, first out.\<close>

lemma drain_enq_all:
  "running q \<Longrightarrow> drain (length (items q) + length xs) (fold enq xs q) = items q @ xs"
  by (simp add: drain_items running_enq_all items_enq_all)

end

text \<open>The value of a \<open>Dequeue\<close> as \<^verbatim>\<open>std::optional\<close>, for a caller that has seen an item in it.\<close>

definition TryDequeue :: "'a queue \<Rightarrow> 'a option \<times> 'a queue" where
  "TryDequeue q = (case Dequeue q of (Dequeued x, q') \<Rightarrow> (Some x, q') | (_, q') \<Rightarrow> (None, q'))"

interpretation mq: message_queue Enqueue TryDequeue queue_items "\<lambda>q. \<not> queue_stop q"
  by unfold_locales (auto simp: TryDequeue_def queue_defs split: list.splits)

end
