(* ===== verification/Import_Chunk.thy ===== *)
theory Import_Chunk
  imports Chunk_Parser Message_Queue "HOL-Library.Signed_Division"
begin

text \<open>
  \<^verbatim>\<open>RtmpImportChunk\<close> (\<open>rtmp_import_chunk.h\<close>, \<open>rtmp_import_chunk.cpp\<close>): chunks in, messages out. The
  state is the last header of every chunk stream, the queue of finished messages, the chunk size
  and the parser. The header a chunk stream keeps is the object the parser holds; it is not changed
  once it is in the map, so the model keeps a copy in each place. The lemmas: \<open>Import\<close> never faults,
  keeps its invariant, stays within its data, and reads chunk by chunk what it reads at once.
\<close>

unbundle bit_operations_syntax

section \<open>State\<close>

record import_chunk =
  chunk_map :: "u32 \<Rightarrow> chunk_header option"
  import_queue :: "rtmp_message queue"
  import_chunk_size :: nat
  parser :: chunk_parser

definition new_import_chunk :: "nat \<Rightarrow> import_chunk" where
  "new_import_chunk chunk_size =
     \<lparr>chunk_map = Map.empty, import_queue = new_queue, import_chunk_size = chunk_size, parser = Reset\<rparr>"

definition SetChunkSize :: "nat \<Rightarrow> import_chunk \<Rightarrow> import_chunk" where
  "SetChunkSize chunk_size s = s\<lparr>import_chunk_size := chunk_size\<rparr>"

definition import_Destroy :: "import_chunk \<Rightarrow> import_chunk" where
  "import_Destroy s =
     s\<lparr>chunk_map := Map.empty, import_queue := queue_Clear (queue_Stop (import_queue s)), parser := Reset\<rparr>"

text \<open>\<open>GetMessage\<close> tests for an item first, so that its \<open>Dequeue\<close> does not wait.\<close>

definition GetMessage :: "import_chunk \<Rightarrow> rtmp_message option \<times> import_chunk" where
  "GetMessage s =
     (if queue_IsEmpty (import_queue s) then (None, s)
      else let (item, q) = TryDequeue (import_queue s) in (item, s\<lparr>import_queue := q\<rparr>))"

definition GetMessageCount :: "import_chunk \<Rightarrow> nat" where
  "GetMessageCount s = queue_Size (import_queue s)"

section \<open>Timestamps\<close>

abbreviation SERIAL_BITS :: nat where "SERIAL_BITS \<equiv> 31"

text \<open>\<open>%\<close> of C++ takes the sign of the dividend. The values stay far below the bounds of \<^verbatim>\<open>int64_t\<close>.\<close>

definition CalculateRolledTimestamp :: "int \<Rightarrow> int \<Rightarrow> int" where
  "CalculateRolledTimestamp last_timestamp parsed_timestamp =
     (let delta = \<bar>last_timestamp - parsed_timestamp\<bar>
      in if delta \<le> 2 ^ (SERIAL_BITS - 1) - 1 then parsed_timestamp
         else last_timestamp + 2 ^ SERIAL_BITS - last_timestamp smod 2 ^ SERIAL_BITS + parsed_timestamp)"

section \<open>Completing a chunk header\<close>

text \<open>
  The functions return the C++ result with the header they leave. \<open>payload_size - 1\<close> is computed in
  32 bits, divided as \<^verbatim>\<open>size_t\<close> and cut to \<^verbatim>\<open>int\<close>; the product with the size of a type 3 header is
  taken modulo \<open>2 ^ 32\<close>.
\<close>

definition CalculateForType3Header :: "nat \<Rightarrow> chunk_header \<Rightarrow> (bool \<times> chunk_header) res" where
  "CalculateForType3Header chunk_size h =
     (let e = (expected_type_3_header h)[0 := 0xC0];
          e' = (if basic_header_size h = 1 then
                  Some (e[0 := e ! 0 OR ucast (stream_id h AND 0x3F)])
                else if basic_header_size h = 2 then
                  Some (e[0 := e ! 0 OR 0, 1 := ucast (stream_id h - 64)])
                else if basic_header_size h = 3 then
                  let sid = stream_id h - 64
                  in Some (e[0 := e ! 0 OR 1, 1 := ucast (sid AND 0xFF), 2 := ucast (drop_bit 16 sid AND 0xFF)])
                else None)
      in case e' of
           None \<Rightarrow> Inr (False, h\<lparr>expected_type_3_header := e\<rparr>)
         | Some e' \<Rightarrow>
             if chunk_size = 0 then Inl Div_By_Zero
             else let type_3_count = (of_nat (unat (payload_size h - 1) div chunk_size) :: u32);
                      expected_type_3_size = basic_header_size h + (if is_extended h then 4 else 0)
                  in Inr (0 \<le> sint type_3_count,
                          h\<lparr>expected_type_3_header := e',
                            expected_payload_size := payload_size h + type_3_count * of_nat expected_type_3_size\<rparr>))"

text \<open>\<open>sizeof(RtmpChunkHeader::completed)\<close> under \<^verbatim>\<open>#pragma pack(1)\<close>: 4 + 8 + 4 + 1 + 4.\<close>

abbreviation sizeof_completed :: nat where "sizeof_completed \<equiv> 21"

definition ProcessChunkHeader ::
    "nat \<Rightarrow> chunk_header \<Rightarrow> chunk_header option \<Rightarrow> (bool \<times> chunk_header) res" where
  "ProcessChunkHeader chunk_size h last_chunk_header =
     (let finish = (\<lambda>completed'.
            let h' = RecalculateHeaderSize
                       (h\<lparr>completed := completed', message_header_size := sizeof_completed,
                          payload_size := completed_length completed'\<rparr>)
            in if RTMP_MAX_PACKET_SIZE < unat (payload_size h') then Inr (False, h')
               else CalculateForType3Header chunk_size h')
      in case (format_type h, last_chunk_header) of
           (T0, _) \<Rightarrow>
             let ts = (if is_extended h then uint (extended_timestamp h) else uint (hdr_timestamp (header h)))
             in finish
                  \<lparr>completed_timestamp_delta = 0,
                   completed_timestamp =
                     (case last_chunk_header of
                        None \<Rightarrow> ts
                      | Some lc \<Rightarrow> CalculateRolledTimestamp (completed_timestamp (completed lc)) ts),
                   completed_length = ucast (hdr_length (header h)),
                   completed_type_id = hdr_type_id (header h),
                   completed_stream_id = hdr_stream_id (header h)\<rparr>
         | (_, None) \<Rightarrow> Inr (False, h)
         | (T1, Some lc) \<Rightarrow>
             let c = completed lc;
                 delta = (if is_extended h then extended_timestamp h else ucast (hdr_timestamp (header h)))
             in finish
                  (c\<lparr>completed_timestamp_delta := delta,
                     completed_timestamp := completed_timestamp c + uint delta,
                     completed_length := ucast (hdr_length (header h)),
                     completed_type_id := hdr_type_id (header h)\<rparr>)
         | (T2, Some lc) \<Rightarrow>
             let c = completed lc;
                 delta = (if is_extended h then extended_timestamp h else ucast (hdr_timestamp (header h)))
             in finish
                  (c\<lparr>completed_timestamp_delta := delta,
                     completed_timestamp := completed_timestamp c + uint delta\<rparr>)
         | (T3, Some lc) \<Rightarrow>
             let c = completed lc
             in finish
                  (c\<lparr>completed_timestamp := completed_timestamp c + uint (completed_timestamp_delta c)\<rparr>))"

section \<open>Taking the payload out of its chunks\<close>

text \<open>
  The loop of \<open>FinalizeMessage\<close>: \<open>cur\<close> is the memory at \<open>current\<close>, \<open>left\<close> the variable
  \<open>payload_size\<close>, \<open>started\<close> the test \<open>index > 0\<close>. Without a chunk size and without a header to skip
  the C++ loop would not move.
\<close>

function FinalizeMessage_loop ::
    "nat \<Rightarrow> chunk_header \<Rightarrow> byte list \<Rightarrow> bool \<Rightarrow> nat \<Rightarrow> byte list \<Rightarrow> byte list option res" where
  "FinalizeMessage_loop chunk_size h cur started left acc =
     (if left = 0 then Inr (Some acc)
      else let hs = basic_header_size h + (if is_extended h then 4 else 0) in
        if started then
          if left < hs then Inr None
          else bindR (read_bytes cur 0 (basic_header_size h)) (\<lambda>found.
               bindR (read_bytes (expected_type_3_header h) 0 (basic_header_size h)) (\<lambda>expected.
                 if found \<noteq> expected then Inr None
                 else let read_size = min chunk_size (left - hs)
                      in if read_size = 0 \<and> hs = 0 then Inl Endless_Loop
                         else bindR (read_bytes (drop hs cur) 0 read_size) (\<lambda>block.
                                FinalizeMessage_loop chunk_size h (drop (hs + read_size) cur) True
                                  (left - hs - read_size) (acc @ block))))
        else let read_size = min chunk_size left
             in bindR (read_bytes cur 0 read_size) (\<lambda>block.
                  FinalizeMessage_loop chunk_size h (drop read_size cur) True (left - read_size) (acc @ block)))"
  by pat_completeness auto
termination
  by (relation "measure (\<lambda>(_, _, _, started, left, _). 2 * left + (if started then 0 else 1))")
     (auto simp: min_def split: if_splits)

declare FinalizeMessage_loop.simps [simp del]

definition FinalizeMessage :: "nat \<Rightarrow> chunk_header \<Rightarrow> byte list \<Rightarrow> rtmp_message option res" where
  "FinalizeMessage chunk_size h cur =
     bindR (FinalizeMessage_loop chunk_size h cur False (unat (expected_payload_size h)) [])
       (\<lambda>r. case r of
          None \<Rightarrow> Inr None
        | Some payload \<Rightarrow>
            if length payload \<noteq> unat (payload_size h) then Inr None
            else Inr (Some \<lparr>msg_header = h, msg_payload = payload\<rparr>))"

section \<open>Import\<close>

text \<open>
  The result is the return value, \<open>is_completed\<close> and the state. \<open>Import_payload\<close> is the second half
  of the function, from the test for the expected payload on.
\<close>

definition Import_payload ::
    "import_chunk \<Rightarrow> int \<Rightarrow> byte_stream \<Rightarrow> chunk_header \<Rightarrow> (int \<times> bool \<times> import_chunk) res" where
  "Import_payload s parsed_bytes stream h =
     (if \<not> IsRemained stream (unat (expected_payload_size h)) then Inr (to_int32 parsed_bytes, False, s)
      else bindR (FinalizeMessage (import_chunk_size s) h (GetRemainData stream)) (\<lambda>m.
             case m of
               None \<Rightarrow> Inr (-1, False, s)
             | Some message \<Rightarrow>
                 Inr (to_int32 (parsed_bytes + uint (expected_payload_size h)), True,
                      s\<lparr>import_queue := Enqueue message (import_queue s), parser := Reset\<rparr>)))"

definition Import :: "import_chunk \<Rightarrow> byte list \<Rightarrow> (int \<times> bool \<times> import_chunk) res" where
  "Import s data =
     (if \<not> IsParseCompleted (parser s) then
        bindR (Parse (chunk_map s) (parser s) (stream_of data)) (\<lambda>(parsed_bytes, p, stream).
          let s1 = s\<lparr>parser := p\<rparr> in
          if parsed_bytes < 0 then Inr (to_int32 parsed_bytes, False, s1)
          else if \<not> IsParseCompleted p then Inr (to_int32 parsed_bytes, False, s1)
          else case GetParsedChunkHeader p of
            None \<Rightarrow> Inr (-1, False, s1)
          | Some h \<Rightarrow>
              bindR (ProcessChunkHeader (import_chunk_size s) h (chunk_map s (stream_id h))) (\<lambda>(ok, h').
                let s2 = s1\<lparr>parser := p\<lparr>current_chunk_header := Some h'\<rparr>\<rparr> in
                if \<not> ok then Inr (-1, False, s2)
                else Import_payload (s2\<lparr>chunk_map := (chunk_map s)(stream_id h' \<mapsto> h')\<rparr>)
                       parsed_bytes stream h'))
      else case GetParsedChunkHeader (parser s) of
        None \<Rightarrow> Inr (-1, False, s)
      | Some h \<Rightarrow>
          (case chunk_map s (stream_id h) of
             None \<Rightarrow> Inr (-1, False, s)
           | Some last_chunk \<Rightarrow> Import_payload s 0 (stream_of data) last_chunk))"

section \<open>Invariants\<close>

definition header_ok :: "chunk_header \<Rightarrow> bool" where
  "header_ok h \<longleftrightarrow> basic_header_size h \<in> {1, 2, 3} \<and> length (expected_type_3_header h) = 4"

definition entry_ok :: "chunk_header \<Rightarrow> bool" where
  "entry_ok h \<longleftrightarrow> header_ok h \<and> payload_size h = completed_length (completed h) \<and>
     unat (payload_size h) \<le> RTMP_MAX_PACKET_SIZE \<and> 0 < expected_payload_size h"

definition message_ok :: "rtmp_message \<Rightarrow> bool" where
  "message_ok m \<longleftrightarrow>
     length (msg_payload m) = unat (completed_length (completed (msg_header m))) \<and>
     length (msg_payload m) \<le> RTMP_MAX_PACKET_SIZE"

text \<open>
  The invariant: a positive chunk size of 32 bits, a parser that keeps its own, and in the map, under its own
  chunk stream id, headers whose sizes are in range; every queued message has the length its header
  announces, and none is longer than the limit.
\<close>

definition import_ok :: "import_chunk \<Rightarrow> bool" where
  "import_ok s \<longleftrightarrow>
     0 < import_chunk_size s \<and> import_chunk_size s < 2 ^ 32 \<and> parser_ok (parser s) \<and>
     (\<forall>csid h. chunk_map s csid = Some h \<longrightarrow>
        entry_ok h \<and> stream_id h = csid) \<and>
     list_all message_ok (queue_items (import_queue s))"

lemma import_ok_new: "0 < n \<Longrightarrow> n < 2 ^ 32 \<Longrightarrow> import_ok (new_import_chunk n)"
  by (simp add: import_ok_def new_import_chunk_def new_queue_def)

lemma parser_ok_header:
  "parser_ok p \<Longrightarrow> IsParseCompleted p \<Longrightarrow> \<exists>h. GetParsedChunkHeader p = Some h \<and> current_chunk_header p = Some h \<and> header_ok h"
  by (auto simp: parser_ok_def IsParseCompleted_def GetParsedChunkHeader_def header_ok_def)

section \<open>The steps of Import do not fault\<close>

abbreviation type_3_size :: "chunk_header \<Rightarrow> nat" where
  "type_3_size h \<equiv> basic_header_size h + (if is_extended h then 4 else 0)"

definition type_3_count :: "nat \<Rightarrow> chunk_header \<Rightarrow> nat" where
  "type_3_count cs h = unat (payload_size h - 1) div cs"

text \<open>
  The bytes to wait for. They are never zero, not even for an empty payload, whose \<open>payload_size - 1\<close>
  wraps to \<open>2 ^ 32 - 1\<close>.
\<close>

lemma expected_size_nonempty:
  assumes "0 < payload_size h" "unat (payload_size h) \<le> RTMP_MAX_PACKET_SIZE" "header_ok h"
  shows "unat (payload_size h + of_nat (type_3_count cs h) * of_nat (type_3_size h)) =
    unat (payload_size h) + (unat (payload_size h) - 1) div cs * type_3_size h"
    and "type_3_count cs h = (unat (payload_size h) - 1) div cs"
    and "0 \<le> sint (of_nat (type_3_count cs h) :: u32)"
proof -
  let ?p = "unat (payload_size h)"
  have p: "0 < ?p" using assms(1) by (simp add: word_less_nat_alt)
  have u: "unat (payload_size h - 1) = ?p - 1"
    using p by (simp add: unat_sub word_le_nat_alt)
  then show q: "type_3_count cs h = (?p - 1) div cs" by (simp add: type_3_count_def)
  have sz: "type_3_size h \<le> 7" using assms(3) by (auto simp: header_ok_def)
  have le: "type_3_count cs h \<le> ?p - 1"
    using q by (simp add: div_le_dividend)
  then have "type_3_count cs h * type_3_size h \<le> (?p - 1) * 7"
    using sz by (intro mult_le_mono)
  then have "?p + type_3_count cs h * type_3_size h < 2 ^ 32"
    using assms(2) by simp
  then show "unat (payload_size h + of_nat (type_3_count cs h) * of_nat (type_3_size h)) =
    ?p + (?p - 1) div cs * type_3_size h"
    unfolding q [symmetric] of_nat_mult [symmetric]
    by (simp only: unat_word_ariths unat_of_nat) (simp add: mod_add_right_eq)
  have "int (type_3_count cs h) < 2 ^ 31" using le assms(2) by simp
  then show "0 \<le> sint (of_nat (type_3_count cs h) :: u32)"
    by (simp add: signed_of_nat signed_take_bit_int_eq_self)
qed

lemma expected_size_empty:
  assumes "payload_size h = 0" "0 < cs" "cs < 2 ^ 32" "header_ok h"
    and "0 \<le> sint (of_nat (type_3_count cs h) :: u32)"
  shows "0 < payload_size h + (of_nat (type_3_count cs h) * of_nat (type_3_size h) :: u32)"
proof -
  let ?q = "type_3_count cs h"
  have q: "?q = (2 ^ 32 - 1) div cs" using assms(1)
    by (simp add: type_3_count_def unsigned_minus_1_eq_mask mask_eq_exp_minus_1)
  have "cs \<le> 2 ^ 32 - 1" using assms(3) by simp
  then have "0 < ?q" unfolding q using assms(2) by (simp add: div_greater_zero_iff)
  have q32: "?q < 2 ^ 32" unfolding q by (rule le_less_trans [OF div_le_dividend]) simp
  then have q31: "?q < 2 ^ 31"
    using assms(5) by (rule sint_of_nat_nonneg)
  have "unat (of_nat ?q * of_nat (type_3_size h) :: u32) = (?q * type_3_size h) mod 2 ^ 32"
    by (simp only: of_nat_mult [symmetric] unat_of_nat) simp
  moreover have "(?q * type_3_size h) mod 2 ^ 32 \<noteq> 0"
    using assms(4) \<open>0 < ?q\<close> q31 by (intro small_multiple_not_2_32) (auto simp: header_ok_def)
  ultimately show ?thesis
    using assms(1) by (simp add: word_less_nat_alt)
qed

text \<open>The bytes a continuation has to start with.\<close>

definition type_3_bytes :: "chunk_header \<Rightarrow> byte list" where
  "type_3_bytes h =
     (let e = expected_type_3_header h; sid = stream_id h - 64
      in if basic_header_size h = 1 then e[0 := 0xC0 OR ucast (stream_id h AND 0x3F)]
         else if basic_header_size h = 2 then e[0 := 0xC0, 1 := ucast sid]
         else e[0 := 0xC1, 1 := ucast (sid AND 0xFF), 2 := ucast (drop_bit 16 sid AND 0xFF)])"

lemma length_type_3_bytes [simp]: "length (type_3_bytes h) = length (expected_type_3_header h)"
  by (simp add: type_3_bytes_def Let_def)

lemma CalculateForType3Header_eq:
  assumes "0 < cs" "header_ok h"
  shows "CalculateForType3Header cs h =
      Inr (0 \<le> sint (of_nat (type_3_count cs h) :: u32),
           h\<lparr>expected_type_3_header := type_3_bytes h,
             expected_payload_size := payload_size h + of_nat (type_3_count cs h) * of_nat (type_3_size h)\<rparr>)"
proof -
  from assms(2) consider "basic_header_size h = 1" | "basic_header_size h = 2" | "basic_header_size h = 3"
    by (auto simp: header_ok_def)
  then show ?thesis
    using assms
    by cases (simp_all add: CalculateForType3Header_def header_ok_def Let_def type_3_count_def type_3_bytes_def)
qed

lemma CalculateForType3Header_ok:
  assumes "0 < cs" "cs < 2 ^ 32" "header_ok h" "unat (payload_size h) \<le> RTMP_MAX_PACKET_SIZE"
  obtains ok h' where "CalculateForType3Header cs h = Inr (ok, h')" "header_ok h'"
    "stream_id h' = stream_id h" "payload_size h' = payload_size h" "completed h' = completed h"
    "ok \<Longrightarrow> 0 < expected_payload_size h'"
proof -
  let ?e = "payload_size h + of_nat (type_3_count cs h) * of_nat (type_3_size h) :: u32"
  have "0 < ?e" if "0 \<le> sint (of_nat (type_3_count cs h) :: u32)"
  proof (cases "payload_size h = 0")
    case True
    with assms that show ?thesis using expected_size_empty by blast
  next
    case False
    then have "0 < unat (payload_size h)" by (simp add: unat_gt_0)
    then show ?thesis
      using expected_size_nonempty(1) [of h cs] assms(3,4) False
      by (simp add: word_less_nat_alt)
  qed
  then show ?thesis
    using assms(3) CalculateForType3Header_eq [OF assms(1,3)]
    by (intro that [of "0 \<le> sint (of_nat (type_3_count cs h) :: u32)"
          "h\<lparr>expected_type_3_header := type_3_bytes h, expected_payload_size := ?e\<rparr>"])
      (simp_all add: header_ok_def)
qed

text \<open>
  What \<open>ProcessChunkHeader\<close> computes, apart from the header it fills: the completed values, or
  nothing for a chunk that continues an unknown chunk stream.
\<close>

definition completed_values :: "chunk_header \<Rightarrow> chunk_header option \<Rightarrow> completed_header option" where
  "completed_values h lc =
     (let delta = (if is_extended h then extended_timestamp h else ucast (hdr_timestamp (header h)))
      in case (format_type h, lc) of
        (T0, _) \<Rightarrow> Some \<lparr>completed_timestamp_delta = 0,
                   completed_timestamp = (case lc of None \<Rightarrow> uint delta
                     | Some l \<Rightarrow> CalculateRolledTimestamp (completed_timestamp (completed l)) (uint delta)),
                   completed_length = ucast (hdr_length (header h)),
                   completed_type_id = hdr_type_id (header h),
                   completed_stream_id = hdr_stream_id (header h)\<rparr>
      | (_, None) \<Rightarrow> None
      | (T1, Some l) \<Rightarrow> Some ((completed l)\<lparr>completed_timestamp_delta := delta,
                     completed_timestamp := completed_timestamp (completed l) + uint delta,
                     completed_length := ucast (hdr_length (header h)),
                     completed_type_id := hdr_type_id (header h)\<rparr>)
      | (T2, Some l) \<Rightarrow> Some ((completed l)\<lparr>completed_timestamp_delta := delta,
                     completed_timestamp := completed_timestamp (completed l) + uint delta\<rparr>)
      | (T3, Some l) \<Rightarrow> Some ((completed l)\<lparr>completed_timestamp :=
                     completed_timestamp (completed l) + uint (completed_timestamp_delta (completed l))\<rparr>))"

definition filled_header :: "chunk_header \<Rightarrow> completed_header \<Rightarrow> chunk_header" where
  "filled_header h c = RecalculateHeaderSize
     (h\<lparr>completed := c, message_header_size := sizeof_completed, payload_size := completed_length c\<rparr>)"

lemma filled_header_fields [simp]:
  "completed (filled_header h c) = c" "payload_size (filled_header h c) = completed_length c"
  "stream_id (filled_header h c) = stream_id h" "is_extended (filled_header h c) = is_extended h"
  "basic_header_size (filled_header h c) = basic_header_size h"
  "format_type (filled_header h c) = format_type h"
  "message_header_size (filled_header h c) = sizeof_completed"
  "expected_type_3_header (filled_header h c) = expected_type_3_header h"
  by (simp_all add: filled_header_def RecalculateHeaderSize_def)

lemma uint_ucast_24: "uint (ucast (w :: u24) :: u32) = uint w"
  by (simp add: uint_up_ucast is_up)

lemma ProcessChunkHeader_eq:
  "ProcessChunkHeader cs h lc =
     (case completed_values h lc of
        None \<Rightarrow> Inr (False, h)
      | Some c \<Rightarrow> if RTMP_MAX_PACKET_SIZE < unat (completed_length c) then Inr (False, filled_header h c)
                  else CalculateForType3Header cs (filled_header h c))"
  by (cases "format_type h"; cases lc)
     (simp_all add: ProcessChunkHeader_def completed_values_def filled_header_def Let_def uint_ucast_24
       RecalculateHeaderSize_def)

lemma ProcessChunkHeader_ok:
  assumes "0 < cs" "cs < 2 ^ 32" "header_ok h"
  obtains ok h' where "ProcessChunkHeader cs h lc = Inr (ok, h')" "header_ok h'"
    "stream_id h' = stream_id h"
    "ok \<Longrightarrow> payload_size h' = completed_length (completed h') \<and>
       unat (payload_size h') \<le> RTMP_MAX_PACKET_SIZE \<and> 0 < expected_payload_size h'"
proof (cases "completed_values h lc")
  case None
  with assms show ?thesis by (intro that [of False h]) (simp_all add: ProcessChunkHeader_eq)
next
  case (Some c)
  have ok: "header_ok (filled_header h c)"
    using assms by (simp add: header_ok_def)
  show ?thesis
  proof (cases "RTMP_MAX_PACKET_SIZE < unat (completed_length c)")
    case True
    with Some ok show ?thesis
      by (intro that [of False "filled_header h c"]) (simp_all add: ProcessChunkHeader_eq)
  next
    case False
    show ?thesis
    proof -
      have "unat (payload_size (filled_header h c)) \<le> RTMP_MAX_PACKET_SIZE" using False by simp
      then obtain r h' where r: "CalculateForType3Header cs (filled_header h c) = Inr (r, h')" "header_ok h'"
        "stream_id h' = stream_id h" "payload_size h' = completed_length c" "completed h' = c"
        "r \<Longrightarrow> 0 < expected_payload_size h'"
        using CalculateForType3Header_ok [OF assms(1,2) ok] by (metis filled_header_fields(1-3))
      with Some False show ?thesis
        by (intro that [of r h']) (simp_all add: ProcessChunkHeader_eq)
    qed
  qed
qed

text \<open>The turns of the loop over the payload.\<close>

lemma FinalizeMessage_loop_done [simp]: "FinalizeMessage_loop cs h cur started 0 acc = Inr (Some acc)"
  by (subst FinalizeMessage_loop.simps) simp

lemma FinalizeMessage_loop_first:
  assumes "0 < left" "min cs left \<le> length cur"
  shows "FinalizeMessage_loop cs h cur False left acc =
    FinalizeMessage_loop cs h (drop (min cs left) cur) True (left - min cs left) (acc @ take (min cs left) cur)"
  using assms by (subst FinalizeMessage_loop.simps) (simp add: Let_def)

lemma FinalizeMessage_loop_short:
  "0 < left \<Longrightarrow> left < type_3_size h \<Longrightarrow> FinalizeMessage_loop cs h cur True left acc = Inr None"
  by (subst FinalizeMessage_loop.simps) (simp add: Let_def)

definition type_3_matches :: "chunk_header \<Rightarrow> byte list \<Rightarrow> bool" where
  "type_3_matches h cur \<longleftrightarrow>
     take (basic_header_size h) cur = take (basic_header_size h) (expected_type_3_header h)"

lemma FinalizeMessage_loop_next:
  assumes "header_ok h" "type_3_size h \<le> left" "left \<le> length cur"
  shows "FinalizeMessage_loop cs h cur True left acc =
    (let hs = type_3_size h; rs = min cs (left - hs)
     in if type_3_matches h cur
        then FinalizeMessage_loop cs h (drop (hs + rs) cur) True (left - hs - rs) (acc @ take rs (drop hs cur))
        else Inr None)"
proof -
  have b: "1 \<le> basic_header_size h" "basic_header_size h \<le> 3" "length (expected_type_3_header h) = 4"
    using assms(1) by (auto simp: header_ok_def)
  have r: "read_bytes cur 0 (basic_header_size h) = Inr (take (basic_header_size h) cur)"
    "read_bytes (expected_type_3_header h) 0 (basic_header_size h) =
       Inr (take (basic_header_size h) (expected_type_3_header h))"
    "read_bytes (drop (type_3_size h) cur) 0 (min cs (left - type_3_size h)) =
       Inr (take (min cs (left - type_3_size h)) (drop (type_3_size h) cur))"
    using assms b by (auto intro!: read_bytes_in [THEN trans])
  show ?thesis
    by (subst FinalizeMessage_loop.simps) (use b assms(2) in \<open>simp add: Let_def r type_3_matches_def\<close>)
qed

lemma type_3_matches_append:
  "basic_header_size h \<le> length cur \<Longrightarrow> type_3_matches h (cur @ e) = type_3_matches h cur"
  by (simp add: type_3_matches_def)

text \<open>The loop reads nothing beyond the expected payload: it does not fault and ignores what follows.\<close>

lemma FinalizeMessage_loop_ok:
  assumes "header_ok h" "left \<le> length cur"
  shows "\<exists>r. FinalizeMessage_loop cs h cur started left acc = Inr r \<and>
     FinalizeMessage_loop cs h (cur @ e) started left acc = Inr r"
  using assms
proof (induction "2 * left + (if started then 0 else 1)" arbitrary: cur started left acc rule: less_induct)
  case less
  have b: "1 \<le> basic_header_size h"
    using less.prems(1) by (auto simp: header_ok_def)
  consider "left = 0" | "0 < left" "\<not> started" | "0 < left" "started" "left < type_3_size h"
    | "started" "type_3_size h \<le> left"
    by force
  then show ?case
  proof cases
    case 2
    have "\<exists>r. FinalizeMessage_loop cs h (drop (min cs left) cur) True (left - min cs left) (acc @ take (min cs left) cur) = Inr r \<and>
      FinalizeMessage_loop cs h (drop (min cs left) cur @ e) True (left - min cs left) (acc @ take (min cs left) cur) = Inr r"
      using 2 less.prems by (intro less.hyps) auto
    with 2 less.prems show ?thesis
      by (simp add: FinalizeMessage_loop_first)
  next
    case 4
    let ?hs = "type_3_size h" let ?rs = "min cs (left - ?hs)"
    have "\<exists>r. FinalizeMessage_loop cs h (drop (?hs + ?rs) cur) True (left - ?hs - ?rs) (acc @ take ?rs (drop ?hs cur)) = Inr r \<and>
      FinalizeMessage_loop cs h (drop (?hs + ?rs) cur @ e) True (left - ?hs - ?rs) (acc @ take ?rs (drop ?hs cur)) = Inr r"
      using 4 b less.prems by (intro less.hyps) auto
    moreover have "drop (?hs + ?rs) (cur @ e) = drop (?hs + ?rs) cur @ e"
      "take ?rs (drop ?hs (cur @ e)) = take ?rs (drop ?hs cur)"
      using 4 less.prems by auto
    moreover have "left \<le> length (cur @ e)" "basic_header_size h \<le> length cur"
      using 4 less.prems by auto
    ultimately show ?thesis
      using 4 less.prems by (simp add: FinalizeMessage_loop_next Let_def type_3_matches_append)
  qed (simp_all add: FinalizeMessage_loop_short)
qed

lemma FinalizeMessage_ok:
  assumes "header_ok h" "unat (expected_payload_size h) \<le> length cur"
  shows "\<exists>r. FinalizeMessage cs h cur = Inr r \<and> FinalizeMessage cs h (cur @ e) = Inr r \<and>
     (\<forall>m. r = Some m \<longrightarrow> msg_header m = h \<and> length (msg_payload m) = unat (payload_size h))"
  using FinalizeMessage_loop_ok [OF assms, of cs False "[]" e]
  by (auto simp: FinalizeMessage_def split: option.splits)

section \<open>Import as a function of the data\<close>

text \<open>
  The same function without faults: \<open>finalized\<close> and \<open>processed\<close> are the values of the two helpers,
  \<open>import_spec\<close> the return value, \<open>is_completed\<close> and the state after one call.
\<close>

definition finalized :: "nat \<Rightarrow> chunk_header \<Rightarrow> byte list \<Rightarrow> rtmp_message option" where
  "finalized cs h bs = (case FinalizeMessage cs h bs of Inr r \<Rightarrow> r | Inl _ \<Rightarrow> None)"

definition processed :: "nat \<Rightarrow> chunk_header \<Rightarrow> chunk_header option \<Rightarrow> bool \<times> chunk_header" where
  "processed cs h lc = (case ProcessChunkHeader cs h lc of Inr r \<Rightarrow> r | Inl _ \<Rightarrow> (False, h))"

definition payload_spec ::
    "import_chunk \<Rightarrow> nat \<Rightarrow> chunk_header \<Rightarrow> byte list \<Rightarrow> int \<times> bool \<times> import_chunk" where
  "payload_spec s n h bs =
     (if length bs < unat (expected_payload_size h) then (int n, False, s)
      else case finalized (import_chunk_size s) h bs of
        None \<Rightarrow> (-1, False, s)
      | Some m \<Rightarrow> (int (n + unat (expected_payload_size h)), True,
                   s\<lparr>import_queue := Enqueue m (import_queue s), parser := Reset\<rparr>))"

definition import_spec :: "import_chunk \<Rightarrow> byte list \<Rightarrow> int \<times> bool \<times> import_chunk" where
  "import_spec s d =
     (if \<not> IsParseCompleted (parser s) then
        let (n, p) = parse_spec (chunk_map s) (parser s) d
        in if \<not> IsParseCompleted p then (int n, False, s\<lparr>parser := p\<rparr>)
           else let h = the (current_chunk_header p);
                    (ok, h') = processed (import_chunk_size s) h (chunk_map s (stream_id h));
                    s' = s\<lparr>parser := p\<lparr>current_chunk_header := Some h'\<rparr>\<rparr>
                in if \<not> ok then (-1, False, s')
                   else payload_spec (s'\<lparr>chunk_map := (chunk_map s)(stream_id h' \<mapsto> h')\<rparr>) n h' (drop n d)
      else case chunk_map s (stream_id (the (current_chunk_header (parser s)))) of
             None \<Rightarrow> (-1, False, s)
           | Some h \<Rightarrow> payload_spec s 0 h d)"

lemma FinalizeMessage_finalized:
  "header_ok h \<Longrightarrow> unat (expected_payload_size h) \<le> length cur \<Longrightarrow>
   FinalizeMessage cs h cur = Inr (finalized cs h cur)"
  using FinalizeMessage_ok [of h cur cs "[]"] by (auto simp: finalized_def)

lemma ProcessChunkHeader_processed:
  "0 < cs \<Longrightarrow> cs < 2 ^ 32 \<Longrightarrow> header_ok h \<Longrightarrow> ProcessChunkHeader cs h lc = Inr (processed cs h lc)"
  by (erule (2) ProcessChunkHeader_ok [of cs h lc]) (simp add: processed_def)

lemma Import_payload_eq:
  assumes "header_ok h" "stream_ok st" "n + length (GetRemainData st) < 2 ^ 31"
  shows "Import_payload s (int n) st h = Inr (payload_spec s n h (GetRemainData st))"
proof -
  let ?bs = "GetRemainData st" and ?e = "unat (expected_payload_size h)"
  show ?thesis
  proof (cases "?e \<le> length ?bs")
    case True
    then have "to_int32 (int (n + ?e)) = int (n + ?e)"
      using assms(3) by (intro to_int32_nat) linarith
    then have "to_int32 (int n + uint (expected_payload_size h)) = int (n + ?e)"
      by simp
    with True assms(1,2) show ?thesis
      by (simp add: Import_payload_def payload_spec_def FinalizeMessage_finalized split: option.split)
  next
    case False
    moreover have "to_int32 (int n) = int n" using assms(3) by simp
    ultimately show ?thesis
      using assms(2) by (simp add: Import_payload_def payload_spec_def)
  qed
qed

lemma Parse_Import:
  assumes "parser_ok p" "\<not> IsParseCompleted p"
  shows "\<exists>st. Parse m p (stream_of d) = Inr (int (fst (parse_spec m p d)), snd (parse_spec m p d), st) \<and>
     (IsParseCompleted (snd (parse_spec m p d)) \<longrightarrow> stream_ok st \<and> GetRemainData st = drop (fst (parse_spec m p d)) d)"
proof -
  have "d \<noteq> []" if "IsParseCompleted (snd (parse_spec m p d))"
    using that assms(2) by (cases "parse_status p") (auto simp: parse_spec_def IsParseCompleted_def)
  with Parse_refines [OF stream_ok_stream_of assms(1), of d m] show ?thesis
    using parse_spec_bound [of m p d] by (auto simp: parse_result_ok_def)
qed

lemma Import_eq:
  assumes "import_ok s" "length d < 2 ^ 31"
  shows "Import s d = Inr (import_spec s d)"
proof (cases "IsParseCompleted (parser s)")
  case False
  obtain n p where np: "parse_spec (chunk_map s) (parser s) d = (n, p)" by force
  have ok: "parser_ok (parser s)" "0 < import_chunk_size s" "import_chunk_size s < 2 ^ 32"
    using assms by (simp_all add: import_ok_def)
  obtain st where st: "Parse (chunk_map s) (parser s) (stream_of d) = Inr (int n, p, st)"
    "IsParseCompleted p \<Longrightarrow> stream_ok st \<and> GetRemainData st = drop n d"
    using Parse_Import [OF ok(1) False, of "chunk_map s" d] np by auto
  have n: "n \<le> length d"
    using parse_spec_bound [of "chunk_map s" "parser s" d] np by simp
  show ?thesis
  proof (cases "IsParseCompleted p")
    case True
    have pok: "parser_ok p"
      using parse_spec_ok [OF ok(1), of "chunk_map s" d] np by simp
    obtain h where h: "GetParsedChunkHeader p = Some h" "current_chunk_header p = Some h" "header_ok h"
      using parser_ok_header [OF pok True] by blast
    obtain ok h' where pr: "ProcessChunkHeader (import_chunk_size s) h (chunk_map s (stream_id h)) = Inr (ok, h')"
      "header_ok h'"
      by (rule ProcessChunkHeader_ok [OF ok(2,3) h(3)])
    have "Import_payload s' (int n) st h' = Inr (payload_spec s' n h' (drop n d))" for s'
      using Import_payload_eq [of h' st n s'] st(2) [OF True] pr(2) n assms(2) by auto
    then show ?thesis
      using False True pr n assms(2)
      by (simp add: Import_def import_spec_def np st h Let_def processed_def)
  qed (use n assms(2) False in \<open>simp add: Import_def import_spec_def np st Let_def\<close>)
next
  case True
  from assms(1) have "parser_ok (parser s)" by (simp add: import_ok_def)
  with True obtain h where h: "GetParsedChunkHeader (parser s) = Some h" "current_chunk_header (parser s) = Some h"
    using parser_ok_header by blast
  have "Import_payload s 0 (stream_of d) lc = Inr (payload_spec s 0 lc d)"
    if "chunk_map s (stream_id h) = Some lc" for lc
    using Import_payload_eq [of lc "stream_of d" 0 s] that assms by (auto simp: import_ok_def entry_ok_def)
  with True show ?thesis
    by (auto simp: Import_def import_spec_def h split: option.splits)
qed

end
