(* ===== verification/Incremental_Reader.thy ===== *)
theory Incremental_Reader
  imports Engine_Prelude
begin

text \<open>
  Reading a byte stream that arrives in pieces. A step looks at the bytes at hand and gives the
  number it consumed (negative on failure), whether it finished an item, and the state; \<open>read_all\<close>
  is the loop that a receiver runs over a buffer, with a handler for finished items. The locale
  \<open>incremental_reader\<close> is the contract of a step that makes the cut between two pieces invisible.
\<close>

type_synonym 's step = "'s \<Rightarrow> byte list \<Rightarrow> int \<times> bool \<times> 's"

text \<open>\<open>None\<close> for the rest: a step or the handler failed.\<close>

function read_all :: "'s step \<Rightarrow> ('s \<Rightarrow> 's option) \<Rightarrow> 's \<Rightarrow> byte list \<Rightarrow> 's \<times> byte list option" where
  "read_all step handle s d =
     (if d = [] then (s, Some [])
      else case step s d of (n, finished, s') \<Rightarrow>
        if n = 0 then (s', Some d)
        else if n < 0 then (s', None)
        else if finished then
          (case handle s' of
             None \<Rightarrow> (s', None)
           | Some s'' \<Rightarrow> read_all step handle s'' (drop (nat n) d))
        else read_all step handle s' (drop (nat n) d))"
  by pat_completeness auto
termination
  by (relation "measure (\<lambda>(_, _, _, d). length d)") auto

declare read_all.simps [simp del]

lemma read_all_Nil [simp]: "read_all step handle s [] = (s, Some [])"
  by (subst read_all.simps) simp

text \<open>A receiver that keeps what is left of a piece in front of the next one.\<close>

fun read_pieces ::
    "'s step \<Rightarrow> ('s \<Rightarrow> 's option) \<Rightarrow> 's \<Rightarrow> byte list \<Rightarrow> byte list list \<Rightarrow> 's \<times> byte list option" where
  "read_pieces step handle s rest [] = (s, Some rest)"
| "read_pieces step handle s rest (p # ps) =
     (case read_all step handle s (rest @ p) of
        (s', None) \<Rightarrow> (s', None)
      | (s', Some rest') \<Rightarrow> read_pieces step handle s' rest' ps)"

text \<open>The result of a step after \<open>n\<close> bytes that an earlier step consumed.\<close>

definition add_count :: "int \<Rightarrow> int \<times> bool \<times> 's \<Rightarrow> int \<times> bool \<times> 's" where
  "add_count n r = (case r of (k, finished, s) \<Rightarrow> (if k < 0 then k else n + k, finished, s))"

lemma add_count_0 [simp]: "add_count 0 r = r"
  by (cases r) (simp add: add_count_def)

lemma add_count_add: "0 \<le> b \<Longrightarrow> add_count a (add_count b r) = add_count (a + b) r"
  by (cases r) (simp add: add_count_def)

locale incremental_reader =
  fixes ok :: "'s \<Rightarrow> bool"
    and step :: "'s step"
    and handle :: "'s \<Rightarrow> 's option"
  assumes step_ok: "ok s \<Longrightarrow> step s d = (n, finished, s') \<Longrightarrow> ok s'"
    and handle_ok: "ok s \<Longrightarrow> handle s = Some s' \<Longrightarrow> ok s'"
    and step_bound: "ok s \<Longrightarrow> step s d = (n, finished, s') \<Longrightarrow> n \<le> int (length d)"
    and finished_progress: "ok s \<Longrightarrow> step s d = (n, True, s') \<Longrightarrow> 0 < n"
    and step_settled: "ok s \<Longrightarrow> step s d = (n, finished, s') \<Longrightarrow> n < 0 \<or> finished \<Longrightarrow>
      step s (d @ e) = (n, finished, s')"
    and step_resume: "ok s \<Longrightarrow> step s d = (n, False, s') \<Longrightarrow> 0 \<le> n \<Longrightarrow>
      step s (d @ e) = add_count n (step s' (drop (nat n) d @ e))"
begin

lemma step_again:
  assumes "ok s" "step s d = (0, False, s')"
  shows "step s' d = (0, False, s')"
  using step_resume [OF assms, of "[]"] assms(2) by simp

lemma read_all_again:
  assumes "ok s" "step s d = (0, False, s')"
  shows "read_all step handle s' d = (s', Some d)"
  using step_again [OF assms] by (subst read_all.simps) simp

text \<open>A step that stopped for want of data can be taken before the rest of the data arrives.\<close>

lemma read_all_resume:
  assumes "ok s" "step s d = (n, False, s')" "0 \<le> n" "d \<noteq> []"
  shows "read_all step handle s (d @ e) = read_all step handle s' (drop (nat n) d @ e)"
proof -
  have ok': "ok s'" using step_ok [OF assms(1,2)] .
  define x where "x = drop (nat n) d @ e"
  obtain k fin t where k: "step s' x = (k, fin, t)" by (metis prod_cases3)
  have all: "step s (d @ e) = (if k < 0 then k else n + k, fin, t)"
    using step_resume [OF assms(1-3), of e] k by (simp add: add_count_def x_def)
  have n: "nat n \<le> length d"
    using step_bound [OF assms(1,2)] by simp
  then have x: "drop (nat n) (d @ e) = x"
    by (simp add: x_def)
  have "read_all step handle s (d @ e) = read_all step handle s' x"
  proof (cases "x = []")
    case True
    then have "e = []" "drop (nat n) d = []" by (simp_all add: x_def)
    then show ?thesis
      using assms(2-4) True by (subst read_all.simps) auto
  next
    case False
    consider "k < 0" | "k = 0" | "0 < k" by linarith
    then show ?thesis
    proof cases
      case 1
      with False k all assms(4) show ?thesis
        by (subst read_all.simps, subst (2) read_all.simps) simp
    next
      case 2
      then have fin: "\<not> fin" using finished_progress [OF ok', of x k t] k by auto
      then have stop: "read_all step handle t x = (t, Some x)"
        using read_all_again [OF ok', of x t] k 2 by simp
      have "read_all step handle s' x = (t, Some x)"
        using k 2 False by (subst read_all.simps) simp
      moreover have "read_all step handle s (d @ e) = (t, Some x)"
      proof (cases "n = 0")
        case True
        then have "d @ e = x" by (simp add: x_def)
        with True all 2 fin assms(4) show ?thesis
          by (subst read_all.simps) auto
      next
        case False
        with all 2 fin assms(3,4) stop show ?thesis
          by (subst read_all.simps) (simp del: drop_append add: x)
      qed
      ultimately show ?thesis by simp
    next
      case 3
      have "drop (nat (n + k)) (d @ e) = drop (nat k) x"
        using 3 assms(3) x by (simp del: drop_append add: nat_add_distrib add.commute flip: drop_drop)
      with 3 False k all assms(3,4) show ?thesis
        by (subst read_all.simps, subst (2) read_all.simps) (auto simp del: drop_append split: option.splits)
    qed
  qed
  then show ?thesis by (simp add: x_def)
qed

text \<open>However the data is cut, reading the pieces in order is reading it at once.\<close>

lemma read_all_append:
  assumes "ok s"
  shows "read_all step handle s (d @ e) =
    (case read_all step handle s d of
       (s', None) \<Rightarrow> (s', None)
     | (s', Some rest) \<Rightarrow> read_all step handle s' (rest @ e))"
  using assms
proof (induction "length d" arbitrary: s d rule: less_induct)
  case less
  show ?case
  proof (cases "d = []")
    case False
    obtain n fin s' where st: "step s d = (n, fin, s')" by (metis prod_cases3)
    note ok' = step_ok [OF less.prems st]
    have n: "n \<le> int (length d)" using step_bound [OF less.prems st] .
    consider "n < 0" | "fin" "0 < n" | "\<not> fin" "n = 0" | "\<not> fin" "0 < n"
      using finished_progress [OF less.prems, of d n s'] st by (cases fin) force+
    then show ?thesis
    proof cases
      case 1
      then show ?thesis
        using False st step_settled [OF less.prems st, of e]
        by (subst read_all.simps, subst (2) read_all.simps) simp
    next
      case 2
      have IH: "ok t \<Longrightarrow> read_all step handle t (drop (nat n) d @ e) =
        (case read_all step handle t (drop (nat n) d) of
           (s', None) \<Rightarrow> (s', None)
         | (s', Some rest) \<Rightarrow> read_all step handle s' (rest @ e))" for t
        using 2 False by (intro less.hyps) auto
      have cut: "drop (nat n) (d @ e) = drop (nat n) d @ e"
        using n by simp
      have l: "read_all step handle s (d @ e) = (case handle s' of None \<Rightarrow> (s', None)
          | Some s'' \<Rightarrow> read_all step handle s'' (drop (nat n) d @ e))"
        using 2 False cut step_settled [OF less.prems st, of e]
        by (subst read_all.simps) (simp del: drop_append split: option.split)
      have r: "read_all step handle s d = (case handle s' of None \<Rightarrow> (s', None)
          | Some s'' \<Rightarrow> read_all step handle s'' (drop (nat n) d))"
        using 2 False st by (subst read_all.simps) simp
      show ?thesis
        using IH handle_ok [OF ok'] by (simp add: l r split: option.split)
    next
      case 3
      then have "read_all step handle s d = (s', Some d)"
        using False st by (subst read_all.simps) simp
      then show ?thesis
        using read_all_resume [OF less.prems, of d n s' e] st 3 False by simp
    next
      case 4
      have "read_all step handle s d = read_all step handle s' (drop (nat n) d)"
        using 4 False st by (subst read_all.simps) simp
      moreover have "read_all step handle s (d @ e) = read_all step handle s' (drop (nat n) d @ e)"
        using read_all_resume [OF less.prems, of d n s' e] st 4 False by simp
      moreover have "length (drop (nat n) d) < length d" using 4 False by simp
      ultimately show ?thesis
        using less.hyps [of "drop (nat n) d" s'] ok' by (simp del: drop_append)
    qed
  qed simp
qed

lemma read_all_ok: "ok s \<Longrightarrow> ok (fst (read_all step handle s d))"
proof (induction "length d" arbitrary: s d rule: less_induct)
  case less
  show ?case
  proof (cases "d = []")
    case False
    obtain n fin s' where st: "step s d = (n, fin, s')" by (metis prod_cases3)
    note ok' = step_ok [OF less.prems st]
    have "0 < n \<Longrightarrow> ok t \<Longrightarrow> ok (fst (read_all step handle t (drop (nat n) d)))" for t
      using False by (intro less.hyps) auto
    moreover have "handle s' = Some t \<Longrightarrow> ok t" for t
      using handle_ok [OF ok'] .
    ultimately show ?thesis
      using False st ok' by (subst read_all.simps) (simp split: option.split)
  qed (use less.prems in simp)
qed

lemma read_all_stable:
  assumes "ok s" "read_all step handle s d = (s', Some r)"
  shows "read_all step handle s' r = (s', Some r)"
  using read_all_append [OF assms(1), of d "[]"] assms(2) by simp

lemma read_pieces_concat:
  "ok s \<Longrightarrow> read_all step handle s r = (s, Some r) \<Longrightarrow>
   read_pieces step handle s r ps = read_all step handle s (r @ concat ps)"
proof (induction ps arbitrary: s r)
  case (Cons p ps)
  obtain s' r' where a: "read_all step handle s (r @ p) = (s', r')" by force
  have ok': "ok s'" using read_all_ok [OF Cons.prems(1), of "r @ p"] a by simp
  have "read_all step handle s (r @ concat (p # ps)) =
      (case r' of None \<Rightarrow> (s', None) | Some x \<Rightarrow> read_all step handle s' (x @ concat ps))"
    using read_all_append [OF Cons.prems(1), of "r @ p" "concat ps"] a by simp
  moreover have "r' = Some x \<Longrightarrow> read_pieces step handle s' x ps = read_all step handle s' (x @ concat ps)" for x
    using Cons.IH [OF ok'] read_all_stable [OF Cons.prems(1)] a by simp
  ultimately show ?case
    by (simp add: a split: option.split)
qed simp

text \<open>Receiving pieces is reading their concatenation.\<close>

lemma read_pieces_eq: "ok s \<Longrightarrow> read_pieces step handle s [] ps = read_all step handle s (concat ps)"
  using read_pieces_concat [of s "[]" ps] by simp

end

end
