(* ===== verification/Import_Stream.thy ===== *)
theory Import_Stream
  imports Import_Chunk Incremental_Reader
begin

text \<open>
  What \<^verbatim>\<open>RtmpImportChunk::Import\<close> promises to the loop of \<^verbatim>\<open>RtmpStream::ReceiveChunkPacket\<close>: it keeps
  its invariant, consumes no more than it is given, finishes a message only by consuming bytes, and
  a call that stops for want of data can be continued when more has come. These are the laws of
  \<open>incremental_reader\<close>.
\<close>

section \<open>The invariant is kept\<close>

lemma GetParsed_current: "IsParseCompleted p \<Longrightarrow> GetParsedChunkHeader p = current_chunk_header p"
  by (simp add: GetParsedChunkHeader_def)

lemma finalized_message:
  assumes "header_ok h" "unat (expected_payload_size h) \<le> length bs" "finalized cs h bs = Some m"
  shows "msg_header m = h" "length (msg_payload m) = unat (payload_size h)"
  using FinalizeMessage_ok [OF assms(1,2), of cs "[]"] assms(3) by (auto simp: finalized_def)

lemma finalized_append:
  assumes "header_ok h" "unat (expected_payload_size h) \<le> length bs"
  shows "finalized cs h (bs @ e) = finalized cs h bs"
  using FinalizeMessage_ok [OF assms, of cs e] by (auto simp: finalized_def)

lemma import_ok_entry: "import_ok s \<Longrightarrow> chunk_map s csid = Some h \<Longrightarrow> entry_ok h \<and> stream_id h = csid"
  by (auto simp: import_ok_def)

lemma payload_spec_cases:
  assumes "entry_ok h" "payload_spec s n h bs = (k, fin, s')"
  obtains (wait) "length bs < unat (expected_payload_size h)" "k = int n" "\<not> fin" "s' = s"
  | (bad) "unat (expected_payload_size h) \<le> length bs" "k = -1" "\<not> fin" "s' = s"
      "finalized (import_chunk_size s) h bs = None"
  | (good) m where "unat (expected_payload_size h) \<le> length bs" "fin"
      "k = int (n + unat (expected_payload_size h))" "finalized (import_chunk_size s) h bs = Some m"
      "message_ok m" "s' = s\<lparr>import_queue := Enqueue m (import_queue s), parser := Reset\<rparr>"
proof (cases "length bs < unat (expected_payload_size h)")
  case True
  with assms show ?thesis by (intro wait) (auto simp: payload_spec_def)
next
  case False
  then have le: "unat (expected_payload_size h) \<le> length bs" by simp
  show ?thesis
  proof (cases "finalized (import_chunk_size s) h bs")
    case None
    with False assms show ?thesis by (intro bad) (auto simp: payload_spec_def)
  next
    case (Some m)
    have "message_ok m"
      using finalized_message [OF _ le Some] assms(1) by (auto simp: message_ok_def entry_ok_def)
    with Some False assms show ?thesis by (intro good [of m]) (auto simp: payload_spec_def)
  qed
qed

lemma import_ok_parser: "import_ok s \<Longrightarrow> parser_ok p \<Longrightarrow> import_ok (s\<lparr>parser := p\<rparr>)"
  by (simp add: import_ok_def)

lemma import_ok_map:
  "import_ok s \<Longrightarrow> entry_ok h \<Longrightarrow> import_ok (s\<lparr>chunk_map := (chunk_map s)(stream_id h \<mapsto> h)\<rparr>)"
  by (auto simp: import_ok_def)

lemma import_ok_message:
  "import_ok s \<Longrightarrow> message_ok m \<Longrightarrow>
   import_ok (s\<lparr>import_queue := Enqueue m (import_queue s), parser := Reset\<rparr>)"
  by (auto simp: import_ok_def Enqueue_def)

lemma payload_spec_ok:
  "import_ok s \<Longrightarrow> entry_ok h \<Longrightarrow> payload_spec s n h bs = (k, fin, s') \<Longrightarrow> import_ok s'"
  by (erule (1) payload_spec_cases) (auto simp: import_ok_message)

lemma processed_entry:
  assumes "0 < cs" "cs < 2 ^ 32" "header_ok h" "processed cs h lc = (ok, h')"
  shows "header_ok h'" "stream_id h' = stream_id h" "ok \<Longrightarrow> entry_ok h'"
  using assms(4) by (auto simp: processed_def entry_ok_def intro: ProcessChunkHeader_ok [OF assms(1-3), of lc])

lemma parser_ok_completed:
  "parser_ok p \<Longrightarrow> IsParseCompleted p \<Longrightarrow> header_ok h \<Longrightarrow> parser_ok (p\<lparr>current_chunk_header := Some h\<rparr>)"
  by (auto simp: parser_ok_def header_ok_def IsParseCompleted_def)

text \<open>The four ways a call can go.\<close>

lemma import_spec_cases:
  assumes ok: "import_ok s" and r: "import_spec s d = r"
  obtains (header) n p where "\<not> IsParseCompleted (parser s)"
      "parse_spec (chunk_map s) (parser s) d = (n, p)" "\<not> IsParseCompleted p"
      "r = (int n, False, s\<lparr>parser := p\<rparr>)"
  | (refused) n p h' where "\<not> IsParseCompleted (parser s)"
      "parse_spec (chunk_map s) (parser s) d = (n, p)" "IsParseCompleted p"
      "processed (import_chunk_size s) (the (current_chunk_header p))
         (chunk_map s (stream_id (the (current_chunk_header p)))) = (False, h')"
      "r = (-1, False, s\<lparr>parser := p\<lparr>current_chunk_header := Some h'\<rparr>\<rparr>)" "import_ok (snd (snd r))"
  | (accepted) n p h' s1 where "\<not> IsParseCompleted (parser s)"
      "parse_spec (chunk_map s) (parser s) d = (n, p)" "IsParseCompleted p"
      "processed (import_chunk_size s) (the (current_chunk_header p))
         (chunk_map s (stream_id (the (current_chunk_header p)))) = (True, h')"
      "s1 = s\<lparr>parser := p\<lparr>current_chunk_header := Some h'\<rparr>, chunk_map := (chunk_map s)(stream_id h' \<mapsto> h')\<rparr>"
      "import_ok s1" "entry_ok h'" "n \<le> length d" "r = payload_spec s1 n h' (drop n d)"
  | (lost) h where "IsParseCompleted (parser s)" "current_chunk_header (parser s) = Some h"
      "chunk_map s (stream_id h) = None" "r = (-1, False, s)"
  | (payload) h lc where "IsParseCompleted (parser s)" "current_chunk_header (parser s) = Some h"
      "chunk_map s (stream_id h) = Some lc" "entry_ok lc" "r = payload_spec s 0 lc d"
proof (cases "IsParseCompleted (parser s)")
  case False
  obtain n p where np: "parse_spec (chunk_map s) (parser s) d = (n, p)" by force
  have pok: "parser_ok p" and n: "n \<le> length d"
    using parse_spec_ok [of "parser s" "chunk_map s" d] parse_spec_bound [of "chunk_map s" "parser s" d] ok np
    by (auto simp: import_ok_def)
  have cs: "0 < import_chunk_size s" "import_chunk_size s < 2 ^ 32"
    using ok by (simp_all add: import_ok_def)
  show ?thesis
  proof (cases "IsParseCompleted p")
    case True
    then obtain h where h: "current_chunk_header p = Some h" "header_ok h"
      using parser_ok_header [OF pok] by blast
    obtain fine h' where pr: "processed (import_chunk_size s) h (chunk_map s (stream_id h)) = (fine, h')" by force
    note entry = processed_entry [OF cs h(2) pr]
    let ?p = "p\<lparr>current_chunk_header := Some h'\<rparr>"
    have ok1: "import_ok (s\<lparr>parser := ?p\<rparr>)"
      using ok parser_ok_completed [OF pok True entry(1)] by (rule import_ok_parser)
    show ?thesis
    proof (cases fine)
      case True
      then show ?thesis
        using import_ok_map [OF ok1 entry(3)] entry \<open>IsParseCompleted p\<close> False np pr h n r [symmetric]
        by (intro accepted [of n p h']) (simp_all add: import_spec_def)
    next
      case False
      then show ?thesis
        using ok1 \<open>IsParseCompleted p\<close> \<open>\<not> IsParseCompleted (parser s)\<close> np pr h r [symmetric]
        by (intro refused [of n p h']) (simp_all add: import_spec_def)
    qed
  next
    case False
    then show ?thesis
      using \<open>\<not> IsParseCompleted (parser s)\<close> np r [symmetric] by (intro header) (simp_all add: import_spec_def)
  qed
next
  case True
  then obtain h where h: "current_chunk_header (parser s) = Some h"
    using ok parser_ok_header [of "parser s"] by (auto simp: import_ok_def)
  show ?thesis
  proof (cases "chunk_map s (stream_id h)")
    case None
    then show ?thesis using True h r by (intro lost) (simp_all add: import_spec_def)
  next
    case (Some lc)
    then show ?thesis
      using True h r [symmetric] import_ok_entry [OF ok Some] by (intro payload) (simp_all add: import_spec_def)
  qed
qed

lemma import_spec_ok:
  assumes "import_ok s" "import_spec s d = (k, fin, s')"
  shows "import_ok s'"
  using assms
proof (cases rule: import_spec_cases)
  case (header n p)
  have "parser_ok p"
    using assms(1) parse_spec_ok [of "parser s" "chunk_map s" d] header(2) by (simp add: import_ok_def)
  with header(4) import_ok_parser [OF assms(1)] show ?thesis by simp
next
  case (accepted n p h' s1)
  then show ?thesis using payload_spec_ok [of s1 h' n "drop n d" k fin s'] by auto
next
  case (payload h lc)
  then show ?thesis using payload_spec_ok [OF assms(1), of lc 0 d k fin s'] by auto
qed (use assms in auto)

text \<open>What a call changes apart from the parser and the map.\<close>

lemma import_spec_effect:
  assumes "import_ok s" "import_spec s d = (k, fin, s')"
  shows "import_chunk_size s' = import_chunk_size s \<and>
    (if fin then \<exists>m. import_queue s' = Enqueue m (import_queue s) \<and> message_ok m
     else import_queue s' = import_queue s)"
  using assms
proof (cases rule: import_spec_cases)
  case (accepted n p h' s1)
  then show ?thesis
    by (cases rule: payload_spec_cases [OF accepted(7) accepted(9) [symmetric]]) auto
next
  case (payload h lc)
  then show ?thesis
    by (cases rule: payload_spec_cases [OF payload(4) payload(5) [symmetric]]) auto
qed auto

section \<open>Bounds and progress\<close>

lemma payload_spec_bound:
  assumes "entry_ok h" "n \<le> length d" "payload_spec s n h (drop n d) = (k, fin, s')"
  shows "- 1 \<le> k \<and> k \<le> int (length d) \<and> (fin \<longrightarrow> 0 < k)"
proof -
  define e where "e = unat (expected_payload_size h)"
  have "0 < e" using assms(1) by (simp add: e_def entry_ok_def word_less_nat_alt)
  with assms(2) show ?thesis
    by (cases rule: payload_spec_cases [OF assms(1,3)]) (auto simp flip: e_def simp del: of_nat_add)
qed

lemma import_spec_bound:
  assumes "import_ok s" "import_spec s d = (k, fin, s')"
  shows "- 1 \<le> k" "k \<le> int (length d)" "fin \<Longrightarrow> 0 < k"
proof -
  have "- 1 \<le> k \<and> k \<le> int (length d) \<and> (fin \<longrightarrow> 0 < k)"
    using assms
  proof (cases rule: import_spec_cases)
    case (header n p)
    with parse_spec_bound [of "chunk_map s" "parser s" d] show ?thesis by auto
  next
    case (accepted n p h' s1)
    then show ?thesis
      using payload_spec_bound [OF accepted(7,8) accepted(9) [symmetric]] by simp
  next
    case (payload h lc)
    then show ?thesis
      using payload_spec_bound [of lc 0 d s k fin s'] by simp
  qed auto
  then show "- 1 \<le> k" "k \<le> int (length d)" "fin \<Longrightarrow> 0 < k" by auto
qed

section \<open>Stopping and going on\<close>

lemma payload_spec_add:
  "payload_spec s n h bs = add_count (int n) (payload_spec s 0 h bs)"
  by (auto simp: payload_spec_def add_count_def split: option.split)

lemma payload_spec_settled:
  assumes "entry_ok h" "payload_spec s n h bs = (k, fin, s')" "k < 0 \<or> fin"
  shows "payload_spec s n h (bs @ e) = (k, fin, s')"
  using assms(2,3) finalized_append [of h bs "import_chunk_size s" e] assms(1)
  by (auto simp: payload_spec_def entry_ok_def split: if_splits option.splits)

lemma payload_spec_waits:
  assumes "payload_spec s n h bs = (k, fin, s')" "0 \<le> k" "\<not> fin"
  shows "k = int n" "s' = s"
  using assms by (auto simp: payload_spec_def split: if_splits option.splits)

lemma import_spec_parsed:
  assumes "\<not> IsParseCompleted (parser s)" "parse_spec (chunk_map s) (parser s) d = (n, p)" "IsParseCompleted p"
  shows "import_spec s (d @ e) =
    (let h = the (current_chunk_header p);
         (ok, h') = processed (import_chunk_size s) h (chunk_map s (stream_id h));
         s' = s\<lparr>parser := p\<lparr>current_chunk_header := Some h'\<rparr>\<rparr>
     in if \<not> ok then (-1, False, s')
        else payload_spec (s'\<lparr>chunk_map := (chunk_map s)(stream_id h' \<mapsto> h')\<rparr>) n h' (drop n d @ e))"
proof -
  have "parse_spec (chunk_map s) (parser s) (d @ e) = (n, p)"
    using parse_spec_resume [OF assms(1), of "chunk_map s" d e] assms(2,3) by (simp add: continue_def)
  moreover have "drop n (d @ e) = drop n d @ e"
    using parse_spec_bound [of "chunk_map s" "parser s" d] assms(2) by simp
  ultimately show ?thesis
    using assms(1,3) by (simp del: drop_append add: import_spec_def Let_def split: prod.split)
qed

lemma import_spec_settled:
  assumes "import_ok s" "import_spec s d = (k, fin, s')" "k < 0 \<or> fin"
  shows "import_spec s (d @ e) = (k, fin, s')"
  using assms(1,2)
proof (cases rule: import_spec_cases)
  case (accepted n p h' s1)
  then show ?thesis
    using payload_spec_settled [OF accepted(7), of s1 n "drop n d" k fin s' e] assms(3)
    by (simp add: import_spec_parsed)
next
  case (payload h lc)
  then show ?thesis
    using payload_spec_settled [OF payload(4), of s 0 d k fin s' e] assms(3)
    by (simp add: import_spec_def)
next
  case (refused n p h')
  then show ?thesis by (simp add: import_spec_parsed)
qed (use assms(3) in \<open>auto simp: import_spec_def\<close>)

lemma import_spec_again:
  assumes "\<not> IsParseCompleted (parser s)" "parse_spec (chunk_map s) (parser s) d = (n, p)" "\<not> IsParseCompleted p"
  shows "import_spec s (d @ e) = add_count (int n) (import_spec (s\<lparr>parser := p\<rparr>) (drop n d @ e))"
proof -
  obtain n' p' where np': "parse_spec (chunk_map s) p (drop n d @ e) = (n', p')" by force
  have "parse_spec (chunk_map s) (parser s) (d @ e) = (n + n', p')"
    using parse_spec_resume [OF assms(1), of "chunk_map s" d e] assms(2,3) np' by (simp add: continue_def)
  moreover have "drop n' (drop n d @ e) = drop (n + n') (d @ e)"
    using parse_spec_bound [of "chunk_map s" "parser s" d] assms(2) by (simp add: add.commute)
  ultimately show ?thesis
    using assms(1,3) np'
    by (simp del: drop_append add: import_spec_def Let_def payload_spec_add [of _ "n + n'"]
        payload_spec_add [of _ n'] add_count_add split: prod.split)
      (simp add: add_count_def)
qed

lemma import_spec_resume:
  assumes "import_ok s" "import_spec s d = (k, False, s')" "0 \<le> k"
  shows "import_spec s (d @ e) = add_count k (import_spec s' (drop (nat k) d @ e))"
  using assms(1,2)
proof (cases rule: import_spec_cases)
  case (header n p)
  then show ?thesis by (simp add: import_spec_again)
next
  case (accepted n p h' s1)
  have w: "k = int n" "s' = s1"
    using payload_spec_waits [of s1 n h' "drop n d" k False s'] accepted(9) assms(3) by auto
  have "import_spec s1 (drop n d @ e) = payload_spec s1 0 h' (drop n d @ e)"
    using accepted(3) by (simp add: import_spec_def accepted(5) IsParseCompleted_def)
  then show ?thesis
    using accepted payload_spec_add [of s1 n h' "drop n d @ e"]
    by (simp add: w import_spec_parsed)
next
  case (payload h lc)
  have w: "k = 0" "s' = s"
    using payload_spec_waits [of s 0 lc d k False s'] payload(5) assms(3) by auto
  then show ?thesis by simp
qed (use assms(3) in auto)

interpretation import: incremental_reader import_ok import_spec Some
  by unfold_locales
    (auto intro: import_spec_ok import_spec_settled import_spec_resume import_spec_bound)

end
