(* ===== verification/Header_Roundtrip.thy ===== *)
theory Header_Roundtrip
  imports Chunk_Parser
begin

text \<open>
  The chunk headers that \<^verbatim>\<open>RtmpMuxUtil::GetChunkHeaderRaw\<close> writes, read by \<^verbatim>\<open>RtmpChunkParser\<close>: the
  basic header gives back the chunk type and the chunk stream id, for every id from 2 to 65599, and
  the message header and the extended timestamp give back the fields written.
\<close>

unbundle bit_operations_syntax

section \<open>The basic header\<close>

text \<open>The header under construction once its basic header is read.\<close>

definition opened_header :: "chunk_type \<Rightarrow> u32 \<Rightarrow> chunk_header" where
  "opened_header ty csid = new_chunk_header\<lparr>format_type := ty,
     basic_header_size := GetBasicHeaderSizeByChunkStreamID csid, stream_id := csid\<rparr>"

lemma GetChunkType_raw:
  assumes "2 \<le> csid" 
  shows "GetChunkType (GetChunkBasicHeaderRaw ty csid ! 0) = ty"
proof -
  have *: "GetChunkType (x OR (chunk_type_code ty AND 0xC0)) = ty" if "x AND 0xC0 = 0" for x
  proof -
    have "(x OR (chunk_type_code ty AND 0xC0)) AND 0xC0 = chunk_type_code ty AND 0xC0"
      using that by (metis (no_types, lifting) and.assoc and.idem bit.conj_disj_distrib2 or.left_neutral)
    then show ?thesis by (cases ty) (simp_all add: GetChunkType_def)
  qed
  have c0: "ucast (csid AND 0x3F) AND (0xC0 :: byte) = 0"
  proof -
    have "(0xC0 :: byte) = NOT (mask 6)" by (simp add: mask_eq_exp_minus_1)
    then show ?thesis
      unfolding and_3f by (simp add: bit_eq_iff bit_simps)
  qed
  show ?thesis
    using *[of 0] by (simp add: GetChunkBasicHeaderRaw_def * c0)
qed

text \<open>A chunk stream id below 64 is the low bits of the first byte.\<close>

lemma first_byte_low_bits:
  fixes csid :: u32
  assumes "2 \<le> csid" "csid < 64"
  shows "(ucast (csid AND 0x3F) OR (chunk_type_code ty AND 0xC0)) AND 0x3F = (ucast csid :: byte)"
    and "(ucast csid :: byte) \<noteq> 0" "(ucast csid :: byte) \<noteq> 1" "ucast (ucast csid :: byte) = csid"
proof -
  have n: "2 \<le> unat csid" "unat csid < 64"
    using assms by (auto simp: word_le_nat_alt word_less_nat_alt)
  have c: "chunk_type_code ty AND 0xC0 AND 0x3F = 0"
    by (cases ty) simp_all
  show "(ucast (csid AND 0x3F) OR (chunk_type_code ty AND 0xC0)) AND 0x3F = (ucast csid :: byte)"
    using n by (simp add: bit.conj_disj_distrib2 c and.assoc)
      (simp add: and_3f word_unat_eq_iff unat_take_bit unat_ucast_mod)
qed (use assms in \<open>auto simp: word_unat_eq_iff unat_ucast_mod word_le_nat_alt word_less_nat_alt\<close>)

lemma GetBasicHeaderSize_raw:
  assumes "2 \<le> csid"
  shows "GetBasicHeaderSize (GetChunkBasicHeaderRaw ty csid ! 0) = GetBasicHeaderSizeByChunkStreamID csid"
proof (cases "64 \<le> csid")
  case True
  then show ?thesis
    by (cases ty) (simp_all add: GetBasicHeaderSize_def GetChunkBasicHeaderRaw_def
        GetBasicHeaderSizeByChunkStreamID_def)
next
  case False
  then show ?thesis
    using first_byte_low_bits [OF assms]
    by (simp add: GetBasicHeaderSize_def GetChunkBasicHeaderRaw_def
        GetBasicHeaderSizeByChunkStreamID_def word_le_nat_alt word_less_nat_alt Let_def)
qed

lemma csid_from_bytes:
  assumes "64 \<le> csid" "csid \<le> 65599"
  shows "ucast (ucast (csid - 64) :: byte) + 64 + ucast (ucast (drop_bit 8 (csid - 64)) :: byte) * 256 = (csid :: u32)"
    and "csid < 320 \<Longrightarrow> ucast (ucast (csid - 64) :: byte) + 64 = csid"
proof -
  define x where "x = csid - 64"
  have x: "unat x \<le> 65535" "csid = x + 64"
    using assms by (auto simp: x_def word_le_nat_alt unat_sub)
  have "(ucast (ucast x :: byte) + ucast (ucast (drop_bit 8 x) :: byte) * 256 :: u32) = x"
    using x(1) by (simp add: word_unat_eq_iff unat_word_ariths unat_ucast_mod drop_bit_unat)
  then show "ucast (ucast (csid - 64) :: byte) + 64 + ucast (ucast (drop_bit 8 (csid - 64)) :: byte) * 256 = csid"
    unfolding x(2) by (simp add: algebra_simps)
  show "ucast (ucast (csid - 64) :: byte) + 64 = csid" if "csid < 320"
  proof -
    have "unat csid < 320" "64 \<le> unat csid" using that assms by (auto simp: word_less_nat_alt word_le_nat_alt)
    then have "unat x < 256" by (simp add: x_def unat_sub word_le_nat_alt)
    then have "(ucast (ucast x :: byte) :: u32) = x"
      by (simp add: word_unat_eq_iff unat_ucast_mod)
    then show ?thesis by (simp add: x_def)
  qed
qed

lemma basic_header_csid_raw:
  assumes "2 \<le> csid" "csid \<le> 65599"
  shows "basic_header_csid (GetChunkBasicHeaderRaw ty csid @ r) = csid"
proof -
  note sz = GetBasicHeaderSize_raw [OF assms(1), of ty]
  have [simp]: "(GetChunkBasicHeaderRaw ty csid @ r) ! 0 = GetChunkBasicHeaderRaw ty csid ! 0"
    by (simp add: GetChunkBasicHeaderRaw_def)
  consider "csid < 64" | "64 \<le> csid" "csid < 320" | "320 \<le> csid" by fastforce
  then show ?thesis
  proof cases
    case 1
    then show ?thesis
      using first_byte_low_bits [OF assms(1) 1]
      by (simp add: basic_header_csid_def sz) (simp add: GetChunkBasicHeaderRaw_def GetBasicHeaderSizeByChunkStreamID_def
       word_le_nat_alt word_less_nat_alt)
  next
    case 2
    then show ?thesis
      using csid_from_bytes(2) assms
      by (simp add: basic_header_csid_def sz) (simp add: GetChunkBasicHeaderRaw_def GetBasicHeaderSizeByChunkStreamID_def
       word_le_nat_alt word_less_nat_alt)
  next
    case 3
    then have "64 \<le> csid" by (simp add: word_le_nat_alt)
    with 3 show ?thesis
      using csid_from_bytes(1) assms
      by (simp add: basic_header_csid_def sz) (simp add: GetChunkBasicHeaderRaw_def GetBasicHeaderSizeByChunkStreamID_def
       word_le_nat_alt word_less_nat_alt)
  qed
qed

lemma basic_stage_raw:
  assumes "2 \<le> csid" "csid \<le> 65599"
  shows "basic_stage m p (GetChunkBasicHeaderRaw ty csid @ r) =
     apfst ((+) (GetBasicHeaderSizeByChunkStreamID csid)) (msg_stage m (opened_header ty csid) r)"
proof -
  have [simp]: "(GetChunkBasicHeaderRaw ty csid @ r) ! 0 = GetChunkBasicHeaderRaw ty csid ! 0"
    "GetChunkBasicHeaderRaw ty csid \<noteq> []"
    by (simp_all add: GetChunkBasicHeaderRaw_def)
  have "(basic_header (GetChunkBasicHeaderRaw ty csid @ r))\<lparr>stream_id := csid\<rparr> = opened_header ty csid"
    by (simp add: basic_header_def opened_header_def GetBasicHeaderSize_raw GetChunkType_raw assms)
  then show ?thesis
    by (simp add: basic_stage_def Let_def GetBasicHeaderSize_raw GetChunkType_raw basic_header_csid_raw assms)
qed

section \<open>The message header\<close>

text \<open>The header that the parser makes of a written one.\<close>

definition parsed_header :: "chunk_header \<Rightarrow> bool \<Rightarrow> chunk_header" where
  "parsed_header ch ext =
    (let ts = (if ext then RTMP_EXTEND_TIMESTAMP else hdr_timestamp (header ch));
         h = opened_header (format_type ch) (stream_id ch)
     in RecalculateHeaderSize
         (h\<lparr>message_header_size := chunk_msg_size (format_type ch),
            payload_size := (if format_type ch = T2 then 0 else ucast (hdr_length (header ch))),
            is_extended := ext,
            extended_timestamp := (if ext then ucast (hdr_timestamp (header ch)) else 0),
            header :=
              \<lparr>hdr_timestamp = ts,
               hdr_length = (if format_type ch = T2 then 0 else hdr_length (header ch)),
               hdr_type_id = (if format_type ch = T2 then 0 else hdr_type_id (header ch)),
               hdr_stream_id = (if format_type ch = T0 then hdr_stream_id (header ch) else 0)\<rparr>\<rparr>))"

lemma be24_timestamp_field:
  "be24 (timestamp_field ext ts) = (if ext then RTMP_EXTEND_TIMESTAMP else ts)"
  by (simp add: timestamp_field_def byte_simps ucast_ucast_24)

text \<open>The message header that \<open>GetChunkHeaderRaw\<close> writes between the basic header and the extension.\<close>

definition message_fields :: "chunk_header \<Rightarrow> bool \<Rightarrow> byte list" where
  "message_fields ch ext =
     timestamp_field ext (hdr_timestamp (header ch)) @
     (if format_type ch = T2 then [] else WriteInt24 (ucast (hdr_length (header ch))) @ [hdr_type_id (header ch)]) @
     (if format_type ch = T0 then WriteInt32LE (hdr_stream_id (header ch)) else [])"

lemma GetChunkHeaderRaw_parts:
  "format_type ch \<noteq> T3 \<Longrightarrow> GetChunkHeaderRaw ch ext =
     GetChunkBasicHeaderRaw (format_type ch) (stream_id ch) @ message_fields ch ext @
     extended_field ext (hdr_timestamp (header ch))"
  by (cases "format_type ch") (simp_all add: GetChunkHeaderRaw_def message_fields_def Let_def)

lemma length_message_fields:
  "format_type ch \<noteq> T3 \<Longrightarrow> length (message_fields ch ext) = chunk_msg_size (format_type ch)"
  by (cases "format_type ch") (simp_all add: message_fields_def)

lemma parsed_header_stages:
  assumes "format_type ch \<noteq> T3"
  shows "RecalculateHeaderSize
      ((take_message_header (opened_header (format_type ch) (stream_id ch)) (message_fields ch ext @ r))
       \<lparr>extended_timestamp := (if ext then ucast (hdr_timestamp (header ch)) else 0), is_extended := ext\<rparr>) =
    parsed_header ch ext"
  using assms
  by (cases "format_type ch")
     (simp_all add: message_fields_def take_message_header_def opened_header_def new_chunk_header_def
        be24_timestamp_field byte_simps ucast_ucast_24 nth_append parsed_header_def RecalculateHeaderSize_def)

lemma take_message_header_timestamp:
  assumes "format_type ch \<noteq> T3"
  shows "hdr_timestamp (header (take_message_header (opened_header (format_type ch) csid)
      (message_fields ch ext @ r))) = (if ext then RTMP_EXTEND_TIMESTAMP else hdr_timestamp (header ch))"
  using assms
  by (cases "format_type ch")
     (simp_all add: message_fields_def take_message_header_def opened_header_def be24_timestamp_field)

lemma take_message_header_extended [simp]:
  "extended_timestamp (take_message_header h bs) = extended_timestamp h"
  by (auto simp: take_message_header_def split: chunk_type.splits)

lemma opened_header_fields [simp]:
  "extended_timestamp (opened_header ty csid) = 0" "is_extended (opened_header ty csid) = False"
  "format_type (opened_header ty csid) = ty" "stream_id (opened_header ty csid) = csid"
  "basic_header_size (opened_header ty csid) = GetBasicHeaderSizeByChunkStreamID csid"
  by (simp_all add: opened_header_def new_chunk_header_def)

lemma ext_stage_raw:
  assumes "format_type h \<noteq> T3" "r \<noteq> []"
    "hdr_timestamp (header h) = (if ext then RTMP_EXTEND_TIMESTAMP else ts)"
    "\<not> ext \<Longrightarrow> ts \<noteq> RTMP_EXTEND_TIMESTAMP"
    "is_extended h = False" "extended_timestamp h = 0"
  shows "ext_stage m h (extended_field ext ts @ r) =
    (if ext then 4 else 0, \<lparr>current_chunk_header = Some (RecalculateHeaderSize
       (h\<lparr>extended_timestamp := (if ext then ucast ts else 0), is_extended := ext\<rparr>)),
     parse_status = ParseCompleted\<rparr>)"
proof (cases ext)
  case False
  have same: "h\<lparr>extended_timestamp := 0, is_extended := False\<rparr> = h"
    using assms(5,6) by simp
  from False assms show ?thesis
    by (simp add: ext_stage_def has_extended_def extended_field_def same)
qed (use assms in \<open>simp add: ext_stage_def has_extended_def extended_field_def byte_simps\<close>)

lemma basic_stage_header_raw:
  assumes "2 \<le> stream_id ch" "stream_id ch \<le> 65599" "format_type ch \<noteq> T3" "r \<noteq> []"
    and "\<not> ext \<Longrightarrow> hdr_timestamp (header ch) \<noteq> RTMP_EXTEND_TIMESTAMP"
  shows "basic_stage m p (GetChunkHeaderRaw ch ext @ r) =
    (length (GetChunkHeaderRaw ch ext),
     \<lparr>current_chunk_header = Some (parsed_header ch ext), parse_status = ParseCompleted\<rparr>)"
proof -
  let ?h = "opened_header (format_type ch) (stream_id ch)" and ?x = "extended_field ext (hdr_timestamp (header ch))"
  let ?t = "take_message_header ?h (message_fields ch ext @ ?x @ r)"
  have "msg_stage m ?h (message_fields ch ext @ ?x @ r) =
      apfst ((+) (chunk_msg_size (format_type ch))) (ext_stage m ?t (?x @ r))"
    using assms by (simp add: msg_stage_def Let_def length_message_fields)
  moreover have "ext_stage m ?t (?x @ r) = (if ext then 4 else 0,
      \<lparr>current_chunk_header = Some (parsed_header ch ext), parse_status = ParseCompleted\<rparr>)"
    using assms by (subst ext_stage_raw) (simp_all add: take_message_header_timestamp parsed_header_stages)
  ultimately show ?thesis
    using assms by (simp add: GetChunkHeaderRaw_parts basic_stage_raw length_message_fields)
qed

end
