(* ===== verification/Chunk_Roundtrip.thy ===== *)
theory Chunk_Roundtrip
  imports Export_Chunk Import_Stream Header_Roundtrip
begin

text \<open>
  The two ends of the chunk layer together: the chunks that \<^verbatim>\<open>RtmpExportChunk\<close> makes of a message are
  the message again after \<^verbatim>\<open>RtmpImportChunk\<close>. It holds for every message of 1 to \<open>2 ^ 24 - 1\<close> bytes
  on the chunk streams 2 to 319, and up to 65599 for a message of one chunk; a longer message on a
  chunk stream from 320 on is refused by the importer.
\<close>

unbundle bit_operations_syntax

section \<open>Finalizing a chunked body\<close>

lemma take_chunk_blocks_le: "length d \<le> length (chunk_blocks cs sep d)" if "0 < cs"
  using that by (simp add: length_chunk_blocks)

lemma FinalizeMessage_loop_blocks:
  assumes h: "header_ok h" "0 < cs" and sep: "length sep = type_3_size h"
    "take (basic_header_size h) sep = take (basic_header_size h) (expected_type_3_header h)"
  shows "d \<noteq> [] \<Longrightarrow> FinalizeMessage_loop cs h (sep @ chunk_blocks cs sep d @ rest) True
     (length sep + length (chunk_blocks cs sep d)) acc = Inr (Some (acc @ d))"
proof (induction "length d" arbitrary: d acc rule: less_induct)
  case less
  let ?b = "chunk_blocks cs sep d"
  have m: "type_3_matches h (sep @ x)" for x
    using sep by (simp add: type_3_matches_def)
  have next1: "FinalizeMessage_loop cs h (sep @ ?b @ rest) True (length sep + length ?b) acc =
    (let rs = min cs (length ?b) in
      FinalizeMessage_loop cs h (drop rs (?b @ rest)) True (length ?b - rs) (acc @ take rs (?b @ rest)))"
    using h m by (subst FinalizeMessage_loop_next) (simp_all add: sep(1) [symmetric] Let_def)
  show ?case
  proof (cases "length d \<le> cs")
    case True
    then show ?thesis using next1 by (simp add: Let_def)
  next
    case False
    then have b: "?b = take cs d @ sep @ chunk_blocks cs sep (drop cs d)"
      using h(2) by (simp add: chunk_blocks_long)
    have "cs \<le> length ?b"
      using False take_chunk_blocks_le [OF h(2), of d sep] by simp
    moreover have "take cs (?b @ rest) = take cs d" "length ?b - cs = length sep + length (chunk_blocks cs sep (drop cs d))"
      "drop cs (?b @ rest) = sep @ chunk_blocks cs sep (drop cs d) @ rest"
      using False by (simp_all add: b)
    ultimately show ?thesis
      using next1 less.hyps [of "drop cs d" "acc @ take cs d"] False h(2) by (simp add: Let_def min_def)
  qed
qed

lemma FinalizeMessage_blocks:
  assumes h: "header_ok h" "0 < cs" "d \<noteq> []" and sep: "length sep = type_3_size h"
    "cs < length d \<longrightarrow> take (basic_header_size h) sep = take (basic_header_size h) (expected_type_3_header h)"
    and p: "unat (payload_size h) = length d" "unat (expected_payload_size h) = length (chunk_blocks cs sep d)"
  shows "FinalizeMessage cs h (chunk_blocks cs sep d @ rest) = Inr (Some \<lparr>msg_header = h, msg_payload = d\<rparr>)"
proof -
  let ?b = "chunk_blocks cs sep d"
  have "0 < length ?b" "length d \<le> length ?b"
    using h(3) take_chunk_blocks_le [OF h(2), of d sep] by (auto simp del: length_greater_0_conv)
  have "FinalizeMessage_loop cs h (?b @ rest) False (length ?b) [] = Inr (Some d)"
  proof (cases "length d \<le> cs")
    case True
    with h(3) show ?thesis by (simp add: FinalizeMessage_loop_first)
  next
    case False
    then have b: "?b = take cs d @ sep @ chunk_blocks cs sep (drop cs d)"
      using h(2) by (simp add: chunk_blocks_long)
    have le: "cs \<le> length ?b" using False \<open>length d \<le> length ?b\<close> by simp
    have "FinalizeMessage_loop cs h (?b @ rest) False (length ?b) [] =
        FinalizeMessage_loop cs h (drop cs (?b @ rest)) True (length ?b - cs) (take cs (?b @ rest))"
      using le \<open>0 < length ?b\<close> by (subst FinalizeMessage_loop_first) (simp_all add: min_def)
    also have "\<dots> = FinalizeMessage_loop cs h (sep @ chunk_blocks cs sep (drop cs d) @ rest) True
        (length sep + length (chunk_blocks cs sep (drop cs d))) (take cs d)"
      using False by (simp add: b)
    also have "\<dots> = Inr (Some (take cs d @ drop cs d))"
      using FinalizeMessage_loop_blocks [OF h(1,2) sep(1), of "drop cs d" rest "take cs d"] sep(2) False by simp
    finally show ?thesis by simp
  qed
  with p show ?thesis by (simp add: FinalizeMessage_def)
qed

section \<open>The header after processing\<close>

text \<open>The header that the importer keeps for a chunk with header \<open>h\<close> and completed values \<open>c\<close>.\<close>

definition imported_header :: "nat \<Rightarrow> chunk_header \<Rightarrow> completed_header \<Rightarrow> chunk_header" where
  "imported_header cs h c =
     (let f = filled_header h c
      in f\<lparr>expected_type_3_header := type_3_bytes f,
           expected_payload_size := payload_size f + of_nat (type_3_count cs f) * of_nat (type_3_size f)\<rparr>)"

lemma imported_header_fields [simp]:
  "completed (imported_header cs h c) = c" "payload_size (imported_header cs h c) = completed_length c"
  "stream_id (imported_header cs h c) = stream_id h" "is_extended (imported_header cs h c) = is_extended h"
  "basic_header_size (imported_header cs h c) = basic_header_size h"
  "header_ok (imported_header cs h c) = header_ok h"
  "expected_type_3_header (imported_header cs h c) = type_3_bytes (filled_header h c)"
  by (simp_all add: imported_header_def Let_def header_ok_def)

lemma processed_eq:
  assumes "0 < cs" "header_ok h" "completed_values h lc = Some c"
    and "0 < completed_length c" "unat (completed_length c) \<le> RTMP_MAX_PACKET_SIZE"
  shows "processed cs h lc = (True, imported_header cs h c)"
    and "unat (expected_payload_size (imported_header cs h c)) =
      unat (completed_length c) + (unat (completed_length c) - 1) div cs * type_3_size h"
proof -
  have f: "header_ok (filled_header h c)" using assms(2) by (simp add: header_ok_def)
  have "0 < payload_size (filled_header h c)" "unat (payload_size (filled_header h c)) \<le> RTMP_MAX_PACKET_SIZE"
    using assms(4,5) by simp_all
  note e = expected_size_nonempty [OF this f, of cs]
  show "processed cs h lc = (True, imported_header cs h c)"
    using assms e CalculateForType3Header_eq [OF assms(1) f]
    by (simp add: processed_def ProcessChunkHeader_eq imported_header_def Let_def)
  show "unat (expected_payload_size (imported_header cs h c)) =
      unat (completed_length c) + (unat (completed_length c) - 1) div cs * type_3_size h"
    using e by (simp add: imported_header_def Let_def)
qed

text \<open>The bytes that a continuation must start with are those of the type 3 header that is written.\<close>

lemma type_3_bytes_match:
  assumes "2 \<le> csid" "csid < 320" "stream_id h = csid"
    "basic_header_size h = GetBasicHeaderSizeByChunkStreamID csid" "expected_type_3_header h = [0, 0, 0, 0]"
  shows "take (basic_header_size h) (type_3_bytes h) = GetChunkBasicHeaderRaw T3 csid"
proof -
  have "\<not> 320 \<le> csid" using assms(2) by simp
  then show ?thesis
    using assms(3-5)
    by (cases "64 \<le> csid")
      (simp_all add: type_3_bytes_def GetBasicHeaderSizeByChunkStreamID_def GetChunkBasicHeaderRaw_def
        Let_def or.commute)
qed

lemma type_3_bytes_mismatch:
  assumes "320 \<le> csid" "csid \<le> 65599" "stream_id h = csid"
    "basic_header_size h = 3" "expected_type_3_header h = [0, 0, 0, 0]"
  shows "take 3 (type_3_bytes h) \<noteq> GetChunkBasicHeaderRaw T3 csid"
proof -
  let ?x = "csid - 64"
  have n: "320 \<le> unat csid" "unat csid \<le> 65599" using assms(1,2) by (simp_all add: word_le_nat_alt)
  then have x: "256 \<le> unat ?x" "unat ?x \<le> 65535" by (simp_all add: unat_sub word_le_nat_alt)
  then have "drop_bit 16 ?x = 0"
    by (simp add: word_unat_eq_iff drop_bit_unat)
  moreover have "unat ?x div 256 \<noteq> 0" "unat ?x div 256 < 256" using x by auto
  then have "(ucast (drop_bit 8 ?x) :: byte) \<noteq> 0"
    by (simp add: word_unat_eq_iff unat_ucast_mod drop_bit_unat)
  ultimately show ?thesis
    using assms by (simp add: type_3_bytes_def GetChunkBasicHeaderRaw_def Let_def)
qed

section \<open>One message\<close>

text \<open>Messages the two ends agree on, for a chunk size \<open>cs\<close>.\<close>

definition well_sized :: "mux_message_header \<Rightarrow> byte list \<Rightarrow> bool" where
  "well_sized mh data \<longleftrightarrow>
     2 \<le> mux_chunk_stream_id mh \<and> mux_chunk_stream_id mh \<le> 65599 \<and>
     data \<noteq> [] \<and> length data < 2 ^ 24 \<and> unat (mux_body_size mh) = length data"

definition sendable :: "nat \<Rightarrow> mux_message_header \<Rightarrow> byte list \<Rightarrow> bool" where
  "sendable cs mh data \<longleftrightarrow> well_sized mh data \<and> (mux_chunk_stream_id mh < 320 \<or> length data \<le> cs)"

lemma parsed_header_fields [simp]:
  "stream_id (parsed_header ch ext) = stream_id ch" "is_extended (parsed_header ch ext) = ext"
  "format_type (parsed_header ch ext) = format_type ch"
  "basic_header_size (parsed_header ch ext) = GetBasicHeaderSizeByChunkStreamID (stream_id ch)"
  "expected_type_3_header (parsed_header ch ext) = [0, 0, 0, 0]"
  by (simp_all add: parsed_header_def opened_header_def new_chunk_header_def RecalculateHeaderSize_def Let_def)

lemma header_ok_parsed [simp]: "header_ok (parsed_header ch ext)"
  by (simp add: header_ok_def GetBasicHeaderSizeByChunkStreamID_def)

text \<open>The state of the importer once it has received a message.\<close>

definition received :: "import_chunk \<Rightarrow> chunk_header \<Rightarrow> byte list \<Rightarrow> import_chunk" where
  "received s h data =
     s\<lparr>chunk_map := (chunk_map s)(stream_id h \<mapsto> h),
       import_queue := Enqueue \<lparr>msg_header = h, msg_payload = data\<rparr> (import_queue s), parser := Reset\<rparr>"

lemma IsParseCompleted_Reset [simp]: "\<not> IsParseCompleted Reset"
  by (simp add: IsParseCompleted_def Reset_def)

lemma parse_spec_Reset: "parse_spec m Reset bs = basic_stage m Reset bs"
  by (simp add: parse_spec_def Reset_def)

lemma exported_bytes_split:
  "exported_bytes e mh data = (let ch = exported_header e mh in
     GetChunkHeaderRaw ch (is_extended ch) @ chunk_blocks (export_chunk_size e)
       (type_3_separator (mux_chunk_stream_id mh) (is_extended ch) (ucast (hdr_timestamp (header ch)))) data)"
  by (simp add: exported_bytes_def Let_def)

lemma import_parsed_header:
  assumes "parser s = Reset" "well_sized mh data" "0 < cs" "export_chunk_size e = cs"
  defines "ch \<equiv> exported_header e mh"
  defines "raw \<equiv> GetChunkHeaderRaw ch (is_extended ch)"
  shows "parse_spec m (parser s) (exported_bytes e mh data @ rest) =
    (length raw, \<lparr>current_chunk_header = Some (parsed_header ch (is_extended ch)), parse_status = ParseCompleted\<rparr>)"
    and "drop (length raw) (exported_bytes e mh data @ rest) = chunk_blocks cs
       (type_3_separator (mux_chunk_stream_id mh) (is_extended ch) (ucast (hdr_timestamp (header ch)))) data @ rest"
proof -
  let ?b = "chunk_blocks cs (type_3_separator (mux_chunk_stream_id mh) (is_extended ch)
    (ucast (hdr_timestamp (header ch)))) data"
  have b: "?b \<noteq> []"
  proof -
    have "0 < length data" using assms(2) by (simp add: well_sized_def)
    then have "0 < length ?b" using take_chunk_blocks_le [OF assms(3)] by (rule less_le_trans)
    then show ?thesis by simp
  qed
  have split: "exported_bytes e mh data @ rest = raw @ ?b @ rest"
    using assms(4) by (simp add: exported_bytes_split Let_def raw_def ch_def)
  have "basic_stage m Reset (raw @ ?b @ rest) = (length raw,
      \<lparr>current_chunk_header = Some (parsed_header ch (is_extended ch)), parse_status = ParseCompleted\<rparr>)"
    unfolding raw_def using assms(2) b
    by (intro basic_stage_header_raw) (auto simp: well_sized_def ch_def exported_header_def GetChunkHeader_extended)
  then show "parse_spec m (parser s) (exported_bytes e mh data @ rest) =
    (length raw, \<lparr>current_chunk_header = Some (parsed_header ch (is_extended ch)), parse_status = ParseCompleted\<rparr>)"
    by (simp add: split assms(1) parse_spec_Reset)
  show "drop (length raw) (exported_bytes e mh data @ rest) = ?b @ rest"
    by (simp add: split)
qed

lemma import_exported:
  assumes s: "import_chunk_size s = cs" "parser s = Reset" and e: "export_chunk_size e = cs" "0 < cs"
    and m: "well_sized mh data" "mux_chunk_stream_id mh < 320 \<or> length data \<le> cs"
    and c: "completed_values (parsed_header (exported_header e mh) (is_extended (exported_header e mh)))
        (chunk_map s (mux_chunk_stream_id mh)) = Some c" "completed_length c = mux_body_size mh"
  defines "h \<equiv> imported_header cs (parsed_header (exported_header e mh) (is_extended (exported_header e mh))) c"
  shows "import_spec s (exported_bytes e mh data @ rest) =
    (int (length (exported_bytes e mh data)), True, received s h data)"
proof -
  let ?ch = "exported_header e mh"
  let ?raw = "GetChunkHeaderRaw ?ch (is_extended ?ch)" and ?p = "parsed_header ?ch (is_extended ?ch)"
  let ?sep = "type_3_separator (mux_chunk_stream_id mh) (is_extended ?ch) (ucast (hdr_timestamp (header ?ch)))"
  let ?b = "chunk_blocks cs ?sep data"
  have id [simp]: "stream_id ?ch = mux_chunk_stream_id mh"
    by (simp add: exported_header_def)
  have len: "unat (completed_length c) = length data" "0 < completed_length c"
    using m(1) c(2) by (auto simp: well_sized_def word_less_nat_alt)
  have max: "unat (completed_length c) \<le> RTMP_MAX_PACKET_SIZE"
    using m(1) len(1) by (simp add: well_sized_def)
  note pr = processed_eq [OF e(2) header_ok_parsed c(1) len(2) max]
  have sep: "length ?sep = type_3_size h"
    by (simp add: length_type_3_separator h_def)
  have exp: "unat (expected_payload_size h) = length ?b"
    using pr(2) len sep e(2) by (simp add: h_def length_chunk_blocks)
  have match: "take (basic_header_size h) ?sep = take (basic_header_size h) (expected_type_3_header h)"
    if "cs < length data"
  proof -
    have "mux_chunk_stream_id mh < 320" "2 \<le> mux_chunk_stream_id mh" using that m by (auto simp: well_sized_def)
    then show ?thesis
      using type_3_bytes_match [of "mux_chunk_stream_id mh" "filled_header ?p c"]
      by (simp add: h_def type_3_separator_def)
  qed
  have fin: "finalized cs h (?b @ rest) = Some \<lparr>msg_header = h, msg_payload = data\<rparr>"
    using FinalizeMessage_blocks [of h cs data ?sep rest] match sep exp len e(2) m(1)
    by (simp add: finalized_def h_def well_sized_def)
  have total: "length ?raw + length ?b = length (exported_bytes e mh data)"
    using e by (simp add: exported_bytes_split Let_def)
  have h_id: "stream_id h = mux_chunk_stream_id mh" by (simp add: h_def)
  note parsed = import_parsed_header [OF s(2) m(1) e(2,1), unfolded s(2)]
  show ?thesis
    using pr(1) fin exp total c(1)
    by (simp add: import_spec_def s parsed payload_spec_def received_def h_def [symmetric] h_id
        del: of_nat_unat drop_append)
qed

section \<open>A run of messages\<close>

text \<open>
  The two ends are in step when the importer has, for every chunk stream the exporter has used, the
  values of the last message header sent on it, with the timestamp modulo \<open>2 ^ 24\<close>.
\<close>

definition same_values :: "mux_message_header \<Rightarrow> completed_header \<Rightarrow> bool" where
  "same_values mh c \<longleftrightarrow>
     completed_length c = mux_body_size mh \<and> completed_type_id c = mux_type_id mh \<and>
     completed_stream_id c = mux_stream_id mh \<and>
     completed_timestamp c mod 2 ^ 24 = uint (mux_timestamp mh) mod 2 ^ 24"

definition in_step :: "export_chunk \<Rightarrow> import_chunk \<Rightarrow> bool" where
  "in_step e s \<longleftrightarrow>
     export_chunk_size e = import_chunk_size s \<and> 0 < import_chunk_size s \<and> parser s = Reset \<and>
     (\<forall>csid st. stream_map e csid = Some st \<longrightarrow>
        (\<exists>l. chunk_map s csid = Some l \<and> same_values (es_message_header st) (completed l)))"

lemma in_step_new: "0 < cs \<Longrightarrow> in_step (new_export_chunk z cs) (new_import_chunk cs)"
  by (simp add: in_step_def new_export_chunk_def new_import_chunk_def)

lemma uint_ucast_u24: "uint (ucast (w :: u32) :: u24) = uint w mod 2 ^ 24"
  by (simp add: unsigned_ucast_eq take_bit_eq_mod)

lemma rolled_mod: "CalculateRolledTimestamp l t mod 2 ^ 24 = t mod 2 ^ 24"
proof -
  have "l + 2 ^ 31 - l smod 2 ^ 31 + t = t + 2 ^ 24 * (2 ^ 7 * (l sdiv 2 ^ 31 + 1))"
    using minus_smod_eq_sdiv_mult [of l "2 ^ 31"] by (simp add: algebra_simps)
  then have "(l + 2 ^ 31 - l smod 2 ^ 31 + t) mod 2 ^ 24 = t mod 2 ^ 24"
    by (simp only: mod_mult_self2)
  then show ?thesis by (simp add: CalculateRolledTimestamp_def Let_def)
qed

lemma same_body_size:
  "unat (bs :: u32) < 2 ^ 24 \<Longrightarrow> (ucast (ucast bs :: u24) :: u32) = bs"
  by (simp add: word_unat_eq_iff unat_ucast_mod)

text \<open>The values that the importer completes a parsed header to.\<close>

lemma completed_parsed_header:
  assumes "format_type ch \<noteq> T3"
  defines "delta \<equiv> ucast (hdr_timestamp (header ch)) :: u32"
  shows "completed_values (parsed_header ch ext) lc =
    (case (format_type ch, lc) of
        (T0, _) \<Rightarrow> Some \<lparr>completed_timestamp_delta = 0,
                   completed_timestamp = (case lc of None \<Rightarrow> uint delta
                     | Some l \<Rightarrow> CalculateRolledTimestamp (completed_timestamp (completed l)) (uint delta)),
                   completed_length = ucast (hdr_length (header ch)),
                   completed_type_id = hdr_type_id (header ch),
                   completed_stream_id = hdr_stream_id (header ch)\<rparr>
      | (_, None) \<Rightarrow> None
      | (T1, Some l) \<Rightarrow> Some ((completed l)\<lparr>completed_timestamp_delta := delta,
                     completed_timestamp := completed_timestamp (completed l) + uint delta,
                     completed_length := ucast (hdr_length (header ch)),
                     completed_type_id := hdr_type_id (header ch)\<rparr>)
      | (_, Some l) \<Rightarrow> Some ((completed l)\<lparr>completed_timestamp_delta := delta,
                     completed_timestamp := completed_timestamp (completed l) + uint delta\<rparr>))"
proof -
  have "(if is_extended (parsed_header ch ext) then extended_timestamp (parsed_header ch ext)
      else ucast (hdr_timestamp (header (parsed_header ch ext)))) = delta"
    by (simp add: parsed_header_def RecalculateHeaderSize_def Let_def delta_def)
  moreover have "format_type ch \<noteq> T2 \<Longrightarrow> hdr_length (header (parsed_header ch ext)) = hdr_length (header ch)"
    "format_type ch \<noteq> T2 \<Longrightarrow> hdr_type_id (header (parsed_header ch ext)) = hdr_type_id (header ch)"
    "format_type ch = T0 \<Longrightarrow> hdr_stream_id (header (parsed_header ch ext)) = hdr_stream_id (header ch)"
    by (simp_all add: parsed_header_def RecalculateHeaderSize_def Let_def)
  ultimately show ?thesis
    using assms(1)
    by (cases "format_type ch"; cases lc) (simp_all add: completed_values_def Let_def del: parsed_header_fields(2))
qed

lemma timestamp_delta_mod:
  "(a + uint (ucast (ucast (t - u :: u32) :: u24) :: u32)) mod 2 ^ 24 = uint t mod 2 ^ 24"
  if "a mod 2 ^ 24 = uint u mod 2 ^ 24"
proof -
  have "uint (t - u) mod 2 ^ 24 = (uint t - uint u) mod 2 ^ 24"
    by (simp add: uint_word_ariths mod_mod_cancel)
  then have "(a + uint (t - u) mod 2 ^ 24) mod 2 ^ 24 = (a + (uint t - uint u)) mod 2 ^ 24"
    by (metis mod_add_right_eq)
  also have "\<dots> = (a mod 2 ^ 24 + (uint t - uint u)) mod 2 ^ 24"
    by (simp add: mod_add_left_eq)
  also have "\<dots> = uint t mod 2 ^ 24"
    by (simp only: that mod_add_left_eq) simp
  finally show ?thesis by (simp add: uint_ucast_24 uint_ucast_u24)
qed

lemma exported_header_cases:
  fixes e :: export_chunk
  assumes "2 \<le> mux_chunk_stream_id mh"
  defines "prev \<equiv> es_message_header (export_stream_of e (mux_chunk_stream_id mh))"
  defines "ch \<equiv> exported_header e mh"
  obtains (full) "format_type ch = T0" "header ch = \<lparr>hdr_timestamp = ucast (mux_timestamp mh),
      hdr_length = ucast (mux_body_size mh), hdr_type_id = mux_type_id mh, hdr_stream_id = mux_stream_id mh\<rparr>"
  | (delta) st where "stream_map e (mux_chunk_stream_id mh) = Some st" "prev = es_message_header st"
      "mux_stream_id prev = mux_stream_id mh" "format_type ch = T1 \<or> format_type ch = T2"
      "hdr_timestamp (header ch) = ucast (mux_timestamp mh - mux_timestamp prev)"
      "format_type ch = T1 \<Longrightarrow> hdr_length (header ch) = ucast (mux_body_size mh) \<and>
         hdr_type_id (header ch) = mux_type_id mh"
      "format_type ch = T2 \<Longrightarrow> mux_body_size prev = mux_body_size mh \<and> mux_type_id prev = mux_type_id mh"
proof (cases "format_type ch = T0")
  case True
  then show ?thesis
    by (intro full) (auto simp: ch_def exported_header_def GetChunkHeader_def Let_def split: if_splits)
next
  case False
  then have "mux_chunk_stream_id prev = mux_chunk_stream_id mh"
    by (auto simp: ch_def exported_header_def GetChunkHeader_def Let_def prev_def split: if_splits)
  then obtain st where "stream_map e (mux_chunk_stream_id mh) = Some st" "prev = es_message_header st"
    using assms(1)
    by (auto simp: prev_def export_stream_of_def new_export_stream_def new_mux_message_header_def split: option.splits)
  with False show ?thesis
    by (intro delta [of st])
      (auto simp: ch_def exported_header_def GetChunkHeader_def Let_def prev_def split: if_splits)
qed

lemma exported_completed:
  assumes "in_step e s" "well_sized mh data"
  obtains c where "completed_values (parsed_header (exported_header e mh) (is_extended (exported_header e mh)))
      (chunk_map s (mux_chunk_stream_id mh)) = Some c" "same_values mh c"
proof -
  let ?ch = "exported_header e mh" and ?lc = "chunk_map s (mux_chunk_stream_id mh)"
  have t3: "format_type ?ch \<noteq> T3" by (simp add: exported_header_def)
  have size: "(ucast (ucast (mux_body_size mh) :: u24) :: u32) = mux_body_size mh"
    using assms(2) by (intro same_body_size) (simp add: well_sized_def)
  have range: "2 \<le> mux_chunk_stream_id mh" using assms(2) by (simp add: well_sized_def)
  show ?thesis
    using range
  proof (cases rule: exported_header_cases [where e = e])
    case full
    with size that show ?thesis
      by (cases ?lc) (simp_all add: completed_parsed_header [OF t3] same_values_def
          rolled_mod [simplified] uint_ucast_24 uint_ucast_u24)
  next
    case (delta st)
    then obtain l where l: "?lc = Some l" "same_values (es_message_header st) (completed l)"
      using assms(1) by (auto simp: in_step_def)
    moreover have "(completed_timestamp (completed l) +
        uint (ucast (ucast (mux_timestamp mh - mux_timestamp (es_message_header st)) :: u24) :: u32)) mod 2 ^ 24 =
        uint (mux_timestamp mh) mod 2 ^ 24"
      using l by (intro timestamp_delta_mod) (simp add: same_values_def)
    ultimately show ?thesis
      using delta size that by (auto simp: completed_parsed_header [OF t3] same_values_def)
  qed
qed

text \<open>One message through both ends; the ends stay in step.\<close>

lemma exported_message_imported:
  assumes "in_step e s" "sendable (import_chunk_size s) mh data"
  obtains h where "\<And>rest. import_spec s (exported_bytes e mh data @ rest) =
      (int (length (exported_bytes e mh data)), True, received s h data)"
    "stream_id h = mux_chunk_stream_id mh" "same_values mh (completed h)"
    "in_step (exported_state e mh) (received s h data)"
proof -
  let ?p = "parsed_header (exported_header e mh) (is_extended (exported_header e mh))"
  obtain c where c: "completed_values ?p (chunk_map s (mux_chunk_stream_id mh)) = Some c" "same_values mh c"
    using exported_completed [OF assms(1)] assms(2) by (auto simp: sendable_def)
  let ?h = "imported_header (import_chunk_size s) ?p c"
  have h: "stream_id ?h = mux_chunk_stream_id mh"
    by (simp add: exported_header_def)
  show ?thesis
  proof (rule that [of ?h])
    show "import_spec s (exported_bytes e mh data @ rest) =
      (int (length (exported_bytes e mh data)), True, received s ?h data)" for rest
      using assms c by (intro import_exported) (simp_all add: in_step_def same_values_def sendable_def)
    show "in_step (exported_state e mh) (received s ?h data)"
      using assms(1) c(2) h by (auto simp: in_step_def exported_state_def received_def)
  qed (use h c in simp_all)
qed

text \<open>Exporting a list of messages, and what the receiver sees of a message.\<close>

fun export_all :: "export_chunk \<Rightarrow> (mux_message_header \<times> byte list) list \<Rightarrow> byte list res" where
  "export_all e [] = Inr []"
| "export_all e ((mh, data) # ms) =
     bindR (ExportStreamData e (Some mh) data) (\<lambda>(b, e').
       case b of None \<Rightarrow> Inl Null_Deref
       | Some bs \<Rightarrow> bindR (export_all e' ms) (\<lambda>bs'. Inr (bs @ bs')))"

definition message_view :: "rtmp_message \<Rightarrow> u32 \<times> byte \<times> u32 \<times> int \<times> byte list" where
  "message_view m =
     (let h = msg_header m; c = completed h
      in (stream_id h, completed_type_id c, completed_stream_id c, completed_timestamp c mod 2 ^ 24, msg_payload m))"

definition sent_view :: "mux_message_header \<times> byte list \<Rightarrow> u32 \<times> byte \<times> u32 \<times> int \<times> byte list" where
  "sent_view m =
     (let mh = fst m
      in (mux_chunk_stream_id mh, mux_type_id mh, mux_stream_id mh, uint (mux_timestamp mh) mod 2 ^ 24, snd m))"

lemma exported_bytes_nonempty: "exported_bytes e mh data \<noteq> []"
  by (simp add: exported_bytes_def Let_def GetChunkHeaderRaw_def GetChunkBasicHeaderRaw_def)

lemma read_all_exported:
  assumes "in_step e s" "list_all (\<lambda>(mh, data). sendable (import_chunk_size s) mh data) ms"
  obtains bs s' where "export_all e ms = Inr bs" "read_all import_spec Some s bs = (s', Some [])"
    "map message_view (queue_items (import_queue s')) =
       map message_view (queue_items (import_queue s)) @ map sent_view ms"
proof -
  have "\<exists>bs s'. export_all e ms = Inr bs \<and> read_all import_spec Some s bs = (s', Some []) \<and>
    map message_view (queue_items (import_queue s')) =
       map message_view (queue_items (import_queue s)) @ map sent_view ms"
    using assms
  proof (induction ms arbitrary: e s)
    case (Cons m ms)
    obtain mh data where m: "m = (mh, data)" by force
    have send: "sendable (import_chunk_size s) mh data" using Cons.prems m by simp
    have eq: "ExportStreamData e (Some mh) data = Inr (Some (exported_bytes e mh data), exported_state e mh)"
      using send Cons.prems(1) by (intro ExportStreamData_eq) (simp_all add: sendable_def well_sized_def in_step_def)
    let ?b = "exported_bytes e mh data"
    obtain h where step: "\<And>rest. import_spec s (?b @ rest) = (int (length ?b), True, received s h data)"
      "stream_id h = mux_chunk_stream_id mh" "same_values mh (completed h)"
      "in_step (exported_state e mh) (received s h data)"
      using exported_message_imported [OF Cons.prems(1) send] by metis
    have "import_chunk_size (received s h data) = import_chunk_size s" by (simp add: received_def)
    then obtain bs s' where IH: "export_all (exported_state e mh) ms = Inr bs"
      "read_all import_spec Some (received s h data) bs = (s', Some [])"
      "map message_view (queue_items (import_queue s')) =
       map message_view (queue_items (import_queue (received s h data))) @ map sent_view ms"
      using Cons.IH [OF step(4)] Cons.prems(2) by auto
    have "read_all import_spec Some s (?b @ bs) = (s', Some [])"
      using exported_bytes_nonempty [of e mh data] IH(2) by (subst read_all.simps) (simp add: step(1))
    moreover have "message_view \<lparr>msg_header = h, msg_payload = data\<rparr> = sent_view m"
      using step(2,3) by (simp add: message_view_def sent_view_def same_values_def m Let_def)
    ultimately show ?case
      using eq IH(1,3) by (simp add: m received_def Enqueue_def)
  qed simp
  then show ?thesis using that by blast
qed

section \<open>Where the two ends disagree\<close>

text \<open>
  On the chunk streams from 320 on the importer expects other bytes in front of a continuation than
  the exporter writes: a message of more than one chunk is refused.
\<close>

lemma three_byte_id_refused:
  assumes "in_step e s" "well_sized mh data" "320 \<le> mux_chunk_stream_id mh" "import_chunk_size s < length data"
  obtains s' where "import_spec s (exported_bytes e mh data @ rest) = (- 1, False, s')"
proof -
  let ?ch = "exported_header e mh" and ?cs = "import_chunk_size s"
  let ?p = "parsed_header ?ch (is_extended ?ch)"
  let ?sep = "type_3_separator (mux_chunk_stream_id mh) (is_extended ?ch) (ucast (hdr_timestamp (header ?ch)))"
  let ?b = "chunk_blocks ?cs ?sep data"
  have cs: "0 < ?cs" "export_chunk_size e = ?cs" "parser s = Reset"
    using assms(1) by (simp_all add: in_step_def)
  have id: "stream_id ?ch = mux_chunk_stream_id mh" by (simp add: exported_header_def)
  obtain c where c: "completed_values ?p (chunk_map s (mux_chunk_stream_id mh)) = Some c" "same_values mh c"
    using exported_completed [OF assms(1,2)] .
  define h where "h = imported_header ?cs ?p c"
  have len: "unat (completed_length c) = length data" "0 < completed_length c"
    "unat (completed_length c) \<le> RTMP_MAX_PACKET_SIZE"
    using c(2) assms(2) by (auto simp: well_sized_def same_values_def word_less_nat_alt)
  note pr = processed_eq [OF cs(1) header_ok_parsed c(1) len(2,3), folded h_def]
  have h: "header_ok h" "type_3_size h = length ?sep" "basic_header_size h = 3"
    "expected_type_3_header h = type_3_bytes (filled_header ?p c)"
    using assms(3) by (simp_all add: h_def length_type_3_separator exported_header_def
        GetBasicHeaderSizeByChunkStreamID_def)
  have e: "unat (expected_payload_size h) = length ?b"
    using pr(2) len(1) cs(1) h(2) by (simp add: length_chunk_blocks h_def)
  have b: "?b = take ?cs data @ ?sep @ chunk_blocks ?cs ?sep (drop ?cs data)"
    using cs(1) assms(4) by (simp add: chunk_blocks_long)
  have "\<not> type_3_matches h (?sep @ x)" for x
    using type_3_bytes_mismatch [of "mux_chunk_stream_id mh" "filled_header ?p c"] assms(2,3) h(3,4) id
      GetBasicHeaderSizeByChunkStreamID_def [of "mux_chunk_stream_id mh"]
    by (auto simp: type_3_matches_def type_3_separator_def well_sized_def exported_header_def)
  then have "FinalizeMessage_loop ?cs h (?sep @ chunk_blocks ?cs ?sep (drop ?cs data) @ rest) True
      (length ?sep + length (chunk_blocks ?cs ?sep (drop ?cs data))) (take ?cs data) = Inr None"
    using h(1,2) by (subst FinalizeMessage_loop_next) (simp_all add: Let_def)
  moreover have "min ?cs (length ?b) = ?cs" "0 < length ?b"
    using assms(4) cs(1) by (simp_all add: b)
  ultimately have "finalized ?cs h (?b @ rest) = None"
    using assms(4) e by (simp add: finalized_def FinalizeMessage_def FinalizeMessage_loop_first b)
  then have "import_spec s (exported_bytes e mh data @ rest) = (- 1, False,
      s\<lparr>parser := \<lparr>current_chunk_header = Some h, parse_status = ParseCompleted\<rparr>,
        chunk_map := (chunk_map s)(stream_id h \<mapsto> h)\<rparr>)"
    using pr(1) e c(1)
    by (simp add: import_spec_def cs(3) import_parsed_header [OF cs(3) assms(2) cs(1,2), unfolded cs(3)] id
        payload_spec_def del: of_nat_unat drop_append)
  then show ?thesis using that by blast
qed

text \<open>An announced length of zero: the importer waits for the continuations of \<open>2 ^ 32\<close> bytes.\<close>

lemma empty_message_expectation:
  assumes "0 < cs" "cs < 2 ^ 32" "header_ok h" "completed_values h lc = Some c" "completed_length c = 0"
    and "processed cs h lc = (True, h')"
  shows "payload_size h' = 0" "0 < expected_payload_size h'"
    "expected_payload_size h' = of_nat ((2 ^ 32 - 1) div cs * type_3_size h)"
proof -
  have f: "header_ok (filled_header h c)" using assms(3) by (simp add: header_ok_def)
  have p: "processed cs h lc = (0 \<le> sint (of_nat (type_3_count cs (filled_header h c)) :: u32), imported_header cs h c)"
    using assms(4,5) CalculateForType3Header_eq [OF assms(1) f]
    by (simp add: processed_def ProcessChunkHeader_eq imported_header_def Let_def)
  with assms(6) have h': "h' = imported_header cs h c"
    "0 \<le> sint (of_nat (type_3_count cs (filled_header h c)) :: u32)" by simp_all
  show "payload_size h' = 0" using h' assms(5) by simp
  show "0 < expected_payload_size h'"
    using expected_size_empty [OF _ assms(1,2) f h'(2)] assms(5) by (simp add: h'(1) imported_header_def Let_def)
  have "type_3_count cs (filled_header h c) = (2 ^ 32 - 1) div cs"
    using assms(5) by (simp add: type_3_count_def unsigned_minus_1_eq_mask mask_eq_exp_minus_1)
  then show "expected_payload_size h' = of_nat ((2 ^ 32 - 1) div cs * type_3_size h)"
    using assms(5) by (simp add: h'(1) imported_header_def Let_def)
qed

end
