(* ===== verification/Amf_Document.thy ===== *)
theory Amf_Document
  imports Byte_Order
begin

text \<open>
  AMF0 documents (\<open>amf_document.h\<close>, \<open>amf_document.cpp\<close>): \<^verbatim>\<open>AmfUtil\<close>, \<^verbatim>\<open>AmfProperty\<close>,
  \<^verbatim>\<open>AmfObjectArray\<close> with its two subclasses, and \<^verbatim>\<open>AmfDocument\<close>. A property is a tagged union: the
  fields that its type does not use keep the values of \<open>_Initialize\<close>, and a decoder that returns 0
  is followed by the destruction of the property, so that the tag with its own value is the whole
  state. A \<^verbatim>\<open>double\<close> is its bit pattern, a C string its bytes without the final NUL. Encoders give the
  bytes they write; decoders get the memory from the pointer to the end of its buffer.
\<close>

unbundle bit_operations_syntax

section \<open>AmfUtil: integers\<close>

definition AmfUtil_WriteInt8 :: "byte \<Rightarrow> byte list" where
  "AmfUtil_WriteInt8 number = [number]"

definition AmfUtil_WriteInt16 :: "u16 \<Rightarrow> byte list" where
  "AmfUtil_WriteInt16 number = [ucast (drop_bit 8 number), ucast (number AND 0xff)]"

definition AmfUtil_WriteInt24 :: "u32 \<Rightarrow> byte list" where
  "AmfUtil_WriteInt24 number =
     [ucast (drop_bit 16 number), ucast (drop_bit 8 number), ucast (number AND 0xff)]"

definition AmfUtil_WriteInt32 :: "u32 \<Rightarrow> byte list" where
  "AmfUtil_WriteInt32 number =
     [ucast (drop_bit 24 number), ucast (drop_bit 16 number), ucast (drop_bit 8 number),
      ucast (number AND 0xff)]"

definition AmfUtil_ReadInt8 :: "byte list \<Rightarrow> byte res" where
  "AmfUtil_ReadInt8 mem = bindR (byte_at mem 0) (\<lambda>b. Inr (0 OR b))"

definition AmfUtil_ReadInt16 :: "byte list \<Rightarrow> u16 res" where
  "AmfUtil_ReadInt16 mem = bindR (byte_at mem 0) (\<lambda>b0. bindR (byte_at mem 1) (\<lambda>b1.
     Inr (push_bit 8 (ucast b0) OR ucast b1)))"

definition AmfUtil_ReadInt24 :: "byte list \<Rightarrow> u32 res" where
  "AmfUtil_ReadInt24 mem = bindR (byte_at mem 0) (\<lambda>b0. bindR (byte_at mem 1) (\<lambda>b1. bindR (byte_at mem 2) (\<lambda>b2.
     Inr (push_bit 16 (ucast b0) OR push_bit 8 (ucast b1) OR ucast b2))))"

definition AmfUtil_ReadInt32 :: "byte list \<Rightarrow> u32 res" where
  "AmfUtil_ReadInt32 mem = bindR (byte_at mem 0) (\<lambda>b0. bindR (byte_at mem 1) (\<lambda>b1. bindR (byte_at mem 2) (\<lambda>b2.
     bindR (byte_at mem 3) (\<lambda>b3.
     Inr (push_bit 24 (ucast b0) OR push_bit 16 (ucast b1) OR push_bit 8 (ucast b2) OR ucast b3)))))"

section \<open>Types and markers\<close>

datatype amf_data_type = TypeNull | TypeUndefined | TypeNumber | TypeBoolean | TypeString | TypeArray | TypeObject

datatype amf_type_marker =
    MarkNumber | MarkBoolean | MarkString | MarkObject | MarkMovieClip | MarkNull | MarkUndefined
  | MarkReference | MarkEcmaArray | MarkObjectEnd | MarkStrictArray | MarkDate | MarkLongString
  | MarkUnsupported | MarkRecordset | MarkXml | MarkTypedObject

fun marker_code :: "amf_type_marker \<Rightarrow> byte" where
  "marker_code MarkNumber = 0"
| "marker_code MarkBoolean = 1"
| "marker_code MarkString = 2"
| "marker_code MarkObject = 3"
| "marker_code MarkMovieClip = 4"
| "marker_code MarkNull = 5"
| "marker_code MarkUndefined = 6"
| "marker_code MarkReference = 7"
| "marker_code MarkEcmaArray = 8"
| "marker_code MarkObjectEnd = 9"
| "marker_code MarkStrictArray = 10"
| "marker_code MarkDate = 11"
| "marker_code MarkLongString = 12"
| "marker_code MarkUnsupported = 13"
| "marker_code MarkRecordset = 14"
| "marker_code MarkXml = 15"
| "marker_code MarkTypedObject = 16"

section \<open>AmfUtil: values with their marker\<close>

definition number_bytes :: "u64 \<Rightarrow> byte list" where
  "number_bytes w = map (\<lambda>i. ucast (drop_bit (8 * i) w)) (rev [0..<8])"

definition EncodeNumber :: "u64 \<Rightarrow> byte list" where
  "EncodeNumber number = AmfUtil_WriteInt8 (marker_code MarkNumber) @ number_bytes number"

definition EncodeBoolean :: "bool \<Rightarrow> byte list" where
  "EncodeBoolean boolean = AmfUtil_WriteInt8 (marker_code MarkBoolean) @ [if boolean then 1 else 0]"

definition EncodeString :: "byte list \<Rightarrow> byte list" where
  "EncodeString string = AmfUtil_WriteInt8 (marker_code MarkString) @
     AmfUtil_WriteInt16 (of_nat (length string)) @ string"

text \<open>The decoders return the number of bytes read, 0 if the marker is another one, and the value.\<close>

definition join_number :: "byte list \<Rightarrow> u64" where
  "join_number bs = foldl (\<lambda>w b. push_bit 8 w OR ucast b) 0 bs"

definition DecodeNumber :: "byte list \<Rightarrow> (nat \<times> u64) res" where
  "DecodeNumber mem = bindR (AmfUtil_ReadInt8 mem) (\<lambda>m.
     if m \<noteq> marker_code MarkNumber then Inr (0, 0)
     else bindR (read_bytes mem 1 8) (\<lambda>bs. Inr (1 + 8, join_number bs)))"

definition DecodeBoolean :: "byte list \<Rightarrow> (nat \<times> bool) res" where
  "DecodeBoolean mem = bindR (AmfUtil_ReadInt8 mem) (\<lambda>m.
     if m \<noteq> marker_code MarkBoolean then Inr (0, True)
     else bindR (byte_at mem 1) (\<lambda>b. Inr (1 + 1, b \<noteq> 0)))"

text \<open>
  \<open>strncpy(dst, src, n)\<close> followed by \<open>dst[n] = 0\<close>: it reads up to \<open>n\<close> bytes and stops at a NUL.
\<close>

definition strncpy :: "byte list \<Rightarrow> nat \<Rightarrow> byte list res" where
  "strncpy src n =
     (if length src < n \<and> 0 \<notin> set src then Inl Over_Read else Inr (takeWhile (\<lambda>b. b \<noteq> 0) (take n src)))"

definition DecodeString :: "byte list \<Rightarrow> (nat \<times> byte list) res" where
  "DecodeString mem = bindR (AmfUtil_ReadInt8 mem) (\<lambda>m.
     if m \<noteq> marker_code MarkString then Inr (0, [])
     else bindR (AmfUtil_ReadInt16 (drop 1 mem)) (\<lambda>str_len.
            bindR (strncpy (drop 3 mem) (unat str_len)) (\<lambda>s. Inr (1 + 2 + unat str_len, s))))"

section \<open>Properties\<close>

datatype amf_property =
    AmfNull
  | AmfUndefined
  | AmfNumber u64
  | AmfBoolean bool
  | AmfString "byte list"
  | AmfArray "(byte list \<times> amf_property) list"
  | AmfObject "(byte list \<times> amf_property) list"

type_synonym property_pairs = "(byte list \<times> amf_property) list"

text \<open>The constructors that take a pointer make a null property of a null pointer.\<close>

definition AmfProperty_of_type :: "amf_data_type \<Rightarrow> amf_property" where
  "AmfProperty_of_type ty = (if ty = TypeUndefined then AmfUndefined else AmfNull)"

definition AmfProperty_of_string :: "byte list option \<Rightarrow> amf_property" where
  "AmfProperty_of_string s = (case s of None \<Rightarrow> AmfNull | Some s \<Rightarrow> AmfString s)"

definition AmfProperty_of_array :: "property_pairs option \<Rightarrow> amf_property" where
  "AmfProperty_of_array a = (case a of None \<Rightarrow> AmfNull | Some ps \<Rightarrow> AmfArray ps)"

definition AmfProperty_of_object :: "property_pairs option \<Rightarrow> amf_property" where
  "AmfProperty_of_object a = (case a of None \<Rightarrow> AmfNull | Some ps \<Rightarrow> AmfObject ps)"

fun property_GetType :: "amf_property \<Rightarrow> amf_data_type" where
  "property_GetType AmfNull = TypeNull"
| "property_GetType AmfUndefined = TypeUndefined"
| "property_GetType (AmfNumber _) = TypeNumber"
| "property_GetType (AmfBoolean _) = TypeBoolean"
| "property_GetType (AmfString _) = TypeString"
| "property_GetType (AmfArray _) = TypeArray"
| "property_GetType (AmfObject _) = TypeObject"

definition property_GetNumber :: "amf_property \<Rightarrow> u64" where
  "property_GetNumber p = (case p of AmfNumber w \<Rightarrow> w | _ \<Rightarrow> 0)"

definition property_GetBoolean :: "amf_property \<Rightarrow> bool" where
  "property_GetBoolean p = (case p of AmfBoolean b \<Rightarrow> b | _ \<Rightarrow> True)"

definition property_GetString :: "amf_property \<Rightarrow> byte list option" where
  "property_GetString p = (case p of AmfString s \<Rightarrow> Some s | _ \<Rightarrow> None)"

definition property_GetArray :: "amf_property \<Rightarrow> property_pairs option" where
  "property_GetArray p = (case p of AmfArray ps \<Rightarrow> Some ps | _ \<Rightarrow> None)"

definition property_GetAmfObject :: "amf_property \<Rightarrow> property_pairs option" where
  "property_GetAmfObject p = (case p of AmfObject ps \<Rightarrow> Some ps | _ \<Rightarrow> None)"

section \<open>Encoding\<close>

text \<open>
  \<open>AmfProperty::Encode\<close> and \<open>AmfObjectArray::Encode\<close>; \<open>encode_pairs\<close> is the loop of the latter. An
  array or object without items writes nothing at all.
\<close>

function (sequential) property_Encode :: "amf_property \<Rightarrow> byte list"
  and encode_pairs :: "property_pairs \<Rightarrow> byte list" where
  "property_Encode AmfNull = AmfUtil_WriteInt8 (marker_code MarkNull)"
| "property_Encode AmfUndefined = AmfUtil_WriteInt8 (marker_code MarkUndefined)"
| "property_Encode (AmfNumber number) = EncodeNumber number"
| "property_Encode (AmfBoolean boolean) = EncodeBoolean boolean"
| "property_Encode (AmfString string) = EncodeString string"
| "property_Encode (AmfArray pairs) =
     (if pairs = [] then []
      else AmfUtil_WriteInt8 (marker_code MarkEcmaArray) @ AmfUtil_WriteInt32 0 @ encode_pairs pairs @
           AmfUtil_WriteInt16 0 @ AmfUtil_WriteInt8 (marker_code MarkObjectEnd))"
| "property_Encode (AmfObject pairs) =
     (if pairs = [] then []
      else AmfUtil_WriteInt8 (marker_code MarkObject) @ encode_pairs pairs @
           AmfUtil_WriteInt16 0 @ AmfUtil_WriteInt8 (marker_code MarkObjectEnd))"
| "encode_pairs [] = []"
| "encode_pairs ((name, p) # ps) =
     AmfUtil_WriteInt16 (of_nat (length name)) @ name @ property_Encode p @ encode_pairs ps"
  by pat_completeness auto
termination
  by (relation "measure (\<lambda>x. case x of Inl p \<Rightarrow> size p | Inr ps \<Rightarrow> size_list (size_prod (\<lambda>_. 0) size) ps)") auto

section \<open>Decoding\<close>

text \<open>
  \<open>AmfProperty::Decode\<close> and \<open>AmfObjectArray::Decode\<close>. The first two arguments are the memory at the
  pointer and \<open>data_length\<close>; the result is the number of bytes read, 0 for a failure, and the value.
  \<open>decode_pairs\<close> is the loop of the latter: \<open>rest\<close> is the memory at \<open>pt_in\<close>, \<open>off\<close> the distance from
  \<open>data\<close>. The loop ends at an end marker only, and a name is copied into 128 bytes.
\<close>

lemma AmfUtil_ReadInt8_Inr: "AmfUtil_ReadInt8 mem = Inr m \<longleftrightarrow> mem \<noteq> [] \<and> m = mem ! 0"
  by (auto simp: AmfUtil_ReadInt8_def byte_at_def bindR_def)

function (sequential) property_Decode :: "byte list \<Rightarrow> int \<Rightarrow> (nat \<times> amf_property) res"
  and decode_pairs :: "byte list \<Rightarrow> nat \<Rightarrow> int \<Rightarrow> property_pairs \<Rightarrow> (nat \<times> property_pairs) res" where
  "property_Decode mem data_length =
     (if data_length < 1 then Inr (0, AmfNull)
      else bindR (AmfUtil_ReadInt8 mem) (\<lambda>m.
        if m = marker_code MarkNull then Inr (1, AmfNull)
        else if m = marker_code MarkUndefined then Inr (1, AmfUndefined)
        else if m = marker_code MarkNumber then
          (if data_length < 1 + 8 then Inr (0, AmfNull)
           else bindR (DecodeNumber mem) (\<lambda>(n, w). Inr (n, AmfNumber w)))
        else if m = marker_code MarkBoolean then
          (if data_length < 1 + 1 then Inr (0, AmfNull)
           else bindR (DecodeBoolean mem) (\<lambda>(n, b). Inr (n, AmfBoolean b)))
        else if m = marker_code MarkString then
          (if data_length < 1 + 3 then Inr (0, AmfNull)
           else bindR (DecodeString mem) (\<lambda>(n, s). Inr (n, AmfString s)))
        else if m = marker_code MarkEcmaArray then
          bindR (decode_pairs (drop 5 mem) 5 data_length []) (\<lambda>(n, ps). Inr (n, AmfArray ps))
        else if m = marker_code MarkObject then
          bindR (decode_pairs (drop 1 mem) 1 data_length []) (\<lambda>(n, ps). Inr (n, AmfObject ps))
        else Inr (0, AmfNull)))"
| "decode_pairs rest off data_length pairs =
     bindR (AmfUtil_ReadInt8 rest) (\<lambda>m.
       if m = marker_code MarkObjectEnd then Inr (off + 1, pairs)
       else bindR (AmfUtil_ReadInt16 rest) (\<lambda>len.
         if len = 0 then decode_pairs (drop 2 rest) (off + 2) data_length pairs
         else if 128 \<le> unat len then Inl Over_Write
         else bindR (strncpy (drop 2 rest) (unat len)) (\<lambda>name.
           let off' = off + 2 + unat len; rest' = drop (2 + unat len) rest in
           bindR (property_Decode rest' (data_length - int off')) (\<lambda>(n, p).
             if n = 0 then Inr (0, pairs)
             else decode_pairs (drop n rest') (off' + n) data_length (pairs @ [(name, p)])))))"
  by pat_completeness auto

termination
  by (relation "measure (\<lambda>x. case x of Inl (mem, _) \<Rightarrow> 2 * length mem + 1 | Inr (rest, _) \<Rightarrow> 2 * length rest)")
     (auto simp: AmfUtil_ReadInt8_Inr neq_Nil_conv)

declare property_Decode.simps [simp del] decode_pairs.simps [simp del]

section \<open>Arrays and objects\<close>

text \<open>
  The operations of \<^verbatim>\<open>AmfObjectArray\<close> on its list of pairs. A null name is refused; a name is copied
  into an array of 128 bytes with \<open>strcpy\<close>.
\<close>

definition add_pair :: "byte list option \<Rightarrow> amf_property \<Rightarrow> property_pairs \<Rightarrow> (bool \<times> property_pairs) res" where
  "add_pair name p ps =
     (case name of
        None \<Rightarrow> Inr (False, ps)
      | Some nm \<Rightarrow> if 128 \<le> length nm then Inl Over_Write else Inr (True, ps @ [(nm, p)]))"

definition array_AddProperty_type ::
    "byte list option \<Rightarrow> amf_data_type \<Rightarrow> property_pairs \<Rightarrow> (bool \<times> property_pairs) res" where
  "array_AddProperty_type name ty ps =
     (if name \<noteq> None \<and> ty \<noteq> TypeNull \<and> ty \<noteq> TypeUndefined then Inr (False, ps)
      else add_pair name (AmfProperty_of_type ty) ps)"

definition array_AddProperty_number ::
    "byte list option \<Rightarrow> u64 \<Rightarrow> property_pairs \<Rightarrow> (bool \<times> property_pairs) res" where
  "array_AddProperty_number name number = add_pair name (AmfNumber number)"

definition array_AddProperty_boolean ::
    "byte list option \<Rightarrow> bool \<Rightarrow> property_pairs \<Rightarrow> (bool \<times> property_pairs) res" where
  "array_AddProperty_boolean name boolean = add_pair name (AmfBoolean boolean)"

definition array_AddProperty_string ::
    "byte list option \<Rightarrow> byte list option \<Rightarrow> property_pairs \<Rightarrow> (bool \<times> property_pairs) res" where
  "array_AddProperty_string name string = add_pair name (AmfProperty_of_string string)"

definition array_AddProperty_array ::
    "byte list option \<Rightarrow> property_pairs option \<Rightarrow> property_pairs \<Rightarrow> (bool \<times> property_pairs) res" where
  "array_AddProperty_array name array = add_pair name (AmfProperty_of_array array)"

definition array_AddProperty_object ::
    "byte list option \<Rightarrow> property_pairs option \<Rightarrow> property_pairs \<Rightarrow> (bool \<times> property_pairs) res" where
  "array_AddProperty_object name obj = add_pair name (AmfProperty_of_object obj)"

definition AddNullProperty ::
    "byte list option \<Rightarrow> property_pairs \<Rightarrow> (bool \<times> property_pairs) res" where
  "AddNullProperty name = add_pair name AmfNull"

definition GetPair :: "property_pairs \<Rightarrow> int \<Rightarrow> (byte list \<times> amf_property) option" where
  "GetPair ps index = (if index < 0 \<or> int (length ps) \<le> index then None else Some (ps ! nat index))"

text \<open>The search of \<open>FindName\<close> from the position \<open>i\<close>.\<close>

fun find_name_from :: "property_pairs \<Rightarrow> byte list \<Rightarrow> int \<Rightarrow> int" where
  "find_name_from [] name i = -1"
| "find_name_from ((nm, _) # ps) name i = (if nm = name then i else find_name_from ps name (i + 1))"

definition FindName :: "property_pairs \<Rightarrow> byte list option \<Rightarrow> int" where
  "FindName ps name = (case name of None \<Rightarrow> -1 | Some nm \<Rightarrow> find_name_from ps nm 0)"

definition GetName :: "property_pairs \<Rightarrow> int \<Rightarrow> byte list option" where
  "GetName ps index = map_option fst (GetPair ps index)"

definition array_GetType :: "property_pairs \<Rightarrow> int \<Rightarrow> amf_data_type" where
  "array_GetType ps index =
     (case GetPair ps index of None \<Rightarrow> TypeNull | Some (_, p) \<Rightarrow> property_GetType p)"

definition array_GetNumber :: "property_pairs \<Rightarrow> int \<Rightarrow> u64" where
  "array_GetNumber ps index =
     (case GetPair ps index of None \<Rightarrow> 0 | Some (_, p) \<Rightarrow> property_GetNumber p)"

definition array_GetBoolean :: "property_pairs \<Rightarrow> int \<Rightarrow> bool" where
  "array_GetBoolean ps index =
     (case GetPair ps index of None \<Rightarrow> False | Some (_, p) \<Rightarrow> property_GetBoolean p)"

definition array_GetString :: "property_pairs \<Rightarrow> int \<Rightarrow> byte list option" where
  "array_GetString ps index =
     (case GetPair ps index of None \<Rightarrow> None | Some (_, p) \<Rightarrow> property_GetString p)"

definition array_GetArray :: "property_pairs \<Rightarrow> int \<Rightarrow> property_pairs option" where
  "array_GetArray ps index =
     (case GetPair ps index of None \<Rightarrow> None | Some (_, p) \<Rightarrow> property_GetArray p)"

definition array_GetObject :: "property_pairs \<Rightarrow> int \<Rightarrow> property_pairs option" where
  "array_GetObject ps index =
     (case GetPair ps index of None \<Rightarrow> None | Some (_, p) \<Rightarrow> property_GetAmfObject p)"

section \<open>Documents\<close>

type_synonym amf_document = "amf_property list"

definition document_Encode :: "amf_document \<Rightarrow> byte list" where
  "document_Encode doc = concat (map property_Encode doc)"

text \<open>The loop of \<open>AmfDocument::Decode\<close>; \<open>total_len\<close> is also the distance of \<open>pt_in\<close> from \<open>data\<close>.\<close>

function document_Decode_loop ::
    "byte list \<Rightarrow> int \<Rightarrow> nat \<Rightarrow> amf_document \<Rightarrow> (nat \<times> amf_document) res" where
  "document_Decode_loop mem data_length total_len doc =
     (if int total_len < data_length then
        bindR (property_Decode (drop total_len mem) (data_length - int total_len)) (\<lambda>(ret_len, p).
          if ret_len = 0 then Inr (total_len, doc)
          else document_Decode_loop mem data_length (total_len + ret_len) (doc @ [p]))
      else Inr (total_len, doc))"
  by pat_completeness auto
termination
  by (relation "measure (\<lambda>(_, dl, total, _). nat (dl - int total))") auto

declare document_Decode_loop.simps [simp del]

definition document_Decode :: "byte list \<Rightarrow> int \<Rightarrow> amf_document \<Rightarrow> (nat \<times> amf_document) res" where
  "document_Decode mem data_length doc = document_Decode_loop mem data_length 0 doc"

definition document_AddProperty_type :: "amf_data_type \<Rightarrow> amf_document \<Rightarrow> bool \<times> amf_document" where
  "document_AddProperty_type ty doc =
     (if ty \<noteq> TypeNull \<and> ty \<noteq> TypeUndefined then (False, doc) else (True, doc @ [AmfProperty_of_type ty]))"

definition document_AddProperty_number :: "u64 \<Rightarrow> amf_document \<Rightarrow> bool \<times> amf_document" where
  "document_AddProperty_number number doc = (True, doc @ [AmfNumber number])"

definition document_AddProperty_boolean :: "bool \<Rightarrow> amf_document \<Rightarrow> bool \<times> amf_document" where
  "document_AddProperty_boolean boolean doc = (True, doc @ [AmfBoolean boolean])"

definition document_AddProperty_string :: "byte list option \<Rightarrow> amf_document \<Rightarrow> bool \<times> amf_document" where
  "document_AddProperty_string string doc =
     (if string = None then (False, doc) else (True, doc @ [AmfProperty_of_string string]))"

definition document_AddProperty_array :: "property_pairs option \<Rightarrow> amf_document \<Rightarrow> bool \<times> amf_document" where
  "document_AddProperty_array array doc =
     (if array = None then (False, doc) else (True, doc @ [AmfProperty_of_array array]))"

definition document_AddProperty_object :: "property_pairs option \<Rightarrow> amf_document \<Rightarrow> bool \<times> amf_document" where
  "document_AddProperty_object obj doc =
     (if obj = None then (False, doc) else (True, doc @ [AmfProperty_of_object obj]))"

definition GetPropertyCount :: "amf_document \<Rightarrow> int" where
  "GetPropertyCount doc = int (length doc)"

fun property_index_from :: "amf_document \<Rightarrow> byte list \<Rightarrow> int \<Rightarrow> int" where
  "property_index_from [] name i = -1"
| "property_index_from (p # ps) name i =
     (if property_GetString p = Some name then i else property_index_from ps name (i + 1))"

definition GetPropertyIndex :: "amf_document \<Rightarrow> byte list option \<Rightarrow> int" where
  "GetPropertyIndex doc name =
     (case name of None \<Rightarrow> -1 | Some nm \<Rightarrow> if doc = [] then -1 else property_index_from doc nm 0)"

definition GetProperty :: "amf_document \<Rightarrow> int \<Rightarrow> amf_property option" where
  "GetProperty doc index = (if index < 0 \<or> int (length doc) \<le> index then None else Some (doc ! nat index))"

section \<open>Reading what was written\<close>

lemma AmfUtil_eq [simp]:
  "AmfUtil_WriteInt16 h = WriteInt16 h" "AmfUtil_WriteInt32 w = WriteInt32 w"
  "AmfUtil_WriteInt8 b = [b]" "AmfUtil_ReadInt16 mem = ReadInt16 mem" "AmfUtil_ReadInt32 mem = ReadInt32 mem"
  "AmfUtil_ReadInt8 mem = ReadInt8 mem"
proof -
  have m: "x AND 0xff = take_bit 8 x" for x :: "'a::len word"
    by (simp add: take_bit_eq_mask mask_eq_exp_minus_1)
  have u: "ucast (take_bit 8 x) = (ucast x :: byte)" for x :: "'a::len word"
    by (rule bit_word_eqI) (simp add: bit_simps)
  show "AmfUtil_WriteInt16 h = WriteInt16 h" "AmfUtil_WriteInt32 w = WriteInt32 w"
    by (simp_all add: AmfUtil_WriteInt16_def AmfUtil_WriteInt32_def writer_defs m u)
  show "AmfUtil_ReadInt8 mem = ReadInt8 mem"
    by (cases mem) (simp_all add: AmfUtil_ReadInt8_def ReadInt8_def)
qed (simp_all add: AmfUtil_WriteInt8_def AmfUtil_ReadInt16_def AmfUtil_ReadInt32_def reader_defs)

lemma ReadInt8_Cons [simp]: "ReadInt8 (b # bs) = Inr b"
  by (simp add: ReadInt8_def)

lemma length_number_bytes [simp]: "length (number_bytes w) = 8"
  by (simp add: number_bytes_def)

lemma join_bytes_acc:
  "foldl (\<lambda>w b. push_bit 8 w OR ucast b) (a :: u64) (map (\<lambda>i. ucast (drop_bit (8 * i) w) :: byte) (rev [0..<k])) =
     push_bit (8 * k) a OR take_bit (8 * k) w"
proof (induction k arbitrary: a)
  case (Suc k)
  have "push_bit (8 * k) (push_bit 8 a OR ucast (ucast (drop_bit (8 * k) w) :: byte)) OR take_bit (8 * k) w =
      push_bit (8 * Suc k) a OR take_bit (8 * Suc k) w"
    by (rule bit_word_eqI) (auto simp: bit_simps add.commute [of 8 "8 * k"])
  with Suc show ?case by simp
qed simp

lemma join_number_bytes: "join_number (number_bytes w) = w"
  using join_bytes_acc [of 0 w 8] by (simp add: join_number_def number_bytes_def take_bit_word_eq_self)

text \<open>
  The values a document can carry: strings without a NUL of at most 65535 bytes, names without a NUL
  of 1 to 127 bytes, and no empty array or object.
\<close>

function (sequential) wf_property :: "amf_property \<Rightarrow> bool" and wf_pairs :: "property_pairs \<Rightarrow> bool" where
  "wf_property (AmfString s) = (0 \<notin> set s \<and> length s < 2 ^ 16)"
| "wf_property (AmfArray ps) = (ps \<noteq> [] \<and> wf_pairs ps)"
| "wf_property (AmfObject ps) = (ps \<noteq> [] \<and> wf_pairs ps)"
| "wf_property _ = True"
| "wf_pairs [] = True"
| "wf_pairs ((name, p) # ps) =
     (name \<noteq> [] \<and> 0 \<notin> set name \<and> length name < 128 \<and> wf_property p \<and> wf_pairs ps)"
  by pat_completeness auto
termination
  by (relation "measure (\<lambda>x. case x of Inl p \<Rightarrow> size p | Inr ps \<Rightarrow> size_list (size_prod (\<lambda>_. 0) size) ps)") auto

lemma unat_of_nat_16: "n < 2 ^ 16 \<Longrightarrow> unat (of_nat n :: u16) = n"
  by (simp add: unat_of_nat)

lemma strncpy_exact: "0 \<notin> set s \<Longrightarrow> strncpy (s @ rest) (length s) = Inr s"
  by (simp add: strncpy_def) (metis takeWhile_eq_all_conv)

lemma length_EncodeString: "length (EncodeString s) = 3 + length s"
  by (simp add: EncodeString_def)

lemma DecodeString_EncodeString:
  assumes "0 \<notin> set s" "length s < 2 ^ 16"
  shows "DecodeString (EncodeString s @ rest) = Inr (3 + length s, s)"
proof -
  have "drop 3 (2 # WriteInt16 w @ xs) = xs" for w and xs :: "byte list"
    by (simp add: writer_defs)
  with assms show ?thesis
    by (simp add: DecodeString_def EncodeString_def byte_simps unat_of_nat_16 strncpy_exact)
qed

lemma DecodeNumber_EncodeNumber: "DecodeNumber (EncodeNumber w @ rest) = Inr (9, w)"
  by (simp add: DecodeNumber_def EncodeNumber_def join_number_bytes)

lemma DecodeBoolean_EncodeBoolean: "DecodeBoolean (EncodeBoolean b @ rest) = Inr (2, b)"
  by (simp add: DecodeBoolean_def EncodeBoolean_def)

text \<open>The \<open>data_length\<close> that lets a property be decoded: a string is asked for four bytes.\<close>

definition decode_need :: "amf_property \<Rightarrow> nat" where
  "decode_need p = max (length (property_Encode p)) (case p of AmfString _ \<Rightarrow> 4 | _ \<Rightarrow> 1)"

lemma property_Encode_nonempty: "wf_property p \<Longrightarrow> 0 < length (property_Encode p)"
  by (cases p) (auto simp: EncodeNumber_def EncodeBoolean_def EncodeString_def)

lemma decode_pairs_step:
  assumes "name \<noteq> []" "0 \<notin> set name" "length name < 128"
    and "property_Decode mem (dl - int (off + 2 + length name)) = Inr (n, p)" "0 < n"
  shows "decode_pairs (WriteInt16 (of_nat (length name)) @ name @ mem) off dl acc =
    decode_pairs (drop n mem) (off + 2 + length name + n) dl (acc @ [(name, p)])"
proof -
  let ?l = "of_nat (length name) :: u16"
  have u: "unat ?l = length name" using assms(3) by (simp add: unat_of_nat_16)
  then have l0: "?l \<noteq> 0" using assms(1) by auto
  have first: "ucast (drop_bit 8 ?l) = (0 :: byte)"
    using assms(3) u by (simp add: word_unat_eq_iff unat_ucast_mod drop_bit_unat)
  have hd: "ReadInt8 (WriteInt16 ?l @ xs) = Inr 0" for xs
    by (simp add: WriteInt16_def first)
  have dr: "drop 2 (WriteInt16 ?l @ xs) = xs" "drop (2 + length name) (WriteInt16 ?l @ name @ xs) = xs" for xs
    by (simp_all add: WriteInt16_def)
  show ?thesis
    using assms by (subst decode_pairs.simps)
      (simp del: of_nat_add add: hd l0 u dr byte_simps strncpy_exact Let_def)
qed

lemma decode_pairs_end:
  "decode_pairs (WriteInt16 0 @ [9] @ rest) off dl acc = Inr (off + 3, acc)"
  by (subst decode_pairs.simps, subst decode_pairs.simps) (simp add: writer_defs reader_defs)

lemma Decode_Encode:
  "wf_property p \<Longrightarrow> int (decode_need p) \<le> dl \<Longrightarrow>
     property_Decode (property_Encode p @ rest) dl = Inr (length (property_Encode p), p)"
  "wf_pairs ps \<Longrightarrow> int (off + length (encode_pairs ps) + 3) \<le> dl \<Longrightarrow>
     decode_pairs (encode_pairs ps @ WriteInt16 0 @ [9] @ rest) off dl acc =
       Inr (off + length (encode_pairs ps) + 3, acc @ ps)"
proof (induction p and ps arbitrary: dl rest and off dl rest acc rule: property_Encode_encode_pairs.induct)
  case (3 number)
  then show ?case
    using DecodeNumber_EncodeNumber [of number rest]
    by (subst property_Decode.simps) (simp add: decode_need_def EncodeNumber_def)
next
  case (4 boolean)
  then show ?case
    using DecodeBoolean_EncodeBoolean [of boolean rest]
    by (subst property_Decode.simps) (simp add: decode_need_def EncodeBoolean_def)
next
  case (5 string)
  then show ?case
    using DecodeString_EncodeString [of string rest]
    by (subst property_Decode.simps) (simp add: decode_need_def EncodeString_def)
next
  case (9 name p ps)
  let ?tail = "encode_pairs ps @ WriteInt16 0 @ [9] @ rest"
  let ?n = "length (property_Encode p)" and ?o = "off + 2 + length name"
  have "property_Decode (property_Encode p @ ?tail) (dl - int ?o) = Inr (?n, p)"
    using "9.prems" by (intro "9.IH"(1)) (auto simp: decode_need_def length_EncodeString split: amf_property.split)
  then have "decode_pairs (encode_pairs ((name, p) # ps) @ WriteInt16 0 @ [9] @ rest) off dl acc =
      decode_pairs ?tail (?o + ?n) dl (acc @ [(name, p)])"
    using decode_pairs_step [of name "property_Encode p @ ?tail" dl off ?n p acc] "9.prems"
      property_Encode_nonempty [of p] by simp
  also have "\<dots> = Inr (?o + ?n + length (encode_pairs ps) + 3, (acc @ [(name, p)]) @ ps)"
    using "9.prems" by (intro "9.IH"(2)) auto
  finally show ?case by simp
next
  case (6 pairs)
  then have ne: "pairs \<noteq> []" by simp
  have "decode_pairs (encode_pairs pairs @ WriteInt16 0 @ [9] @ rest) 5 dl [] =
      Inr (5 + length (encode_pairs pairs) + 3, [] @ pairs)"
    using 6 ne by (intro "6.IH") (auto simp: decode_need_def)
  moreover have "drop 5 (8 # WriteInt32 0 @ xs) = xs" for xs :: "byte list"
    by (simp add: WriteInt32_def)
  ultimately show ?case
    using ne "6.prems"(2) by (subst property_Decode.simps) (simp add: decode_need_def)
next
  case (7 pairs)
  then have ne: "pairs \<noteq> []" by simp
  have "decode_pairs (encode_pairs pairs @ WriteInt16 0 @ [9] @ rest) 1 dl [] =
      Inr (1 + length (encode_pairs pairs) + 3, [] @ pairs)"
    using 7 ne by (intro "7.IH") (auto simp: decode_need_def)
  then show ?case
    using ne "7.prems"(2) by (subst property_Decode.simps) (simp add: decode_need_def)
next
  case 8
  then show ?case using decode_pairs_end by simp
qed (simp_all add: property_Decode.simps decode_need_def)

end
