(* ===== verification/Amf_Codec.thy ===== *)
theory Amf_Codec
  imports Amf_Document
begin

text \<open>
  Documents as sequences of encoded values. The locale \<open>item_codec\<close> is the contract of an encoder and
  a decoder of single items, with the length the decoder asks for, and of the loop that decodes items
  until the length is used up; its lemmas give the round trip of sequences. Properties and documents
  of \<^verbatim>\<open>AmfDocument\<close> interpret it.
\<close>

locale item_codec =
  fixes enc :: "'a \<Rightarrow> byte list"
    and dec :: "byte list \<Rightarrow> int \<Rightarrow> (nat \<times> 'a) res"
    and wf :: "'a \<Rightarrow> bool"
    and need :: "'a \<Rightarrow> nat"
    and loop :: "byte list \<Rightarrow> int \<Rightarrow> nat \<Rightarrow> 'a list \<Rightarrow> (nat \<times> 'a list) res"
  assumes dec_enc: "wf x \<Longrightarrow> int (need x) \<le> n \<Longrightarrow> dec (enc x @ rest) n = Inr (length (enc x), x)"
    and enc_nonempty: "wf x \<Longrightarrow> 0 < length (enc x)"
    and need_bound: "wf x \<Longrightarrow> need x \<le> Suc (length (enc x))"
    and loop_item: "int t < n \<Longrightarrow> dec (drop t mem) (n - int t) = Inr (Suc k, x) \<Longrightarrow>
      loop mem n t acc = loop mem n (t + Suc k) (acc @ [x])"
    and loop_stop: "int t < n \<Longrightarrow> dec (drop t mem) (n - int t) = Inr (0, y) \<Longrightarrow> loop mem n t acc = Inr (t, acc)"
    and loop_done: "\<not> int t < n \<Longrightarrow> loop mem n t acc = Inr (t, acc)"
begin

abbreviation enc_all :: "'a list \<Rightarrow> byte list" where
  "enc_all xs \<equiv> concat (map enc xs)"

text \<open>Items that are followed by at least one byte of the announced length.\<close>

lemma loop_items:
  assumes "list_all wf xs" "int (length pre + length (enc_all xs)) < n"
  shows "loop (pre @ enc_all xs @ rest) n (length pre) acc =
    loop (pre @ enc_all xs @ rest) n (length pre + length (enc_all xs)) (acc @ xs)"
  using assms
proof (induction xs arbitrary: pre acc)
  case (Cons x xs)
  let ?t = "length pre"
  obtain k where k: "length (enc x) = Suc k"
    using enc_nonempty [of x] Cons.prems(1) by (cases "enc x") auto
  have "int (need x) \<le> n - int ?t"
    using need_bound [of x] Cons.prems by simp
  then have "dec (enc x @ enc_all xs @ rest) (n - int ?t) = Inr (Suc k, x)"
    using dec_enc [of x] Cons.prems(1) k by simp
  then have "loop (pre @ enc_all (x # xs) @ rest) n ?t acc =
      loop (pre @ enc_all (x # xs) @ rest) n (?t + Suc k) (acc @ [x])"
    using Cons.prems(2) by (intro loop_item) simp_all
  also have "\<dots> = loop ((pre @ enc x) @ enc_all xs @ rest) n (length (pre @ enc x)) (acc @ [x])"
    by (simp add: k)
  also have "\<dots> = loop ((pre @ enc x) @ enc_all xs @ rest) n (length (pre @ enc x) + length (enc_all xs)) ((acc @ [x]) @ xs)"
    using Cons.prems by (intro Cons.IH) simp_all
  finally show ?case by (simp add: add.assoc)
qed simp

text \<open>The sequence is read back when its last item does not ask for more than its own length.\<close>

lemma loop_enc_all:
  assumes "list_all wf xs" "wf y" "need y \<le> length (enc y)"
  shows "loop (enc_all (xs @ [y]) @ rest) (int (length (enc_all (xs @ [y])))) 0 acc =
    Inr (length (enc_all (xs @ [y])), acc @ xs @ [y])"
proof -
  let ?n = "int (length (enc_all (xs @ [y])))" and ?t = "length (enc_all xs)"
  obtain k where k: "length (enc y) = Suc k"
    using enc_nonempty [OF assms(2)] by (cases "enc y") auto
  have "loop (enc_all (xs @ [y]) @ rest) ?n 0 acc = loop (enc_all (xs @ [y]) @ rest) ?n ?t (acc @ xs)"
    using loop_items [of xs "[]" ?n "enc y @ rest" acc] assms(1) k by simp
  also have "\<dots> = loop (enc_all (xs @ [y]) @ rest) ?n (?t + Suc k) ((acc @ xs) @ [y])"
    using dec_enc [OF assms(2), of "int (length (enc y))" rest] assms(3) k by (intro loop_item) simp_all
  also have "\<dots> = Inr (?t + Suc k, (acc @ xs) @ [y])"
    using k by (intro loop_done) simp
  finally show ?thesis using k by simp
qed

text \<open>A sequence that stops at bytes the decoder refuses is read up to there.\<close>

lemma loop_refused:
  assumes "list_all wf xs" "0 < length bad" "dec (bad @ rest) (int (length bad)) = Inr (0, y)"
  shows "loop (enc_all xs @ bad @ rest) (int (length (enc_all xs @ bad))) 0 acc = Inr (length (enc_all xs), acc @ xs)"
proof -
  let ?n = "int (length (enc_all xs @ bad))"
  have "loop (enc_all xs @ bad @ rest) ?n 0 acc = loop (enc_all xs @ bad @ rest) ?n (length (enc_all xs)) (acc @ xs)"
    using loop_items [of xs "[]" ?n "bad @ rest" acc] assms(1,2) by simp
  also have "\<dots> = Inr (length (enc_all xs), acc @ xs)"
    using assms(2,3) by (intro loop_stop [where y = y]) simp_all
  finally show ?thesis .
qed

end

interpretation amf: item_codec property_Encode property_Decode wf_property decode_need document_Decode_loop
proof unfold_locales
  show "wf_property x \<Longrightarrow> decode_need x \<le> Suc (length (property_Encode x))" for x
    by (cases x) (simp_all add: decode_need_def length_EncodeString)
qed (simp_all add: Decode_Encode property_Encode_nonempty [simplified] document_Decode_loop.simps)

lemma decode_need_eq:
  assumes "wf_property p" "p \<noteq> AmfString []"
  shows "decode_need p = length (property_Encode p)"
proof (cases p)
  case (AmfString s)
  then have "1 \<le> length s" using assms(2) by (cases s) auto
  with AmfString show ?thesis by (simp add: decode_need_def length_EncodeString max_def)
qed (use assms in \<open>auto simp: decode_need_def EncodeNumber_def EncodeBoolean_def\<close>)

section \<open>Searching\<close>

lemma find_name_from_range:
  "find_name_from ps name i = -1 \<and> name \<notin> fst ` set ps \<or>
   (\<exists>k < length ps. find_name_from ps name i = i + int k \<and> fst (ps ! k) = name \<and>
      (\<forall>j < k. fst (ps ! j) \<noteq> name))" if "0 \<le> i"
  using that
proof (induction ps name i rule: find_name_from.induct)
  case (2 nm p ps name i)
  show ?case
  proof (cases "nm = name")
    case True
    then show ?thesis by (intro disjI2 exI [of _ 0]) simp
  next
    case False
    with 2 consider "find_name_from ps name (i + 1) = -1" "name \<notin> fst ` set ps"
      | k where "k < length ps" "find_name_from ps name (i + 1) = i + 1 + int k" "fst (ps ! k) = name"
        "\<forall>j < k. fst (ps ! j) \<noteq> name" by auto
    then show ?thesis
    proof cases
      case 1
      with False show ?thesis by simp
    next
      case (2 k)
      with False show ?thesis
        by (intro disjI2 exI [of _ "Suc k"]) (auto simp: nth_Cons split: nat.split)
    qed
  qed
qed simp

lemma FindName_absent: "name \<notin> fst ` set ps \<Longrightarrow> FindName (ps @ [(name, p)]) (Some name) = int (length ps)"
proof -
  have "0 \<le> i \<Longrightarrow> name \<notin> fst ` set ps \<Longrightarrow> find_name_from (ps @ [(name, p)]) name i = i + int (length ps)" for i
    by (induction ps arbitrary: i) auto
  then show "name \<notin> fst ` set ps \<Longrightarrow> ?thesis" by (simp add: FindName_def)
qed

section \<open>Malformed input\<close>

lemma ReadInt8_WriteInt16:
  "n < 0x900 \<Longrightarrow> ReadInt8 (WriteInt16 (of_nat n) @ mem) \<noteq> Inr 9"
proof
  assume n: "n < 0x900" and "ReadInt8 (WriteInt16 (of_nat n) @ mem) = Inr 9"
  then have "ucast (drop_bit 8 (of_nat n :: u16)) = (9 :: byte)"
    by (simp add: WriteInt16_def)
  then have "unat (ucast (drop_bit 8 (of_nat n :: u16)) :: byte) = 9" by simp
  moreover have "unat (of_nat n :: u16) = n" using n by (intro unat_of_nat_16) simp
  ultimately show False using n by (simp add: unat_ucast_mod drop_bit_unat)
qed

lemma decode_pairs_long_name:
  assumes "128 \<le> n" "n < 0x900"
  shows "decode_pairs (WriteInt16 (of_nat n) @ mem) off dl acc = Inl Over_Write"
proof -
  have u: "unat (of_nat n :: u16) = n" using assms by (intro unat_of_nat_16) simp
  then have z: "(of_nat n :: u16) \<noteq> 0" using assms(1) by auto
  obtain b where b: "ReadInt8 (WriteInt16 (of_nat n) @ mem) = Inr b" "b \<noteq> 9"
    using ReadInt8_WriteInt16 [OF assms(2), of mem] by (simp add: WriteInt16_def)
  show ?thesis
    using assms(1) by (subst decode_pairs.simps) (simp add: b z u byte_simps)
qed

text \<open>A document of well-formed values is read back whole.\<close>

lemma document_Decode_Encode:
  assumes "list_all wf_property ps" "ps \<noteq> []" "last ps \<noteq> AmfString []"
  shows "document_Decode (document_Encode ps @ rest) (int (length (document_Encode ps))) doc =
    Inr (length (document_Encode ps), doc @ ps)"
proof -
  obtain xs y where ps: "ps = xs @ [y]" using assms(2) by (metis append_butlast_last_id)
  have "decode_need y \<le> length (property_Encode y)"
    using assms ps decode_need_eq [of y] by simp
  then show ?thesis
    using amf.loop_enc_all [of xs y rest doc] assms(1) by (simp add: ps document_Decode_def document_Encode_def)
qed

section \<open>Properties\<close>


definition sample_document :: amf_document where
  "sample_document = [AmfString [0x63, 0x6F], AmfNumber 0x3FF0000000000000,
     AmfObject [([0x61], AmfString []), ([0x62], AmfArray [([0x63], AmfBoolean True), ([0x64], AmfNull)])]]"


text \<open>
  An empty string at the end of a document is lost: the decoder asks for four bytes where an
  encoded empty string has three, and stops in front of it without an error.
\<close>

theorem amf_trailing_empty_string_lost:
  assumes "list_all wf_property ps"
  shows "document_Decode (document_Encode (ps @ [AmfString []]) @ rest)
      (int (length (document_Encode (ps @ [AmfString []])))) doc = Inr (length (document_Encode ps), doc @ ps)"
proof -
  have "property_Decode (property_Encode (AmfString []) @ rest) (int (length (property_Encode (AmfString [])))) =
      Inr (0, AmfNull)"
    by (subst property_Decode.simps) (simp add: EncodeString_def)
  then show ?thesis
    using amf.loop_refused [OF assms, of "property_Encode (AmfString [])" rest AmfNull doc]
    by (simp add: document_Decode_def document_Encode_def length_EncodeString)
qed

theorem amf_trailing_empty_string_lost_witness:
  "document_Decode (document_Encode ([AmfNull] @ [AmfString []]) @ [7])
      (int (length (document_Encode ([AmfNull] @ [AmfString []])))) [] =
    Inr (length (document_Encode [AmfNull]), [] @ [AmfNull])"
  by (rule amf_trailing_empty_string_lost) simp

text \<open>
  Decoding is not confined to \<open>data_length\<close>: an object that lacks its end marker, with a correct
  \<open>data_length\<close>, makes the decoder read past the end of the buffer.
\<close>

theorem amf_unterminated_object_overreads:
  assumes "name \<noteq> []" "0 \<notin> set name" "length name < 128" "wf_property p" "p \<noteq> AmfString []"
  shows "(let mem = marker_code MarkObject # encode_pairs [(name, p)] in
    property_Decode mem (int (length mem)) = Inl Over_Read)"
proof -
  let ?e = "property_Encode p" and ?n = "length (property_Encode p)"
  let ?dl = "int (length (marker_code MarkObject # encode_pairs [(name, p)]))"
  have "int (decode_need p) \<le> ?dl - int (1 + 2 + length name)"
    using decode_need_eq [OF assms(4,5)] by simp
  then have "property_Decode (?e @ []) (?dl - int (1 + 2 + length name)) = Inr (?n, p)"
    by (rule Decode_Encode(1) [OF assms(4)])
  then have "decode_pairs (encode_pairs [(name, p)]) 1 ?dl [] =
      decode_pairs (drop ?n ?e) (1 + 2 + length name + ?n) ?dl ([] @ [(name, p)])"
    using decode_pairs_step [of name ?e ?dl 1 ?n p "[]"] assms property_Encode_nonempty [OF assms(4)]
    by (simp del: of_nat_add)
  also have "\<dots> = Inl Over_Read"
    by (subst decode_pairs.simps) (simp add: ReadInt8_def)
  finally show ?thesis
    by (subst property_Decode.simps) (simp add: Let_def)
qed

theorem amf_unterminated_object_overreads_witness:
  "property_Decode [3, 0, 1, 0x61, 5] (int (length [3, 0, 1, 0x61, 5 :: byte])) = Inl Over_Read"
  using amf_unterminated_object_overreads [of "[0x61]" AmfNull]
  by (simp add: Let_def WriteInt16_def)

text \<open>
  A property name of 128 to 2303 bytes is copied past the end of the 128-byte name of the pair.
\<close>

theorem amf_long_name_overruns:
  assumes "128 \<le> n" "n < 0x900" "1 \<le> dl"
  shows "property_Decode (marker_code MarkObject # WriteInt16 (of_nat n) @ mem) dl = Inl Over_Write"
  using assms decode_pairs_long_name [OF assms(1,2), of mem 1 dl "[]"]
  by (subst property_Decode.simps) simp

theorem amf_long_name_overruns_witness:
  "property_Decode (marker_code MarkObject # WriteInt16 (of_nat 200) @ replicate 300 0x61) 303 = Inl Over_Write"
  by (rule amf_long_name_overruns) simp_all

text \<open>
  An empty object encodes to nothing, so that an object with one empty object as its value is
  refused by the decoder: the name is followed by the end marker, which is read as a number.
\<close>

theorem amf_empty_object_refused:
  assumes "name \<noteq> []" "0 \<notin> set name" "length name < 128"
  shows "property_Encode (AmfObject []) = [] \<and>
    (let mem = property_Encode (AmfObject [(name, AmfObject [])]) in
      property_Decode mem (int (length mem)) = Inr (0, AmfObject []))"
proof -
  let ?mem = "property_Encode (AmfObject [(name, AmfObject [])])" and ?l = "of_nat (length name) :: u16"
  have u: "unat ?l = length name" using assms(3) by (intro unat_of_nat_16) simp
  then have z: "?l \<noteq> 0" using assms(1) by auto
  obtain b where b: "ReadInt8 (WriteInt16 ?l @ xs) = Inr b" "b \<noteq> 9" for xs
    using ReadInt8_WriteInt16 [of "length name"] assms(3) by (simp add: WriteInt16_def)
  have dr: "drop 2 (WriteInt16 ?l @ xs) = xs" "drop (2 + length name) (WriteInt16 ?l @ name @ xs) = xs" for xs
    by (simp_all add: WriteInt16_def)
  have "property_Decode [0, 0, 9] 3 = Inr (0, AmfNull)"
    by (subst property_Decode.simps) simp
  then have "decode_pairs (WriteInt16 ?l @ name @ [0, 0, 9]) 1 (int (length name) + 6) [] = Inr (0, [])"
    using assms by (subst decode_pairs.simps) (simp add: b u z dr byte_simps strncpy_exact Let_def)
  moreover have "?mem = 3 # WriteInt16 ?l @ name @ [0, 0, 9]" "int (length ?mem) = int (length name) + 6"
    by (simp_all add: WriteInt16_def)
  ultimately have "property_Decode ?mem (int (length ?mem)) = Inr (0, AmfObject [])"
    by (simp only:) (subst property_Decode.simps, simp)
  then show ?thesis by (simp add: Let_def)
qed

theorem amf_empty_object_refused_witness:
  "property_Decode [3, 0, 1, 0x61, 0, 0, 9] 7 = Inr (0, AmfObject [])"
  using amf_empty_object_refused [of "[0x61]"] by (simp add: Let_def WriteInt16_def)

text \<open>
  \<open>FindName\<close> finds the first pair with the name and gives -1 exactly when there is none; its
  result is an index \<open>GetName\<close> accepts.
\<close>

theorem amf_FindName:
  "(FindName ps (Some name) = -1 \<longleftrightarrow> name \<notin> fst ` set ps) \<and>
   (FindName ps (Some name) \<noteq> -1 \<longrightarrow>
      0 \<le> FindName ps (Some name) \<and> GetName ps (FindName ps (Some name)) = Some name \<and>
      (\<forall>j < nat (FindName ps (Some name)). fst (ps ! j) \<noteq> name))"
proof -
  have "find_name_from ps name 0 = -1 \<and> name \<notin> fst ` set ps \<or>
    (\<exists>k < length ps. find_name_from ps name 0 = int k \<and> fst (ps ! k) = name \<and> (\<forall>j < k. fst (ps ! j) \<noteq> name))"
    using find_name_from_range [of 0 ps name] by simp
  then show ?thesis
  proof (elim disjE exE conjE)
    fix k assume "k < length ps" "find_name_from ps name 0 = int k" "fst (ps ! k) = name"
      "\<forall>j < k. fst (ps ! j) \<noteq> name"
    moreover from this have "name \<in> fst ` set ps" by (metis imageI nth_mem)
    ultimately show ?thesis by (simp add: FindName_def GetName_def GetPair_def)
  qed (simp add: FindName_def)
qed

theorem amf_FindName_witness:
  "GetName [([0x61], AmfNull), ([0x62], AmfBoolean True)] (FindName [([0x61], AmfNull), ([0x62], AmfBoolean True)] (Some [0x62])) =
    Some [0x62]"
  using amf_FindName [of "[([0x61], AmfNull), ([0x62], AmfBoolean True)]" "[0x62]"] by simp

text \<open>
  A value added under a new name of at most 127 bytes is found under it: the addition succeeds,
  \<open>FindName\<close> gives the last index, and the accessors return the value; every earlier pair stays. A
  longer name is written past the end of the pair.
\<close>

theorem amf_AddProperty_then_find:
  assumes "name \<notin> fst ` set ps" "length name < 128"
  shows "array_AddProperty_number (Some name) w ps = Inr (True, ps @ [(name, AmfNumber w)]) \<and>
    array_GetNumber (ps @ [(name, AmfNumber w)]) (FindName (ps @ [(name, AmfNumber w)]) (Some name)) = w \<and>
    array_AddProperty_string (Some name) (Some s) ps = Inr (True, ps @ [(name, AmfString s)]) \<and>
    array_GetString (ps @ [(name, AmfString s)]) (FindName (ps @ [(name, AmfString s)]) (Some name)) = Some s \<and>
    array_AddProperty_object (Some name) (Some qs) ps = Inr (True, ps @ [(name, AmfObject qs)]) \<and>
    array_GetObject (ps @ [(name, AmfObject qs)]) (FindName (ps @ [(name, AmfObject qs)]) (Some name)) = Some qs \<and>
    (\<forall>nm. 128 \<le> length nm \<longrightarrow> array_AddProperty_number (Some nm) w ps = Inl Over_Write)"
  using assms by (simp add: FindName_absent array_AddProperty_number_def array_AddProperty_string_def
      array_AddProperty_object_def add_pair_def AmfProperty_of_string_def AmfProperty_of_object_def
      array_GetNumber_def array_GetString_def array_GetObject_def GetPair_def property_GetNumber_def
      property_GetString_def property_GetAmfObject_def)

theorem amf_AddProperty_then_find_witness:
  "array_GetNumber ([([0x61], AmfNull)] @ [([0x62], AmfNumber 5)])
    (FindName ([([0x61], AmfNull)] @ [([0x62], AmfNumber 5)]) (Some [0x62])) = 5"
  using amf_AddProperty_then_find [of "[0x62]" "[([0x61], AmfNull)]" 5] by simp

end
