(* ===== verification/Bit_Stream.thy ===== *)
theory Bit_Stream
  imports Engine_Prelude
begin

text \<open>
  Bit access to byte buffers: \<^verbatim>\<open>BitReader\<close> (\<open>core/bit_reader.h\<close>) and \<^verbatim>\<open>ov::BitWriter\<close>
  (\<open>core/bit_writer.cpp\<close>), and their meaning on the bits of the buffer, the most significant bit of
  each byte first. The reader's pointers are its buffer, of \<open>_capacity\<close> bytes, and indices.
\<close>

unbundle bit_operations_syntax

section \<open>The reader\<close>

record bit_reader =
  br_data :: "byte list"
  br_pos :: nat
  br_bit :: nat

definition new_bit_reader :: "byte list \<Rightarrow> bit_reader" where
  "new_bit_reader data = \<lparr>br_data = data, br_pos = 0, br_bit = 0\<rparr>"

definition BytesConsumed :: "bit_reader \<Rightarrow> nat" where
  "BytesConsumed r = br_pos r"

definition BytesReamined :: "bit_reader \<Rightarrow> nat" where
  "BytesReamined r = length (br_data r) - BytesConsumed r"

definition BitsConsumed :: "bit_reader \<Rightarrow> nat" where
  "BitsConsumed r = br_pos r * 8 + br_bit r"

text \<open>The memory from the current position on.\<close>

definition CurrentPosition :: "bit_reader \<Rightarrow> byte list" where
  "CurrentPosition r = drop (br_pos r) (br_data r)"

definition SkipBytes :: "nat \<Rightarrow> bit_reader \<Rightarrow> bool \<times> bit_reader" where
  "SkipBytes n r =
     (if length (br_data r) - br_pos r < n then (False, r) else (True, r\<lparr>br_pos := br_pos r + n\<rparr>))"

text \<open>
  \<open>ReadBytes\<close> for one and two bytes: it does not look at the bit offset. The result is 0 when the
  bytes are not there.
\<close>

definition ReadBytes8 :: "bit_reader \<Rightarrow> byte \<times> bit_reader" where
  "ReadBytes8 r =
     (if length (br_data r) - br_pos r < 1 then (0, r)
      else (br_data r ! br_pos r, r\<lparr>br_pos := br_pos r + 1\<rparr>))"

definition ReadBytes16 :: "bit_reader \<Rightarrow> u16 \<times> bit_reader" where
  "ReadBytes16 r =
     (if length (br_data r) - br_pos r < 2 then (0, r)
      else (push_bit 8 (ucast (br_data r ! br_pos r)) OR ucast (br_data r ! (br_pos r + 1)),
            r\<lparr>br_pos := br_pos r + 2\<rparr>))"

text \<open>
  The loop of \<open>ReadBits\<close>; the value has the width of the template parameter. Each turn takes the bits
  of one byte; a turn that took none would be repeated for ever.
\<close>

function ReadBits_loop :: "nat \<Rightarrow> 'a::len word \<Rightarrow> bit_reader \<Rightarrow> ('a word \<times> bit_reader) res" where
  "ReadBits_loop bits val r =
     (if bits = 0 then Inr (val, r)
      else let k = min (if 8 \<le> bits then 8 else bits mod 8) (8 - br_bit r);
               mask_offset = 8 - k - br_bit r;
               msk = push_bit mask_offset (2 ^ k - 1) :: byte in
        if k = 0 then Inl Endless_Loop
        else bindR (byte_at (br_data r) (br_pos r)) (\<lambda>b.
          ReadBits_loop (bits - k) (push_bit k val OR ucast (drop_bit mask_offset (b AND msk)))
            (if br_bit r + k = 8 then r\<lparr>br_pos := br_pos r + 1, br_bit := 0\<rparr>
             else r\<lparr>br_bit := br_bit r + k\<rparr>)))"
  by pat_completeness auto
termination by (relation "measure fst") (rule wf_measure, simp only: in_measure fst_conv neq0_conv diff_less)

declare ReadBits_loop.simps [simp del]

text \<open>
  \<open>ReadBits(bits, value)\<close>: no value is the result \<^verbatim>\<open>false\<close>, which it also gives for 0 bits. The check
  of the capacity does not count the bits already taken from the current byte.
\<close>

definition ReadBits_into :: "nat \<Rightarrow> bit_reader \<Rightarrow> ('a::len word option \<times> bit_reader) res" where
  "ReadBits_into bits r =
     (if LENGTH('a) < bits then Inr (None, r)
      else if bits = 0 then Inr (None, r)
      else if length (br_data r) - br_pos r < (bits + 7) div 8 then Inr (None, r)
      else bindR (ReadBits_loop bits 0 r) (\<lambda>(v, r'). Inr (Some v, r')))"

definition ReadBits :: "nat \<Rightarrow> bit_reader \<Rightarrow> ('a::len word \<times> bit_reader) res" where
  "ReadBits bits r = bindR (ReadBits_into bits r) (\<lambda>(v, r').
     Inr (case v of None \<Rightarrow> 0 | Some v \<Rightarrow> v, r'))"

text \<open>
  \<open>ReadBit(value)\<close> fails at the end of the data, where \<open>ReadBit()\<close> gives 0; \<open>ReadBoolBit\<close> is the same
  bit as a truth value.
\<close>

definition ReadBit_into :: "bit_reader \<Rightarrow> (byte option \<times> bit_reader) res" where
  "ReadBit_into r =
     (if br_pos r = length (br_data r) then Inr (None, r)
      else bindR (byte_at (br_data r) (br_pos r)) (\<lambda>b.
        Inr (Some (if b AND push_bit (7 - br_bit r) 1 \<noteq> 0 then 1 else 0),
             if br_bit r = 7 then r\<lparr>br_pos := br_pos r + 1, br_bit := 0\<rparr>
             else r\<lparr>br_bit := br_bit r + 1\<rparr>)))"

definition ReadBit :: "bit_reader \<Rightarrow> (byte \<times> bit_reader) res" where
  "ReadBit r = bindR (ReadBit_into r) (\<lambda>(v, r'). Inr (case v of None \<Rightarrow> 0 | Some v \<Rightarrow> v, r'))"

definition ReadBoolBit :: "bit_reader \<Rightarrow> (bool \<times> bit_reader) res" where
  "ReadBoolBit r = bindR (ReadBit r) (\<lambda>(b, r'). Inr (b = 1, r'))"

section \<open>The writer\<close>

record bit_writer =
  bw_data :: "byte list"
  bw_count :: u32

definition new_bit_writer :: "nat \<Rightarrow> bit_writer" where
  "new_bit_writer data_size = \<lparr>bw_data = replicate data_size 0, bw_count = 0\<rparr>"

text \<open>
  The loop of \<open>Write\<close> at the byte with index \<open>i\<close>, where \<open>space\<close> bits are left. The bit count is at
  most 32 (the C++ shift has no meaning beyond).
\<close>

function Write_loop :: "nat \<Rightarrow> u32 \<Rightarrow> nat \<Rightarrow> nat \<Rightarrow> bit_writer \<Rightarrow> bit_writer res" where
  "Write_loop bit_count val space i w =
     (if bit_count = 0 then Inr w
      else let msk = (if bit_count = 32 then 0xFFFFFFFF else 2 ^ bit_count - 1) in
        if length (bw_data w) \<le> i then Inl Over_Write
        else if bit_count \<le> space then
          Inr (w\<lparr>bw_data := (bw_data w)[i := bw_data w ! i OR ucast (push_bit (space - bit_count) (val AND msk))],
                 bw_count := bw_count w + of_nat bit_count\<rparr>)
        else if space = 0 then Inl Endless_Loop
        else Write_loop (bit_count - space) val 8 (i + 1)
          (w\<lparr>bw_data := (bw_data w)[i := bw_data w ! i OR ucast (drop_bit (bit_count - space) (val AND msk))],
             bw_count := bw_count w + of_nat space\<rparr>))"
  by pat_completeness auto
termination by (relation "measure (\<lambda>(bit_count, _). bit_count)") auto

declare Write_loop.simps [simp del]

text \<open>A write that does not fit into the buffer is dropped without a sign.\<close>

definition Write :: "nat \<Rightarrow> u32 \<Rightarrow> bit_writer \<Rightarrow> bit_writer res" where
  "Write bit_count val w =
     (if length (bw_data w) * 8 < unat (bw_count w + of_nat bit_count) then Inr w
      else Write_loop bit_count val (8 - unat (bw_count w) mod 8) (unat (bw_count w) div 8) w)"

definition GetBitCount :: "bit_writer \<Rightarrow> u32" where
  "GetBitCount w = bw_count w"

definition GetDataSize :: "bit_writer \<Rightarrow> nat" where
  "GetDataSize w = (unat (bw_count w) + 7) div 8"

definition GetCapacity :: "bit_writer \<Rightarrow> nat" where
  "GetCapacity w = length (bw_data w)"

text \<open>The bytes from \<open>GetData()\<close> on, \<open>n\<close> of them.\<close>

definition GetData :: "nat \<Rightarrow> bit_writer \<Rightarrow> byte list res" where
  "GetData n w = read_bytes (bw_data w) 0 n"

text \<open>Several writes one after the other.\<close>

fun Writes :: "(nat \<times> u32) list \<Rightarrow> bit_writer \<Rightarrow> bit_writer res" where
  "Writes [] w = Inr w"
| "Writes ((n, v) # fs) w = bindR (Write n v w) (Writes fs)"

section \<open>Bits of a buffer\<close>

definition byte_bits :: "byte \<Rightarrow> bool list" where
  "byte_bits b = map (\<lambda>i. bit b (7 - i)) [0..<8]"

definition bits_of :: "byte list \<Rightarrow> bool list" where
  "bits_of bs = concat (map byte_bits bs)"

text \<open>The bits of a number, and the number of some bits, most significant bit first.\<close>

definition low_bits :: "nat \<Rightarrow> 'a::len word \<Rightarrow> bool list" where
  "low_bits n v = map (\<lambda>i. bit v (n - 1 - i)) [0..<n]"

definition push_bits :: "'a::len word \<Rightarrow> bool list \<Rightarrow> 'a word" where
  "push_bits v bs = foldl (\<lambda>v b. push_bit 1 v OR of_bool b) v bs"

abbreviation bits_value :: "bool list \<Rightarrow> 'a::len word" where
  "bits_value bs \<equiv> push_bits 0 bs"

lemma length_byte_bits [simp]: "length (byte_bits b) = 8"
  by (simp add: byte_bits_def)

lemma nth_byte_bits: "i < 8 \<Longrightarrow> byte_bits b ! i = bit b (7 - i)"
  by (simp add: byte_bits_def)

lemma bits_of_simps [simp]:
  "bits_of [] = []" "bits_of (b # bs) = byte_bits b @ bits_of bs" "bits_of (xs @ ys) = bits_of xs @ bits_of ys"
  by (simp_all add: bits_of_def)

lemma length_bits_of [simp]: "length (bits_of bs) = 8 * length bs"
  by (induction bs) auto

lemma drop_bits_of: "drop (8 * n) (bits_of bs) = bits_of (drop n bs)"
proof (induction bs arbitrary: n)
  case (Cons b bs)
  then show ?case by (cases n) auto
qed simp

lemma take_bits_of: "take (8 * n) (bits_of bs) = bits_of (take n bs)"
proof (induction bs arbitrary: n)
  case (Cons b bs)
  then show ?case by (cases n) auto
qed simp

lemma nth_bits_of: "q < 8 * length bs \<Longrightarrow> bits_of bs ! q = bit (bs ! (q div 8)) (7 - q mod 8)"
proof (induction bs arbitrary: q)
  case (Cons b bs)
  show ?case
  proof (cases "q < 8")
    case True
    then show ?thesis by (simp add: nth_append nth_byte_bits)
  next
    case False
    moreover from False obtain p where "q = p + 8" by (metis add.commute le_Suc_ex not_le)
    ultimately show ?thesis using Cons.IH [of p] Cons.prems by (simp add: nth_append div_add_self2)
  qed
qed simp

lemma bits_of_inject: "bits_of xs = bits_of ys \<longleftrightarrow> xs = ys"
proof
  assume eq: "bits_of xs = bits_of ys"
  then have len: "length xs = length ys" by (metis length_bits_of mult_cancel1 zero_neq_numeral)
  show "xs = ys"
  proof (rule nth_equalityI [OF len])
    fix i assume i: "i < length xs"
    show "xs ! i = ys ! i"
    proof (rule bit_word_eqI)
      fix n :: nat assume n: "n < LENGTH(8)"
      let ?q = "8 * i + (7 - n)"
      have "bits_of xs ! ?q = bits_of ys ! ?q" using eq by simp
      then show "bit (xs ! i) n = bit (ys ! i) n" using i len n by (simp add: nth_bits_of)
    qed
  qed
qed simp

lemma length_low_bits [simp]: "length (low_bits n v) = n"
  by (simp add: low_bits_def)

lemma nth_low_bits: "i < n \<Longrightarrow> low_bits n v ! i = bit v (n - 1 - i)"
  by (simp add: low_bits_def)

lemma low_bits_byte: "low_bits 8 (b :: byte) = byte_bits b"
  by (simp add: low_bits_def byte_bits_def)

lemma low_bits_split: "low_bits (m + n) v = low_bits m (drop_bit n v) @ low_bits n v"
  by (rule nth_equalityI) (auto simp: nth_append nth_low_bits bit_drop_bit_eq add.commute)

lemma push_bits_simps [simp]:
  "push_bits v [] = v" "push_bits v (xs @ ys) = push_bits (push_bits v xs) ys"
  by (simp_all add: push_bits_def)

lemma bit_push_bits:
  "bit (push_bits (v :: 'a::len word) bs) n \<longleftrightarrow>
     n < LENGTH('a) \<and> (if n < length bs then rev bs ! n else bit v (n - length bs))"
proof (induction bs arbitrary: n rule: rev_induct)
  case Nil
  then show ?case by (auto dest: bit_imp_le_length)
next
  case (snoc b bs)
  have "bit (push_bit 1 w OR of_bool b) n \<longleftrightarrow> n < LENGTH('a) \<and> (if n = 0 then b else bit w (n - 1))" for w :: "'a word"
    unfolding bit_or_iff bit_push_bit_iff by (cases n) (auto simp: bit_simps dest: bit_imp_le_length)
  then have "bit (push_bits v (bs @ [b])) n \<longleftrightarrow> n < LENGTH('a) \<and> (if n = 0 then b else bit (push_bits v bs) (n - 1))"
    by (simp only: push_bits_def foldl_append foldl.simps)
  then show ?case by (cases n) (auto simp: snoc.IH)
qed

lemma bits_value_low_bits: "bits_value (low_bits n v) = take_bit n (ucast v)"
  by (rule bit_word_eqI) (auto simp: bit_push_bits bit_simps rev_nth nth_low_bits)

section \<open>Reading\<close>

text \<open>The bits that are left, the reader \<open>n\<close> bits further on, and the invariant of the position.\<close>

definition br_rest :: "bit_reader \<Rightarrow> bool list" where
  "br_rest r = drop (BitsConsumed r) (bits_of (br_data r))"

definition br_skip :: "nat \<Rightarrow> bit_reader \<Rightarrow> bit_reader" where
  "br_skip n r = r\<lparr>br_pos := (BitsConsumed r + n) div 8, br_bit := (BitsConsumed r + n) mod 8\<rparr>"

definition br_ok :: "bit_reader \<Rightarrow> bool" where
  "br_ok r = (br_bit r < 8 \<and> BitsConsumed r \<le> 8 * length (br_data r))"

lemma br_data_skip [simp]: "br_data (br_skip n r) = br_data r"
  by (simp add: br_skip_def)

lemma BitsConsumed_skip [simp]: "BitsConsumed (br_skip n r) = BitsConsumed r + n"
  by (simp add: br_skip_def BitsConsumed_def)

lemma br_skip_0 [simp]: "br_ok r \<Longrightarrow> br_skip 0 r = r"
  by (cases r) (simp add: br_skip_def br_ok_def BitsConsumed_def)

lemma br_skip_skip [simp]: "br_skip n (br_skip m r) = br_skip (m + n) r"
  by (simp add: br_skip_def BitsConsumed_def add.assoc)

lemma br_rest_skip [simp]: "br_rest (br_skip n r) = drop n (br_rest r)"
  by (simp add: br_rest_def add.commute)

lemma br_ok_skip [simp]: "br_ok r \<Longrightarrow> n \<le> length (br_rest r) \<Longrightarrow> br_ok (br_skip n r)"
  by (auto simp: br_ok_def br_rest_def) (simp add: br_skip_def)

lemma br_ok_new [simp]: "br_ok (new_bit_reader data)"
  by (simp add: br_ok_def new_bit_reader_def BitsConsumed_def)

lemma br_rest_new [simp]: "br_rest (new_bit_reader data) = bits_of data"
  by (simp add: br_rest_def new_bit_reader_def BitsConsumed_def)

lemma br_data_new [simp]: "br_data (new_bit_reader data) = data"
  by (simp add: new_bit_reader_def)

lemma bits_chunk_value:
  assumes "off + k \<le> 8" "0 < k"
  shows "push_bit k val OR ucast (drop_bit (8 - k - off) (b AND push_bit (8 - k - off) (2 ^ k - 1))) =
    push_bits (val :: 'a::len word) (take k (drop off (byte_bits b)))"
proof (rule bit_word_eqI)
  fix n assume n: "n < LENGTH('a)"
  have m: "push_bit (8 - k - off) (2 ^ k - 1) = push_bit (8 - k - off) (mask k :: byte)"
    by (simp add: mask_eq_exp_minus_1)
  have "rev (take k (drop off (byte_bits b))) ! n \<longleftrightarrow> bit b (n + (8 - k - off))" if "n < k"
  proof -
    have "rev (take k (drop off (byte_bits b))) ! n = byte_bits b ! (off + (k - Suc n))"
      using that assms by (simp add: rev_nth)
    also have "\<dots> = bit b (7 - (off + (k - Suc n)))" using that assms by (simp add: nth_byte_bits)
    also have "7 - (off + (k - Suc n)) = n + (8 - k - off)" using that assms by simp
    finally show ?thesis .
  qed
  then show "bit (push_bit k val OR ucast (drop_bit (8 - k - off) (b AND push_bit (8 - k - off) (2 ^ k - 1)))) n =
      bit (push_bits val (take k (drop off (byte_bits b)))) n"
    using n assms unfolding m bit_push_bits by (auto simp: bit_simps add.commute [of 8 n] dest: bit_imp_le_length)
qed

lemma br_rest_head:
  assumes "br_bit r < 8" "br_pos r < length (br_data r)"
  shows "br_rest r = drop (br_bit r) (byte_bits (br_data r ! br_pos r)) @ bits_of (drop (Suc (br_pos r)) (br_data r))"
proof -
  have "drop (br_pos r) (br_data r) = br_data r ! br_pos r # drop (Suc (br_pos r)) (br_data r)"
    using assms(2) by (simp add: Cons_nth_drop_Suc)
  then have "drop (8 * br_pos r) (bits_of (br_data r)) =
      byte_bits (br_data r ! br_pos r) @ bits_of (drop (Suc (br_pos r)) (br_data r))"
    by (simp add: drop_bits_of)
  moreover have "drop (br_pos r * 8 + br_bit r) xs = drop (br_bit r) (drop (8 * br_pos r) xs)" for xs :: "bool list"
    by (simp add: ac_simps)
  ultimately show ?thesis using assms(1)
    unfolding br_rest_def BitsConsumed_def by (simp del: drop_drop)
qed

text \<open>One turn of the loop takes \<open>k\<close> bits of the current byte.\<close>

lemma ReadBits_turn:
  assumes "br_ok r" "br_pos r < length (br_data r)" "0 < bits"
    and k: "k = min (if 8 \<le> bits then 8 else bits mod 8) (8 - br_bit r)"
  shows "ReadBits_loop bits (val :: 'a::len word) r =
      ReadBits_loop (bits - k) (push_bits val (take k (br_rest r))) (br_skip k r)"
    and "0 < k" "k \<le> bits" "k \<le> length (br_rest r)"
proof -
  have off: "br_bit r < 8" using assms(1) by (simp add: br_ok_def)
  show "0 < k" using k off assms(3) by auto
  show "k \<le> bits" using k by auto
  have k8: "br_bit r + k \<le> 8" using k off by auto
  have kl: "k \<le> 8 - br_bit r" using k by simp
  then show "k \<le> length (br_rest r)" using br_rest_head [OF off assms(2)] by simp
  have t: "take k (br_rest r) = take k (drop (br_bit r) (byte_bits (br_data r ! br_pos r)))"
    using br_rest_head [OF off assms(2)] kl by simp
  have r': "br_skip k r = (if br_bit r + k = 8 then r\<lparr>br_pos := br_pos r + 1, br_bit := 0\<rparr> else r\<lparr>br_bit := br_bit r + k\<rparr>)"
  proof (cases "br_bit r + k = 8")
    case True
    then have "BitsConsumed r + k = (br_pos r + 1) * 8" by (simp add: BitsConsumed_def)
    then show ?thesis unfolding br_skip_def by (simp only: True) simp
  next
    case False
    then have "BitsConsumed r + k = br_pos r * 8 + (br_bit r + k)" "br_bit r + k < 8"
      using k8 by (simp_all add: BitsConsumed_def)
    moreover have "(p * 8 + x) div 8 = p \<and> (p * 8 + x) mod 8 = x" if "x < 8" for p x :: nat
      using that by simp
    ultimately have "(BitsConsumed r + k) div 8 = br_pos r" "(BitsConsumed r + k) mod 8 = br_bit r + k"
      by metis+
    then show ?thesis using False unfolding br_skip_def by simp
  qed
  show "ReadBits_loop bits val r = ReadBits_loop (bits - k) (push_bits val (take k (br_rest r))) (br_skip k r)"
    unfolding t r' bits_chunk_value [OF k8 \<open>0 < k\<close>, symmetric]
    by (subst ReadBits_loop.simps) (use assms(2,3) \<open>0 < k\<close> in \<open>simp add: Let_def k [symmetric]\<close>)
qed

lemma ReadBits_loop_in:
  "br_ok r \<Longrightarrow> n \<le> length (br_rest r) \<Longrightarrow>
     ReadBits_loop n (val :: 'a::len word) r = Inr (push_bits val (take n (br_rest r)), br_skip n r)"
proof (induction n arbitrary: val r rule: less_induct)
  case (less n)
  show ?case
  proof (cases "n = 0")
    case True
    then show ?thesis using less.prems by (simp add: ReadBits_loop.simps)
  next
    case False
    have pos: "br_pos r < length (br_data r)"
      using less.prems False by (simp add: br_rest_def BitsConsumed_def)
    define k where k: "k = min (if 8 \<le> n then 8 else n mod 8) (8 - br_bit r)"
    have n0: "0 < n" using False by simp
    note t = ReadBits_turn [OF less.prems(1) pos n0 k]
    note ks = t(2-4)
    have "take n (br_rest r) = take k (br_rest r) @ take (n - k) (drop k (br_rest r))"
      using ks(2) by (metis le_add_diff_inverse take_add)
    moreover have "ReadBits_loop (n - k) (push_bits val (take k (br_rest r))) (br_skip k r) =
        Inr (push_bits (push_bits val (take k (br_rest r))) (take (n - k) (drop k (br_rest r))), br_skip n r)"
      using less.IH [of "n - k" "br_skip k r" "push_bits val (take k (br_rest r))"] less.prems ks n0 by simp
    ultimately show ?thesis by (simp add: t(1) [of val])
  qed
qed

text \<open>Reading on where the data ends is an access past the buffer.\<close>

lemma ReadBits_loop_out:
  "br_ok r \<Longrightarrow> length (br_rest r) < n \<Longrightarrow> ReadBits_loop n (val :: 'a::len word) r = Inl Over_Read"
proof (induction n arbitrary: val r rule: less_induct)
  case (less n)
  show ?case
  proof (cases "br_pos r < length (br_data r)")
    case True
    define k where k: "k = min (if 8 \<le> n then 8 else n mod 8) (8 - br_bit r)"
    have n0: "0 < n" using less.prems by simp
    note t = ReadBits_turn [OF less.prems(1) True n0 k]
    have "ReadBits_loop (n - k) (push_bits val (take k (br_rest r))) (br_skip k r) = Inl Over_Read"
      using less.IH [of "n - k" "br_skip k r" "push_bits val (take k (br_rest r))"] less.prems t(2-4) n0 by simp
    then show ?thesis by (simp add: t(1) [of val])
  next
    case False
    moreover have "br_bit r < 8" "0 < n" using less.prems by (auto simp: br_ok_def)
    ultimately show ?thesis by (subst ReadBits_loop.simps) (simp add: Let_def min_def)
  qed
qed

lemma ReadBits_in:
  assumes "br_ok r" "0 < n" "n \<le> LENGTH('a::len)" "n \<le> length (br_rest r)"
  shows "ReadBits n r = Inr (bits_value (take n (br_rest r)) :: 'a word, br_skip n r)"
    and "ReadBits_into n r = Inr (Some (bits_value (take n (br_rest r)) :: 'a word), br_skip n r)"
proof -
  have "(n + 7) div 8 \<le> length (br_data r) - br_pos r"
    using assms(4) by (simp add: br_rest_def BitsConsumed_def)
  then show "ReadBits_into n r = Inr (Some (bits_value (take n (br_rest r)) :: 'a word), br_skip n r)"
    using assms by (simp add: ReadBits_into_def ReadBits_loop_in)
  then show "ReadBits n r = Inr (bits_value (take n (br_rest r)) :: 'a word, br_skip n r)"
    by (simp add: ReadBits_def)
qed

lemma ReadBit_in:
  assumes "br_ok r" "0 < length (br_rest r)"
  shows "ReadBit_into r = Inr (Some (of_bool (hd (br_rest r))), br_skip 1 r)"
    and "ReadBit r = Inr (of_bool (hd (br_rest r)), br_skip 1 r)"
    and "ReadBoolBit r = Inr (hd (br_rest r), br_skip 1 r)"
proof -
  have pos: "br_pos r < length (br_data r)" and off: "br_bit r < 8"
    using assms by (simp_all add: br_rest_def BitsConsumed_def br_ok_def)
  have "hd (br_rest r) = byte_bits (br_data r ! br_pos r) ! br_bit r"
    using br_rest_head [OF off pos] off by (simp add: hd_append hd_drop_conv_nth)
  then have h: "hd (br_rest r) = bit (br_data r ! br_pos r) (7 - br_bit r)"
    using off by (simp add: nth_byte_bits)
  have "br_skip 1 r = (if br_bit r = 7 then r\<lparr>br_pos := br_pos r + 1, br_bit := 0\<rparr> else r\<lparr>br_bit := br_bit r + 1\<rparr>)"
    using off by (auto simp: br_skip_def BitsConsumed_def div_Suc mod_Suc intro!: bit_reader.equality)
  then show "ReadBit_into r = Inr (Some (of_bool (hd (br_rest r))), br_skip 1 r)"
    using pos unfolding ReadBit_into_def h by (simp add: bit_iff_and_push_bit_not_eq_0)
  then show "ReadBit r = Inr (of_bool (hd (br_rest r)), br_skip 1 r)" by (simp add: ReadBit_def)
  then show "ReadBoolBit r = Inr (hd (br_rest r), br_skip 1 r)"
    by (simp add: ReadBoolBit_def)
qed

lemma ReadBit_end:
  assumes "br_ok r" "br_rest r = []"
  shows "ReadBit_into r = Inr (None, r)"
proof -
  have "BitsConsumed r = 8 * length (br_data r)" "br_bit r < 8"
    using assms by (auto simp: br_ok_def br_rest_def)
  then have "br_pos r = length (br_data r)" by (simp add: BitsConsumed_def)
  then show ?thesis by (simp add: ReadBit_into_def)
qed

end
