(* ===== verification/Bit_Codec.thy ===== *)
theory Bit_Codec
  imports Bit_Stream
begin

text \<open>
  What the writer leaves in its buffer, and that the reader reads it back: a writer whose buffer has
  room appends the low bits of a value to the bits written so far.
\<close>

unbundle bit_operations_syntax

section \<open>Writing\<close>

text \<open>The first bits of the buffer are those written, the rest is still zero.\<close>

definition writer_holds :: "bit_writer \<Rightarrow> bool list \<Rightarrow> bool" where
  "writer_holds w bs = (bits_of (bw_data w) = bs @ replicate (8 * length (bw_data w) - length bs) False \<and>
     length bs \<le> 8 * length (bw_data w) \<and> unat (bw_count w) = length bs \<and> 8 * length (bw_data w) + 32 < 2 ^ 32)"

lemma bits_of_zeros: "bits_of (replicate n 0) = replicate (8 * n) False"
proof -
  have "byte_bits 0 = replicate 8 False" by (simp add: byte_bits_def map_replicate_const)
  then show ?thesis by (induction n) (simp_all add: replicate_add)
qed

lemma writer_holds_new: "8 * n + 32 < 2 ^ 32 \<Longrightarrow> writer_holds (new_bit_writer n) []"
  by (simp add: writer_holds_def new_bit_writer_def bits_of_zeros)

text \<open>Setting the bits \<open>ys\<close> of the byte in which the zeros begin.\<close>

lemma bits_of_or:
  assumes "bits_of data = bs @ replicate (8 * length data - length bs) False"
    and "i = length bs div 8" "off = length bs mod 8" "off + length ys \<le> 8" "i < length data"
    and x: "\<And>j. j < 8 \<Longrightarrow> bit x (7 - j) \<longleftrightarrow> off \<le> j \<and> j < off + length ys \<and> ys ! (j - off)"
  shows "bits_of (data[i := data ! i OR x]) = (bs @ ys) @ replicate (8 * length data - length (bs @ ys)) False"
proof (rule nth_equalityI)
  have lb: "length bs = 8 * i + off" using assms(2,3) by simp
  have le: "length bs + length ys \<le> 8 * length data" using lb assms(4,5) by simp
  then show "length (bits_of (data[i := data ! i OR x])) =
      length ((bs @ ys) @ replicate (8 * length data - length (bs @ ys)) False)" by simp
  fix q assume "q < length (bits_of (data[i := data ! i OR x]))"
  then have q: "q < 8 * length data" by simp
  have old: "bit (data ! (q div 8)) (7 - q mod 8) \<longleftrightarrow> q < length bs \<and> bs ! q"
    using q nth_bits_of [OF q] by (auto simp: assms(1) nth_append split: if_split_asm)
  have new: "bits_of (data[i := data ! i OR x]) ! q \<longleftrightarrow>
      bit (data ! (q div 8)) (7 - q mod 8) \<or> q div 8 = i \<and> bit x (7 - q mod 8)"
    using q assms(5) by (auto simp: nth_bits_of bit_or_iff nth_list_update)
  have "q div 8 = i \<and> bit x (7 - q mod 8) \<longleftrightarrow> length bs \<le> q \<and> q < length bs + length ys \<and> ys ! (q - length bs)"
  proof (cases "q div 8 = i")
    case True
    then have qq: "q = 8 * i + q mod 8" using mult_div_mod_eq [of 8 q] by simp
    then have "length bs \<le> q \<longleftrightarrow> off \<le> q mod 8" "q < length bs + length ys \<longleftrightarrow> q mod 8 < off + length ys"
      "q - length bs = q mod 8 - off" unfolding lb by linarith+
    then show ?thesis using True x [of "q mod 8"] by simp
  next
    case False
    moreover have "q div 8 = i" if "8 * i + off \<le> q" "q < 8 * i + off + length ys"
    proof -
      have "8 * i \<le> q" "q < 8 * i + 8" using that assms(4) by simp_all
      then have "i \<le> q div 8" "q div 8 < Suc i" by (simp_all add: less_eq_div_iff_mult_less_eq div_less_iff_less_mult)
      then show ?thesis by simp
    qed
    ultimately show ?thesis unfolding lb by blast
  qed
  then show "bits_of (data[i := data ! i OR x]) ! q =
      ((bs @ ys) @ replicate (8 * length data - length (bs @ ys)) False) ! q"
    unfolding new old using q by (auto simp: nth_append not_less)
qed

text \<open>The byte that a turn of the loop writes: the high or all of the \<open>n\<close> low bits of the value.\<close>

lemma all_of_it:
  assumes "n \<le> 8 - off" "j < 8" "off < 8" "0 < n"
  shows "bit (ucast (push_bit (8 - off - n) (v AND (if n = 32 then 0xFFFFFFFF else 2 ^ n - 1))) :: byte) (7 - j) \<longleftrightarrow>
    off \<le> j \<and> j < off + n \<and> low_bits n (v :: u32) ! (j - off)"
proof -
  have m: "(if n = 32 then 0xFFFFFFFF else 2 ^ n - 1) = (mask n :: u32)"
    using assms by (simp add: mask_eq_exp_minus_1)
  show ?thesis
  proof (cases "off \<le> j \<and> j < off + n")
    case True
    then have "7 - j - (8 - off - n) = n - 1 - (j - off)" using assms by linarith
    moreover have "8 - off - n \<le> 7 - j" "7 - j - (8 - off - n) < n" "7 - j < 8" "n - 1 - (j - off) < 32"
      using True assms by arith+
    ultimately show ?thesis unfolding m using True assms by (simp add: bit_simps nth_low_bits)
  next
    case False
    then have "\<not> (8 - off - n \<le> 7 - j \<and> 7 - j - (8 - off - n) < n)" using assms by auto
    then show ?thesis unfolding m using False by (auto simp: bit_simps)
  qed
qed

lemma high_part:
  assumes "8 - off < n" "j < 8" "off < 8" "n \<le> 32"
  shows "bit (ucast (drop_bit (n - (8 - off)) (v AND (if n = 32 then 0xFFFFFFFF else 2 ^ n - 1))) :: byte) (7 - j) \<longleftrightarrow>
    off \<le> j \<and> j < off + (8 - off) \<and> low_bits (8 - off) (drop_bit (n - (8 - off)) (v :: u32)) ! (j - off)"
proof -
  have m: "(if n = 32 then 0xFFFFFFFF else 2 ^ n - 1) = (mask n :: u32)"
    by (simp add: mask_eq_exp_minus_1)
  show ?thesis
  proof (cases "off \<le> j")
    case True
    then have "8 - off - 1 - (j - off) = 7 - j" "n - (8 - off) + (7 - j) < n" "7 - j < 8" using assms by simp_all
    then show ?thesis unfolding m using True assms by (simp add: bit_simps nth_low_bits)
  next
    case False
    then have "\<not> n - (8 - off) + (7 - j) < n" using assms by simp
    then show ?thesis unfolding m using False by (simp add: bit_simps)
  qed
qed

lemma Write_loop_holds:
  "writer_holds w bs \<Longrightarrow> length bs + n \<le> 8 * length (bw_data w) \<Longrightarrow> n \<le> 32 \<Longrightarrow>
     i = length bs div 8 \<Longrightarrow> off = length bs mod 8 \<Longrightarrow>
     \<exists>w'. Write_loop n v (8 - off) i w = Inr w' \<and> writer_holds w' (bs @ low_bits n v) \<and>
       length (bw_data w') = length (bw_data w)"
proof (induction n arbitrary: w bs i off rule: less_induct)
  case (less n)
  show ?case
  proof (cases "n = 0")
    case True
    then show ?thesis using less.prems by (simp add: Write_loop.simps low_bits_def)
  next
    case False
    have off: "off < 8" and lb: "length bs = 8 * i + off" using less.prems by simp_all
    have i: "i < length (bw_data w)" using lb less.prems(2) False by simp
    have bits: "bits_of (bw_data w) = bs @ replicate (8 * length (bw_data w) - length bs) False"
      and cnt: "unat (bw_count w) = length bs" and cap: "8 * length (bw_data w) + 32 < 2 ^ 32"
      using less.prems(1) by (simp_all add: writer_holds_def)
    have add: "unat (bw_count w + of_nat k) = length bs + k" if "k \<le> 32" "length bs + k \<le> 8 * length (bw_data w)" for k
      using that cap cnt by (simp add: unat_word_ariths unat_of_nat)
    show ?thesis
    proof (cases "n \<le> 8 - off")
      case True
      let ?x = "ucast (push_bit (8 - off - n) (v AND (if n = 32 then 0xFFFFFFFF else 2 ^ n - 1))) :: byte"
      let ?w = "w\<lparr>bw_data := (bw_data w)[i := bw_data w ! i OR ?x], bw_count := bw_count w + of_nat n\<rparr>"
      have "bits_of ((bw_data w)[i := bw_data w ! i OR ?x]) = (bs @ low_bits n v) @
          replicate (8 * length (bw_data w) - length (bs @ low_bits n v)) False"
        using all_of_it [of n off _ v] True False off i less.prems
        by (intro bits_of_or [OF bits less.prems(4,5)]) auto
      then have "writer_holds ?w (bs @ low_bits n v)"
        using add [of n] less.prems(2,3) cap by (simp add: writer_holds_def)
      moreover have "Write_loop n v (8 - off) i w = Inr ?w"
        using False True i by (subst Write_loop.simps) (simp add: Let_def)
      ultimately show ?thesis by auto
    next
      case part: False
      let ?k = "8 - off"
      let ?x = "ucast (drop_bit (n - ?k) (v AND (if n = 32 then 0xFFFFFFFF else 2 ^ n - 1))) :: byte"
      let ?ys = "low_bits ?k (drop_bit (n - ?k) v)"
      let ?w = "w\<lparr>bw_data := (bw_data w)[i := bw_data w ! i OR ?x], bw_count := bw_count w + of_nat ?k\<rparr>"
      have "bits_of ((bw_data w)[i := bw_data w ! i OR ?x]) = (bs @ ?ys) @
          replicate (8 * length (bw_data w) - length (bs @ ?ys)) False"
        using high_part [of off n _ v] part off i less.prems
        by (intro bits_of_or [OF bits less.prems(4,5)]) auto
      then have h: "writer_holds ?w (bs @ ?ys)"
        using add [of ?k] part less.prems(2,3) cap by (simp add: writer_holds_def)
      have "length (bs @ ?ys) = 8 * (i + 1)" using lb off by simp
      moreover have "n - ?k < n" "n - ?k \<le> 32" "length (bs @ ?ys) + (n - ?k) \<le> 8 * length (bw_data ?w)"
        using part off less.prems(2,3) by simp_all
      ultimately have "\<exists>w'. Write_loop (n - ?k) v (8 - 0) (i + 1) ?w = Inr w' \<and>
          writer_holds w' ((bs @ ?ys) @ low_bits (n - ?k) v) \<and> length (bw_data w') = length (bw_data ?w)"
        by (intro less.IH [OF _ h]) simp_all
      then obtain w' where w': "Write_loop (n - ?k) v 8 (i + 1) ?w = Inr w'"
          "writer_holds w' ((bs @ ?ys) @ low_bits (n - ?k) v)" "length (bw_data w') = length (bw_data w)"
        by auto
      have "Write_loop n v (8 - off) i w = Write_loop (n - ?k) v 8 (i + 1) ?w"
        using False part i off by (subst Write_loop.simps) (simp add: Let_def)
      moreover have "?ys @ low_bits (n - ?k) v = low_bits n v"
        using low_bits_split [of ?k "n - ?k" v] part by simp
      ultimately show ?thesis using w' by simp
    qed
  qed
qed

text \<open>A write with room appends, a write without room does nothing.\<close>

lemma Write_holds:
  assumes "writer_holds w bs" "length bs + n \<le> 8 * length (bw_data w)" "n \<le> 32"
  shows "\<exists>w'. Write n v w = Inr w' \<and> writer_holds w' (bs @ low_bits n v) \<and> length (bw_data w') = length (bw_data w)"
proof -
  have "unat (bw_count w) = length bs" "8 * length (bw_data w) + 32 < 2 ^ 32" using assms(1) by (simp_all add: writer_holds_def)
  moreover from this have "unat (bw_count w + of_nat n) = length bs + n"
    using assms(2,3) by (simp add: unat_word_ariths unat_of_nat)
  ultimately show ?thesis
    using Write_loop_holds [OF assms refl refl] assms(2) by (simp add: Write_def)
qed

lemma Write_full:
  assumes "writer_holds w bs" "8 * length (bw_data w) < length bs + n" "n \<le> 32"
  shows "Write n v w = Inr w"
proof -
  have "unat (bw_count w) = length bs" "8 * length (bw_data w) + 32 < 2 ^ 32" "length bs \<le> 8 * length (bw_data w)"
    using assms(1) by (simp_all add: writer_holds_def)
  moreover from this have "unat (bw_count w + of_nat n) = length bs + n"
    using assms(2,3) by (simp add: unat_word_ariths unat_of_nat)
  ultimately show ?thesis using assms(2) by (simp add: Write_def)
qed

definition fields_bits :: "(nat \<times> u32) list \<Rightarrow> bool list" where
  "fields_bits fs = concat (map (\<lambda>(n, v). low_bits n v) fs)"

lemma fields_bits_simps [simp]:
  "fields_bits [] = []" "fields_bits ((n, v) # fs) = low_bits n v @ fields_bits fs"
  "fields_bits (fs @ gs) = fields_bits fs @ fields_bits gs"
  by (simp_all add: fields_bits_def)

lemma Writes_holds:
  "writer_holds w bs \<Longrightarrow> length bs + length (fields_bits fs) \<le> 8 * length (bw_data w) \<Longrightarrow> \<forall>(n, v) \<in> set fs. n \<le> 32 \<Longrightarrow>
     \<exists>w'. Writes fs w = Inr w' \<and> writer_holds w' (bs @ fields_bits fs) \<and> length (bw_data w') = length (bw_data w)"
proof (induction fs arbitrary: w bs)
  case (Cons f fs)
  obtain n v where f: "f = (n, v)" by fastforce
  obtain w1 where w1: "Write n v w = Inr w1" "writer_holds w1 (bs @ low_bits n v)" "length (bw_data w1) = length (bw_data w)"
    using Write_holds [OF Cons.prems(1), of n v] Cons.prems(2,3) by (auto simp: f)
  then show ?case using Cons.IH [OF w1(2)] Cons.prems(2,3) by (auto simp: f)
qed simp

text \<open>The bytes with given bits, the last one filled up with zeros.\<close>

lemma writer_GetData:
  assumes "writer_holds w bs"
  shows "\<exists>data. GetData (GetDataSize w) w = Inr data \<and> length data = (length bs + 7) div 8 \<and>
    bits_of data = bs @ replicate (8 * length data - length bs) False"
proof -
  have cnt: "unat (bw_count w) = length bs" and le: "length bs \<le> 8 * length (bw_data w)"
    and bits: "bits_of (bw_data w) = bs @ replicate (8 * length (bw_data w) - length bs) False"
    using assms by (simp_all add: writer_holds_def)
  let ?n = "(length bs + 7) div 8"
  have n: "?n \<le> length (bw_data w)" "length bs \<le> 8 * ?n" using le by simp_all
  have "bits_of (take ?n (bw_data w)) = take (8 * ?n) (bs @ replicate (8 * length (bw_data w) - length bs) False)"
    by (simp only: take_bits_of [symmetric] bits)
  also have "\<dots> = bs @ replicate (8 * ?n - length bs) False" using n by (simp add: min_def)
  finally show ?thesis using n cnt by (simp add: GetData_def GetDataSize_def)
qed

section \<open>Reading a sequence of fields\<close>

text \<open>The readers at a distance from a fixed reader, so that a sequence of them evaluates by rewriting.\<close>

named_theorems reader_simps \<open>readers at a distance from a fixed reader\<close>

lemma ReadBits_skip [reader_simps]:
  assumes "br_ok r" "0 < n" "n \<le> LENGTH('a::len)" "k + n \<le> length (br_rest r)"
  shows "ReadBits n (br_skip k r) = Inr (bits_value (take n (drop k (br_rest r))) :: 'a word, br_skip (k + n) r)"
    and "ReadBits_into n (br_skip k r) = Inr (Some (bits_value (take n (drop k (br_rest r))) :: 'a word), br_skip (k + n) r)"
  using ReadBits_in [of "br_skip k r" n, where ?'a = 'a] assms by auto

lemma ReadBit_skip [reader_simps]:
  assumes "br_ok r" "k < length (br_rest r)"
  shows "ReadBit_into (br_skip k r) = Inr (Some (of_bool (br_rest r ! k)), br_skip (k + 1) r)"
    and "ReadBit (br_skip k r) = Inr (of_bool (br_rest r ! k), br_skip (k + 1) r)"
    and "ReadBoolBit (br_skip k r) = Inr (br_rest r ! k, br_skip (k + 1) r)"
  using ReadBit_in [of "br_skip k r"] assms by (simp_all add: hd_drop_conv_nth)

lemma BytesReamined_skip [reader_simps]: "BytesReamined (br_skip (8 * k) (new_bit_reader data)) = length data - k"
  by (simp add: BytesReamined_def BytesConsumed_def br_skip_def BitsConsumed_def new_bit_reader_def)

lemma CurrentPosition_skip [reader_simps]: "CurrentPosition (br_skip (8 * k) (new_bit_reader data)) = drop k data"
  by (simp add: CurrentPosition_def br_skip_def BitsConsumed_def new_bit_reader_def)

lemma SkipBytes_skip [reader_simps]:
  "SkipBytes n (br_skip (8 * k) (new_bit_reader data)) =
     (if length data - k < n then (False, br_skip (8 * k) (new_bit_reader data))
      else (True, br_skip (8 * (k + n)) (new_bit_reader data)))"
  by (simp add: SkipBytes_def br_skip_def BitsConsumed_def new_bit_reader_def)

lemma ReadBytes_skip [reader_simps]:
  "k < length data \<Longrightarrow>
     ReadBytes8 (br_skip (8 * k) (new_bit_reader data)) = (data ! k, br_skip (8 * (k + 1)) (new_bit_reader data))"
  "length data \<le> k \<Longrightarrow>
     ReadBytes8 (br_skip (8 * k) (new_bit_reader data)) = (0, br_skip (8 * k) (new_bit_reader data))"
  "k + 1 < length data \<Longrightarrow>
     ReadBytes16 (br_skip (8 * k) (new_bit_reader data)) =
       (push_bit 8 (ucast (data ! k)) OR ucast (data ! (k + 1)), br_skip (8 * (k + 2)) (new_bit_reader data))"
  "length data \<le> k + 1 \<Longrightarrow>
     ReadBytes16 (br_skip (8 * k) (new_bit_reader data)) = (0, br_skip (8 * k) (new_bit_reader data))"
  by (simp_all add: ReadBytes8_def ReadBytes16_def br_skip_def BitsConsumed_def new_bit_reader_def)

lemma new_bit_reader_skip: "new_bit_reader data = br_skip (8 * 0) (new_bit_reader data)"
  by simp

text \<open>The bits of single bytes as numbers.\<close>

lemma bits_value_byte [simp]: "bits_value (byte_bits b) = (ucast b :: 'a::len word)"
proof -
  have "take_bit 8 (ucast b :: 'a word) = ucast b"
    by (rule bit_word_eqI) (auto simp: bit_simps dest: bit_imp_le_length)
  moreover have "bits_value (low_bits 8 b) = (take_bit 8 (ucast b) :: 'a word)" by (rule bits_value_low_bits)
  ultimately show ?thesis by (simp add: low_bits_byte)
qed

lemma bit_byte_high [simp]: "8 \<le> n \<Longrightarrow> \<not> bit (b :: byte) n"
  by (auto dest: bit_imp_le_length)

lemma push_bits_byte: "push_bits (v :: 'a::len word) (byte_bits b) = push_bit 8 v OR ucast b"
  by (rule bit_word_eqI) (auto simp: bit_push_bits bit_simps rev_nth nth_byte_bits)

lemma take_byte_bits: "n \<le> 8 \<Longrightarrow> take n (byte_bits b) = low_bits n (drop_bit (8 - n) b)"
  by (rule nth_equalityI) (auto simp: nth_byte_bits nth_low_bits bit_drop_bit_eq)

lemma drop_byte_bits: "n \<le> 8 \<Longrightarrow> drop n (byte_bits b) = low_bits (8 - n) b"
  by (rule nth_equalityI) (auto simp: nth_byte_bits nth_low_bits)

lemma Writes_GetData:
  assumes "8 * n + 32 < 2 ^ 32" "length (fields_bits fs) \<le> 8 * n" "\<forall>(k, v) \<in> set fs. k \<le> 32"
  shows "\<exists>data. bindR (Writes fs (new_bit_writer n)) (\<lambda>w. GetData (GetDataSize w) w) = Inr data \<and>
    length data = (length (fields_bits fs) + 7) div 8 \<and>
    bits_of data = fields_bits fs @ replicate (8 * length data - length (fields_bits fs)) False"
proof -
  have "length (bw_data (new_bit_writer n)) = n" by (simp add: new_bit_writer_def)
  then obtain w where w: "Writes fs (new_bit_writer n) = Inr w" "writer_holds w (fields_bits fs)"
    using Writes_holds [OF writer_holds_new [OF assms(1)], of fs] assms(2,3) by auto
  then show ?thesis using writer_GetData [OF w(2)] by simp
qed


text \<open>Fields of given widths, read one after the other.\<close>

fun ReadFields :: "nat list \<Rightarrow> bit_reader \<Rightarrow> (u32 list \<times> bit_reader) res" where
  "ReadFields [] r = Inr ([], r)"
| "ReadFields (n # ns) r = bindR (ReadBits n r) (\<lambda>(v, r). bindR (ReadFields ns r) (\<lambda>(vs, r). Inr (v # vs, r)))"

lemma ReadFields_fields:
  "br_ok r \<Longrightarrow> br_rest r = fields_bits fs @ bs \<Longrightarrow> \<forall>(n, v) \<in> set fs. 0 < n \<and> n \<le> 32 \<Longrightarrow>
     ReadFields (map fst fs) r = Inr (map (\<lambda>(n, v). take_bit n v) fs, br_skip (length (fields_bits fs)) r)"
proof (induction fs arbitrary: r)
  case (Cons f fs)
  obtain n v where f: "f = (n, v)" by fastforce
  have n: "0 < n" "n \<le> 32" using Cons.prems(3) by (auto simp: f)
  have "ReadBits n r = Inr (take_bit n v, br_skip n r)"
    using ReadBits_in(1) [of r n, where ?'a = 32] Cons.prems(1,2) n by (simp add: f bits_value_low_bits)
  moreover have "ReadFields (map fst fs) (br_skip n r) =
      Inr (map (\<lambda>(n, v). take_bit n v) fs, br_skip (length (fields_bits fs)) (br_skip n r))"
    using Cons.prems by (intro Cons.IH) (auto simp: f)
  ultimately show ?case by (simp add: f)
qed simp

section \<open>Properties\<close>

text \<open>
  C31. What \<open>BitWriter\<close> writes, \<open>BitReader\<close> reads: fields of 1 to 32 bits that fit into the buffer are
  packed without a gap into the least number of bytes and read back from them, each cut to its width.
\<close>

theorem bit_fields_roundtrip:
  assumes "8 * n + 32 < 2 ^ 32" "sum_list (map fst fs) \<le> 8 * n" "\<forall>(k, v) \<in> set fs. 0 < k \<and> k \<le> 32"
  shows "\<exists>data r. bindR (Writes fs (new_bit_writer n)) (\<lambda>w. GetData (GetDataSize w) w) = Inr data \<and>
    length data = (sum_list (map fst fs) + 7) div 8 \<and>
    ReadFields (map fst fs) (new_bit_reader (data @ rest)) = Inr (map (\<lambda>(k, v). take_bit k v) fs, r) \<and>
    BitsConsumed r = sum_list (map fst fs)"
proof -
  have k: "\<forall>(k, v) \<in> set fs. k \<le> 32" using assms(3) by auto
  have l: "length (fields_bits fs) = sum_list (map fst fs)" by (induction fs) (auto simp: fields_bits_def)
  obtain data where data: "bindR (Writes fs (new_bit_writer n)) (\<lambda>w. GetData (GetDataSize w) w) = Inr data"
      "length data = (length (fields_bits fs) + 7) div 8"
      "bits_of data = fields_bits fs @ replicate (8 * length data - length (fields_bits fs)) False"
    using Writes_GetData [OF assms(1) _ k] assms(2) l by auto
  have "ReadFields (map fst fs) (new_bit_reader (data @ rest)) = Inr (map (\<lambda>(k, v). take_bit k v) fs,
      br_skip (length (fields_bits fs)) (new_bit_reader (data @ rest)))"
    using assms(3) by (intro ReadFields_fields) (auto simp: data(3))
  moreover have "BitsConsumed (new_bit_reader (data @ rest)) = 0" by (simp add: new_bit_reader_def BitsConsumed_def)
  ultimately show ?thesis using data(1,2) l by auto
qed

theorem bit_fields_roundtrip_witness:
  "\<exists>data r. bindR (Writes [(5, 2), (32, 0xDEADBEEF), (3, 13)] (new_bit_writer 6)) (\<lambda>w. GetData (GetDataSize w) w) = Inr data \<and>
    ReadFields [5, 32, 3] (new_bit_reader (data @ [1])) = Inr ([2, 0xDEADBEEF, 5], r)"
  using bit_fields_roundtrip [of 6 "[(5, 2), (32, 0xDEADBEEF), (3, 13)]" "[1]"]
  by (auto simp: take_bit_eq_mask mask_eq_exp_minus_1)

text \<open>
  C32. \<open>ReadBits\<close> in every case, for a reader at any bit of its buffer: bits that are there are read,
  most significant first; when fewer whole bytes remain than the bits need it gives 0; but as its check
  does not count the bits already taken from the current byte, it may also read past the buffer.
\<close>

theorem ReadBits_spec:
  assumes "br_bit r < 8" "BitsConsumed r \<le> 8 * length (br_data r)" "0 < n" "n \<le> LENGTH('a)"
  shows "ReadBits n r =
    (if length (br_data r) - br_pos r < (n + 7) div 8 then Inr (0, r)
     else if 8 * length (br_data r) < BitsConsumed r + n then Inl Over_Read
     else Inr (bits_value (take n (drop (BitsConsumed r) (bits_of (br_data r)))) :: 'a::len word,
       r\<lparr>br_pos := (BitsConsumed r + n) div 8, br_bit := (BitsConsumed r + n) mod 8\<rparr>))"
proof (cases "length (br_data r) - br_pos r < (n + 7) div 8")
  case True
  then show ?thesis using assms by (simp add: ReadBits_def ReadBits_into_def)
next
  case False
  have ok: "br_ok r" using assms(1,2) by (simp add: br_ok_def)
  show ?thesis
  proof (cases "8 * length (br_data r) < BitsConsumed r + n")
    case True
    then have "ReadBits_loop n (0 :: 'a word) r = Inl Over_Read"
      using assms(2) by (intro ReadBits_loop_out [OF ok]) (simp add: br_rest_def)
    then show ?thesis using True False assms(3,4) by (simp add: ReadBits_def ReadBits_into_def)
  next
    case fits: False
    then have "n \<le> length (br_rest r)" by (simp add: br_rest_def)
    then show ?thesis using ReadBits_in(1) [OF ok assms(3,4)] False fits by (simp add: br_rest_def br_skip_def)
  qed
qed

theorem ReadBits_spec_witness:
  "ReadBits 8 \<lparr>br_data = [0xA5], br_pos = 0, br_bit = 4\<rparr> = (Inl Over_Read :: (byte \<times> bit_reader) res) \<and>
   ReadBits 3 \<lparr>br_data = [0xA5], br_pos = 0, br_bit = 4\<rparr> = Inr (2 :: byte, \<lparr>br_data = [0xA5], br_pos = 0, br_bit = 7\<rparr>)"
  using ReadBits_spec [of "\<lparr>br_data = [0xA5], br_pos = 0, br_bit = 4\<rparr>" 8, where ?'a = 8]
    ReadBits_spec [of "\<lparr>br_data = [0xA5], br_pos = 0, br_bit = 4\<rparr>" 3, where ?'a = 8]
  by (simp add: BitsConsumed_def byte_bits_def upt_rec push_bits_def)

end
