(* ===== verification/Flv_Parser.thy ===== *)
theory Flv_Parser
  imports Bit_Codec
begin

text \<open>
  FLV tag bodies (\<open>media/flv/flv_parser.h\<close>, \<open>media/flv/flv_parser.cpp\<close>): the headers of RTMP video
  and audio messages. The enumerations have the type \<^verbatim>\<open>uint8_t\<close> and are cast from what was read without
  a check, so they are bytes here; a payload pointer with its length is the list of the bytes.
\<close>

unbundle bit_operations_syntax

section \<open>Data\<close>

definition KEY_FRAME :: byte where "KEY_FRAME = 1"
definition INTER_FRAME :: byte where "INTER_FRAME = 2"
definition FlvVideoCodecId_AVC :: byte where "FlvVideoCodecId_AVC = 7"
definition AVC_SEQUENCE_HEADER :: byte where "AVC_SEQUENCE_HEADER = 0"
definition AVC_NALU :: byte where "AVC_NALU = 1"
definition AVC_END_SEQUENCE :: byte where "AVC_END_SEQUENCE = 2"
definition FlvSoundFormat_AAC :: byte where "FlvSoundFormat_AAC = 10"
definition FlvAAC_SEQUENCE_HEADER :: byte where "FlvAAC_SEQUENCE_HEADER = 0"
definition FlvAAC_RAW :: byte where "FlvAAC_RAW = 1"

lemmas flv_codes = KEY_FRAME_def INTER_FRAME_def FlvVideoCodecId_AVC_def AVC_SEQUENCE_HEADER_def AVC_NALU_def
  AVC_END_SEQUENCE_def FlvSoundFormat_AAC_def FlvAAC_SEQUENCE_HEADER_def FlvAAC_RAW_def

record flv_video_data =
  fv_frame_type :: byte
  fv_codec_id :: byte
  fv_packet_type :: byte
  fv_composition_time :: u32
  fv_payload :: "byte list"

record flv_audio_data =
  fa_format :: byte
  fa_sample_rate :: byte
  fa_sample_size :: byte
  fa_channel :: byte
  fa_packet_type :: byte
  fa_payload :: "byte list"

section \<open>Parsing\<close>

text \<open>No value is the result \<^verbatim>\<open>false\<close>; the callers then leave the half-filled object.\<close>

definition FlvVideoData_Parse :: "byte list \<Rightarrow> flv_video_data option res" where
  "FlvVideoData_Parse data =
     (if length data < 5 then Inr None
      else bindR (ReadBits 4 (new_bit_reader data)) (\<lambda>(frame_type, r).
        bindR (ReadBits 4 r) (\<lambda>(codec_id, r).
          if codec_id \<noteq> FlvVideoCodecId_AVC then Inr None
          else let (packet_type, r) = ReadBytes8 r in
            bindR (ReadBits 24 r) (\<lambda>(composition_time, r).
              Inr (Some \<lparr>fv_frame_type = frame_type, fv_codec_id = codec_id, fv_packet_type = packet_type,
                fv_composition_time = composition_time,
                fv_payload = take (BytesReamined r) (CurrentPosition r)\<rparr>)))))"

definition FlvAudioData_Parse :: "byte list \<Rightarrow> flv_audio_data option res" where
  "FlvAudioData_Parse data =
     (if length data < 2 then Inr None
      else bindR (ReadBits 4 (new_bit_reader data)) (\<lambda>(format, r).
        bindR (ReadBits 2 r) (\<lambda>(sample_rate, r).
        bindR (ReadBit r) (\<lambda>(sample_size, r).
        bindR (ReadBit r) (\<lambda>(channel, r).
          let (packet_type, r) = ReadBytes8 r in
          Inr (Some \<lparr>fa_format = format, fa_sample_rate = sample_rate, fa_sample_size = sample_size,
            fa_channel = channel, fa_packet_type = packet_type,
            fa_payload = take (BytesReamined r) (CurrentPosition r)\<rparr>))))))"

section \<open>Lemmas\<close>

lemma ReadBits_new:
  "0 < n \<Longrightarrow> n \<le> LENGTH('a::len) \<Longrightarrow> n \<le> 8 * length data \<Longrightarrow>
     ReadBits n (new_bit_reader data) = Inr (bits_value (take n (bits_of data)) :: 'a word, br_skip n (new_bit_reader data))"
  using ReadBits_in [of "new_bit_reader data" n, where ?'a = 'a] by simp

lemma take_bit_small: "unat (w :: 'a::len word) < 2 ^ n \<Longrightarrow> take_bit n w = w"
  by (simp add: word_unat_eq_iff unat_take_bit)

lemma take_bit_high: "take_bit 4 (drop_bit 4 (b :: byte)) = drop_bit 4 b"
  using unat_byte_less [of b] by (intro take_bit_small) (simp add: drop_bit_unat)

text \<open>Both parsers in closed form; in particular they never fault.\<close>

lemma FlvVideoData_Parse_eq:
  "FlvVideoData_Parse data =
     Inr (if length data < 5 \<or> data ! 0 AND 0xf \<noteq> 7 then None
          else Some \<lparr>fv_frame_type = drop_bit 4 (data ! 0), fv_codec_id = 7, fv_packet_type = data ! 1,
            fv_composition_time = push_bit 16 (ucast (data ! 2)) OR push_bit 8 (ucast (data ! 3)) OR ucast (data ! 4),
            fv_payload = drop 5 data\<rparr>)"
proof (cases "length data < 5")
  case False
  then obtain b0 b1 b2 b3 b4 ds where data: "data = b0 # b1 # b2 # b3 # b4 # ds"
    by (auto simp: not_less Suc_le_length_iff numeral_eq_Suc)
  let ?r = "new_bit_reader data"
  have f0: "ReadBits 4 ?r = Inr (drop_bit 4 b0, br_skip 4 ?r)"
    by (subst ReadBits_new) (simp_all add: data take_byte_bits bits_value_low_bits take_bit_high)
  have f1: "ReadBits 4 (br_skip 4 ?r) = Inr (b0 AND 0xf, br_skip (8 * 1) ?r)"
    by (subst ReadBits_skip)
       (auto simp: data drop_byte_bits bits_value_low_bits take_bit_eq_mask mask_eq_exp_minus_1)
  have f2: "ReadBytes8 (br_skip (8 * 1) ?r) = (b1, br_skip (8 * 2) ?r)"
    by (subst ReadBytes_skip) (simp_all add: data)
  have v: "push_bits (push_bits (push_bits 0 (byte_bits b2)) (byte_bits b3)) (byte_bits b4) =
      (push_bit 16 (ucast b2) OR push_bit 8 (ucast b3) OR ucast b4 :: u32)"
    by (simp add: push_bits_byte push_bit_or or.assoc)
  have f3: "ReadBits 24 (br_skip (8 * 2) ?r) =
      Inr (push_bit 16 (ucast b2) OR push_bit 8 (ucast b3) OR ucast b4 :: u32, br_skip (8 * 5) ?r)"
    by (subst ReadBits_skip) (simp_all add: data v del: bits_value_byte)
  have "b0 = data ! 0" "b1 = data ! 1" "b2 = data ! 2" "b3 = data ! 3" "b4 = data ! 4" by (simp_all add: data)
  then show ?thesis
    using False by (simp add: FlvVideoData_Parse_def f0 f1 [simplified] f2 [simplified] f3 [simplified]
        CurrentPosition_skip [of 5, simplified] BytesReamined_skip [of 5, simplified] FlvVideoCodecId_AVC_def)
qed (simp add: FlvVideoData_Parse_def)

lemma FlvAudioData_Parse_eq:
  "FlvAudioData_Parse data =
     Inr (if length data < 2 then None
          else Some \<lparr>fa_format = drop_bit 4 (data ! 0), fa_sample_rate = drop_bit 2 (data ! 0) AND 3,
            fa_sample_size = drop_bit 1 (data ! 0) AND 1, fa_channel = data ! 0 AND 1,
            fa_packet_type = data ! 1, fa_payload = drop 2 data\<rparr>)"
proof (cases "length data < 2")
  case False
  then obtain b0 b1 ds where data: "data = b0 # b1 # ds"
    by (auto simp: not_less Suc_le_length_iff numeral_eq_Suc)
  let ?r = "new_bit_reader data"
  have f0: "ReadBits 4 ?r = Inr (drop_bit 4 b0, br_skip 4 ?r)"
    by (subst ReadBits_new) (simp_all add: data take_byte_bits bits_value_low_bits take_bit_high)
  have f1: "ReadBits 2 (br_skip 4 ?r) = Inr (drop_bit 2 b0 AND 3, br_skip 6 ?r)"
  proof (subst ReadBits_skip)
    have "take 2 (drop 4 (bits_of data)) = low_bits 2 (drop_bit 2 b0)"
      by (rule nth_equalityI) (auto simp: data nth_byte_bits nth_append nth_low_bits bit_drop_bit_eq less_Suc_eq numeral_eq_Suc)
    moreover have "(3 :: byte) = mask 2" by (simp add: mask_eq_exp_minus_1)
    ultimately show "Inr (bits_value (take 2 (drop 4 (br_rest ?r))), br_skip (4 + 2) ?r) =
        Inr (drop_bit 2 b0 AND 3, br_skip 6 ?r)"
      by (simp add: bits_value_low_bits take_bit_eq_mask)
  qed (simp_all add: data)
  have odd: "(of_bool (bit w 0) :: byte) = w AND 1" for w by (simp add: bit_0 and_one_eq mod_2_eq_odd)
  have f2: "ReadBit (br_skip 6 ?r) = Inr (drop_bit 1 b0 AND 1, br_skip 7 ?r)"
    by (subst ReadBit_skip) (simp_all add: data nth_append nth_byte_bits bit_drop_bit_eq flip: odd)
  have f3: "ReadBit (br_skip 7 ?r) = Inr (b0 AND 1, br_skip (8 * 1) ?r)"
    by (subst ReadBit_skip) (simp_all add: data nth_append nth_byte_bits flip: odd)
  have f4: "ReadBytes8 (br_skip (8 * 1) ?r) = (b1, br_skip (8 * 2) ?r)"
    by (subst ReadBytes_skip) (simp_all add: data)
  have "b0 = data ! 0" "b1 = data ! 1" by (simp_all add: data)
  then show ?thesis
    using False by (simp add: FlvAudioData_Parse_def f0 f1 f2 f3 [simplified] f4 [simplified]
        CurrentPosition_skip [of 2, simplified] BytesReamined_skip [of 2, simplified])
qed (simp add: FlvAudioData_Parse_def)

text \<open>The tag bodies a client sends, and that they are parsed back.\<close>

definition video_body :: "byte \<Rightarrow> byte \<Rightarrow> u32 \<Rightarrow> byte list \<Rightarrow> byte list" where
  "video_body frame_type packet_type cts payload =
     [push_bit 4 frame_type OR 7, packet_type, ucast (drop_bit 16 cts), ucast (drop_bit 8 cts), ucast cts] @ payload"

lemma FlvVideoData_Parse_body:
  assumes "frame_type < 16"
  shows "FlvVideoData_Parse (video_body frame_type packet_type cts payload) =
    Inr (Some \<lparr>fv_frame_type = frame_type, fv_codec_id = 7, fv_packet_type = packet_type,
      fv_composition_time = take_bit 24 cts, fv_payload = payload\<rparr>)"
proof -
  let ?b = "push_bit 4 frame_type OR 7 :: byte"
  have seven: "(7 :: byte) = mask 3" "(15 :: byte) = mask 4" by (simp_all add: mask_eq_exp_minus_1)
  have "take_bit 4 frame_type = frame_type"
    using assms by (intro take_bit_small) (simp add: word_less_nat_alt)
  then have ft: "bit frame_type n \<Longrightarrow> n < 4" for n by (metis bit_take_bit_iff)
  have "?b AND 0xf = 7" unfolding seven by (rule bit_word_eqI) (auto simp: bit_simps)
  moreover have "drop_bit 4 ?b = frame_type"
    unfolding seven by (rule bit_word_eqI) (auto simp: bit_simps dest: ft)
  moreover have "push_bit 16 (ucast (ucast (drop_bit 16 cts) :: byte)) OR push_bit 8 (ucast (ucast (drop_bit 8 cts) :: byte)) OR
      ucast (ucast cts :: byte) = (take_bit 24 cts :: u32)"
  proof (rule bit_word_eqI)
    fix n assume "n < LENGTH(32)"
    consider "n < 8" | "8 \<le> n" "n - 8 < 8" "n < 16" | "16 \<le> n" "n - 16 < 8" "n < 24" | "24 \<le> n" by linarith
    then show "bit (push_bit 16 (ucast (ucast (drop_bit 16 cts) :: byte)) OR
        push_bit 8 (ucast (ucast (drop_bit 8 cts) :: byte)) OR ucast (ucast cts :: byte) :: u32) n = bit (take_bit 24 cts) n"
      using \<open>n < LENGTH(32)\<close> by cases (auto simp: bit_simps)
  qed
  ultimately show ?thesis by (simp add: FlvVideoData_Parse_eq video_body_def)
qed

section \<open>Properties\<close>

text \<open>
  The video header is read back: a body with a frame type of 4 bits, AVC, a packet type and a
  composition time gives these fields and the payload. The composition time is read as an unsigned
  number of 24 bits, so that a negative one (the field is an SI24) comes out \<open>2 ^ 24\<close> too large.
\<close>

theorem flv_video_roundtrip:
  assumes "frame_type < 16" "- (2 ^ 23) \<le> cts" "cts < 2 ^ 23"
  shows "\<exists>v. FlvVideoData_Parse (video_body frame_type packet_type (word_of_int cts) payload) = Inr (Some v) \<and>
    fv_frame_type v = frame_type \<and> fv_packet_type v = packet_type \<and> fv_payload v = payload \<and>
    int (unat (fv_composition_time v)) = (if cts < 0 then cts + 2 ^ 24 else cts)"
proof -
  have "uint (take_bit 24 (word_of_int cts :: u32)) = take_bit 24 cts"
    by (simp add: unsigned_take_bit_eq unsigned_of_int)
  also have "\<dots> = cts mod 2 ^ 24" by (rule take_bit_eq_mod)
  also have "\<dots> = (if cts < 0 then cts + 2 ^ 24 else cts)"
  proof (cases "cts < 0")
    case True
    then have "cts mod 2 ^ 24 = (cts + 2 ^ 24) mod 2 ^ 24" by simp
    also have "\<dots> = cts + 2 ^ 24" using True assms(2) by (intro mod_pos_pos_trivial) simp_all
    finally show ?thesis using True by simp
  qed (use assms(3) in simp)
  finally show ?thesis using FlvVideoData_Parse_body [OF assms(1)] by simp
qed

theorem flv_video_roundtrip_witness:
  "\<exists>v. FlvVideoData_Parse (video_body 1 1 (word_of_int (- 40)) [9]) = Inr (Some v) \<and> fv_payload v = [9] \<and>
     int (unat (fv_composition_time v)) = 16777176"
  using flv_video_roundtrip [of 1 "- 40" 1 "[9]"] by auto

text \<open>
  The audio header in full: any body of two bytes or more is accepted, whatever its sound format,
  and its second byte is taken for an AAC packet type; shorter bodies are refused. Nothing is read
  outside the body.
\<close>

theorem flv_audio_fields:
  "FlvAudioData_Parse data =
     Inr (if length data < 2 then None
          else Some \<lparr>fa_format = drop_bit 4 (data ! 0), fa_sample_rate = drop_bit 2 (data ! 0) AND 3,
            fa_sample_size = drop_bit 1 (data ! 0) AND 1, fa_channel = data ! 0 AND 1,
            fa_packet_type = data ! 1, fa_payload = drop 2 data\<rparr>)"
  by (rule FlvAudioData_Parse_eq)

end
