(* ===== verification/Media_Types.thy ===== *)
theory Media_Types
  imports Engine_Prelude
begin

text \<open>The kinds of media packets (\<open>media/media_type.h\<close>) that the bitstream converters distinguish.\<close>

datatype packet_type = Packet_Unknown | Packet_OVT | Packet_RAW | Packet_SEQUENCE_HEADER | Packet_NALU

datatype media_type = Media_Unknown | Media_Video | Media_Audio | Media_Data | Media_Subtitle | Media_Attachment | Media_Nb

end
