(* ===== verification/Aac.thy ===== *)
theory Aac
  imports Flv_Parser Media_Types
begin

text \<open>
  AAC audio (\<open>media/bitstream/aac/\<close>): the AudioSpecificConfig (\<open>aac_specific_config.cpp\<close>), the ADTS
  header (\<open>aac_adts.cpp\<close>), and the conversions between LATM and ADTS (\<open>aac_latm_to_adts.cpp\<close>,
  \<open>snyaaclatmtoadts.cc\<close>, \<open>aac_converter.cpp\<close>). The enumerations are bytes, as they are cast from what
  was read without a check.
\<close>

unbundle bit_operations_syntax

section \<open>AudioSpecificConfig\<close>

record aac_specific_config =
  asc_object_type :: byte
  asc_sampling_frequency_index :: byte
  asc_channel :: byte

definition AACSpecificConfig_Parse :: "byte list \<Rightarrow> aac_specific_config option res" where
  "AACSpecificConfig_Parse data =
     (if length data < 2 then Inr None
      else bindR (ReadBits 5 (new_bit_reader data)) (\<lambda>(object_type, r).
        bindR (ReadBits 4 r) (\<lambda>(sampling, r).
        bindR (ReadBits 4 r) (\<lambda>(channel, r).
          Inr (Some \<lparr>asc_object_type = object_type, asc_sampling_frequency_index = sampling, asc_channel = channel\<rparr>)))))"

definition AACSpecificConfig_Serialize :: "aac_specific_config \<Rightarrow> byte list res" where
  "AACSpecificConfig_Serialize c =
     bindR (Writes [(5, ucast (asc_object_type c)), (4, ucast (asc_sampling_frequency_index c)),
       (4, ucast (asc_channel c))] (new_bit_writer 2)) (\<lambda>w. GetData (GetDataSize w) w)"

text \<open>The profile of an object type: Main 0, LC (also for HE and HEv2) 1, SSR 2, any other 3.\<close>

definition GetAacProfile :: "aac_specific_config \<Rightarrow> byte" where
  "GetAacProfile c =
     (if asc_object_type c = 1 then 0
      else if asc_object_type c = 5 \<or> asc_object_type c = 29 \<or> asc_object_type c = 2 then 1
      else if asc_object_type c = 3 then 2
      else 3)"

section \<open>From LATM to ADTS\<close>

text \<open>\<open>GetExtradata\<close> returns its result and the new contents of \<open>extradata\<close>.\<close>

definition AACLatmToAdts_GetExtradata :: "packet_type \<Rightarrow> byte list \<Rightarrow> byte list \<Rightarrow> (bool \<times> byte list) res" where
  "AACLatmToAdts_GetExtradata type data extradata =
     (if type = Packet_SEQUENCE_HEADER then
        bindR (AACSpecificConfig_Parse data) (\<lambda>config.
          case config of
            None \<Rightarrow> Inr (False, extradata)
          | Some c \<Rightarrow> bindR (AACSpecificConfig_Serialize c) (\<lambda>bytes. Inr (True, bytes)))
      else Inr (False, extradata))"

text \<open>\<open>data_length\<close> is an \<^verbatim>\<open>int16_t\<close>; the frame length is cut to it and then extended to 32 bits.\<close>

definition MakeHeader :: "byte \<Rightarrow> byte \<Rightarrow> byte \<Rightarrow> 16 word \<Rightarrow> byte list res" where
  "MakeHeader aac_profile aac_sample_rate aac_channels data_length =
     (let aac_frame_length = data_length + 7 in
      bindR (Writes
        [(12, 0x0FFF), (1, 0), (2, 0), (1, 1), (2, ucast aac_profile), (4, ucast aac_sample_rate), (1, 0),
         (3, ucast aac_channels), (1, 0), (1, 0), (1, 0), (1, 0), (13, scast aac_frame_length), (11, 0x3F),
         (2, 0)] (new_bit_writer 7)) (\<lambda>w. GetData (GetDataSize w) w))"

text \<open>
  \<open>Convert\<close> returns its result and the new contents of \<open>data\<close>. A configuration that cannot be parsed
  leaves the object uninitialised: its contents are the argument \<open>indet\<close>.
\<close>

definition AACLatmToAdts_Convert ::
    "aac_specific_config \<Rightarrow> packet_type \<Rightarrow> byte list \<Rightarrow> byte list \<Rightarrow> (bool \<times> byte list) res" where
  "AACLatmToAdts_Convert indet type data extradata =
     (if type = Packet_SEQUENCE_HEADER then Inr (False, data)
      else if type = Packet_RAW then
        bindR
          (if 0 < length extradata then
             bindR (AACSpecificConfig_Parse extradata) (\<lambda>config.
               let c = (case config of None \<Rightarrow> indet | Some c \<Rightarrow> c) in
               MakeHeader (GetAacProfile c) (asc_sampling_frequency_index c) (asc_channel c) (of_nat (length data)))
           else Inr [])
          (\<lambda>header. Inr (True, header @ data))
      else Inr (True, []))"

text \<open>The variant that leaves \<open>data\<close> alone and writes to \<open>adts_data\<close>.\<close>

definition SnyAACLatmToAdts_Convert ::
    "aac_specific_config \<Rightarrow> packet_type \<Rightarrow> byte list \<Rightarrow> byte list \<Rightarrow> (bool \<times> byte list) res" where
  "SnyAACLatmToAdts_Convert indet type data extradata =
     (if type = Packet_SEQUENCE_HEADER then Inr (False, [])
      else if type = Packet_RAW then
        bindR
          (if 0 < length extradata then
             bindR (AACSpecificConfig_Parse extradata) (\<lambda>config.
               let c = (case config of None \<Rightarrow> indet | Some c \<Rightarrow> c) in
               MakeHeader (GetAacProfile c) (asc_sampling_frequency_index c) (asc_channel c) (of_nat (length data)))
           else Inr [])
          (\<lambda>header. Inr (True, header @ data))
      else Inr (True, []))"

section \<open>ADTS headers\<close>

record aac_adts =
  adts_syncword :: u16
  adts_id :: bool
  adts_layer :: byte
  adts_protection_absent :: bool
  adts_profile :: byte
  adts_sampling_frequency_index :: byte
  adts_private_bit :: byte
  adts_channel_configuration :: byte
  adts_original_copy :: bool
  adts_home :: bool
  adts_copyright_identification_bit :: bool
  adts_copyright_identification_start :: bool
  adts_aac_frame_length :: u16
  adts_buffer_fullness :: u16
  adts_number_of_raw_data_blocks_in_frame :: byte
  adts_crc :: "u16 option"

definition AACAdts_IsValid :: "byte list option \<Rightarrow> bool" where
  "AACAdts_IsValid data =
     (case data of
        None \<Rightarrow> False
      | Some d \<Rightarrow> \<not> length d < 7 \<and> d ! 0 = 0xff \<and> d ! 1 AND 0xf0 = 0xf0)"

text \<open>The checksum is read, and otherwise left alone, when the header says that it is there.\<close>

definition AACAdts_Parse :: "byte list \<Rightarrow> aac_adts option res" where
  "AACAdts_Parse data =
     (if length data < 7 then Inr None
      else bindR (ReadBits 12 (new_bit_reader data)) (\<lambda>(syncword, r).
        if syncword \<noteq> 0xFFF then Inr None
        else bindR (ReadBoolBit r) (\<lambda>(adts_id, r).
        bindR (ReadBits 2 r) (\<lambda>(layer, r).
        bindR (ReadBoolBit r) (\<lambda>(protection_absent, r).
        bindR (ReadBits 2 r) (\<lambda>(profile, r).
        bindR (ReadBits 4 r) (\<lambda>(sampling, r).
        bindR (ReadBit r) (\<lambda>(private_bit, r).
        bindR (ReadBits 3 r) (\<lambda>(channel, r).
        bindR (ReadBoolBit r) (\<lambda>(original_copy, r).
        bindR (ReadBoolBit r) (\<lambda>(home, r).
        bindR (ReadBoolBit r) (\<lambda>(cpr_bit, r).
        bindR (ReadBoolBit r) (\<lambda>(cpr_start, r).
        bindR (ReadBits 13 r) (\<lambda>(frame_length, r).
        bindR (ReadBits 11 r) (\<lambda>(fullness, r).
        bindR (ReadBits 2 r) (\<lambda>(blocks, r).
        bindR (if protection_absent then Inr None
               else bindR (ReadBits 16 r) (\<lambda>(crc, r). Inr (Some crc))) (\<lambda>crc.
          Inr (Some \<lparr>adts_syncword = syncword, adts_id = adts_id, adts_layer = layer,
            adts_protection_absent = protection_absent, adts_profile = profile,
            adts_sampling_frequency_index = sampling, adts_private_bit = private_bit,
            adts_channel_configuration = channel, adts_original_copy = original_copy, adts_home = home,
            adts_copyright_identification_bit = cpr_bit, adts_copyright_identification_start = cpr_start,
            adts_aac_frame_length = frame_length, adts_buffer_fullness = fullness,
            adts_number_of_raw_data_blocks_in_frame = blocks, adts_crc = crc\<rparr>))))))))))))))))))"

definition adts_Profile :: "aac_adts \<Rightarrow> byte" where
  "adts_Profile a = adts_profile a + 1"

definition SamplerateNum :: "aac_adts \<Rightarrow> u32" where
  "SamplerateNum a =
     (let i = unat (adts_sampling_frequency_index a);
          rates = [96000, 88200, 64000, 48000, 44100, 32000, 24000, 22050, 16000, 12000, 11025, 8000, 7350] in
      if i < length rates then rates ! i else 0)"

section \<open>From ADTS to LATM\<close>

text \<open>\<^verbatim>\<open>OV_GET_BITS(uint8_t, value, index, count)\<close> and \<^verbatim>\<open>OV_GET_BIT\<close>.\<close>

definition OV_GET_BITS :: "byte \<Rightarrow> nat \<Rightarrow> nat \<Rightarrow> byte" where
  "OV_GET_BITS val index count = drop_bit (8 - count) (push_bit (8 - (index + count)) val)"

definition OV_GET_BIT :: "byte \<Rightarrow> nat \<Rightarrow> byte" where
  "OV_GET_BIT val index = drop_bit index val AND 1"

text \<open>
  The loop of \<open>ConvertAdtsToLatm\<close> over the bytes that remain; no data is the null pointer, and the
  lengths are those pushed to \<open>length_list\<close> until then.
\<close>

function ConvertAdtsToLatm_loop ::
    "byte list \<Rightarrow> byte list \<Rightarrow> nat list \<Rightarrow> (byte list option \<times> nat list) res" where
  "ConvertAdtsToLatm_loop buffer latm_data length_list =
     (if buffer = [] then Inr (Some latm_data, length_list)
      else if length buffer < 7 then Inr (None, length_list)
      else if buffer ! 0 \<noteq> 0xFF \<or> buffer ! 1 AND 0xF0 \<noteq> 0xF0 then Inr (None, length_list)
      else if OV_GET_BITS (buffer ! 1) 1 2 \<noteq> 0 then Inr (None, length_list)
      else
        let protection_absent = OV_GET_BIT (buffer ! 1) 0;
            frame_length = unat (push_bit 11 (ucast (OV_GET_BITS (buffer ! 3) 0 2)) OR
              push_bit 3 (ucast (buffer ! 4)) OR ucast (OV_GET_BITS (buffer ! 5) 5 3) :: u32);
            header_length = (if protection_absent = 1 then 7 else 9) in
        if frame_length < header_length \<or> length buffer < frame_length then Inr (None, length_list)
        else bindR (read_bytes buffer header_length (frame_length - header_length)) (\<lambda>payload.
          ConvertAdtsToLatm_loop (drop frame_length buffer) (latm_data @ payload)
            (length_list @ [frame_length - header_length])))"
  by pat_completeness auto
termination by (relation "measure (\<lambda>(buffer, _). length buffer)") (auto split: if_splits)

declare ConvertAdtsToLatm_loop.simps [simp del]

definition ConvertAdtsToLatm :: "byte list \<Rightarrow> nat list \<Rightarrow> (byte list option \<times> nat list) res" where
  "ConvertAdtsToLatm data length_list = ConvertAdtsToLatm_loop data [] length_list"

end
