(* ===== verification/Aac_Codec.thy ===== *)
theory Aac_Codec
  imports Aac
begin

text \<open>
  What the AAC components do to each other's output: configurations and ADTS headers are read back,
  and frames packed as ADTS are unpacked again.
\<close>

unbundle bit_operations_syntax

section \<open>AudioSpecificConfig\<close>

definition config_ok :: "aac_specific_config \<Rightarrow> bool" where
  "config_ok c = (asc_object_type c < 32 \<and> asc_sampling_frequency_index c < 16 \<and> asc_channel c < 16)"

lemma byte_take_bit: "unat (b :: byte) < 2 ^ n \<Longrightarrow> take_bit n (ucast (ucast b :: u32)) = b"
proof -
  assume "unat b < 2 ^ n"
  moreover have "ucast (ucast b :: u32) = b" by (rule bit_word_eqI) (simp add: bit_simps)
  ultimately show ?thesis by (simp add: take_bit_small)
qed

lemma Serialize_bits:
  "\<exists>data. AACSpecificConfig_Serialize c = Inr data \<and> length data = 2 \<and>
     bits_of data = low_bits 5 (ucast (asc_object_type c) :: u32) @ low_bits 4 (ucast (asc_sampling_frequency_index c) :: u32) @
       low_bits 4 (ucast (asc_channel c) :: u32) @ replicate 3 False"
  unfolding AACSpecificConfig_Serialize_def
  using Writes_GetData [of 2 "[(5, ucast (asc_object_type c)), (4, ucast (asc_sampling_frequency_index c)), (4, ucast (asc_channel c))]"]
  by auto

lemma config_parsed_back:
  assumes "config_ok c" "AACSpecificConfig_Serialize c = Inr data"
  shows "AACSpecificConfig_Parse (data @ rest) = Inr (Some c)"
proof -
  let ?r = "new_bit_reader (data @ rest)"
  have len: "length data = 2" and bits: "bits_of (data @ rest) =
      low_bits 5 (ucast (asc_object_type c) :: u32) @ low_bits 4 (ucast (asc_sampling_frequency_index c) :: u32) @
       low_bits 4 (ucast (asc_channel c) :: u32) @ replicate 3 False @ bits_of rest"
    using Serialize_bits [of c] assms(2) by auto
  have v: "take_bit 5 (ucast (ucast (asc_object_type c) :: u32)) = asc_object_type c"
      "take_bit 4 (ucast (ucast (asc_sampling_frequency_index c) :: u32)) = asc_sampling_frequency_index c"
      "take_bit 4 (ucast (ucast (asc_channel c) :: u32)) = asc_channel c"
    using assms(1) by (intro byte_take_bit; simp add: config_ok_def word_less_nat_alt)+
  show ?thesis
    using len by (simp add: AACSpecificConfig_Parse_def ReadBits_new ReadBits_skip bits bits_value_low_bits v del: bits_of_simps)
qed

section \<open>ADTS headers\<close>

text \<open>The fields of a header of a frame of \<open>n\<close> bytes.\<close>

definition adts_fields :: "byte \<Rightarrow> byte \<Rightarrow> byte \<Rightarrow> 16 word \<Rightarrow> (nat \<times> u32) list" where
  "adts_fields profile rate channels n =
     [(12, 0x0FFF), (1, 0), (2, 0), (1, 1), (2, ucast profile), (4, ucast rate), (1, 0),
      (3, ucast channels), (1, 0), (1, 0), (1, 0), (1, 0), (13, scast (n + 7)), (11, 0x3F), (2, 0)]"

lemma MakeHeader_bits:
  "\<exists>h. MakeHeader profile rate channels n = Inr h \<and> length h = 7 \<and> bits_of h = fields_bits (adts_fields profile rate channels n)"
proof -
  have "length (fields_bits (adts_fields profile rate channels n)) = 56" by (simp add: adts_fields_def)
  then show ?thesis
    using Writes_GetData [of 7 "adts_fields profile rate channels n"]
    by (auto simp: MakeHeader_def adts_fields_def Let_def)
qed

lemma take_bit_scast_13: "take_bit 13 (ucast (scast (n :: 16 word) :: u32)) = take_bit 13 (n :: u16)"
  by (rule bit_word_eqI) (auto simp: bit_simps min_def)

lemma MakeHeader_parsed:
  assumes "MakeHeader profile rate channels n = Inr h"
  shows "AACAdts_Parse (h @ rest) = Inr (Some
    \<lparr>adts_syncword = 0xFFF, adts_id = False, adts_layer = 0, adts_protection_absent = True,
     adts_profile = take_bit 2 profile, adts_sampling_frequency_index = take_bit 4 rate, adts_private_bit = 0,
     adts_channel_configuration = take_bit 3 channels, adts_original_copy = False, adts_home = False,
     adts_copyright_identification_bit = False, adts_copyright_identification_start = False,
     adts_aac_frame_length = take_bit 13 (n + 7), adts_buffer_fullness = 0x3F,
     adts_number_of_raw_data_blocks_in_frame = 0, adts_crc = None\<rparr>)"
proof -
  let ?r = "new_bit_reader (h @ rest)"
  have len: "length h = 7" and bits: "bits_of (h @ rest) = fields_bits (adts_fields profile rate channels n) @ bits_of rest"
    using MakeHeader_bits [of profile rate channels n] assms by auto
  have b: "take_bit m (ucast (ucast (x :: byte) :: u32)) = take_bit m x" for x m
    by (rule bit_word_eqI) (auto simp: bit_simps)
  have one: "low_bits 1 (w :: u32) = [bit w 0]" for w by (simp add: low_bits_def)
  have c: "take_bit 12 (ucast (0xFFF :: u32) :: u16) = 0xFFF" "take_bit 11 (ucast (0x3F :: u32) :: u16) = 0x3F"
    by (simp_all add: take_bit_eq_mask mask_eq_exp_minus_1)
  show ?thesis
    using len by (simp add: AACAdts_Parse_def ReadBits_new ReadBits_skip ReadBit_skip bits adts_fields_def
        bits_value_low_bits b c one [simplified] nth_append take_bit_scast_13 del: bits_of_simps)
qed

section \<open>Unpacking ADTS frames\<close>

text \<open>The frame length as the unpacking loop reads it from three bytes of the header.\<close>

lemma frame_length_bits:
  assumes "6 \<le> length h"
  shows "push_bit 11 (ucast (OV_GET_BITS (h ! 3) 0 2)) OR push_bit 3 (ucast (h ! 4)) OR ucast (OV_GET_BITS (h ! 5) 5 3) =
    (bits_value (take 13 (drop 30 (bits_of h))) :: u32)"
proof (rule bit_word_eqI)
  fix k assume k: "k < LENGTH(32)"
  have r: "rev (take 13 (drop 30 (bits_of h))) ! k = bit (h ! ((42 - k) div 8)) (7 - (42 - k) mod 8)" if "k < 13"
    using that assms by (simp add: rev_nth nth_bits_of)
  show "bit (push_bit 11 (ucast (OV_GET_BITS (h ! 3) 0 2)) OR push_bit 3 (ucast (h ! 4)) OR
      ucast (OV_GET_BITS (h ! 5) 5 3) :: u32) k = bit (bits_value (take 13 (drop 30 (bits_of h))) :: u32) k"
  proof (cases "13 \<le> k")
    case True
    then show ?thesis using assms k by (simp add: bit_push_bits OV_GET_BITS_def bit_simps)
  next
    case False
    then have "k \<in> {0, 1, 2, 3, 4, 5, 6, 7, 8, 9, 10, 11, 12}" unfolding insert_iff empty_iff by presburger
    then show ?thesis
      using assms r k by (elim insertE emptyE) (simp_all add: bit_push_bits OV_GET_BITS_def bit_simps)
  qed
qed

lemma MakeHeader_view:
  assumes "MakeHeader profile rate channels n = Inr h"
  shows "length h = 7" "h ! 0 = 0xFF" "h ! 1 = 0xF1"
    "unat (push_bit 11 (ucast (OV_GET_BITS (h ! 3) 0 2)) OR push_bit 3 (ucast (h ! 4)) OR
      ucast (OV_GET_BITS (h ! 5) 5 3) :: u32) = unat (n + 7) mod 8192"
proof -
  show len: "length h = 7" using MakeHeader_bits [of profile rate channels n] assms by auto
  have bits: "bits_of h = fields_bits (adts_fields profile rate channels n)"
    using MakeHeader_bits [of profile rate channels n] assms by auto
  have "bits_of (take 2 h) = take (8 * 2) (bits_of h)" by (rule take_bits_of [symmetric])
  also have "\<dots> = low_bits 12 (0xFFF :: u32) @ [False, False, False, True]"
    unfolding bits by (simp add: adts_fields_def low_bits_def upt_rec)
  also have "\<dots> = bits_of [0xFF, 0xF1]"
    by (simp add: low_bits_def byte_bits_def upt_rec)
  finally have t: "take 2 h = [0xFF, 0xF1]" by (rule bits_of_inject [THEN iffD1])
  have "take 2 h ! 0 = 0xFF" "take 2 h ! 1 = 0xF1" unfolding t by simp_all
  then show "h ! 0 = 0xFF" "h ! 1 = 0xF1" by simp_all
  have "take 13 (drop 30 (bits_of h)) = low_bits 13 (scast (n + 7) :: u32)"
    unfolding bits by (simp add: adts_fields_def)
  then have "push_bit 11 (ucast (OV_GET_BITS (h ! 3) 0 2)) OR push_bit 3 (ucast (h ! 4)) OR
      ucast (OV_GET_BITS (h ! 5) 5 3) = (take_bit 13 (ucast (scast (n + 7) :: u32)) :: u32)"
    using len by (simp add: frame_length_bits bits_value_low_bits)
  also have "take_bit 13 (ucast (scast (n + 7) :: u32)) = (ucast (take_bit 13 (n + 7)) :: u32)"
    by (rule bit_word_eqI) (auto simp: bit_simps min_def)
  finally show "unat (push_bit 11 (ucast (OV_GET_BITS (h ! 3) 0 2)) OR push_bit 3 (ucast (h ! 4)) OR
      ucast (OV_GET_BITS (h ! 5) 5 3) :: u32) = unat (n + 7) mod 8192"
    by (simp add: unat_ucast_mod unat_take_bit)
qed

text \<open>The length of a frame of \<open>n\<close> bytes of payload in its header, an \<^verbatim>\<open>int16_t\<close> cut to 13 bits.\<close>

lemma unat_frame_length: "unat (of_nat n + 7 :: 16 word) mod 8192 = (n + 7) mod 8192"
proof -
  have eq: "of_nat n + 7 = (of_nat (n + 7) :: 16 word)" by simp
  have "unat (of_nat n + 7 :: 16 word) = (n + 7) mod 2 ^ 16"
    unfolding eq by (simp only: unsigned_of_nat take_bit_eq_mod) simp
  then show ?thesis by (simp add: mod_mod_cancel)
qed

lemma unpack_frame:
  assumes "MakeHeader profile rate channels (of_nat (length payload)) = Inr h" "length payload + 7 < 8192"
  shows "ConvertAdtsToLatm_loop (h @ payload @ rest) acc lens =
    ConvertAdtsToLatm_loop rest (acc @ payload) (lens @ [length payload])"
proof -
  note v = MakeHeader_view [OF assms(1)]
  have n: "unat (push_bit 11 (ucast (OV_GET_BITS (h ! 3) 0 2)) OR push_bit 3 (ucast (h ! 4)) OR
      ucast (OV_GET_BITS (h ! 5) 5 3) :: u32) = length payload + 7"
    unfolding v(4) unat_frame_length using assms(2) by simp
  have nth: "(h @ payload @ rest) ! i = h ! i" if "i < 7" for i using that v(1) by (simp add: nth_append)
  have b: "OV_GET_BITS 0xF1 (Suc 0) 2 = 0" "OV_GET_BIT 0xF1 0 = 1" by (simp_all add: OV_GET_BITS_def OV_GET_BIT_def)
  have ne: "h @ payload @ rest \<noteq> []" using v(1) by auto
  show ?thesis
    by (subst ConvertAdtsToLatm_loop.simps)
       (use v(1-3) in \<open>simp add: ne nth n b Let_def del: append_is_Nil_conv\<close>)
qed

lemma unpack_frames:
  assumes "list_all2 (\<lambda>f a. \<exists>h. MakeHeader profile rate channels (of_nat (length f)) = Inr h \<and> a = h @ f) frames out"
    and "\<forall>f \<in> set frames. length f + 7 < 8192"
  shows "ConvertAdtsToLatm_loop (concat out) acc lens = Inr (Some (acc @ concat frames), lens @ map length frames)"
  using assms
proof (induction arbitrary: acc lens rule: list_all2_induct)
  case Nil
  then show ?case by (simp add: ConvertAdtsToLatm_loop.simps)
next
  case (Cons f frames a out)
  then show ?case by (auto simp: unpack_frame)
qed

text \<open>The configuration the header is made from, and the header itself, always exist.\<close>

lemma Parse_config_total: "\<exists>config. AACSpecificConfig_Parse data = Inr config"
  by (auto simp: AACSpecificConfig_Parse_def ReadBits_new ReadBits_skip)

definition used_config :: "aac_specific_config \<Rightarrow> byte list \<Rightarrow> aac_specific_config" where
  "used_config indet extradata =
     (case AACSpecificConfig_Parse extradata of Inr (Some c) \<Rightarrow> c | _ \<Rightarrow> indet)"

lemma Convert_RAW:
  assumes "0 < length extradata"
  shows "AACLatmToAdts_Convert indet Packet_RAW f extradata =
    (let c = used_config indet extradata in
     bindR (MakeHeader (GetAacProfile c) (asc_sampling_frequency_index c) (asc_channel c) (of_nat (length f)))
       (\<lambda>h. Inr (True, h @ f)))"
  using Parse_config_total [of extradata] assms
  by (auto simp: AACLatmToAdts_Convert_def used_config_def Let_def)

lemma ConvertAdtsToLatm_loop_safe:
  "\<exists>latm lens'. ConvertAdtsToLatm_loop data acc lens = Inr (latm, lens @ lens') \<and>
     (case latm of None \<Rightarrow> True
      | Some d \<Rightarrow> length d = length acc + sum_list lens' \<and> sum_list lens' + 7 * length lens' \<le> length data)"
proof (induction data acc lens rule: ConvertAdtsToLatm_loop.induct)
  case (1 buffer latm_data length_list)
  define fl where "fl = unat (push_bit 11 (ucast (OV_GET_BITS (buffer ! 3) 0 2)) OR
    push_bit 3 (ucast (buffer ! 4)) OR ucast (OV_GET_BITS (buffer ! 5) 5 3) :: u32)"
  define hl where "hl = (if OV_GET_BIT (buffer ! 1) 0 = 1 then 7 else 9 :: nat)"
  have hl: "7 \<le> hl" by (simp add: hl_def)
  have unfold: "ConvertAdtsToLatm_loop buffer latm_data length_list =
    (if buffer = [] then Inr (Some latm_data, length_list)
     else if length buffer < 7 then Inr (None, length_list)
     else if buffer ! 0 \<noteq> 0xFF \<or> buffer ! 1 AND 0xF0 \<noteq> 0xF0 then Inr (None, length_list)
     else if OV_GET_BITS (buffer ! 1) 1 2 \<noteq> 0 then Inr (None, length_list)
     else if fl < hl \<or> length buffer < fl then Inr (None, length_list)
     else bindR (read_bytes buffer hl (fl - hl)) (\<lambda>payload.
       ConvertAdtsToLatm_loop (drop fl buffer) (latm_data @ payload) (length_list @ [fl - hl])))"
    unfolding ConvertAdtsToLatm_loop.simps [of buffer] Let_def fl_def hl_def by (rule refl)
  show ?case
  proof (cases "buffer = [] \<or> length buffer < 7 \<or> buffer ! 0 \<noteq> 0xFF \<or> buffer ! 1 AND 0xF0 \<noteq> 0xF0 \<or>
      OV_GET_BITS (buffer ! 1) 1 2 \<noteq> 0 \<or> fl < hl \<or> length buffer < fl")
    case True
    then show ?thesis
      unfolding unfold by auto
  next
    case False
    let ?p = "take (fl - hl) (drop hl buffer)"
    have step: "ConvertAdtsToLatm_loop buffer latm_data length_list =
        ConvertAdtsToLatm_loop (drop fl buffer) (latm_data @ ?p) (length_list @ [fl - hl])"
      using False unfolding unfold by simp
    have IH: "\<exists>latm lens'. ConvertAdtsToLatm_loop (drop fl buffer) (latm_data @ ?p) (length_list @ [fl - hl]) =
        Inr (latm, (length_list @ [fl - hl]) @ lens') \<and>
      (case latm of None \<Rightarrow> True
       | Some d \<Rightarrow> length d = length (latm_data @ ?p) + sum_list lens' \<and>
           sum_list lens' + 7 * length lens' \<le> length (drop fl buffer))"
      using False by (intro 1) (auto simp: fl_def hl_def)
    then obtain latm lens' where "ConvertAdtsToLatm_loop (drop fl buffer) (latm_data @ ?p) (length_list @ [fl - hl]) =
        Inr (latm, length_list @ ((fl - hl) # lens'))"
      "case latm of None \<Rightarrow> True
       | Some d \<Rightarrow> length d = length (latm_data @ ?p) + sum_list lens' \<and>
           sum_list lens' + 7 * length lens' \<le> length (drop fl buffer)" by auto
    then show ?thesis using step False hl
      by (intro exI [of _ latm] exI [of _ "(fl - hl) # lens'"]) (auto split: option.splits)
  qed
qed

section \<open>Properties\<close>

text \<open>
  An AudioSpecificConfig whose fields fit their bits is serialised to two bytes and read back from
  them, whatever follows; as the body of a sequence header it is the extradata that is kept.
\<close>

theorem aac_config_roundtrip:
  assumes "asc_object_type c < 32" "asc_sampling_frequency_index c < 16" "asc_channel c < 16"
  shows "\<exists>data. AACSpecificConfig_Serialize c = Inr data \<and> length data = 2 \<and>
    AACSpecificConfig_Parse (data @ rest) = Inr (Some c) \<and>
    AACLatmToAdts_GetExtradata Packet_SEQUENCE_HEADER (data @ rest) extradata = Inr (True, data)"
  using Serialize_bits [of c] config_parsed_back [of c] assms
  by (auto simp: config_ok_def AACLatmToAdts_GetExtradata_def)

theorem aac_config_roundtrip_witness:
  "\<exists>data. AACSpecificConfig_Serialize \<lparr>asc_object_type = 2, asc_sampling_frequency_index = 4, asc_channel = 2\<rparr> = Inr data \<and>
    AACSpecificConfig_Parse (data @ [0x56]) = Inr (Some \<lparr>asc_object_type = 2, asc_sampling_frequency_index = 4, asc_channel = 2\<rparr>)"
  using aac_config_roundtrip [of "\<lparr>asc_object_type = 2, asc_sampling_frequency_index = 4, asc_channel = 2\<rparr>" "[0x56]"]
  by auto

text \<open>
  C29. Raw frames of at most 8184 bytes that are packed one by one as ADTS come out of
  \<open>ConvertAdtsToLatm\<close> of the whole sequence again, with their lengths, whatever configuration is used.
\<close>

theorem adts_frames_roundtrip:
  assumes "0 < length extradata" "\<forall>f \<in> set frames. length f + 7 < 8192"
  shows "\<exists>out. list_all2 (\<lambda>f a. AACLatmToAdts_Convert indet Packet_RAW f extradata = Inr (True, a)) frames out \<and>
    ConvertAdtsToLatm (concat out) lens = Inr (Some (concat frames), lens @ map length frames)"
proof -
  let ?c = "used_config indet extradata"
  let ?h = "\<lambda>f. MakeHeader (GetAacProfile ?c) (asc_sampling_frequency_index ?c) (asc_channel ?c) (of_nat (length f))"
  have "\<exists>g. ?h f = Inr g" for f :: "byte list" using MakeHeader_bits by blast
  then obtain h where h: "\<And>f :: byte list. ?h f = Inr (h f)" by metis
  let ?out = "map (\<lambda>f. h f @ f) frames"
  have "list_all2 (\<lambda>f a. AACLatmToAdts_Convert indet Packet_RAW f extradata = Inr (True, a)) frames ?out"
    by (simp add: list.rel_map list.rel_refl_strong Convert_RAW [OF assms(1)] Let_def h)
  moreover have "list_all2 (\<lambda>f a. \<exists>g. ?h f = Inr g \<and> a = g @ f) frames ?out"
    by (simp add: list.rel_map list.rel_refl_strong h)
  then have "ConvertAdtsToLatm (concat ?out) lens = Inr (Some (concat frames), lens @ map length frames)"
    using unpack_frames [OF _ assms(2), of _ _ _ ?out "[]" lens] unfolding ConvertAdtsToLatm_def by force
  ultimately show ?thesis by blast
qed

definition sample_config :: aac_specific_config where
  "sample_config = \<lparr>asc_object_type = 0, asc_sampling_frequency_index = 0, asc_channel = 0\<rparr>"

theorem adts_frames_roundtrip_witness:
  "\<exists>out. list_all2 (\<lambda>f a. AACLatmToAdts_Convert sample_config Packet_RAW f [0x12, 0x10] = Inr (True, a)) [[1, 2, 3], [], [4]] out \<and>
    ConvertAdtsToLatm (concat out) [] = Inr (Some [1, 2, 3, 4], [3, 0, 1])"
  using adts_frames_roundtrip [of "[0x12, 0x10]" "[[1, 2, 3], [], [4]]" sample_config "[]"] by (simp add: numeral_3_eq_3)

text \<open>
  The header in front of a converted frame, as the ADTS parser sees it: the object types from 1 to
  4 are kept and HE and HEv2 become LC; the sampling index is kept; the channel configuration loses
  its highest bit; and the frame length is cut to 13 bits, so that a frame of 8185 bytes or more gets
  a wrong one.
\<close>

theorem adts_header_of_frame:
  assumes "AACSpecificConfig_Parse extradata = Inr (Some c)" "AACLatmToAdts_Convert indet Packet_RAW frame extradata = Inr (ok, out)"
  shows "ok \<and> drop 7 out = frame \<and> (\<exists>a. AACAdts_Parse out = Inr (Some a) \<and> adts_protection_absent a \<and>
    (asc_object_type c \<in> {1, 2, 3, 4} \<longrightarrow> adts_Profile a = asc_object_type c) \<and>
    (asc_object_type c \<in> {5, 29} \<longrightarrow> adts_Profile a = 2) \<and>
    (asc_sampling_frequency_index c < 16 \<longrightarrow> adts_sampling_frequency_index a = asc_sampling_frequency_index c) \<and>
    adts_channel_configuration a = take_bit 3 (asc_channel c) \<and>
    unat (adts_aac_frame_length a) = (length frame + 7) mod 8192)"
proof -
  have ext: "0 < length extradata" using assms(1) by (cases extradata) (auto simp: AACSpecificConfig_Parse_def)
  have u: "used_config indet extradata = c" by (simp add: used_config_def assms(1))
  obtain h where h: "MakeHeader (GetAacProfile c) (asc_sampling_frequency_index c) (asc_channel c) (of_nat (length frame)) = Inr h"
    using MakeHeader_bits by blast
  then have out: "ok" "out = h @ frame" using assms(2) by (simp_all add: Convert_RAW [OF ext] u Let_def)
  have s: "take_bit 4 (asc_sampling_frequency_index c) = asc_sampling_frequency_index c" if "asc_sampling_frequency_index c < 16"
    using that by (intro take_bit_small) (simp add: word_less_nat_alt)
  have p: "take_bit 2 (0 :: byte) = 0" "take_bit 2 (1 :: byte) = 1" "take_bit 2 (2 :: byte) = 2" "take_bit 2 (3 :: byte) = 3"
    by (simp_all add: take_bit_eq_mask mask_eq_exp_minus_1)
  have l: "unat (take_bit 13 (of_nat (length frame) + 7 :: 16 word)) = (length frame + 7) mod 8192"
    by (simp only: unat_take_bit) (simp add: unat_frame_length)
  note a = MakeHeader_parsed [OF h, of frame]
  have "drop 7 out = frame" using MakeHeader_view(1) [OF h] out(2) by simp
  then show ?thesis
    using out(1) s by (auto simp: out(2) a adts_Profile_def GetAacProfile_def p l)
qed

theorem adts_header_of_frame_witness:
  "\<exists>out a. AACLatmToAdts_Convert sample_config Packet_RAW (replicate 8186 0) [0x12, 0x10] = Inr (True, out) \<and>
    AACAdts_Parse out = Inr (Some a) \<and> unat (adts_aac_frame_length a) = 1"
proof -
  let ?c = "\<lparr>asc_object_type = 2, asc_sampling_frequency_index = 4, asc_channel = 2\<rparr>"
  have c: "AACSpecificConfig_Parse [0x12, 0x10] = Inr (Some ?c)"
  proof -
    have "AACSpecificConfig_Serialize ?c = Inr [0x12, 0x10]" by code_simp
    then show ?thesis using config_parsed_back [of ?c "[0x12, 0x10]" "[]"] by (simp add: config_ok_def)
  qed
  obtain h where h: "MakeHeader (GetAacProfile ?c) 4 2 (of_nat (length (replicate 8186 (0 :: byte)))) = Inr h"
    using MakeHeader_bits by blast
  then have o: "AACLatmToAdts_Convert sample_config Packet_RAW (replicate 8186 0) [0x12, 0x10] = Inr (True, h @ replicate 8186 0)"
    by (simp add: Convert_RAW used_config_def c)
  show ?thesis using adts_header_of_frame [OF c o] o by auto
qed

text \<open>
  \<open>ConvertAdtsToLatm\<close> returns on every input without reading past its buffer; what it unpacks is
  as long as the lengths it reports say, and shorter than its input by at least 7 bytes a frame.
\<close>

theorem ConvertAdtsToLatm_safe:
  "\<exists>latm lens. ConvertAdtsToLatm data [] = Inr (latm, lens) \<and>
    (case latm of None \<Rightarrow> True | Some d \<Rightarrow> length d = sum_list lens \<and> length d + 7 * length lens \<le> length data)"
  using ConvertAdtsToLatm_loop_safe [of data "[]" "[]"]
  by (fastforce simp: ConvertAdtsToLatm_def split: option.splits)

end
