(* ===== verification/Avc_Record.thy ===== *)
theory Avc_Record
  imports Bit_Codec Media_Types
begin

text \<open>
  The AVCDecoderConfigurationRecord (\<open>media/bitstream/h264/h264_decoder_configuration_record.cpp\<close>): the
  parameter sets of an H.264 stream, as they come in its sequence header and are kept as extradata.
\<close>

unbundle bit_operations_syntax

record avc_record =
  avc_version :: byte
  avc_profile_indication :: byte
  avc_profile_compatibility :: byte
  avc_level_indication :: byte
  avc_reserved1 :: byte
  avc_lengthMinusOne :: byte
  avc_reserved2 :: byte
  avc_num_of_sps :: byte
  avc_sps_list :: "byte list list"
  avc_num_of_pps :: byte
  avc_pps_list :: "byte list list"
  avc_reserved3 :: byte
  avc_chroma_format :: byte
  avc_reserved4 :: byte
  avc_bit_depth_luma_minus8 :: byte
  avc_num_of_sps_ext :: byte
  avc_sps_ext_list :: "byte list list"

section \<open>Parsing\<close>

text \<open>
  The three loops over parameter sets: \<open>n\<close> more of them are read, each a length of 16 bits and its bytes.
  An empty or an incomplete one is refused.
\<close>

fun parse_sets :: "nat \<Rightarrow> byte list list \<Rightarrow> bit_reader \<Rightarrow> byte list list option \<times> bit_reader" where
  "parse_sets 0 sets r = (Some sets, r)"
| "parse_sets (Suc n) sets r =
     (let (len, r) = ReadBytes16 r in
      if len = 0 \<or> BytesReamined r < unat len then (None, r)
      else parse_sets n (sets @ [take (unat len) (CurrentPosition r)]) (snd (SkipBytes (unat len) r)))"

definition high_profile :: "byte \<Rightarrow> bool" where
  "high_profile p = (p = 100 \<or> p = 110 \<or> p = 122 \<or> p = 144)"

text \<open>The part of the record that only these profiles have.\<close>

definition parse_high :: "bit_reader \<Rightarrow> avc_record \<Rightarrow> avc_record option res" where
  "parse_high r c =
     bindR (ReadBits 6 r) (\<lambda>(reserved3, r).
     bindR (ReadBits 2 r) (\<lambda>(chroma_format, r).
     bindR (ReadBits 5 r) (\<lambda>(reserved4, r).
     bindR (ReadBits 3 r) (\<lambda>(bit_depth, r).
       let (num_of_sps_ext, r) = ReadBytes8 r in
       Inr (case parse_sets (unat num_of_sps_ext) [] r of
              (None, _) \<Rightarrow> None
            | (Some sps_ext, _) \<Rightarrow> Some (c\<lparr>avc_reserved3 := reserved3, avc_chroma_format := chroma_format,
                avc_reserved4 := reserved4, avc_bit_depth_luma_minus8 := bit_depth,
                avc_num_of_sps_ext := num_of_sps_ext, avc_sps_ext_list := sps_ext\<rparr>))))))"

definition AVC_Parse :: "byte list \<Rightarrow> avc_record option res" where
  "AVC_Parse data =
     (if length data < 7 then Inr None
      else
        let (version, r) = ReadBytes8 (new_bit_reader data);
            (profile, r) = ReadBytes8 r;
            (compatibility, r) = ReadBytes8 r;
            (level, r) = ReadBytes8 r in
        bindR (ReadBits 6 r) (\<lambda>(reserved1, r).
          if reserved1 \<noteq> 0x3F then Inr None
          else bindR (ReadBits 2 r) (\<lambda>(lengthMinusOne, r).
          bindR (ReadBits 3 r) (\<lambda>(reserved2, r).
            if reserved2 \<noteq> 7 then Inr None
            else bindR (ReadBits 5 r) (\<lambda>(num_of_sps, r).
              case parse_sets (unat num_of_sps) [] r of
                (None, _) \<Rightarrow> Inr None
              | (Some sps, r) \<Rightarrow>
                let (num_of_pps, r) = ReadBytes8 r in
                (case parse_sets (unat num_of_pps) [] r of
                   (None, _) \<Rightarrow> Inr None
                 | (Some pps, r) \<Rightarrow>
                   let c = \<lparr>avc_version = version, avc_profile_indication = profile,
                       avc_profile_compatibility = compatibility, avc_level_indication = level,
                       avc_reserved1 = reserved1, avc_lengthMinusOne = lengthMinusOne, avc_reserved2 = reserved2,
                       avc_num_of_sps = num_of_sps, avc_sps_list = sps,
                       avc_num_of_pps = num_of_pps, avc_pps_list = pps, avc_reserved3 = 0,
                       avc_chroma_format = 0, avc_reserved4 = 0, avc_bit_depth_luma_minus8 = 0,
                       avc_num_of_sps_ext = 0, avc_sps_ext_list = []\<rparr> in
                   if high_profile profile then parse_high r c else Inr (Some c)))))))"

section \<open>Access and building\<close>

text \<open>An index from the size of the list on gives the null pointer.\<close>

definition get_set :: "byte list list \<Rightarrow> nat \<Rightarrow> byte list option" where
  "get_set sets index = (if int (length sets) - 1 < int index then None else Some (sets ! index))"

definition GetSPS :: "avc_record \<Rightarrow> nat \<Rightarrow> byte list option" where
  "GetSPS c index = get_set (avc_sps_list c) index"

definition GetPPS :: "avc_record \<Rightarrow> nat \<Rightarrow> byte list option" where
  "GetPPS c index = get_set (avc_pps_list c) index"

definition GetSPSExt :: "avc_record \<Rightarrow> nat \<Rightarrow> byte list option" where
  "GetSPSExt c index = get_set (avc_sps_ext_list c) index"

definition AddSPS :: "byte list \<Rightarrow> avc_record \<Rightarrow> avc_record" where
  "AddSPS sps c = c\<lparr>avc_sps_list := avc_sps_list c @ [sps], avc_num_of_sps := avc_num_of_sps c + 1\<rparr>"

definition AddPPS :: "byte list \<Rightarrow> avc_record \<Rightarrow> avc_record" where
  "AddPPS pps c = c\<lparr>avc_pps_list := avc_pps_list c @ [pps], avc_num_of_pps := avc_num_of_pps c + 1\<rparr>"

section \<open>Serializing\<close>

text \<open>One parameter set; the loops over them, from index \<open>i\<close> on, follow a null pointer when there is none.\<close>

definition set_fields :: "byte list \<Rightarrow> (nat \<times> u32) list" where
  "set_fields s = (16, of_nat (length s)) # map (\<lambda>b. (8, ucast b)) s"

function write_sets :: "(nat \<Rightarrow> byte list option) \<Rightarrow> nat \<Rightarrow> nat \<Rightarrow> bit_writer \<Rightarrow> bit_writer res" where
  "write_sets get n i w =
     (if i < n then
        case get i of
          None \<Rightarrow> Inl Null_Deref
        | Some s \<Rightarrow> bindR (Writes (set_fields s) w) (write_sets get n (i + 1))
      else Inr w)"
  by pat_completeness auto
termination by (relation "measure (\<lambda>(_, n, i, _). n - i)") auto

declare write_sets.simps [simp del]

definition AVC_Serialize :: "avc_record \<Rightarrow> byte list res" where
  "AVC_Serialize c =
     bindR (Writes [(8, ucast (avc_version c)), (8, ucast (avc_profile_indication c)),
       (8, ucast (avc_profile_compatibility c)), (8, ucast (avc_level_indication c)), (6, 0x3F),
       (2, ucast (avc_lengthMinusOne c)), (3, 7), (5, ucast (avc_num_of_sps c))] (new_bit_writer 512)) (\<lambda>w.
     bindR (write_sets (GetSPS c) (unat (avc_num_of_sps c)) 0 w) (\<lambda>w.
     bindR (Write 8 (ucast (avc_num_of_pps c)) w) (\<lambda>w.
     bindR (write_sets (GetPPS c) (unat (avc_num_of_pps c)) 0 w) (\<lambda>w.
       GetData ((unat (GetBitCount w) + 7) div 8) w))))"

end
