(* ===== verification/Nal_Unit.thy ===== *)
theory Nal_Unit
  imports Bit_Codec
begin

text \<open>
  NAL units (\<open>media/bitstream/nalu/\<close>): the bit parser over a payload without its emulation prevention
  bytes (\<open>nal_unit_bitstream_parser.cpp\<close>), and the two scanners that cut a byte stream at its start codes
  (\<open>nal_unit_splitter.cpp\<close>, \<open>nal_unit_fragment_header.cpp\<close>). A pointer with a length is the memory from
  the pointer on, with the length beside it where the code looks past it.
\<close>

unbundle bit_operations_syntax

section \<open>NalUnitBitstreamParser\<close>

text \<open>
  The loop of the constructor. Its test \<open>offset < length + 2\<close> holds at every turn, so that the two bytes
  after a zero are read even where the unit ends.
\<close>

function rbsp_loop :: "byte list \<Rightarrow> nat \<Rightarrow> nat \<Rightarrow> byte list \<Rightarrow> byte list res" where
  "rbsp_loop bitstream len off out =
     (if off < len then
        bindR (byte_at bitstream off) (\<lambda>b0.
        bindR (if off < len + 2 \<and> b0 = 0 then
                 bindR (byte_at bitstream (off + 1)) (\<lambda>b1.
                   if b1 = 0 then bindR (byte_at bitstream (off + 2)) (\<lambda>b2. Inr (b2 = 3)) else Inr False)
               else Inr False) (\<lambda>escaped.
          if escaped then
            bindR (byte_at bitstream (off + 1)) (\<lambda>b1. rbsp_loop bitstream len (off + 3) (out @ [b0, b1]))
          else rbsp_loop bitstream len (off + 1) (out @ [b0])))
      else Inr out)"
  by pat_completeness auto
termination by (relation "measure (\<lambda>(_, len, off, _). len - off)") auto

declare rbsp_loop.simps [simp del]

definition new_nal_parser :: "byte list \<Rightarrow> nat \<Rightarrow> bit_reader res" where
  "new_nal_parser bitstream len = bindR (rbsp_loop bitstream len 0 []) (\<lambda>rbsp. Inr (new_bit_reader rbsp))"

text \<open>
  \<open>ReadUEV\<close>, an Exp-Golomb code: the loop that counts zeros, and the loop that reads as many bits. The
  fuel of the first is one more than the bits of the buffer; it is enough for every reader in its buffer.
\<close>

fun ReadUEV_zeros :: "nat \<Rightarrow> nat \<Rightarrow> bit_reader \<Rightarrow> (nat option \<times> bit_reader) res" where
  "ReadUEV_zeros 0 zero_bit_count r = Inl Endless_Loop"
| "ReadUEV_zeros (Suc fuel) zero_bit_count r = bindR (ReadBit_into r) (\<lambda>(b, r).
     case b of
       None \<Rightarrow> Inr (None, r)
     | Some b \<Rightarrow> if b = 0 then ReadUEV_zeros fuel (zero_bit_count + 1) r else Inr (Some zero_bit_count, r))"

fun ReadUEV_bits :: "nat \<Rightarrow> u32 \<Rightarrow> bit_reader \<Rightarrow> (u32 option \<times> bit_reader) res" where
  "ReadUEV_bits 0 val r = Inr (Some val, r)"
| "ReadUEV_bits (Suc zero_bit_count) val r = bindR (ReadBit_into r) (\<lambda>(b, r).
     case b of
       None \<Rightarrow> Inr (None, r)
     | Some b \<Rightarrow> ReadUEV_bits zero_bit_count (if b \<noteq> 0 then push_bit 1 val + 1 else push_bit 1 val) r)"

definition ReadUEV :: "bit_reader \<Rightarrow> (u32 option \<times> bit_reader) res" where
  "ReadUEV r = bindR (ReadUEV_zeros (8 * length (br_data r) + 1) 0 r) (\<lambda>(n, r).
     case n of
       None \<Rightarrow> Inr (None, r)
     | Some n \<Rightarrow> bindR (ReadUEV_bits n 1 r) (\<lambda>(v, r). Inr (map_option (\<lambda>v. v - 1) v, r)))"

text \<open>\<open>ReadSEV\<close> reads the code and computes the signed value, but never stores it in its argument.\<close>

definition ReadSEV :: "bit_reader \<Rightarrow> (unit option \<times> bit_reader) res" where
  "ReadSEV r = bindR (ReadUEV r) (\<lambda>(v, r). Inr (map_option (\<lambda>_. ()) v, r))"

definition ReadU8 :: "bit_reader \<Rightarrow> (byte option \<times> bit_reader) res" where
  "ReadU8 r = ReadBits_into 8 r"

definition ReadU16 :: "bit_reader \<Rightarrow> (u16 option \<times> bit_reader) res" where
  "ReadU16 r = ReadBits_into 16 r"

definition ReadU32 :: "bit_reader \<Rightarrow> (u32 option \<times> bit_reader) res" where
  "ReadU32 r = ReadBits_into 32 r"

text \<open>The count becomes a \<^verbatim>\<open>uint8_t\<close>, and the bits are read as a number of 64 bits.\<close>

definition nal_Skip :: "u32 \<Rightarrow> bit_reader \<Rightarrow> (bool \<times> bit_reader) res" where
  "nal_Skip count r = bindR (ReadBits_into (unat (ucast count :: byte)) r) (\<lambda>(v :: u64 option, r). Inr (v \<noteq> None, r))"

section \<open>Start codes\<close>

text \<open>\<open>NalUnitSplitter::Parse\<close>: the loop, with the units found so far; a start position of 0 is none.\<close>

definition start_code_3 :: "byte list \<Rightarrow> bool" where
  "start_code_3 data = (3 \<le> length data \<and> data ! 0 = 0 \<and> data ! 1 = 0 \<and> data ! 2 = 1)"

definition start_code_4 :: "byte list \<Rightarrow> bool" where
  "start_code_4 data = (4 \<le> length data \<and> data ! 0 = 0 \<and> data ! 1 = 0 \<and> data ! 2 = 0 \<and> data ! 3 = 1)"

function splitter_loop :: "byte list \<Rightarrow> nat \<Rightarrow> nat \<Rightarrow> byte list list \<Rightarrow> byte list list" where
  "splitter_loop bitstream off start_pos nal_list =
     (if off < length bitstream then
        let data = drop off bitstream;
            (off', start_pos', nal_list') =
              (if start_code_3 data \<or> start_code_4 data then
                 let next = (if data ! 2 = 1 then off + 3 else off + 4) in
                 (next, next, if start_pos = 0 then nal_list
                              else nal_list @ [take (off - start_pos) (drop start_pos bitstream)])
               else (off + 1, start_pos, nal_list));
            nal_list'' = (if off' = length bitstream \<and> start_pos' \<noteq> 0
                          then nal_list' @ [take (off' - start_pos') (drop start_pos' bitstream)] else nal_list') in
        splitter_loop bitstream off' start_pos' nal_list''
      else nal_list)"
  by pat_completeness auto
termination
  by (relation "measure (\<lambda>(bitstream, off, _). length bitstream - off)") (auto simp: Let_def split: if_splits)

declare splitter_loop.simps [simp del]

definition NalUnitSplitter_Parse :: "byte list \<Rightarrow> byte list list" where
  "NalUnitSplitter_Parse bitstream = splitter_loop bitstream 0 0 []"

text \<open>\<open>GetNalUnit\<close>: the last index is computed in \<^verbatim>\<open>uint32_t\<close>, so an empty list has the last index \<open>2 ^ 32 - 1\<close>.\<close>

definition GetNalUnit :: "byte list list \<Rightarrow> u32 \<Rightarrow> byte list option res" where
  "GetNalUnit nal_list index =
     (if of_nat (length nal_list) - 1 < index then Inr None
      else if unat index < length nal_list then Inr (Some (nal_list ! unat index)) else Inl Over_Read)"

text \<open>\<open>NalUnitFragmentHeader::Parse\<close>: positions and lengths of the start codes, then of the units.\<close>

function offset_list_loop :: "byte list \<Rightarrow> nat \<Rightarrow> (nat \<times> nat) list \<Rightarrow> (nat \<times> nat) list" where
  "offset_list_loop bitstream data_offset offset_list =
     (if data_offset < length bitstream then
        let data = drop data_offset bitstream in
        if start_code_3 data then offset_list_loop bitstream (data_offset + 3) (offset_list @ [(data_offset, 3)])
        else if start_code_4 data then offset_list_loop bitstream (data_offset + 4) (offset_list @ [(data_offset, 4)])
        else offset_list_loop bitstream (data_offset + 1) offset_list
      else offset_list)"
  by pat_completeness auto
termination by (relation "measure (\<lambda>(bitstream, data_offset, _). length bitstream - data_offset)") auto

declare offset_list_loop.simps [simp del]

definition FragmentHeader_Parse :: "byte list \<Rightarrow> nat list \<times> nat list" where
  "FragmentHeader_Parse bitstream =
     (let offsets = offset_list_loop bitstream 0 [];
          nalu_offset = (\<lambda>i. fst (offsets ! i) + snd (offsets ! i));
          nalu_end = (\<lambda>i. if i \<noteq> length offsets - 1 then fst (offsets ! (i + 1)) else length bitstream) in
      (map nalu_offset [0..<length offsets], map (\<lambda>i. nalu_end i - nalu_offset i) [0..<length offsets]))"

end
