(* ===== verification/Parse_Step.thy ===== *)
theory Parse_Step
  imports Nal_Unit
begin

text \<open>
  Parser steps, which the H.264 and H.265 parsers share: a step reads from the bits, works on the structure that
  is being filled, and may fail. What was assigned before a failure stays.
\<close>

text \<open>
  No value is a \<^verbatim>\<open>return false\<close>. \<open>rd\<close> reads from the bits, \<open>step_set\<close> assigns to the structure, and \<open>step_if\<close>
  is a step under a condition.
\<close>

type_synonym ('s, 'a) parse_step = "bit_reader \<times> 's \<Rightarrow> ('a option \<times> bit_reader \<times> 's) res"

definition step_ret :: "'a \<Rightarrow> ('s, 'a) parse_step" where
  "step_ret x s = Inr (Some x, s)"

definition step_fail :: "('s, 'a) parse_step" where
  "step_fail s = Inr (None, s)"

definition step_then :: "('s, 'a) parse_step \<Rightarrow> ('a \<Rightarrow> ('s, 'b) parse_step) \<Rightarrow> ('s, 'b) parse_step" where
  "step_then m f s = bindR (m s) (\<lambda>(v, s'). case v of None \<Rightarrow> Inr (None, s') | Some x \<Rightarrow> f x s')"

definition rd :: "(bit_reader \<Rightarrow> ('a option \<times> bit_reader) res) \<Rightarrow> ('s, 'a) parse_step" where
  "rd f s = bindR (f (fst s)) (\<lambda>(v, r). Inr (v, r, snd s))"

definition rd_bool :: "(bit_reader \<Rightarrow> (bool \<times> bit_reader) res) \<Rightarrow> ('s, unit) parse_step" where
  "rd_bool f s = bindR (f (fst s)) (\<lambda>(ok, r). Inr (if ok then Some () else None, r, snd s))"

definition step_set :: "('s \<Rightarrow> 's) \<Rightarrow> ('s, unit) parse_step" where
  "step_set f s = Inr (Some (), fst s, f (snd s))"

definition step_if :: "bool \<Rightarrow> ('s, unit) parse_step \<Rightarrow> ('s, unit) parse_step" where
  "step_if c m = (if c then m else step_ret ())"

fun step_repeat :: "nat \<Rightarrow> ('s, unit) parse_step \<Rightarrow> ('s, unit) parse_step" where
  "step_repeat 0 m = step_ret ()"
| "step_repeat (Suc n) m = step_then m (\<lambda>_. step_repeat n m)"

text \<open>A loop that keeps what its turns return.\<close>

fun step_list :: "nat \<Rightarrow> ('s, 'a) parse_step \<Rightarrow> ('s, 'a list) parse_step" where
  "step_list 0 m = step_ret []"
| "step_list (Suc n) m = step_then m (\<lambda>x. step_then (step_list n m) (\<lambda>xs. step_ret (x # xs)))"

end
