(* ===== verification/H264_Parser.thy ===== *)
theory H264_Parser
  imports Parse_Step
begin

text \<open>
  The H.264 parser (\<open>media/bitstream/h264/h264_parser.cpp\<close>): NAL unit headers, the search for key frames
  and sequence parameter sets. A parser step reads from the bits and may fail; the sequence parameter
  set keeps what was assigned before a failure.
\<close>

unbundle bit_operations_syntax

section \<open>NAL unit headers\<close>

definition NalType_IdrSlice :: byte where "NalType_IdrSlice = 5"
definition NalType_Sps :: byte where "NalType_Sps = 7"
definition NalType_Pps :: byte where "NalType_Pps = 8"

record h264_nal_header =
  nal_ref_idc :: byte
  nal_type :: byte

definition new_nal_header :: h264_nal_header where
  "new_nal_header = \<lparr>nal_ref_idc = 0, nal_type = 0\<rparr>"

definition ParseNalUnitHeader_at ::
    "h264_nal_header \<Rightarrow> bit_reader \<Rightarrow> (bool \<times> h264_nal_header \<times> bit_reader) res" where
  "ParseNalUnitHeader_at header r =
     bindR (ReadBits_into 1 r) (\<lambda>(forbidden_zero_bit :: byte option, r).
       case forbidden_zero_bit of
         None \<Rightarrow> Inr (False, header, r)
       | Some z \<Rightarrow>
         if z \<noteq> 0 then Inr (False, header, r)
         else bindR (ReadBits_into 2 r) (\<lambda>(ref_idc, r).
           case ref_idc of
             None \<Rightarrow> Inr (False, header, r)
           | Some ref_idc \<Rightarrow>
             let header = header\<lparr>nal_ref_idc := ref_idc\<rparr> in
             bindR (ReadBits_into 5 r) (\<lambda>(ty, r).
               case ty of
                 None \<Rightarrow> Inr (False, header, r)
               | Some ty \<Rightarrow> Inr (True, header\<lparr>nal_type := ty\<rparr>, r))))"

definition ParseNalUnitHeader ::
    "byte list \<Rightarrow> nat \<Rightarrow> h264_nal_header \<Rightarrow> (bool \<times> h264_nal_header) res" where
  "ParseNalUnitHeader nalu len header =
     bindR (new_nal_parser nalu len) (\<lambda>parser.
       if len < 1 then Inr (False, header)
       else bindR (ParseNalUnitHeader_at header parser) (\<lambda>(ok, header, _). Inr (ok, header)))"

section \<open>Key frames\<close>

function CheckKeyframe_loop :: "byte list \<Rightarrow> nat \<Rightarrow> bool res" where
  "CheckKeyframe_loop bitstream off =
     (if off < length bitstream then
        let data = drop off bitstream in
        if start_code_3 data \<or> start_code_4 data then
          let next = (if data ! 2 = 1 then off + 3 else off + 4) in
          if 1 < length bitstream - next then
            bindR (ParseNalUnitHeader (drop next bitstream) 1 new_nal_header) (\<lambda>(_, header).
              if nal_type header = NalType_IdrSlice \<or> nal_type header = NalType_Sps then Inr True
              else CheckKeyframe_loop bitstream next)
          else CheckKeyframe_loop bitstream next
        else CheckKeyframe_loop bitstream (off + 1)
      else Inr False)"
  by pat_completeness auto
termination by (relation "measure (\<lambda>(bitstream, off). length bitstream - off)") (auto simp: Let_def split: if_splits)

declare CheckKeyframe_loop.simps [simp del]

definition CheckKeyframe :: "byte list \<Rightarrow> bool res" where
  "CheckKeyframe bitstream = CheckKeyframe_loop bitstream 0"

section \<open>Sequence parameter sets\<close>

record h264_sps =
  sps_profile :: byte
  sps_codec_level :: byte
  sps_width :: u32
  sps_height :: u32
  sps_fps :: u32
  sps_id :: u32
  sps_max_nr_of_reference_frames :: u32
  sps_aspect_ratio_idc :: byte
  sps_aspect_ratio_width :: u16
  sps_aspect_ratio_height :: u16

definition new_sps :: h264_sps where
  "new_sps = \<lparr>sps_profile = 0, sps_codec_level = 0, sps_width = 0, sps_height = 0, sps_fps = 0, sps_id = 0,
     sps_max_nr_of_reference_frames = 0, sps_aspect_ratio_idc = 0, sps_aspect_ratio_width = 0,
     sps_aspect_ratio_height = 0\<rparr>"

text \<open>A step on the parser and the parameter set.\<close>

type_synonym 'a sps_step = "(h264_sps, 'a) parse_step"

text \<open>Profile, level and id, with the unit's header in front.\<close>

definition ParseSPS_head :: "unit sps_step" where
  "ParseSPS_head =
     step_then (\<lambda>s. bindR (ParseNalUnitHeader_at new_nal_header (fst s)) (\<lambda>(ok, header, r).
       Inr (if ok \<and> nal_type header = NalType_Sps then Some () else None, r, snd s))) (\<lambda>_.
     step_then (rd ReadU8) (\<lambda>v. step_then (step_set (\<lambda>sps. sps\<lparr>sps_profile := v\<rparr>)) (\<lambda>_.
     step_then (rd_bool (\<lambda>r. Inr (SkipBytes 1 r))) (\<lambda>_.
     step_then (rd ReadU8) (\<lambda>v. step_then (step_set (\<lambda>sps. sps\<lparr>sps_codec_level := v\<rparr>)) (\<lambda>_.
     step_then (rd ReadUEV) (\<lambda>v. step_set (\<lambda>sps. sps\<lparr>sps_id := v\<rparr>))))))))"

text \<open>The chroma part of the high profiles; a scaling list is not supported and fails.\<close>

definition ParseSPS_chroma :: "unit sps_step" where
  "ParseSPS_chroma s =
     step_if (sps_profile (snd s) \<in> {44, 83, 86, 100, 110, 118, 122, 244})
       (step_then (rd ReadUEV) (\<lambda>chroma_format.
        step_then (step_if (chroma_format = 3) (rd_bool (nal_Skip 1))) (\<lambda>_.
        step_then (rd ReadUEV) (\<lambda>luma_bit_depth.
        step_then (rd ReadUEV) (\<lambda>chroma_bit_depth.
        step_then (rd ReadBit_into) (\<lambda>zero_transform_bypass_flag.
        step_then (rd ReadBit_into) (\<lambda>scaling_matrix_present_flag.
        step_if (scaling_matrix_present_flag \<noteq> 0)
          (step_repeat (if chroma_format = 3 then 12 else 8)
            (step_then (rd ReadBit_into) (\<lambda>scaling_list_present_flag.
              if scaling_list_present_flag \<noteq> 0 then step_fail else step_ret ())))))))))) s"

definition ParseSPS_order :: "unit sps_step" where
  "ParseSPS_order =
     step_then (rd ReadUEV) (\<lambda>log2_max_frame_num_minus4.
     step_then (rd ReadUEV) (\<lambda>order_type.
     step_then
       (if order_type = 0 then step_then (rd ReadUEV) (\<lambda>_. step_ret ())
        else if order_type = 1 then
          step_then (rd ReadBit_into) (\<lambda>delta_pic_order_always_zero_flag.
          step_then (rd ReadSEV) (\<lambda>_. step_then (rd ReadSEV) (\<lambda>_.
          step_then (rd ReadUEV) (\<lambda>cycle. step_repeat (unat cycle) (rd ReadSEV)))))
        else step_ret ()) (\<lambda>_.
     step_then (rd ReadUEV) (\<lambda>v.
     step_then (step_set (\<lambda>sps. sps\<lparr>sps_max_nr_of_reference_frames := v\<rparr>)) (\<lambda>_.
     step_then (rd ReadBit_into) (\<lambda>gaps_in_frame_num_value_allowed_flag. step_ret ()))))))"

definition ParseSPS_size :: "unit sps_step" where
  "ParseSPS_size =
     step_then (rd ReadUEV) (\<lambda>pic_width_in_mbs_minus1.
     step_then (rd ReadUEV) (\<lambda>pic_height_in_map_units_minus1.
     step_then (rd ReadBit_into) (\<lambda>frame_mbs_only_flag.
     step_then (step_if (frame_mbs_only_flag = 0) (step_then (rd ReadBit_into) (\<lambda>_. step_ret ()))) (\<lambda>_.
     step_then (rd ReadBit_into) (\<lambda>direct_8x8_inference_flag.
     step_then (rd ReadBit_into) (\<lambda>frame_cropping_flag.
     step_then
       (if frame_cropping_flag \<noteq> 0 then
          step_then (rd ReadUEV) (\<lambda>crop_left. step_then (rd ReadUEV) (\<lambda>crop_right.
          step_then (rd ReadUEV) (\<lambda>crop_top. step_then (rd ReadUEV) (\<lambda>crop_bottom.
            step_ret (crop_left, crop_right, crop_top, crop_bottom)))))
        else step_ret (0, 0, 0, 0)) (\<lambda>(crop_left, crop_right, crop_top, crop_bottom).
     step_set (\<lambda>sps. sps\<lparr>
       sps_width := (pic_width_in_mbs_minus1 + 1) * 16 - 2 * crop_left - 2 * crop_right,
       sps_height := (2 - ucast frame_mbs_only_flag) * (pic_height_in_map_units_minus1 + 1) * 16
         - 2 * crop_top - 2 * crop_bottom\<rparr>))))))))"

text \<open>The video usability information, up to the timing; the division by the ticks is not guarded.\<close>

definition ParseSPS_vui_aspect :: "unit sps_step" where
  "ParseSPS_vui_aspect =
     step_then (rd ReadBit_into) (\<lambda>aspect_ratio_info_present_flag.
     step_if (aspect_ratio_info_present_flag \<noteq> 0)
       (step_then (rd ReadU8) (\<lambda>aspect_ratio_idc.
        step_then (step_set (\<lambda>sps. sps\<lparr>sps_aspect_ratio_idc := aspect_ratio_idc\<rparr>)) (\<lambda>_.
        step_if (aspect_ratio_idc = 255)
          (step_then (rd ReadU16) (\<lambda>w. step_then (step_set (\<lambda>sps. sps\<lparr>sps_aspect_ratio_width := w\<rparr>)) (\<lambda>_.
           step_then (rd ReadU16) (\<lambda>h. step_set (\<lambda>sps. sps\<lparr>sps_aspect_ratio_height := h\<rparr>)))))))))"

definition ParseSPS_vui_signal :: "unit sps_step" where
  "ParseSPS_vui_signal =
     step_then (rd ReadBit_into) (\<lambda>overscan_info_present_flag.
     step_then (step_if (overscan_info_present_flag \<noteq> 0) (step_then (rd ReadBit_into) (\<lambda>_. step_ret ()))) (\<lambda>_.
     step_then (rd ReadBit_into) (\<lambda>video_signal_type_present_flag.
     step_then
       (step_if (video_signal_type_present_flag \<noteq> 0)
         (step_then (step_repeat 3 (step_then (rd ReadBit_into) (\<lambda>_. step_ret ()))) (\<lambda>_.
          step_then (rd ReadBit_into) (\<lambda>video_full_range_flag.
          step_then (rd ReadBit_into) (\<lambda>colour_description_present_flag.
          step_if (colour_description_present_flag \<noteq> 0)
            (step_repeat 3 (step_then (rd ReadU8) (\<lambda>_. step_ret ())))))))) (\<lambda>_.
     step_then (rd ReadBit_into) (\<lambda>chroma_loc_info_present_flag.
     step_if (chroma_loc_info_present_flag \<noteq> 0)
       (step_then (rd ReadUEV) (\<lambda>_. step_then (rd ReadUEV) (\<lambda>_. step_ret ())))))))) "

definition ParseSPS_vui_timing :: "unit sps_step" where
  "ParseSPS_vui_timing =
     step_then (rd ReadBit_into) (\<lambda>timing_info_present_flag.
     step_if (timing_info_present_flag \<noteq> 0)
       (step_then (rd ReadUEV) (\<lambda>num_units_in_tick.
        step_then (rd ReadUEV) (\<lambda>time_scale.
        step_then (rd ReadBit_into) (\<lambda>fixed_frame_rate_flag.
        step_if (fixed_frame_rate_flag \<noteq> 0)
          (if 2 * num_units_in_tick = 0 then (\<lambda>s. Inl Div_By_Zero)
           else step_set (\<lambda>sps. sps\<lparr>sps_fps := time_scale div (2 * num_units_in_tick)\<rparr>)))))))"

definition ParseSPS_vui :: "unit sps_step" where
  "ParseSPS_vui =
     step_then (rd ReadBit_into) (\<lambda>vui_parameters_present_flag.
     step_if (vui_parameters_present_flag \<noteq> 0)
       (step_then ParseSPS_vui_aspect (\<lambda>_. step_then ParseSPS_vui_signal (\<lambda>_. ParseSPS_vui_timing))))"

definition ParseSPS :: "byte list \<Rightarrow> nat \<Rightarrow> h264_sps \<Rightarrow> (bool \<times> h264_sps) res" where
  "ParseSPS nalu len sps =
     bindR (new_nal_parser nalu len) (\<lambda>parser.
       bindR (step_then ParseSPS_head (\<lambda>_. step_then ParseSPS_chroma (\<lambda>_. step_then ParseSPS_order (\<lambda>_.
         step_then ParseSPS_size (\<lambda>_. ParseSPS_vui)))) (parser, sps)) (\<lambda>(ok, _, sps). Inr (ok \<noteq> None, sps)))"

end
