(* ===== verification/Avc_Converter.thy ===== *)
theory Avc_Converter
  imports Avc_Record H264_Parser Byte_Stream
begin

text \<open>
  Between AVCC and Annex B (\<open>h264_avcc_to_annexb.cpp\<close>, \<open>snyh264avcctoannexb.cc\<close>, \<open>h264_converter.cpp\<close>
  under \<open>media/bitstream/h264\<close>). AVCC puts the length of a NAL unit in front of it, Annex B a start code.
\<close>

unbundle bit_operations_syntax

section \<open>Extradata\<close>

text \<open>The result, and the new contents of \<open>extradata\<close>.\<close>

definition H264AvccToAnnexB_GetExtradata :: "packet_type \<Rightarrow> byte list \<Rightarrow> byte list \<Rightarrow> (bool \<times> byte list) res" where
  "H264AvccToAnnexB_GetExtradata type data extradata =
     (if type = Packet_SEQUENCE_HEADER then
        bindR (AVC_Parse data) (\<lambda>config.
          case config of
            None \<Rightarrow> Inr (False, extradata)
          | Some c \<Rightarrow> bindR (AVC_Serialize c) (\<lambda>bytes. Inr (True, bytes)))
      else Inr (False, extradata))"

section \<open>From AVCC to Annex B\<close>

definition START_CODE :: "byte list" where
  "START_CODE = [0, 0, 0, 1]"

text \<open>The parameter sets of a record, each after a start code; a null pointer appends nothing.\<close>

definition sets_annexb :: "(nat \<Rightarrow> byte list option) \<Rightarrow> nat \<Rightarrow> byte list" where
  "sets_annexb get n = concat (map (\<lambda>i. START_CODE @ (case get i of None \<Rightarrow> [] | Some s \<Rightarrow> s)) [0..<n])"

definition record_annexb :: "avc_record \<Rightarrow> byte list" where
  "record_annexb c = sets_annexb (GetSPS c) (unat (avc_num_of_sps c)) @ sets_annexb (GetPPS c) (unat (avc_num_of_pps c))"

text \<open>
  The loop over the NAL units: what was appended and whether an IDR slice was seen, no value where the
  conversion fails. The header is parsed from the memory of the unit, which the rest of the data follows.
\<close>

function avcc_loop :: "byte_stream \<Rightarrow> bool \<Rightarrow> byte list \<Rightarrow> (byte list \<times> bool) option res" where
  "avcc_loop s has_idr_slice annexb_data =
     (if 0 < Remained s then
        if \<not> IsRemained s 4 then Inr None
        else bindR (ReadBE32 s) (\<lambda>(nal_length, s).
          if \<not> IsRemained s (unat nal_length) then Inr None
          else
            let nal_data = take (unat nal_length) (GetRemainData s) in
            bindR (ParseNalUnitHeader (GetRemainData s) 1 new_nal_header) (\<lambda>(ok, header).
              avcc_loop (snd (Skip s (unat nal_length)))
                (if ok \<and> nal_type header = NalType_IdrSlice then True else has_idr_slice)
                (annexb_data @ START_CODE @ nal_data)))
      else Inr (Some (annexb_data, has_idr_slice)))"
  by pat_completeness auto
termination
  by (relation "measure (\<lambda>(s, _). length (bs_data s) - bs_offset s)")
     (auto simp: ReadBE32_def stream_read_def read_bytes_def Skip_def Let_def bindR_eq_Inr split: if_splits)

declare avcc_loop.simps [simp del]

text \<open>The text the three conversions share: the converted data, no value where they return \<^verbatim>\<open>false\<close>.\<close>

definition avcc_to_annexb :: "packet_type \<Rightarrow> byte list \<Rightarrow> byte list \<Rightarrow> byte list option res" where
  "avcc_to_annexb type data extradata =
     (if type = Packet_SEQUENCE_HEADER then bindR (AVC_Parse data) (\<lambda>config. Inr (map_option record_annexb config))
      else if type = Packet_NALU then
        bindR (avcc_loop (stream_of data) False []) (\<lambda>result.
          case result of
            None \<Rightarrow> Inr None
          | Some (annexb_data, has_idr_slice) \<Rightarrow>
            if 0 < length extradata \<and> has_idr_slice then
              bindR (AVC_Parse extradata) (\<lambda>config. Inr (map_option (\<lambda>c. record_annexb c @ annexb_data) config))
            else Inr (Some annexb_data))
      else Inr (Some []))"

text \<open>Two conversions replace \<open>data\<close>, and leave it when they fail; the third has an output of its own.\<close>

definition H264AvccToAnnexB_Convert :: "packet_type \<Rightarrow> byte list \<Rightarrow> byte list \<Rightarrow> (bool \<times> byte list) res" where
  "H264AvccToAnnexB_Convert type data extradata =
     bindR (avcc_to_annexb type data extradata) (\<lambda>out.
       Inr (case out of None \<Rightarrow> (False, data) | Some annexb_data \<Rightarrow> (True, annexb_data)))"

definition ConvertAvccToAnnexb :: "packet_type \<Rightarrow> byte list \<Rightarrow> byte list \<Rightarrow> (bool \<times> byte list) res" where
  "ConvertAvccToAnnexb type data extradata =
     bindR (avcc_to_annexb type data extradata) (\<lambda>out.
       Inr (case out of None \<Rightarrow> (False, data) | Some annexb_data \<Rightarrow> (True, annexb_data)))"

definition SnyH264AvccToAnnexB_Convert :: "packet_type \<Rightarrow> byte list \<Rightarrow> byte list \<Rightarrow> byte list option res" where
  "SnyH264AvccToAnnexB_Convert type data extradata = avcc_to_annexb type data extradata"

section \<open>From Annex B to AVCC\<close>

text \<open>The size of the start code at a pointer with \<open>len\<close> bytes left, -1 for none.\<close>

definition GetStartPatternSize :: "byte list \<Rightarrow> nat \<Rightarrow> int \<Rightarrow> int res" where
  "GetStartPatternSize buffer len first_pattern_size =
     (if 0 < first_pattern_size then
        bindR (byte_at buffer 0) (\<lambda>b0. bindR (byte_at buffer 1) (\<lambda>b1.
          if b0 = 0 \<and> b1 = 0 then
            if first_pattern_size = 4 \<and> 4 \<le> len \<and> buffer ! 2 = 0 \<and> buffer ! 3 = 1 then Inr 4
            else if first_pattern_size = 3 \<and> 3 \<le> len \<and> buffer ! 2 = 1 then Inr 3
            else Inr (- 1)
          else Inr (- 1)))
      else if 4 \<le> len \<and> buffer ! 0 = 0 \<and> buffer ! 1 = 0 \<and> buffer ! 2 = 0 \<and> buffer ! 3 = 1 then Inr 4
      else if 3 \<le> len \<and> buffer ! 0 = 0 \<and> buffer ! 1 = 0 \<and> buffer ! 2 = 1 then Inr 3
      else Inr (- 1))"

text \<open>
  The loop, at the position \<open>off\<close>; the unit being collected begins at \<open>last_offset\<close>. The pattern size
  it passes on is 0 throughout, as the variable is never assigned.
\<close>

function annexb_loop :: "byte list \<Rightarrow> nat \<Rightarrow> nat \<Rightarrow> byte list \<Rightarrow> (nat \<times> byte list) res" where
  "annexb_loop data off last_offset avcc_data =
     (if off < length data then
        bindR (if data ! off = 0 then GetStartPatternSize (drop off data) (length data - off) 0 else Inr (- 1))
          (\<lambda>pattern_size.
            if 0 < pattern_size then
              if last_offset < off then
                annexb_loop data (off + nat pattern_size) (off + nat pattern_size)
                  (avcc_data @ WriteInt32 (of_nat (off - last_offset)) @ take (off - last_offset) (drop last_offset data))
              else annexb_loop data (off + nat pattern_size) (last_offset + nat pattern_size) avcc_data
            else annexb_loop data (off + 1) last_offset avcc_data)
      else Inr (last_offset, avcc_data))"
  by pat_completeness auto
termination by (relation "measure (\<lambda>(data, off, _). length data - off)") auto

declare annexb_loop.simps [simp del]

definition ConvertAnnexbToAvcc :: "byte list \<Rightarrow> byte list res" where
  "ConvertAnnexbToAvcc data =
     bindR (annexb_loop data 0 0 []) (\<lambda>(last_offset, avcc_data).
       Inr (if last_offset < length data
            then avcc_data @ WriteInt32 (of_nat (length data - last_offset)) @ drop last_offset data
            else avcc_data))"

end
