(* ===== verification/Nal_Codec.thy ===== *)
theory Nal_Codec
  imports Nal_Unit
begin

text \<open>
  Properties of the NAL unit parsers: the payload without its emulation prevention bytes, and Exp-Golomb codes.
\<close>

unbundle bit_operations_syntax

section \<open>Emulation prevention\<close>

text \<open>
  What an encoder does (H.264, 7.3.1): a byte 3 goes between two zeros and a byte of at most 3.
\<close>

fun escape :: "byte list \<Rightarrow> byte list" where
  "escape (a # b # c # bs) =
     (if a = 0 \<and> b = 0 \<and> c \<le> 3 then a # b # 3 # escape (c # bs) else a # escape (b # c # bs))"
| "escape bs = bs"

text \<open>The reference for decoding: from the front, the 3 of each 0, 0, 3 is dropped.\<close>

fun unescape :: "byte list \<Rightarrow> byte list" where
  "unescape (a # b # c # bs) =
     (if a = 0 \<and> b = 0 \<and> c = 3 then a # b # unescape bs else a # unescape (b # c # bs))"
| "unescape bs = bs"

lemma hd_escape [simp]: "escape bs = [] \<longleftrightarrow> bs = []" "bs \<noteq> [] \<Longrightarrow> hd (escape bs) = hd bs"
  by (cases bs rule: escape.cases; simp)+

lemma escape_Cons: "\<exists>es. escape (b # bs) = b # es"
  by (cases "b # bs" rule: escape.cases) auto

lemma unescape_Cons: "\<not> (a = 0 \<and> take 2 bs = [0, 3]) \<Longrightarrow> unescape (a # bs) = a # unescape bs"
  by (cases "a # bs" rule: unescape.cases) auto

lemma unescape_escape: "unescape (escape bs) = bs"
proof (induction bs rule: escape.induct)
  case (1 a b c bs)
  show ?case
  proof (cases "a = 0 \<and> b = 0 \<and> c \<le> 3")
    case True
    with 1 show ?thesis by simp
  next
    case False
    have "\<not> (a = 0 \<and> take 2 (escape (b # c # bs)) = [0, 3])"
    proof
      assume z: "a = 0 \<and> take 2 (escape (b # c # bs)) = [0, 3]"
      then have "b = 0" using escape_Cons [of b "c # bs"] by auto
      moreover obtain es where "escape (c # bs) = c # es" using escape_Cons by blast
      ultimately show False using False z by (cases bs) (auto split: if_split_asm)
    qed
    from unescape_Cons [OF this] show ?thesis using 1(2) [OF False] False by (simp only: escape.simps if_False)
  qed
qed auto

text \<open>The loop of the constructor, on memory that ends with the unit.\<close>

definition unit_result :: "byte list \<Rightarrow> byte list \<Rightarrow> byte list res" where
  "unit_result out bs = (if bs \<noteq> [] \<and> last bs = 0 then Inl Over_Read else Inr (out @ unescape bs))"

lemma rbsp_loop_unit: "rbsp_loop bs (length bs) off out = unit_result out (drop off bs)"
proof (induction "length bs - off" arbitrary: off out rule: less_induct)
  case less
  show ?case
  proof (cases "drop off bs")
    case Nil
    then show ?thesis by (subst rbsp_loop.simps) (simp add: unit_result_def)
  next
    case (Cons a r)
    then have off: "off < length bs" by (metis drop_eq_Nil list.distinct(1) not_le)
    have IH: "0 < k \<Longrightarrow> rbsp_loop bs (length bs) (off + k) o2 = unit_result o2 (drop k (a # r))" for k o2
      using less.hyps [of "off + k" o2] off Cons by (simp add: drop_drop [symmetric] add.commute del: drop_drop)
    have at: "byte_at bs (off + k) = byte_at (a # r) k" for k
      using off by (auto simp: byte_at_def less_diff_conv add.commute simp flip: Cons)
    have at: "byte_at bs off = Inr a" "byte_at bs (off + 1) = byte_at r 0" "byte_at bs (off + 2) = byte_at r 1"
      using at [of 0] at [of 1] at [of 2] by (simp_all add: byte_at_def)
    have loop: "rbsp_loop bs (length bs) off out =
        bindR (if a = 0 then bindR (byte_at r 0) (\<lambda>b1.
            if b1 = 0 then bindR (byte_at r 1) (\<lambda>b2. Inr (b2 = 3)) else Inr False) else Inr False)
          (\<lambda>escaped. if escaped then bindR (byte_at r 0) (\<lambda>b1. unit_result (out @ [a, b1]) (drop 2 r))
            else unit_result (out @ [a]) r)"
      using off IH [of 1 "out @ [a]"] IH [of 3] at by (subst rbsp_loop.simps) (simp add: numeral_3_eq_3 numeral_2_eq_2 cong: if_cong)
    show ?thesis
    proof (cases r rule: unescape.cases)
      case (1 b c d u)
      then show ?thesis by (simp add: loop Cons unit_result_def)
    qed (auto simp: loop Cons unit_result_def)
  qed
qed

lemma last_escape: "bs \<noteq> [] \<Longrightarrow> last (escape bs) = last bs"
  by (induction bs rule: escape.induct) auto

text \<open>
  C33. The parser of a unit takes the emulation prevention bytes out, so that what an encoder has escaped is
  read back, unless the unit ends with a zero: then it reads past the end of the unit, because its test
  never compares the position with the length it was given.
\<close>

theorem nal_payload:
  "new_nal_parser bs (length bs) =
     (if bs \<noteq> [] \<and> last bs = 0 then Inl Over_Read else Inr (new_bit_reader (unescape bs))) \<and>
   (p \<noteq> [] \<and> last p \<noteq> 0 \<longrightarrow> new_nal_parser (escape p) (length (escape p)) = Inr (new_bit_reader p))"
  by (simp add: new_nal_parser_def rbsp_loop_unit unit_result_def last_escape unescape_escape)

lemma nal_payload_witness:
  "new_nal_parser (escape [103, 0, 0, 1, 128]) (length (escape [103, 0, 0, 1, 128])) = Inr (new_bit_reader [103, 0, 0, 1, 128])"
  using nal_payload [where p = "[103, 0, 0, 1, 128]"] by simp

section \<open>Exp-Golomb codes\<close>

fun bit_length :: "nat \<Rightarrow> nat" where
  "bit_length n = (if n = 0 then 0 else 1 + bit_length (n div 2))"

declare bit_length.simps [simp del]

text \<open>The code of a number: its successor in binary, behind as many zeros as it has bits after the first.\<close>

definition ue_bits :: "nat \<Rightarrow> bool list" where
  "ue_bits n = replicate (bit_length (n + 1) - 1) False @ low_bits (bit_length (n + 1)) (of_nat (n + 1) :: u32)"

lemma bit_length_bounds: "0 < n \<Longrightarrow> 0 < bit_length n \<and> 2 ^ (bit_length n - 1) \<le> n \<and> n < 2 ^ bit_length n"
proof (induction n rule: bit_length.induct)
  case (1 n)
  show ?case
  proof (cases "n = 1")
    case True
    then show ?thesis by (simp add: bit_length.simps)
  next
    case False
    then have IH: "0 < bit_length (n div 2)" "2 ^ (bit_length (n div 2) - 1) \<le> n div 2" "n div 2 < 2 ^ bit_length (n div 2)"
      using 1 by auto
    have e: "bit_length n = Suc (bit_length (n div 2))" using 1(2) by (subst bit_length.simps) simp
    have "(2 :: nat) ^ bit_length (n div 2) = 2 * 2 ^ (bit_length (n div 2) - 1)"
      using IH(1) by (cases "bit_length (n div 2)") auto
    then have "2 ^ bit_length (n div 2) \<le> 2 * (n div 2)" "2 * (n div 2) + 2 \<le> 2 * 2 ^ bit_length (n div 2)"
      using IH(2,3) by auto
    then have "2 ^ bit_length (n div 2) \<le> n" "n < 2 * 2 ^ bit_length (n div 2)" by linarith+
    then show ?thesis by (simp add: e)
  qed
qed

lemma ReadUEV_zeros_code:
  "br_ok r \<Longrightarrow> br_rest r = replicate k False @ True # bs \<Longrightarrow> k < fuel \<Longrightarrow>
   ReadUEV_zeros fuel c r = Inr (Some (c + k), br_skip (k + 1) r)"
proof (induction k arbitrary: fuel c r)
  case 0
  then obtain f where "fuel = Suc f" by (cases fuel) auto
  with 0 show ?case by (simp add: ReadBit_in(1))
next
  case (Suc k)
  then obtain f where f: "fuel = Suc f" "k < f" by (cases fuel) auto
  have "ReadUEV_zeros f (c + 1) (br_skip 1 r) = Inr (Some (c + 1 + k), br_skip (k + 1) (br_skip 1 r))"
    using Suc.prems f by (intro Suc.IH) auto
  with Suc.prems f show ?case by (simp add: ReadBit_in(1))
qed

lemma ReadUEV_bits_code:
  "br_ok r \<Longrightarrow> br_rest r = vs @ bs \<Longrightarrow> ReadUEV_bits (length vs) v r = Inr (Some (push_bits v vs), br_skip (length vs) r)"
proof (induction vs arbitrary: v r)
  case (Cons b vs)
  have "push_bit 1 v AND 1 = 0" by (rule bit_word_eqI) (simp only: bit_and_iff bit_push_bit_iff bit_1_iff bit_0_eq, auto)
  then have "push_bit 1 v + 1 = push_bit 1 v OR 1" by (rule disjunctive_add_eq_or)
  then have p: "push_bits v (b # vs) = push_bits (if b then push_bit 1 v + 1 else push_bit 1 v) vs"
    by (simp add: push_bits_def)
  have "ReadUEV_bits (length vs) u (br_skip 1 r) = Inr (Some (push_bits u vs), br_skip (length vs) (br_skip 1 r))" for u
    using Cons.prems by (intro Cons.IH) auto
  with Cons.prems p show ?case by (simp add: ReadBit_in(1))
qed simp

lemma ReadUEV_zeros_total:
  "br_ok r \<Longrightarrow> length (br_rest r) < fuel \<Longrightarrow> \<exists>n r'. ReadUEV_zeros fuel c r = Inr (n, r') \<and> br_ok r'"
proof (induction fuel arbitrary: c r)
  case (Suc fuel)
  show ?case
  proof (cases "br_rest r")
    case Nil
    then show ?thesis using Suc.prems ReadBit_end [of r] by simp
  next
    case (Cons b bs)
    then have "br_ok (br_skip 1 r)" "length (br_rest (br_skip 1 r)) < fuel" using Suc.prems by simp_all
    with Suc.IH [of "br_skip 1 r" "c + 1"] Cons Suc.prems ReadBit_in(1) [of r] show ?thesis by auto
  qed
qed simp

lemma ReadUEV_bits_total: "br_ok r \<Longrightarrow> \<exists>v r'. ReadUEV_bits n u r = Inr (v, r') \<and> br_ok r'"
proof (induction n arbitrary: u r)
  case (Suc n)
  show ?case
  proof (cases "br_rest r")
    case Nil
    then show ?thesis using Suc.prems ReadBit_end [of r] by simp
  next
    case (Cons b bs)
    then have "br_ok (br_skip 1 r)" using Suc.prems by simp
    from Suc.IH [OF this] Cons Suc.prems ReadBit_in(1) [of r] show ?thesis by auto
  qed
qed simp

lemma ReadUEV_total:
  assumes "br_ok r"
  shows "\<exists>v r'. ReadUEV r = Inr (v, r') \<and> br_ok r'"
proof -
  have "length (br_rest r) < 8 * length (br_data r) + 1" by (simp add: br_rest_def)
  then obtain n r1 where 1: "ReadUEV_zeros (8 * length (br_data r) + 1) 0 r = Inr (n, r1)" "br_ok r1"
    using ReadUEV_zeros_total [OF assms] by blast
  then show ?thesis
    using ReadUEV_bits_total [OF 1(2), of "the n" 1] unfolding ReadUEV_def by (cases n) (auto simp del: ReadUEV_zeros.simps)
qed

lemma ReadUEV_code:
  assumes "br_ok r" "br_rest r = ue_bits n @ bs" "n < 2 ^ 32 - 1"
  shows "ReadUEV r = Inr (Some (of_nat n), br_skip (length (ue_bits n)) r)"
proof -
  define k where "k = bit_length (n + 1) - 1"
  define w where "w = (of_nat (n + 1) :: u32)"
  have b: "bit_length (n + 1) = k + 1" "2 ^ k \<le> n + 1" "n + 1 < 2 ^ (k + 1)"
    using bit_length_bounds [of "n + 1"] by (auto simp: k_def)
  have uw: "unat w = n + 1" using assms(3) by (simp add: w_def unat_of_nat del: of_nat_add of_nat_Suc)
  have "k < 32" using b(2) assms(3) power_increasing [of 32 k "2 :: nat"] by (cases "32 \<le> k") auto
  have "(n + 1) div 2 ^ k = 1"
    using b(2,3) by (intro div_nat_eqI) simp_all
  then have "bit (unat w) k" by (simp only: uw bit_iff_odd) simp
  then have top: "bit w k" by (simp add: bit_unsigned_iff)
  have low: "low_bits (k + 1) w = True # low_bits k w"
    using top low_bits_split [of 1 k w] by (simp add: low_bits_def bit_drop_bit_eq)
  have "unat (take_bit (k + 1) w) = take_bit (k + 1) (n + 1)"
    by (simp only: unsigned_take_bit_eq uw)
  then have "take_bit (k + 1) w = w"
    using b(3) uw by (simp add: word_unat_eq_iff take_bit_nat_eq_self)
  moreover have "(bits_value (low_bits (k + 1) w) :: u32) = take_bit (k + 1) (ucast w)" by (rule bits_value_low_bits)
  ultimately have "(bits_value (low_bits (k + 1) w) :: u32) = w" by (simp only: ucast_id)
  then have v: "push_bits 1 (low_bits k w) = w" by (simp only: low) (simp add: push_bits_def)
  have rest: "br_rest r = replicate k False @ True # low_bits k w @ bs"
    using assms(2) b(1) low by (simp add: ue_bits_def w_def)
  have "length (br_rest r) \<le> 8 * length (br_data r)" by (simp add: br_rest_def)
  then have "k < 8 * length (br_data r) + 1" by (simp add: rest)
  from ReadUEV_zeros_code [OF assms(1) rest this, of 0]
  have "ReadUEV_zeros (8 * length (br_data r) + 1) 0 r = Inr (Some k, br_skip (k + 1) r)" by (simp only: add_0)
  moreover have "ReadUEV_bits k 1 (br_skip (k + 1) r) = Inr (Some w, br_skip k (br_skip (k + 1) r))"
    using ReadUEV_bits_code [of "br_skip (k + 1) r" "low_bits k w" bs 1] assms(1) rest v by simp
  moreover have "length (ue_bits n) = k + 1 + k" using b(1) by (simp add: ue_bits_def)
  ultimately show ?thesis by (simp add: ReadUEV_def w_def del: ReadUEV_zeros.simps)
qed

text \<open>
  C34. \<open>ReadUEV\<close> reads back every Exp-Golomb code of a number below 2 to the 32 minus 1, wherever it begins in
  the buffer, and stops behind it; and it ends, in its buffer, whatever the bits are.
\<close>

theorem exp_golomb_roundtrip:
  assumes "br_ok r" "br_rest r = ue_bits n @ bs" "n < 2 ^ 32 - 1" "br_ok r1"
  shows "ReadUEV r = Inr (Some (of_nat n), br_skip (length (ue_bits n)) r) \<and>
    (\<exists>v r2. ReadUEV r1 = Inr (v, r2) \<and> br_ok r2)"
  using ReadUEV_code [OF assms(1-3)] ReadUEV_total [OF assms(4)] by simp

lemma exp_golomb_roundtrip_witness:
  "ReadUEV (new_bit_reader [0x26, 0]) = Inr (Some 3, br_skip 5 (new_bit_reader [0x26, 0])) \<and>
   (\<exists>v r2. ReadUEV (new_bit_reader [0, 0]) = Inr (v, r2) \<and> br_ok r2)"
proof -
  have bits: "br_rest (new_bit_reader [0x26, 0]) = ue_bits 3 @ drop 5 (bits_of [0x26, 0])"
    by (simp add: ue_bits_def bit_length.simps low_bits_def byte_bits_def upt_rec)
  have "length (ue_bits 3) = 5" by (simp add: ue_bits_def bit_length.simps)
  with exp_golomb_roundtrip [OF br_ok_new bits _ br_ok_new, of "[0, 0]"] show ?thesis by simp
qed

end
