(* ===== verification/Avc_Codec.thy ===== *)
theory Avc_Codec
  imports Avc_Converter Nal_Codec
begin

text \<open>
  Properties of the H.264 stream tools: the configuration record through its bytes, and NAL units between AVCC
  and Annex B.
\<close>

unbundle bit_operations_syntax

section \<open>The bytes of a record\<close>

definition set_bytes :: "byte list \<Rightarrow> byte list" where
  "set_bytes s = WriteInt16 (of_nat (length s)) @ s"

definition sets_bytes :: "byte list list \<Rightarrow> byte list" where
  "sets_bytes ss = concat (map set_bytes ss)"

definition record_bytes :: "avc_record \<Rightarrow> byte list" where
  "record_bytes c =
     [avc_version c, avc_profile_indication c, avc_profile_compatibility c, avc_level_indication c,
      0xFC OR take_bit 2 (avc_lengthMinusOne c), 0xE0 OR take_bit 5 (avc_num_of_sps c)] @
     sets_bytes (avc_sps_list c) @ [avc_num_of_pps c] @ sets_bytes (avc_pps_list c)"

text \<open>A parameter set has 1 to 65535 bytes.\<close>

definition sets_ok :: "byte list list \<Rightarrow> bool" where
  "sets_ok ss \<longleftrightarrow> list_all (\<lambda>s. s \<noteq> [] \<and> length s < 2 ^ 16) ss"

lemma sets_bytes_simps [simp]:
  "sets_bytes [] = []" "sets_bytes (s # ss) = set_bytes s @ sets_bytes ss"
  by (simp_all add: sets_bytes_def)

lemma length_set_bytes [simp]: "length (set_bytes s) = 2 + length s"
  by (simp add: set_bytes_def)

lemma low_bits_ucast_byte: "low_bits 8 (ucast (b :: byte) :: u32) = byte_bits b"
  by (rule nth_equalityI) (auto simp: nth_low_bits nth_byte_bits bit_simps)

lemma low_bits_16: "low_bits 16 (of_nat n :: u32) = bits_of (WriteInt16 (of_nat n))"
proof -
  have "low_bits (8 + 8) (of_nat n :: u32) = low_bits 8 (drop_bit 8 (of_nat n :: u32)) @ low_bits 8 (of_nat n :: u32)"
    by (rule low_bits_split)
  moreover have "low_bits 8 (drop_bit 8 (of_nat n :: u32)) = byte_bits (ucast (drop_bit 8 (of_nat n :: u16)))"
    "low_bits 8 (of_nat n :: u32) = byte_bits (ucast (of_nat n :: u16))"
    by (rule nth_equalityI; auto simp: nth_low_bits nth_byte_bits bit_simps)+
  ultimately show ?thesis by (simp add: WriteInt16_def)
qed

lemma set_fields_bits: "fields_bits (set_fields s) = bits_of (set_bytes s)"
proof -
  have "fields_bits (map (\<lambda>b. (8, ucast b)) s) = bits_of s" for s :: "byte list"
    by (induction s) (simp_all add: low_bits_ucast_byte)
  then show ?thesis
    using low_bits_16 by (simp add: set_fields_def set_bytes_def bits_of_def)
qed

lemma header_bits:
  "low_bits 6 (0x3F :: u32) @ low_bits 2 (ucast a :: u32) = byte_bits (0xFC OR take_bit 2 (a :: byte))"
  "low_bits 3 (7 :: u32) @ low_bits 5 (ucast a :: u32) = byte_bits (0xE0 OR take_bit 5 a)"
  by (simp_all add: low_bits_def byte_bits_def upt_rec bit_simps)

section \<open>Serializing\<close>

lemma write_sets_holds:
  assumes "writer_holds w bs" "\<And>i. i < length ss \<Longrightarrow> get i = Some (ss ! i)" "sets_ok ss" "i \<le> length ss"
    and "length bs + 8 * length (sets_bytes (drop i ss)) \<le> 8 * length (bw_data w)"
  shows "\<exists>w'. write_sets get (length ss) i w = Inr w' \<and> writer_holds w' (bs @ bits_of (sets_bytes (drop i ss))) \<and>
    length (bw_data w') = length (bw_data w)"
  using assms(1,4,5)
proof (induction "length ss - i" arbitrary: i w bs)
  case 0
  then show ?case by (subst write_sets.simps) (simp add: bits_of_def)
next
  case (Suc n)
  then have i: "i < length ss" by simp
  define s where "s = ss ! i"
  have s: "drop i ss = s # drop (i + 1) ss" "s \<noteq> []" "length s < 2 ^ 16"
    using i assms(3) by (simp_all add: s_def Cons_nth_drop_Suc sets_ok_def list_all_length)
  have b: "length (fields_bits (set_fields s)) = 8 * length (set_bytes s)" using set_fields_bits by simp
  have room: "length bs + length (fields_bits (set_fields s)) \<le> 8 * length (bw_data w)" using Suc.prems(3) b by (simp add: s(1))
  have "\<forall>(k, v) \<in> set (set_fields s). k \<le> 32" by (auto simp: set_fields_def)
  then obtain w1 where w1: "Writes (set_fields s) w = Inr w1" "writer_holds w1 (bs @ bits_of (set_bytes s))"
    "length (bw_data w1) = length (bw_data w)"
    using Writes_holds [OF Suc.prems(1) room] set_fields_bits by auto
  have "\<exists>w'. write_sets get (length ss) (i + 1) w1 = Inr w' \<and>
      writer_holds w' ((bs @ bits_of (set_bytes s)) @ bits_of (sets_bytes (drop (i + 1) ss))) \<and>
      length (bw_data w') = length (bw_data w1)"
    using Suc.hyps(2) Suc.prems(3) i w1(3) by (intro Suc.hyps(1) [OF _ w1(2)]) (auto simp: s(1))
  then show ?case
    using w1 assms(2) [OF i] i s(1) by (subst write_sets.simps) (simp add: s_def)
qed

text \<open>The counts of a record agree with its lists, and the bytes fit the buffer of 512 bytes.\<close>

definition record_ok :: "avc_record \<Rightarrow> bool" where
  "record_ok c \<longleftrightarrow>
     unat (avc_num_of_sps c) = length (avc_sps_list c) \<and> length (avc_sps_list c) < 32 \<and> sets_ok (avc_sps_list c) \<and>
     unat (avc_num_of_pps c) = length (avc_pps_list c) \<and> sets_ok (avc_pps_list c) \<and> length (record_bytes c) \<le> 512"

lemma Serialize_bytes:
  assumes "record_ok c"
  shows "AVC_Serialize c = Inr (record_bytes c)"
proof -
  let ?h = "[(8, ucast (avc_version c)), (8, ucast (avc_profile_indication c)), (8, ucast (avc_profile_compatibility c)),
    (8, ucast (avc_level_indication c)), (6, 0x3F), (2, ucast (avc_lengthMinusOne c)), (3, 7), (5, ucast (avc_num_of_sps c))] :: (nat \<times> u32) list"
  define head where "head = take 6 (record_bytes c)"
  let ?sps = "sets_bytes (avc_sps_list c)" and ?pps = "sets_bytes (avc_pps_list c)"
  have bytes: "record_bytes c = head @ ?sps @ [avc_num_of_pps c] @ ?pps" "length head = 6"
    by (simp_all add: record_bytes_def head_def)
  have room: "6 + length ?sps + 1 + length ?pps \<le> 512" using assms by (simp add: record_ok_def record_bytes_def)
  have h: "fields_bits ?h = bits_of head"
    using header_bits by (simp add: head_def record_bytes_def low_bits_ucast_byte flip: append_assoc)
  have l0: "length (bw_data (new_bit_writer 512)) = 512" by (simp add: new_bit_writer_def)
  obtain w1 where w1: "Writes ?h (new_bit_writer 512) = Inr w1" "writer_holds w1 (bits_of head)" "length (bw_data w1) = 512"
    using Writes_holds [OF writer_holds_new, of 512 ?h] h l0 by (auto simp: bytes(2))
  obtain w2 where w2: "write_sets (GetSPS c) (length (avc_sps_list c)) 0 w1 = Inr w2"
    "writer_holds w2 (bits_of (head @ ?sps))" "length (bw_data w2) = 512"
    using write_sets_holds [OF w1(2), of "avc_sps_list c" "GetSPS c" 0] assms room w1(3)
    by (auto simp: record_ok_def GetSPS_def get_set_def bytes(2))
  obtain w3 where w3: "Write 8 (ucast (avc_num_of_pps c)) w2 = Inr w3"
    "writer_holds w3 (bits_of (head @ ?sps @ [avc_num_of_pps c]))" "length (bw_data w3) = 512"
    using Write_holds [OF w2(2), of 8 "ucast (avc_num_of_pps c)"] room w2(3) by (auto simp: low_bits_ucast_byte bytes(2))
  obtain w4 where w4: "write_sets (GetPPS c) (length (avc_pps_list c)) 0 w3 = Inr w4"
    "writer_holds w4 (bits_of (record_bytes c))" "length (bw_data w4) = 512"
    using write_sets_holds [OF w3(2), of "avc_pps_list c" "GetPPS c" 0] assms room w3(3) arg_cong [OF bytes(1), of bits_of]
    by (auto simp: record_ok_def GetPPS_def get_set_def bytes(2))
  obtain data where d: "GetData (GetDataSize w4) w4 = Inr data" "length data = length (record_bytes c)"
    "bits_of data = bits_of (record_bytes c)"
    using writer_GetData [OF w4(2)] by auto
  have "(unat (GetBitCount w4) + 7) div 8 = GetDataSize w4" by (simp add: GetBitCount_def GetDataSize_def)
  with d w1(1) w2(1) w3(1) w4(1) assms show ?thesis
    by (simp add: AVC_Serialize_def bits_of_inject record_ok_def del: Writes.simps)
qed

section \<open>Parsing\<close>

text \<open>The reader at a byte of its data.\<close>

definition reader_at :: "byte list \<Rightarrow> nat \<Rightarrow> bit_reader" where
  "reader_at data k = br_skip (8 * k) (new_bit_reader data)"

lemma reader_at_bytes:
  "BytesReamined (reader_at data k) = length data - k" "CurrentPosition (reader_at data k) = drop k data"
  "n \<le> length data - k \<Longrightarrow> SkipBytes n (reader_at data k) = (True, reader_at data (k + n))"
  "drop k data = b # rest \<Longrightarrow> ReadBytes8 (reader_at data k) = (b, reader_at data (k + 1))"
  by (simp_all add: reader_at_def reader_simps) 
    (metis ReadBytes_skip(1) Suc_eq_plus1 drop_eq_Nil hd_drop_conv_nth list.distinct(1) list.sel(1) mult_Suc_right not_le)

lemma ReadBytes16_at:
  assumes "drop k data = WriteInt16 w @ x # rest"
  shows "ReadBytes16 (reader_at data k) = (w, reader_at data (k + 2))"
proof -
  have "length data - k = 3 + length rest" using arg_cong [OF assms, of length] by simp
  then have "k + 1 < length data" by simp
  moreover have "data ! k = drop k data ! 0" "data ! (k + 1) = drop k data ! 1" using calculation by simp_all
  ultimately show ?thesis
    using ReadBytes_skip(3) [of k data] by (simp add: assms reader_at_def WriteInt16_def byte_simps)
qed

lemma parse_sets_bytes:
  "sets_ok ss \<Longrightarrow> drop k data = sets_bytes ss @ rest \<Longrightarrow>
   parse_sets (length ss) acc (reader_at data k) = (Some (acc @ ss), reader_at data (k + length (sets_bytes ss)))"
proof (induction ss arbitrary: k acc)
  case (Cons s ss)
  have s: "s \<noteq> []" "length s < 2 ^ 16" "sets_ok ss" using Cons.prems(1) by (simp_all add: sets_ok_def)
  have d: "drop k data = WriteInt16 (of_nat (length s)) @ s @ sets_bytes ss @ rest"
    using Cons.prems(2) by (simp add: set_bytes_def)
  have len: "length data - k = 2 + length s + length (sets_bytes ss) + length rest"
    using arg_cong [OF d, of length] by simp
  have u: "unat (of_nat (length s) :: u16) = length s" using s(2) by (simp add: unat_of_nat)
  with s(1) have "(of_nat (length s) :: u16) \<noteq> 0" by (metis length_0_conv unat_0)
  moreover have "ReadBytes16 (reader_at data k) = (of_nat (length s), reader_at data (k + 2))"
  proof -
    obtain x xs where "s = x # xs" using s(1) by (cases s) auto
    then show ?thesis by (intro ReadBytes16_at [of k data _ x "xs @ sets_bytes ss @ rest"]) (simp add: d)
  qed
  moreover have "drop (2 + k) data = drop 2 (drop k data)" "drop (2 + length s + k) data = drop (2 + length s) (drop k data)"
    by simp_all
  then have "drop (k + 2) data = s @ sets_bytes ss @ rest" "drop (k + 2 + length s) data = sets_bytes ss @ rest"
    by (simp_all only: d) (simp_all add: add.commute)
  ultimately show ?case
    using Cons.IH [OF s(3), of "k + 2 + length s" "acc @ [s]"] u len
    by (simp add: reader_at_bytes add.assoc)
qed simp

lemma ReadBits_at:
  assumes "drop k data = b # rest" "i + n \<le> 8" "0 < n" "n \<le> LENGTH('a::len)"
  shows "ReadBits n (br_skip i (reader_at data k)) =
    Inr (bits_value (take n (drop i (byte_bits b))) :: 'a word, br_skip (i + n) (reader_at data k))"
proof -
  have "length data - k = Suc (length rest)" using arg_cong [OF assms(1), of length] by simp
  then have l: "8 * k + i + n \<le> length (br_rest (new_bit_reader data))" using assms(2) by simp
  have "drop (8 * k + i) (bits_of data) = drop i (bits_of (drop k data))"
    by (simp only: drop_drop [symmetric] add.commute [of _ i] drop_bits_of)
  then have "take n (drop (8 * k + i) (bits_of data)) = take n (drop i (byte_bits b))"
    using assms(1,2) by simp
  then show ?thesis
    using ReadBits_skip(1) [OF br_ok_new assms(3,4) l] by (simp add: reader_at_def add.assoc)
qed

lemma ReadBits_end: "0 < n \<Longrightarrow> ReadBits n (reader_at data (length data)) = Inr (0, reader_at data (length data))"
  by (simp add: ReadBits_def ReadBits_into_def reader_at_def br_skip_def BitsConsumed_def new_bit_reader_def div_eq_0_iff)

lemma parse_high_end:
  "parse_high (reader_at data (length data)) c = Inr (Some (c\<lparr>avc_reserved3 := 0, avc_chroma_format := 0,
     avc_reserved4 := 0, avc_bit_depth_luma_minus8 := 0, avc_num_of_sps_ext := 0, avc_sps_ext_list := []\<rparr>))"
proof -
  have "ReadBytes8 (reader_at data (length data)) = (0, reader_at data (length data))"
    by (simp add: reader_at_def reader_simps)
  then show ?thesis by (simp add: parse_high_def ReadBits_end)
qed

lemma ucast_byte_id: "ucast (ucast (a :: byte) :: u32) = a"
  by (rule bit_word_eqI) (auto simp: bit_simps)

lemma header_values:
  "bits_value (take 6 (byte_bits (0xFC OR take_bit 2 a))) = (0x3F :: byte)"
  "bits_value (take 2 (drop 6 (byte_bits (0xFC OR take_bit 2 a)))) = (take_bit 2 a :: byte)"
  "bits_value (take 3 (byte_bits (0xE0 OR take_bit 5 a))) = (7 :: byte)"
  "bits_value (take 5 (drop 3 (byte_bits (0xE0 OR take_bit 5 a)))) = (take_bit 5 a :: byte)"
  unfolding header_bits [symmetric] by (simp_all add: bits_value_low_bits ucast_byte_id)

lemma AVC_Parse_bytes:
  assumes "record_ok c"
  shows "AVC_Parse (record_bytes c) = Inr (Some (c\<lparr>avc_reserved1 := 0x3F, avc_lengthMinusOne := take_bit 2 (avc_lengthMinusOne c), avc_reserved2 := 7,
    avc_reserved3 := 0, avc_chroma_format := 0, avc_reserved4 := 0, avc_bit_depth_luma_minus8 := 0,
    avc_num_of_sps_ext := 0, avc_sps_ext_list := []\<rparr>))"
proof -
  define data where "data = record_bytes c"
  let ?sps = "sets_bytes (avc_sps_list c)" and ?pps = "sets_bytes (avc_pps_list c)"
  define b4 b5 where "b4 = 0xFC OR take_bit 2 (avc_lengthMinusOne c)" and "b5 = 0xE0 OR take_bit 5 (avc_num_of_sps c)"
  have data: "data = [avc_version c, avc_profile_indication c, avc_profile_compatibility c, avc_level_indication c, b4, b5] @
      ?sps @ [avc_num_of_pps c] @ ?pps"
    by (simp add: data_def record_bytes_def b4_def b5_def)
  have start: "new_bit_reader data = reader_at data 0" by (simp add: reader_at_def)
  have d: "drop 0 data = avc_version c # drop 1 data" "drop 1 data = avc_profile_indication c # drop 2 data"
    "drop 2 data = avc_profile_compatibility c # drop 3 data" "drop 3 data = avc_level_indication c # drop 4 data"
    "drop 4 data = b4 # drop 5 data" "drop 5 data = b5 # drop 6 data"
    "drop 6 data = ?sps @ avc_num_of_pps c # ?pps"
    by (simp_all add: data)
  have "drop (6 + length ?sps) data = drop (length ?sps) (drop 6 data)" by (simp add: add.commute)
  then have p: "drop (6 + length ?sps) data = avc_num_of_pps c # ?pps" by (simp add: d(7))
  have "drop (6 + length ?sps + 1) data = drop 1 (drop (6 + length ?sps) data)" by (simp only: drop_drop add.commute)
  then have "drop (6 + length ?sps + 1) data = ?pps @ []" by (simp only: p) simp
  note sets = parse_sets_bytes [OF _ d(7), of "[]"] parse_sets_bytes [OF _ this, of "[]"]
  have stop: "6 + length ?sps + 1 + length ?pps = length data" by (simp add: data)
  have n: "take_bit 5 (avc_num_of_sps c) = avc_num_of_sps c"
    using assms by (simp add: record_ok_def word_unat_eq_iff unsigned_take_bit_eq take_bit_nat_eq_self)
  have bits: "ReadBits 6 (reader_at data 4) = Inr (0x3F :: byte, br_skip 6 (reader_at data 4))"
    "ReadBits 2 (br_skip 6 (reader_at data 4)) = Inr (take_bit 2 (avc_lengthMinusOne c), reader_at data 5)"
    "ReadBits 3 (reader_at data 5) = Inr (7 :: byte, br_skip 3 (reader_at data 5))"
    "ReadBits 5 (br_skip 3 (reader_at data 5)) = Inr (avc_num_of_sps c, reader_at data 6)"
    using ReadBits_at [OF d(5), of 0 6, where ?'a = 8] ReadBits_at [OF d(5), of 6 2, where ?'a = 8]
      ReadBits_at [OF d(6), of 0 3, where ?'a = 8] ReadBits_at [OF d(6), of 3 5, where ?'a = 8] header_values(1,2)
      header_values(3,4) [of "avc_num_of_sps c", unfolded n]
    by (simp_all add: b4_def b5_def n reader_at_def)
  have bytes: "ReadBytes8 (reader_at data 0) = (avc_version c, reader_at data 1)"
    "ReadBytes8 (reader_at data 1) = (avc_profile_indication c, reader_at data 2)"
    "ReadBytes8 (reader_at data 2) = (avc_profile_compatibility c, reader_at data 3)"
    "ReadBytes8 (reader_at data 3) = (avc_level_indication c, reader_at data 4)"
    "ReadBytes8 (reader_at data (6 + length ?sps)) = (avc_num_of_pps c, reader_at data (6 + length ?sps + 1))"
    using reader_at_bytes(4) [OF d(1)] reader_at_bytes(4) [OF d(2)] reader_at_bytes(4) [OF d(3)]
      reader_at_bytes(4) [OF d(4)] reader_at_bytes(4) [OF p] by (simp_all add: numeral_2_eq_2 numeral_3_eq_3 eval_nat_numeral)
  have "7 \<le> length data" by (simp add: data)
  then show ?thesis
    unfolding data_def [symmetric] AVC_Parse_def start
    using bits bytes sets stop assms parse_high_end [of data]
    by (cases c) (simp add: record_ok_def Let_def del: One_nat_def)
qed

text \<open>
  C28. A configuration record survives its bytes. If its counts agree with its lists, every parameter set has 1 to
  65535 bytes and the whole fits 512 bytes, \<open>Serialize\<close> writes exactly its bytes and \<open>Parse\<close> reads the same
  sets back, and as a sequence header the record becomes the same extradata. The fields that only high
  profiles have are not written, so they come back as 0.
\<close>

theorem avc_record_roundtrip:
  assumes "record_ok c"
  shows "AVC_Serialize c = Inr (record_bytes c) \<and>
    AVC_Parse (record_bytes c) = Inr (Some (c\<lparr>avc_reserved1 := 0x3F, avc_lengthMinusOne := take_bit 2 (avc_lengthMinusOne c),
      avc_reserved2 := 7, avc_reserved3 := 0, avc_chroma_format := 0, avc_reserved4 := 0, avc_bit_depth_luma_minus8 := 0,
      avc_num_of_sps_ext := 0, avc_sps_ext_list := []\<rparr>)) \<and>
    H264AvccToAnnexB_GetExtradata Packet_SEQUENCE_HEADER (record_bytes c) extradata = Inr (True, record_bytes c)"
proof -
  let ?c = "c\<lparr>avc_reserved1 := 0x3F, avc_lengthMinusOne := take_bit 2 (avc_lengthMinusOne c),
      avc_reserved2 := 7, avc_reserved3 := 0, avc_chroma_format := 0, avc_reserved4 := 0, avc_bit_depth_luma_minus8 := 0,
      avc_num_of_sps_ext := 0, avc_sps_ext_list := []\<rparr>"
  have bytes: "record_bytes ?c = record_bytes c" by (simp add: record_bytes_def)
  then have "record_ok ?c" using assms by (simp add: record_ok_def)
  from Serialize_bytes [OF this] show ?thesis
    using Serialize_bytes [OF assms] AVC_Parse_bytes [OF assms] bytes by (simp add: H264AvccToAnnexB_GetExtradata_def)
qed

definition sample_record :: avc_record where
  "sample_record = \<lparr>avc_version = 1, avc_profile_indication = 100, avc_profile_compatibility = 0, avc_level_indication = 31,
     avc_reserved1 = 0x3F, avc_lengthMinusOne = 3, avc_reserved2 = 7, avc_num_of_sps = 1, avc_sps_list = [[103, 100, 0, 31]],
     avc_num_of_pps = 2, avc_pps_list = [[104, 235], [104, 206, 60]], avc_reserved3 = 0x3F, avc_chroma_format = 1,
     avc_reserved4 = 0x1F, avc_bit_depth_luma_minus8 = 2, avc_num_of_sps_ext = 0, avc_sps_ext_list = []\<rparr>"

lemma avc_record_roundtrip_witness:
  "\<exists>d. AVC_Parse (record_bytes sample_record) = Inr (Some d) \<and> avc_pps_list d = [[104, 235], [104, 206, 60]] \<and> avc_chroma_format d = 0"
  using avc_record_roundtrip [of sample_record]
  by (simp add: sample_record_def record_ok_def record_bytes_def sets_ok_def set_bytes_def)

section \<open>From AVCC to Annex B\<close>

text \<open>NAL units, each behind its length and each behind a start code.\<close>

definition avcc_bytes :: "byte list list \<Rightarrow> byte list" where
  "avcc_bytes us = concat (map (\<lambda>u. WriteInt32 (of_nat (length u)) @ u) us)"

definition annexb_bytes :: "byte list list \<Rightarrow> byte list" where
  "annexb_bytes us = concat (map (\<lambda>u. START_CODE @ u) us)"

text \<open>A unit begins with a header that is not 0; the type of an IDR slice is 5.\<close>

definition unit_ok :: "byte list \<Rightarrow> bool" where
  "unit_ok u \<longleftrightarrow> u \<noteq> [] \<and> hd u \<noteq> 0 \<and> length u < 2 ^ 32"

definition idr_unit :: "byte list \<Rightarrow> bool" where
  "idr_unit u \<longleftrightarrow> \<not> bit (hd u) 7 \<and> take_bit 5 (hd u) = NalType_IdrSlice"

lemma ParseNalUnitHeader_unit:
  assumes "b \<noteq> 0"
  shows "\<exists>ok h. ParseNalUnitHeader (b # mem) 1 new_nal_header = Inr (ok, h) \<and>
    (ok \<and> nal_type h = NalType_IdrSlice \<longleftrightarrow> idr_unit (b # u))"
proof -
  let ?r = "new_bit_reader [b]"
  have p: "new_nal_parser (b # mem) 1 = Inr ?r"
    using assms by (simp add: new_nal_parser_def rbsp_loop.simps)
  have 1: "ReadBits_into 1 ?r = Inr (Some (of_bool (bit b 7) :: byte), br_skip 1 ?r)"
    using ReadBits_skip(2) [of ?r 1 0, where ?'a = 8] by (simp add: byte_bits_def upt_rec push_bits_def)
  have 2: "ReadBits_into 2 (br_skip 1 ?r) = Inr (Some (bits_value (take 2 (drop 1 (byte_bits b))) :: byte), br_skip 3 ?r)"
    using ReadBits_skip(2) [of ?r 2 1, where ?'a = 8] by (simp add: numeral_3_eq_3)
  have 3: "ReadBits_into 5 (br_skip 3 ?r) = Inr (Some (take_bit 5 b :: byte), br_skip 8 ?r)"
    using ReadBits_skip(2) [of ?r 5 3, where ?'a = 8] by (simp add: drop_byte_bits bits_value_low_bits)
  show ?thesis
    by (intro exI [of _ "\<not> bit b 7"], cases "bit b 7")
      (simp_all add: ParseNalUnitHeader_def ParseNalUnitHeader_at_def p 1 2 3 new_nal_header_def idr_unit_def NalType_IdrSlice_def
        del: One_nat_def)
qed

lemma avcc_loop_bytes:
  "stream_ok s \<Longrightarrow> GetRemainData s = avcc_bytes us \<Longrightarrow> list_all unit_ok us \<Longrightarrow>
   avcc_loop s idr acc = Inr (Some (acc @ annexb_bytes us, idr \<or> list_ex idr_unit us))"
proof (induction us arbitrary: s idr acc)
  case Nil
  then show ?case by (subst avcc_loop.simps) (simp add: avcc_bytes_def annexb_bytes_def)
next
  case (Cons u us)
  have ok: "unit_ok u" "list_all unit_ok us" using Cons.prems(3) by simp_all
  then obtain b bs where u: "u = b # bs" "b \<noteq> 0" "length u < 2 ^ 32" "list_all unit_ok us"
    by (cases u) (auto simp: unit_ok_def)
  have d: "GetRemainData s = WriteInt32 (of_nat (length u)) @ u @ avcc_bytes us"
    using Cons.prems(2) by (simp add: avcc_bytes_def)
  have len: "unat (of_nat (length u) :: u32) = length u" using u(3) by (simp add: unat_of_nat)
  have r: "ReadBE32 s = Inr (of_nat (length u), advance 4 s)" "stream_ok (advance 4 s)"
    "GetRemainData (advance 4 s) = u @ avcc_bytes us"
    using Cons.prems(1) d by (simp_all add: ReadBE32_ok be32_WriteInt32)
  have sk: "snd (Skip (advance 4 s) (length u)) = advance (4 + length u) s" "stream_ok (advance (4 + length u) s)"
    "GetRemainData (advance (4 + length u) s) = avcc_bytes us"
    using Skip_ok [OF r(2), of "length u"] advance_ok [OF r(2), of "length u"] r(3)
      GetRemainData_advance [of "length u" "advance 4 s"] arg_cong [OF d, of length] by simp_all
  obtain ok h where h: "ParseNalUnitHeader (u @ avcc_bytes us) 1 new_nal_header = Inr (ok, h)"
    "ok \<and> nal_type h = NalType_IdrSlice \<longleftrightarrow> idr_unit u"
    using ParseNalUnitHeader_unit [OF u(2), of "bs @ avcc_bytes us" bs] by (auto simp: u(1))
  have IH: "avcc_loop (advance (4 + length u) s) i a = Inr (Some (a @ annexb_bytes us, i \<or> list_ex idr_unit us))" for i a
    using Cons.IH sk(2,3) u(4) by simp
  have "avcc_loop s idr acc = avcc_loop (advance (4 + length u) s)
      (if ok \<and> nal_type h = NalType_IdrSlice then True else idr) (acc @ START_CODE @ u)"
    using Cons.prems(1) d r sk(1) h(1) len by (subst avcc_loop.simps) (simp add: Let_def del: length_greater_0_conv)
  then show ?case using h(2) by (auto simp: IH annexb_bytes_def)
qed

section \<open>From Annex B to AVCC\<close>

text \<open>A unit in which no start code begins, and that does not end with a zero.\<close>

definition clean :: "byte list \<Rightarrow> bool" where
  "clean u \<longleftrightarrow> u \<noteq> [] \<and> last u \<noteq> 0 \<and> (\<forall>i < length u. take 3 (drop i u) \<noteq> [0, 0, 1])"

lemma clean_tl: "clean (x # y # v) \<Longrightarrow> clean (y # v)"
  unfolding clean_def by (auto dest: spec [of _ "Suc _"])

lemma no_pattern:
  assumes "clean (x # v)" "rest = [] \<or> take 2 rest = [0, 0]" "b = (x # v) @ rest"
  shows "\<not> (4 \<le> length b \<and> b ! 0 = 0 \<and> b ! 1 = 0 \<and> b ! 2 = 0 \<and> b ! 3 = 1)"
    "\<not> (3 \<le> length b \<and> b ! 0 = 0 \<and> b ! 1 = 0 \<and> b ! 2 = 1)"
proof -
  have c: "last (x # v) \<noteq> 0" "take 3 (x # v) \<noteq> [0, 0, 1]" "v \<noteq> [] \<Longrightarrow> take 3 v \<noteq> [0, 0, 1]"
    using assms(1) by (auto simp: clean_def dest: spec [of _ 0] spec [of _ 1])
  show "\<not> (4 \<le> length b \<and> b ! 0 = 0 \<and> b ! 1 = 0 \<and> b ! 2 = 0 \<and> b ! 3 = 1)"
    "\<not> (3 \<le> length b \<and> b ! 0 = 0 \<and> b ! 1 = 0 \<and> b ! 2 = 1)"
    using c unfolding assms(3)
    by (cases "v" rule: unescape.cases; auto simp: numeral_2_eq_2 numeral_3_eq_3)+
qed

lemma scan_unit:
  "v = [] \<or> clean v \<Longrightarrow> rest = [] \<or> take 2 rest = [0, 0] \<Longrightarrow>
   annexb_loop (pre @ v @ rest) (length pre) lo acc = annexb_loop (pre @ v @ rest) (length pre + length v) lo acc"
proof (induction v arbitrary: pre)
  case (Cons x v)
  have c: "clean (x # v)" using Cons.prems(1) by simp
  then have v: "v = [] \<or> clean v" by (cases v) (auto dest: clean_tl)
  define b where "b = (x # v) @ rest"
  have "GetStartPatternSize b (length b) 0 = Inr (- 1)"
    using no_pattern [OF c Cons.prems(2) b_def] by (simp add: GetStartPatternSize_def)
  then have "annexb_loop (pre @ (x # v) @ rest) (length pre) lo acc = annexb_loop (pre @ (x # v) @ rest) (length pre + 1) lo acc"
    unfolding b_def by (subst annexb_loop.simps) (cases "x = 0"; simp)
  then show ?case using Cons.IH [OF v Cons.prems(2), of "pre @ [x]"] by simp
qed simp

lemma scan_start_code:
  "annexb_loop (pre @ START_CODE @ rest) (length pre) lo acc =
   (if lo < length pre then annexb_loop (pre @ START_CODE @ rest) (length pre + 4) (length pre + 4)
      (acc @ WriteInt32 (of_nat (length pre - lo)) @ drop lo pre)
    else annexb_loop (pre @ START_CODE @ rest) (length pre + 4) (lo + 4) acc)"
  by (subst annexb_loop.simps) (simp add: START_CODE_def GetStartPatternSize_def)

lemma length_START_CODE [simp]: "length START_CODE = 4"
  by (simp add: START_CODE_def)

lemma annexb_bytes_simps [simp]:
  "annexb_bytes [] = []" "annexb_bytes (u # us) = START_CODE @ u @ annexb_bytes us"
  "annexb_bytes (us @ vs) = annexb_bytes us @ annexb_bytes vs"
  by (simp_all add: annexb_bytes_def)

lemma avcc_bytes_simps [simp]:
  "avcc_bytes [] = []" "avcc_bytes (u # us) = WriteInt32 (of_nat (length u)) @ u @ avcc_bytes us"
  "avcc_bytes (us @ vs) = avcc_bytes us @ avcc_bytes vs"
  by (simp_all add: avcc_bytes_def)

lemma scan_units:
  "list_all clean (u # us) \<Longrightarrow>
   annexb_loop (pre @ u @ annexb_bytes us) (length pre) (length pre) acc =
     Inr (length (pre @ u @ annexb_bytes us) - length (last (u # us)), acc @ avcc_bytes (butlast (u # us)))"
proof (induction us arbitrary: pre u acc)
  case Nil
  then show ?case using scan_unit [of u "[]" pre "length pre" acc] by (simp add: annexb_loop.simps)
next
  case (Cons u' us)
  have "take 2 (annexb_bytes (u' # us)) = [0, 0]" "u \<noteq> []"
    using Cons.prems by (simp_all add: START_CODE_def clean_def)
  then have "annexb_loop (pre @ u @ annexb_bytes (u' # us)) (length pre) (length pre) acc =
    annexb_loop ((pre @ u @ START_CODE) @ u' @ annexb_bytes us) (length (pre @ u @ START_CODE)) (length (pre @ u @ START_CODE))
      (acc @ WriteInt32 (of_nat (length u)) @ u)"
    using scan_unit [of u "annexb_bytes (u' # us)" pre "length pre" acc] Cons.prems
      scan_start_code [of "pre @ u" "u' @ annexb_bytes us" "length pre" acc] by (simp add: add.assoc)
  then show ?case using Cons.IH [of u' "pre @ u @ START_CODE"] Cons.prems by simp
qed

lemma ConvertAnnexbToAvcc_bytes:
  assumes "list_all clean us"
  shows "ConvertAnnexbToAvcc (annexb_bytes us) = Inr (avcc_bytes us)"
proof (cases us)
  case Nil
  then show ?thesis by (simp add: ConvertAnnexbToAvcc_def annexb_loop.simps)
next
  case (Cons u vs)
  obtain ws l where l: "us = ws @ [l]" using Cons rev_exhaust [of us] by blast
  have "l \<noteq> []" using assms l by (simp add: clean_def)
  moreover have "annexb_loop (annexb_bytes us) 0 0 [] = Inr (length (annexb_bytes us) - length (last us), avcc_bytes (butlast us))"
    using scan_start_code [of "[]" "u @ annexb_bytes vs" 0 "[]"] scan_units [of u vs START_CODE "[]"] assms Cons by simp
  ultimately show ?thesis by (simp add: ConvertAnnexbToAvcc_def l)
qed

text \<open>
  From AVCC to Annex B. NAL units behind their lengths become the same units behind start codes, in order; if
  one is an IDR slice and the extradata is a configuration record, the parameter sets of the record come first,
  each behind a start code. Every conversion agrees.
\<close>

theorem avcc_to_annexb_units:
  assumes "list_all unit_ok us" "record_ok c"
  shows "H264AvccToAnnexB_Convert Packet_NALU (avcc_bytes us) [] = Inr (True, annexb_bytes us) \<and>
    SnyH264AvccToAnnexB_Convert Packet_NALU (avcc_bytes us) (record_bytes c) =
      Inr (Some ((if list_ex idr_unit us then annexb_bytes (avc_sps_list c @ avc_pps_list c) else []) @ annexb_bytes us))"
proof -
  have loop: "avcc_loop (stream_of (avcc_bytes us)) False [] = Inr (Some (annexb_bytes us, list_ex idr_unit us))"
    using avcc_loop_bytes [of "stream_of (avcc_bytes us)" us False "[]"] assms(1) by simp
  have "map get [0..<length ss] = map Some ss" if "\<And>i. i < length ss \<Longrightarrow> get i = Some (ss ! i)" for get and ss :: "byte list list"
    using that by (intro nth_equalityI) simp_all
  then have sets: "sets_annexb get (length ss) = annexb_bytes ss" if "\<And>i. i < length ss \<Longrightarrow> get i = Some (ss ! i)" for get and ss :: "byte list list"
    using that by (auto simp: sets_annexb_def annexb_bytes_def intro!: arg_cong [of _ _ concat] nth_equalityI)
  have "record_annexb c = annexb_bytes (avc_sps_list c @ avc_pps_list c)"
    using assms(2) sets [of "avc_sps_list c" "GetSPS c"] sets [of "avc_pps_list c" "GetPPS c"]
    by (simp add: record_annexb_def record_ok_def GetSPS_def GetPPS_def get_set_def annexb_bytes_def)
  moreover have "record_annexb (c\<lparr>avc_reserved1 := a, avc_lengthMinusOne := l, avc_reserved2 := b, avc_reserved3 := r,
      avc_chroma_format := f, avc_reserved4 := q, avc_bit_depth_luma_minus8 := m, avc_num_of_sps_ext := n, avc_sps_ext_list := e\<rparr>) =
    record_annexb c" for a l b r f q m n e
    by (cases c) (simp add: record_annexb_def GetSPS_def [abs_def] GetPPS_def [abs_def])
  moreover have "record_bytes c \<noteq> []" by (simp add: record_bytes_def)
  ultimately show ?thesis
    using loop AVC_Parse_bytes [OF assms(2)]
    by (simp add: H264AvccToAnnexB_Convert_def SnyH264AvccToAnnexB_Convert_def avcc_to_annexb_def)
qed

lemma avcc_to_annexb_units_witness:
  "H264AvccToAnnexB_Convert Packet_NALU (avcc_bytes [[0x65, 9], [6]]) [] = Inr (True, [0, 0, 0, 1, 0x65, 9, 0, 0, 0, 1, 6]) \<and>
   SnyH264AvccToAnnexB_Convert Packet_NALU (avcc_bytes [[0x65, 9]]) (record_bytes sample_record) =
     Inr (Some (annexb_bytes [[103, 100, 0, 31], [104, 235], [104, 206, 60], [0x65, 9]]))"
  using avcc_to_annexb_units [of "[[0x65, 9], [6]]" sample_record] avcc_to_annexb_units [of "[[0x65, 9]]" sample_record]
  by (simp add: unit_ok_def sample_record_def record_ok_def record_bytes_def sets_ok_def set_bytes_def START_CODE_def
      idr_unit_def NalType_IdrSlice_def take_bit_eq_mod)

text \<open>
  C27. From Annex B to AVCC and back. Units without a start code inside that do not end with a zero come out of
  their start codes behind their lengths, and the other direction gives the Annex B bytes again.
\<close>

theorem annexb_avcc_roundtrip:
  assumes "list_all clean us" "list_all unit_ok us"
  shows "\<exists>avcc. ConvertAnnexbToAvcc (annexb_bytes us) = Inr avcc \<and>
    ConvertAvccToAnnexb Packet_NALU avcc [] = Inr (True, annexb_bytes us)"
  using ConvertAnnexbToAvcc_bytes [OF assms(1)] avcc_loop_bytes [of "stream_of (avcc_bytes us)" us False "[]"] assms(2)
  by (simp add: ConvertAvccToAnnexb_def avcc_to_annexb_def)

lemma annexb_avcc_roundtrip_witness:
  "\<exists>avcc. ConvertAnnexbToAvcc (annexb_bytes [[0x65, 0, 0, 9], [6, 0, 1]]) = Inr avcc \<and>
    ConvertAvccToAnnexb Packet_NALU avcc [] = Inr (True, annexb_bytes [[0x65, 0, 0, 9], [6, 0, 1]])"
proof -
  have "clean [0x65, 0, 0, 9]" "clean [6, 0, 1]"
    by (auto simp: clean_def less_Suc_eq)
  then show ?thesis by (intro annexb_avcc_roundtrip) (simp_all add: unit_ok_def)
qed

end
