(* ===== verification/C_String.thy ===== *)
theory C_String
  imports Engine_Prelude
begin

text \<open>
  Strings as the engine uses them: a C string is the list of its bytes without the NUL at its end. The
  functions of the C library the sources call on strings, in the "C" locale, and the splitting of
  \<^verbatim>\<open>ov::String\<close> (\<open>core/string.cpp\<close>).
\<close>

unbundle bit_operations_syntax

type_synonym cstring = "byte list"

text \<open>A literal of the sources: characters below 128.\<close>

definition lit :: "string \<Rightarrow> cstring" where
  "lit s = map (\<lambda>c. of_nat (of_char c)) s"

section \<open>Characters\<close>

definition is_digit :: "byte \<Rightarrow> bool" where
  "is_digit c \<longleftrightarrow> 48 \<le> c \<and> c \<le> 57"

definition is_upper :: "byte \<Rightarrow> bool" where
  "is_upper c \<longleftrightarrow> 65 \<le> c \<and> c \<le> 90"

definition is_lower :: "byte \<Rightarrow> bool" where
  "is_lower c \<longleftrightarrow> 97 \<le> c \<and> c \<le> 122"

definition is_alnum :: "byte \<Rightarrow> bool" where
  "is_alnum c \<longleftrightarrow> is_digit c \<or> is_upper c \<or> is_lower c"

definition is_space :: "byte \<Rightarrow> bool" where
  "is_space c \<longleftrightarrow> c = 32 \<or> 9 \<le> c \<and> c \<le> 13"

definition to_upper :: "byte \<Rightarrow> byte" where
  "to_upper c = (if is_lower c then c - 32 else c)"

definition to_lower :: "byte \<Rightarrow> byte" where
  "to_lower c = (if is_upper c then c + 32 else c)"

text \<open>The value of a digit or letter, 36 for any other character.\<close>

definition digit_value :: "byte \<Rightarrow> nat" where
  "digit_value c =
     (if is_digit c then unat c - 48 else if is_upper c then unat c - 55
      else if is_lower c then unat c - 87 else 36)"

definition is_xdigit :: "byte \<Rightarrow> bool" where
  "is_xdigit c \<longleftrightarrow> digit_value c < 16"

section \<open>Numbers\<close>

definition digits_value :: "nat \<Rightarrow> cstring \<Rightarrow> nat" where
  "digits_value base ds = foldl (\<lambda>n c. n * base + digit_value c) 0 ds"

text \<open>
  \<open>strtol(str, nullptr, base)\<close>: spaces, a sign, for base 0 the prefix that chooses the base, and the longest
  run of digits; a value out of the range of \<^verbatim>\<open>long\<close> becomes its bound.
\<close>

definition strtol_digits :: "nat \<Rightarrow> cstring \<Rightarrow> nat" where
  "strtol_digits base s =
     (let hex = 2 \<le> length s \<and> s ! 0 = 48 \<and> (s ! 1 = 120 \<or> s ! 1 = 88) \<and> is_xdigit ((drop 2 s @ [0]) ! 0);
          (base', ds) =
            (if (base = 0 \<or> base = 16) \<and> hex then (16, drop 2 s)
             else if base = 0 then (if take 1 s = [48] then 8 else 10, s) else (base, s))
      in digits_value base' (takeWhile (\<lambda>c. digit_value c < base') ds))"

definition strtol :: "nat \<Rightarrow> cstring \<Rightarrow> int" where
  "strtol base s =
     (let s = dropWhile is_space s;
          (negative, s) = (if take 1 s = [45] then (True, drop 1 s)
                           else if take 1 s = [43] then (False, drop 1 s) else (False, s));
          v = int (strtol_digits base s)
      in max (- (2 ^ 63)) (min (2 ^ 63 - 1) (if negative then - v else v)))"

text \<open>The decimal digits that \<^verbatim>\<open>printf\<close> writes.\<close>

fun decimal :: "nat \<Rightarrow> cstring" where
  "decimal n = (if n < 10 then [of_nat (48 + n)] else decimal (n div 10) @ [of_nat (48 + n mod 10)])"

declare decimal.simps [simp del]

definition decimal_int :: "int \<Rightarrow> cstring" where
  "decimal_int i = (if i < 0 then 45 # decimal (nat (- i)) else decimal (nat i))"

section \<open>Searching and splitting\<close>

text \<open>\<open>strstr\<close>: the position of the first occurrence.\<close>

fun strstr :: "cstring \<Rightarrow> cstring \<Rightarrow> nat option" where
  "strstr s pat =
     (if take (length pat) s = pat then Some 0
      else case s of [] \<Rightarrow> None | _ # s' \<Rightarrow> map_option Suc (strstr s' pat))"

declare strstr.simps [simp del]

lemma strstr_Some:
  "strstr s pat = Some n \<Longrightarrow> take (length pat) (drop n s) = pat \<and> n + length pat \<le> length s"
proof (induction s arbitrary: n)
  case (Cons c s)
  show ?case
  proof (cases "take (length pat) (c # s) = pat")
    case True
    then have "length pat \<le> length (c # s)" by (metis length_take min.cobounded1)
    with True Cons.prems show ?thesis by (subst (asm) strstr.simps) auto
  next
    case False
    then obtain m where "n = Suc m" "strstr s pat = Some m"
      using Cons.prems by (subst (asm) strstr.simps) auto
    with Cons.IH [of m] show ?thesis by simp
  qed
next
  case Nil
  then show ?case by (subst (asm) strstr.simps) (auto split: if_splits)
qed

text \<open>
  The loop of \<open>String::Split\<close>: \<open>token_count\<close> tokens are already there, and there are at most
  \<open>max_count\<close>; no value is \<^verbatim>\<open>SIZE_MAX\<close>. The separator is not empty.
\<close>

function split_loop :: "cstring \<Rightarrow> nat option \<Rightarrow> nat \<Rightarrow> cstring \<Rightarrow> cstring list" where
  "split_loop sep max_count token_count s =
     (if sep = [] then []
      else if case max_count of None \<Rightarrow> False | Some m \<Rightarrow> m \<le> token_count then []
      else case strstr s sep of
        None \<Rightarrow> [s]
      | Some n \<Rightarrow>
          (if max_count = Some (token_count + 1) then s else take n s)
            # split_loop sep max_count (token_count + 1) (drop (n + length sep) s))"
  by pat_completeness auto
termination
proof (relation "measure (\<lambda>(_, _, _, s). length s)", goal_cases)
  case (2 sep max_count token_count s n)
  then show ?case using strstr_Some [of s sep n] by (cases sep) auto
qed simp

declare split_loop.simps [simp del]

definition Split :: "cstring \<Rightarrow> cstring \<Rightarrow> nat option \<Rightarrow> cstring list" where
  "Split s sep max_count =
     (if s = [] \<or> sep = [] then [s] else split_loop sep (map_option (max 1) max_count) 0 s)"

text \<open>\<open>String::Join\<close>.\<close>

fun Join :: "cstring list \<Rightarrow> cstring \<Rightarrow> cstring" where
  "Join [] sep = []"
| "Join [s] sep = s"
| "Join (s # ss) sep = s @ sep @ Join ss sep"

text \<open>Joining the tokens gives the string back, whatever the separator and the number of tokens.\<close>

lemma Join_split_loop:
  assumes "sep \<noteq> []" "case max_count of None \<Rightarrow> True | Some m \<Rightarrow> token_count < m"
  shows "split_loop sep max_count token_count s \<noteq> [] \<and> Join (split_loop sep max_count token_count s) sep = s"
  using assms
proof (induction sep max_count token_count s rule: split_loop.induct)
  case (1 sep max_count token_count s)
  show ?case
  proof (cases "strstr s sep")
    case None
    with "1.prems" show ?thesis by (subst split_loop.simps, subst (2) split_loop.simps) (auto split: option.splits)
  next
    case (Some n)
    have s: "take n s @ sep @ drop (n + length sep) s = s"
      using strstr_Some [OF Some] by (metis append_take_drop_id drop_drop add.commute)
    show ?thesis
    proof (cases "max_count = Some (token_count + 1)")
      case True
      then have "split_loop sep max_count (token_count + 1) t = []" for t
        by (subst split_loop.simps) simp
      with True Some "1.prems" show ?thesis
        by (subst split_loop.simps, subst (2) split_loop.simps) auto
    next
      case False
      then have more: "case max_count of None \<Rightarrow> True | Some m \<Rightarrow> token_count + 1 < m"
        using "1.prems" by (auto split: option.splits)
      define rest where "rest = split_loop sep max_count (token_count + 1) (drop (n + length sep) s)"
      have rest: "rest \<noteq> [] \<and> Join rest sep = drop (n + length sep) s"
        unfolding rest_def using "1.prems" more Some by (intro "1.IH") (auto split: option.splits)
      have "split_loop sep max_count token_count s = take n s # rest"
        using False Some "1.prems" by (subst split_loop.simps) (auto simp: rest_def split: option.splits)
      with rest s show ?thesis by (cases rest) auto
    qed
  qed
qed

lemma Join_Split: "Join (Split s sep max_count) sep = s"
  by (auto simp: Split_def intro!: conjunct2 [OF Join_split_loop] split: option.splits)

end
