(* ===== verification/Url.thy ===== *)
theory Url
  imports C_String
begin

text \<open>
  \<^verbatim>\<open>ov::Url\<close> (\<open>core/url.cpp\<close>, \<open>core/url.h\<close>): percent coding, the URL syntax, and the query string with the
  map that is parsed from it on demand. The mutex of the class makes each operation atomic.
\<close>

unbundle bit_operations_syntax

section \<open>Percent coding\<close>

definition hex_digit :: "byte \<Rightarrow> byte" where
  "hex_digit n = lit ''0123456789abcdef'' ! unat n"

definition Encode_char :: "byte \<Rightarrow> cstring" where
  "Encode_char buf =
     (if is_alnum buf \<or> buf = 45 \<or> buf = 95 \<or> buf = 46 \<or> buf = 126 then [buf]
      else if buf = 32 then [43]
      else [37, hex_digit (drop_bit 4 buf), hex_digit (buf AND 15)])"

definition Encode :: "cstring \<Rightarrow> cstring" where
  "Encode value = concat (map Encode_char value)"

text \<open>The branch for a plus only changes a variable that is not used afterwards.\<close>

function Decode :: "cstring \<Rightarrow> cstring" where
  "Decode val =
     (case val of
        [] \<Rightarrow> []
      | character # rest \<Rightarrow>
          if character = 37 \<and> 2 < length val \<and> is_xdigit (val ! 1) \<and> is_xdigit (val ! 2)
          then of_int (strtol 16 [val ! 1, val ! 2]) # Decode (drop 3 val)
          else character # Decode rest)"
  by pat_completeness auto
termination by (relation "measure length") auto

declare Decode.simps [simp del]

section \<open>Parsing\<close>

record url =
  url_source :: cstring
  url_scheme :: cstring
  url_host :: cstring
  url_port :: u32
  url_path :: cstring
  url_has_query_string :: bool
  url_query_string :: cstring
  url_query_parsed :: bool
  url_query_map :: "cstring \<Rightarrow> cstring option"
  url_app :: cstring
  url_stream :: cstring
  url_file :: cstring

definition new_url :: url where
  "new_url = \<lparr>url_source = [], url_scheme = [], url_host = [], url_port = 0, url_path = [],
     url_has_query_string = False, url_query_string = [], url_query_parsed = False, url_query_map = Map.empty,
     url_app = [], url_stream = [], url_file = []\<rparr>"

text \<open>
  The regular expression \<^verbatim>\<open>(.+?)://([^:/]+)(:([0-9]+))?(/([^\?]+)?)?(\?([^\?]+)?(.+)?)?\<close>. All that follows the
  first character of the host is optional and greedy, so a match never has to be taken back: the scheme is
  the shortest one before \<^verbatim>\<open>://\<close> and a host, at the first position that has one. A dot does not match the end
  of a line.
\<close>

definition is_host_char :: "byte \<Rightarrow> bool" where
  "is_host_char c \<longleftrightarrow> c \<noteq> 58 \<and> c \<noteq> 47"

definition authority_at :: "cstring \<Rightarrow> bool" where
  "authority_at s \<longleftrightarrow> take 3 s = [58, 47, 47] \<and> (\<exists>c \<in> set (take 1 (drop 3 s)). is_host_char c)"

fun scheme_length :: "nat \<Rightarrow> cstring \<Rightarrow> nat option" where
  "scheme_length n [] = None"
| "scheme_length n (c # s) =
     (if c = 10 \<or> c = 13 then None
      else if authority_at s then Some (n + 1)
      else scheme_length (n + 1) s)"

fun find_url :: "cstring \<Rightarrow> (cstring \<times> cstring) option" where
  "find_url s =
     (case scheme_length 0 s of
        Some n \<Rightarrow> Some (take n s, drop (n + 3) s)
      | None \<Rightarrow> (case s of [] \<Rightarrow> None | _ # s' \<Rightarrow> find_url s'))"

declare find_url.simps [simp del]

text \<open>\<open>Converter::ToUInt32\<close> of digits: no digits are 0, and \<^verbatim>\<open>std::stoul\<close> throws when they exceed \<^verbatim>\<open>unsigned long\<close>.\<close>

definition ToUInt32 :: "cstring \<Rightarrow> u32 res" where
  "ToUInt32 ds = (if 2 ^ 64 \<le> digits_value 10 ds then Inl Uncaught else Inr (of_nat (digits_value 10 ds)))"

definition url_tokens :: "cstring list \<Rightarrow> url \<Rightarrow> url" where
  "url_tokens tokens u =
     (let u = (if 4 \<le> length tokens then u\<lparr>url_file := tokens ! 3\<rparr> else u);
          u = (if 3 \<le> length tokens then u\<lparr>url_stream := tokens ! 2\<rparr> else u)
      in if 2 \<le> length tokens then u\<lparr>url_app := tokens ! 1\<rparr> else u)"

definition Url_Parse :: "cstring \<Rightarrow> url option res" where
  "Url_Parse source =
     (case find_url source of
        None \<Rightarrow> Inr None
      | Some (scheme, s) \<Rightarrow>
          let host = takeWhile is_host_char s; s = dropWhile is_host_char s;
              digits = (if take 1 s = [58] then takeWhile is_digit (drop 1 s) else []);
              s = (if digits \<noteq> [] then drop (1 + length digits) s else s);
              path = (if take 1 s = [47] then takeWhile (\<lambda>c. c \<noteq> 63) s else []);
              s = drop (length path) s;
              has_query = (take 1 s = [63]);
              query = (if has_query then takeWhile (\<lambda>c. c \<noteq> 63) (drop 1 s) else []) in
          bindR (ToUInt32 digits) (\<lambda>port.
            Inr (Some (url_tokens (Split path [47] None)
              (new_url\<lparr>url_source := source, url_scheme := scheme, url_host := host, url_port := port,
                 url_path := path, url_has_query_string := has_query, url_query_string := query\<rparr>)))))"

definition SetConnPort :: "u32 \<Rightarrow> url \<Rightarrow> url" where
  "SetConnPort port u = u\<lparr>url_port := port\<rparr>"

section \<open>Query strings\<close>

definition append_query :: "cstring \<Rightarrow> url \<Rightarrow> url" where
  "append_query s u =
     u\<lparr>url_query_string := url_query_string u @ (if url_has_query_string u then [38] else []) @ s,
       url_has_query_string := True, url_query_parsed := False\<rparr>"

definition PushBackQueryKey :: "cstring \<Rightarrow> url \<Rightarrow> url" where
  "PushBackQueryKey key u = append_query key u"

definition PushBackQueryKey_value :: "cstring \<Rightarrow> cstring \<Rightarrow> url \<Rightarrow> url" where
  "PushBackQueryKey_value key value u = append_query (key @ [61] @ Encode value) u"

definition UpperCaseString :: "cstring \<Rightarrow> cstring" where
  "UpperCaseString s = map to_upper s"

definition query_key :: "cstring \<Rightarrow> cstring" where
  "query_key query =
     (let tokens = Split query [61] (Some 2) in if length tokens = 2 then tokens ! 0 else query)"

text \<open>\<open>RemoveQueryKey\<close>: the queries that are kept are joined again; the map is not touched.\<close>

definition RemoveQueryKey :: "cstring \<Rightarrow> url \<Rightarrow> bool \<times> url" where
  "RemoveQueryKey remove_key u =
     (if \<not> url_has_query_string u then (False, u)
      else
        let kept = (if url_query_string u = [] then []
                    else filter (\<lambda>query. UpperCaseString (query_key query) \<noteq> UpperCaseString remove_key)
                      (Split (url_query_string u) [38] None)) in
        (True, u\<lparr>url_query_string := Join kept [38], url_query_parsed := False\<rparr>))"

text \<open>
  The map is filled from the queries in their order. A decoded value is assigned as a C string, which ends
  at its first NUL.
\<close>

definition query_entry :: "cstring \<Rightarrow> cstring \<times> cstring" where
  "query_entry query =
     (let tokens = Split query [61] (Some 2) in
      if length tokens = 2 then (tokens ! 0, takeWhile (\<lambda>c. c \<noteq> 0) (Decode (tokens ! 1))) else (query, []))"

definition ParseQueryIfNeeded :: "url \<Rightarrow> url" where
  "ParseQueryIfNeeded u =
     (if \<not> url_has_query_string u \<or> url_query_parsed u then u
      else
        let u = u\<lparr>url_query_parsed := True\<rparr> in
        if url_query_string u = [] then u
        else u\<lparr>url_query_map :=
          foldl (\<lambda>m query. m(fst (query_entry query) \<mapsto> snd (query_entry query))) (url_query_map u)
            (Split (url_query_string u) [38] None)\<rparr>)"

definition Query :: "url \<Rightarrow> cstring \<times> url" where
  "Query u = (let u = ParseQueryIfNeeded u in (url_query_string u, u))"

definition HasQueryKey :: "cstring \<Rightarrow> url \<Rightarrow> bool \<times> url" where
  "HasQueryKey key u = (let u = ParseQueryIfNeeded u in (url_query_map u key \<noteq> None, u))"

definition GetQueryValue :: "cstring \<Rightarrow> url \<Rightarrow> cstring \<times> url" where
  "GetQueryValue key u =
     (let (found, u) = HasQueryKey key u in
      (if found then Decode (case url_query_map u key of None \<Rightarrow> [] | Some v \<Rightarrow> v) else [], u))"

section \<open>Printing\<close>

text \<open>The port is written with \<^verbatim>\<open>%d\<close>, as a signed number.\<close>

definition ToUrlString :: "bool \<Rightarrow> url \<Rightarrow> cstring" where
  "ToUrlString include_query_string u =
     url_scheme u @ [58, 47, 47] @ url_host u @ (if 0 < url_port u then 58 # decimal_int (sint (url_port u)) else []) @
     url_path u @ (if \<not> include_query_string \<or> url_query_string u = [] then [] else [63]) @
     (if include_query_string then url_query_string u else [])"

definition Url_ToString :: "url \<Rightarrow> cstring" where
  "Url_ToString u =
     url_scheme u @ [58, 47, 47] @ url_host u @ (if 0 < url_port u then 58 # decimal_int (sint (url_port u)) else []) @
     url_path u @ (if url_query_string u = [] then [] else [63]) @ url_query_string u @
     lit '' (app: '' @ url_app u @ lit '', stream: '' @ url_stream u @ lit '', file: '' @ url_file u @ [41]"

end
