(* ===== verification/Url_Codec.thy ===== *)
theory Url_Codec
  imports Url
begin

text \<open>
  Properties of \<^verbatim>\<open>ov::Url\<close> and of the splitting of strings: percent coding, the fields of a query string,
  printing and parsing.
\<close>

unbundle bit_operations_syntax

section \<open>Percent coding\<close>

lemma hex_digits:
  "list_all (\<lambda>i. digit_value (lit ''0123456789abcdef'' ! i) = i \<and>
     lit ''0123456789abcdef'' ! i \<notin> {45, 43, 120, 88} \<and> \<not> is_space (lit ''0123456789abcdef'' ! i)) [0..<16]"
  by code_simp

lemma hex_digit_value:
  assumes "unat n < 16"
  shows "is_xdigit (hex_digit n)" "digit_value (hex_digit n) = unat n" "hex_digit n \<noteq> 45" "hex_digit n \<noteq> 43"
    "\<not> is_space (hex_digit n)" "hex_digit n \<noteq> 120" "hex_digit n \<noteq> 88"
  using hex_digits assms by (simp_all add: list_all_iff hex_digit_def is_xdigit_def)

lemma unat_nibbles: "unat (drop_bit 4 c) = unat (c :: byte) div 16" "unat (c AND 15) = unat c mod 16"
proof -
  have "c AND 15 = take_bit 4 c" by (simp add: take_bit_eq_mask mask_eq_exp_minus_1)
  then show "unat (c AND 15) = unat c mod 16" by (simp only: unsigned_take_bit_eq) (simp add: take_bit_eq_mod)
qed (simp add: drop_bit_unat)

lemma clamp: "0 \<le> i \<Longrightarrow> i < 256 \<Longrightarrow> max (- (2 ^ 63)) (min (2 ^ 63 - 1) i) = (i :: int)"
  by simp

lemma strtol_hex: "strtol 16 [hex_digit (drop_bit 4 c), hex_digit (c AND 15)] = uint (c :: byte)"
proof -
  define a b where "a = hex_digit (drop_bit 4 c)" and "b = hex_digit (c AND 15)"
  have "unat c < 256" using unat_less_power [of c] by simp
  then have less: "unat (drop_bit 4 c) < 16" "unat (c AND 15) < 16" by (simp_all add: unat_nibbles)
  note a = hex_digit_value [OF less(1), folded a_def] and b = hex_digit_value [OF less(2), folded b_def]
  have "strtol_digits 16 [a, b] = digits_value 16 [a, b]"
    using a(1,2) b(1,2,6,7) less by (simp add: strtol_digits_def)
  also have "\<dots> = unat c" using a(2) b(2) by (simp add: digits_value_def unat_nibbles)
  finally have n: "strtol_digits 16 [a, b] = unat c" .
  have "strtol 16 [a, b] = max (- (2 ^ 63)) (min (2 ^ 63 - 1) (int (strtol_digits 16 [a, b])))"
    using a(3-5) by (simp add: strtol_def)
  also have "\<dots> = int (unat c)" unfolding n using \<open>unat c < 256\<close> by (intro clamp) linarith+
  finally show ?thesis by (simp add: a_def b_def)
qed

lemma Decode_Encode_char: "Decode (Encode_char c @ s) = (if c = 32 then 43 else c) # Decode s"
proof -
  have "unat c < 256" using unat_less_power [of c] by simp
  then have less: "unat (drop_bit 4 c) < 16" "unat (c AND 15) < 16" by (simp_all add: unat_nibbles)
  have plain: "x \<noteq> 37 \<Longrightarrow> Decode (x # s) = x # Decode s" for x by (subst Decode.simps) simp
  have "is_alnum c \<Longrightarrow> c \<noteq> 37" by (auto simp: is_alnum_def is_digit_def is_upper_def is_lower_def)
  note plain' = plain [OF this]
  have "Decode ([37, hex_digit (drop_bit 4 c), hex_digit (c AND 15)] @ s) = c # Decode s"
    using less by (subst Decode.simps) (simp add: hex_digit_value(1) strtol_hex)
  then show ?thesis
    using plain plain' by (auto simp: Encode_char_def is_alnum_def [of 32] is_digit_def [of 32] is_upper_def [of 32] is_lower_def [of 32])
qed

text \<open>
  Decoding an encoded string gives the string back, except that every space has become a plus sign:
  \<open>Encode\<close> writes a space as a plus, and \<open>Decode\<close> does not turn a plus into a space. So exactly the strings
  without a space survive.
\<close>

theorem url_decode_encode:
  "Decode (Encode s) = map (\<lambda>c. if c = 32 then 43 else c) s \<and> (Decode (Encode s) = s \<longleftrightarrow> 32 \<notin> set s)"
proof -
  have "Decode (Encode s) = map (\<lambda>c. if c = 32 then 43 else c) s"
    by (induction s) (simp_all add: Encode_def Decode_Encode_char Decode.simps [of "[]"])
  moreover have "map (\<lambda>c. if c = 32 then 43 else c) s = s \<longleftrightarrow> 32 \<notin> set s"
    by (induction s) auto
  ultimately show ?thesis by simp
qed

section \<open>Splitting\<close>

text \<open>The fields of a string between separators of one character.\<close>

fun fields_of :: "byte \<Rightarrow> cstring \<Rightarrow> cstring list" where
  "fields_of c [] = [[]]"
| "fields_of c (x # s) = (if x = c then [] # fields_of c s else (x # hd (fields_of c s)) # tl (fields_of c s))"

lemma fields_nonempty [simp]: "fields_of c s \<noteq> []"
  by (cases "(c, s)" rule: fields_of.cases) auto

lemma fields_cut: "strstr s [c] = None \<Longrightarrow> fields_of c s = [s]" 
  "strstr s [c] = Some n \<Longrightarrow> fields_of c s = take n s # fields_of c (drop (n + 1) s)"
proof (induction s arbitrary: n)
  case (Cons x s)
  { case 1 then show ?case using Cons.IH(1) by (subst (asm) strstr.simps) (auto split: if_split_asm) next
    case 2 then show ?case using Cons.IH(2) by (subst (asm) strstr.simps) (auto split: if_split_asm) }
qed (auto simp: strstr.simps)

lemma split_loop_fields: "split_loop [c] None k s = fields_of c s"
proof (induction "length s" arbitrary: k s rule: less_induct)
  case less
  show ?case
  proof (cases "strstr s [c]")
    case None
    then show ?thesis by (subst split_loop.simps) (simp add: fields_cut)
  next
    case (Some n)
    then have "n < length s" using strstr_Some [of s "[c]" n] by simp
    with Some less [of "drop (n + 1) s"] show ?thesis by (subst split_loop.simps) (simp add: fields_cut)
  qed
qed

lemma Split_fields: "Split s [c] None = fields_of c s"
  by (simp add: Split_def split_loop_fields)

lemma fields_separate: "f \<in> set (fields_of c s) \<Longrightarrow> c \<notin> set f"
proof (induction s arbitrary: f)
  case (Cons x s)
  then show ?case by (cases "fields_of c s") (auto split: if_split_asm)
qed simp

lemma fields_Join: "ts \<noteq> [] \<Longrightarrow> \<forall>t \<in> set ts. c \<notin> set t \<Longrightarrow> fields_of c (Join ts [c]) = ts"
proof (induction ts)
  case (Cons t ts)
  have 1: "c \<notin> set t \<Longrightarrow> fields_of c t = [t]" for t by (induction t) auto
  have 2: "c \<notin> set t \<Longrightarrow> fields_of c (t @ [c] @ r) = t # fields_of c r" for t r by (induction t) auto
  show ?case using Cons 1 2 [of t] by (cases ts) auto
qed simp

text \<open>
  \<open>String::Split\<close> with a separator of one character and no limit computes the fields of the string, none of
  which holds the separator; \<open>Join\<close> is its inverse in both directions.
\<close>

theorem split_is_fields:
  "Split s [c] None = fields_of c s \<and> (\<forall>f \<in> set (Split s [c] None). c \<notin> set f) \<and> Join (Split s [c] None) [c] = s \<and>
   (ts \<noteq> [] \<and> (\<forall>t \<in> set ts. c \<notin> set t) \<longrightarrow> Split (Join ts [c]) [c] None = ts)"
  using fields_separate [of _ c s] fields_Join [of ts c] Join_Split [of s "[c]" None] by (simp add: Split_fields)

lemma split_is_fields_witness: "Split (Join [[1], [], [2, 3]] [47]) [47] None = [[1], [], [2, 3 :: byte]]"
  using split_is_fields [of "[]" 47 "[[1], [], [2, 3]]"] by simp

section \<open>Printing and parsing\<close>

lemma scheme_length_print:
  assumes "scheme \<noteq> []" "set scheme \<inter> {58, 10, 13} = {}" "host \<noteq> []" "is_host_char (hd host)"
  shows "scheme_length n (scheme @ [58, 47, 47] @ host @ rest) = Some (n + length scheme)"
  using assms(1,2)
proof (induction scheme arbitrary: n)
  case (Cons c scheme)
  obtain h hs where host: "host = h # hs" "is_host_char h" using assms(3,4) by (cases host) auto
  show ?case
  proof (cases scheme)
    case Nil
    then show ?thesis using Cons.prems host by (simp add: authority_at_def)
  next
    case (Cons d ds)
    then have "\<not> authority_at (scheme @ [58, 47, 47] @ host @ rest)" using Cons.prems by (simp add: authority_at_def)
    then show ?thesis using Cons.IH [of "n + 1"] Cons.prems Cons by simp
  qed
qed simp

lemma find_url_print:
  assumes "scheme \<noteq> []" "set scheme \<inter> {58, 10, 13} = {}" "host \<noteq> []" "is_host_char (hd host)"
  shows "find_url (scheme @ [58, 47, 47] @ host @ rest) = Some (scheme, host @ rest)"
  using scheme_length_print [OF assms, of 0 rest] by (subst find_url.simps) simp

lemma digits_value_snoc: "digits_value b (ds @ [d]) = digits_value b ds * b + digit_value d"
  by (simp add: digits_value_def)

lemma decimal_digit:
  assumes "d < 10"
  shows "is_digit (of_nat (48 + d))" "digit_value (of_nat (48 + d)) = d"
proof -
  have "unat (of_nat (48 + d) :: byte) = 48 + d" using assms by (simp only: unat_of_nat) simp
  then show "is_digit (of_nat (48 + d))" "digit_value (of_nat (48 + d)) = d"
    using assms by (simp_all add: is_digit_def digit_value_def word_le_nat_alt)
qed

lemma decimal_digits: "decimal n \<noteq> [] \<and> (\<forall>c \<in> set (decimal n). is_digit c) \<and> digits_value 10 (decimal n) = n"
proof (induction n rule: decimal.induct)
  case (1 n)
  show ?case
  proof (cases "n < 10")
    case True
    then show ?thesis using decimal_digit [of n] by (subst (1 2 3) decimal.simps) (simp add: digits_value_def)
  next
    case False
    then show ?thesis
      using 1 decimal_digit [of "n mod 10"]
      by (subst (1 2 3) decimal.simps) (auto simp: digits_value_snoc)
  qed
qed

definition query_part :: "cstring \<Rightarrow> cstring" where
  "query_part query = (if query = [] then [] else 63 # query)"

text \<open>The parts of a URL that can be written and read again.\<close>

definition url_parts :: "cstring \<Rightarrow> cstring \<Rightarrow> u32 \<Rightarrow> cstring \<Rightarrow> cstring \<Rightarrow> bool" where
  "url_parts scheme host port path query \<longleftrightarrow>
     scheme \<noteq> [] \<and> set scheme \<inter> {58, 10, 13} = {} \<and> host \<noteq> [] \<and> (\<forall>c \<in> set host. is_host_char c) \<and>
     port < 2 ^ 31 \<and> (path = [] \<or> hd path = 47) \<and> 63 \<notin> set path \<and> 63 \<notin> set query"

lemma is_host_char_simps [simp]: "\<not> is_host_char 58" "\<not> is_host_char 47" "is_host_char 63" "\<not> is_digit 47" "\<not> is_digit 63"
  by (simp_all add: is_host_char_def is_digit_def)

lemma takeWhile_stop: "\<forall>c \<in> set xs. P c \<Longrightarrow> ys = [] \<or> \<not> P (hd ys) \<Longrightarrow> takeWhile P (xs @ ys) = xs \<and> dropWhile P (xs @ ys) = ys"
  by (cases ys) (auto simp: takeWhile_append dropWhile_append)

text \<open>What the parser makes of a string whose parts are given, with the port as its digits.\<close>

lemma Url_Parse_parts:
  assumes "scheme \<noteq> []" "set scheme \<inter> {58, 10, 13} = {}" "host \<noteq> []" "\<forall>c \<in> set host. is_host_char c"
    and "\<forall>c \<in> set digits. is_digit c" "digits_value 10 digits < 2 ^ 64" "path = [] \<or> hd path = 47" "63 \<notin> set path" "63 \<notin> set query"
    and "digits = [] \<and> path = [] \<Longrightarrow> query = []"
  shows "\<exists>v. Url_Parse (scheme @ [58, 47, 47] @ host @ (if digits = [] then [] else 58 # digits) @ path @ query_part query) = Inr (Some v) \<and>
    url_scheme v = scheme \<and> url_host v = host \<and> url_port v = of_nat (digits_value 10 digits) \<and> url_path v = path \<and>
    url_query_string v = query \<and> url_has_query_string v = (query \<noteq> [])"
proof -
  define pp where "pp = (if digits = [] then [] else 58 # digits)"
  define s where "s = pp @ path @ query_part query"
  have hd: "is_host_char (hd host)" using assms(3,4) by (cases host) auto
  have f: "find_url (scheme @ [58, 47, 47] @ host @ s) = Some (scheme, host @ s)"
    by (rule find_url_print [OF assms(1-3) hd])
  have "s = [] \<or> \<not> is_host_char (hd s)"
    using assms(7,10) by (cases path) (auto simp: s_def pp_def query_part_def)
  then have h: "takeWhile is_host_char (host @ s) = host" "dropWhile is_host_char (host @ s) = s"
    using takeWhile_stop [OF assms(4)] by auto
  have r: "path @ query_part query = [] \<or> \<not> is_digit (hd (path @ query_part query))"
    using assms(7) by (cases path) (auto simp: query_part_def)
  have d: "(if take 1 s = [58] then takeWhile is_digit (drop 1 s) else []) = digits"
    using assms(5,7) takeWhile_stop [OF assms(5) r] by (cases path) (auto simp: s_def pp_def query_part_def)
  have d2: "(if digits \<noteq> [] then drop (1 + length digits) s else s) = path @ query_part query"
    by (simp add: s_def pp_def)
  have p: "(if take 1 (path @ query_part query) = [47] then takeWhile (\<lambda>c. c \<noteq> 63) (path @ query_part query) else []) = path"
  proof (cases path)
    case (Cons c cs)
    have "query_part query = [] \<or> \<not> hd (query_part query) \<noteq> 63" by (simp add: query_part_def)
    moreover have "\<forall>c \<in> set path. c \<noteq> 63" using assms(8) by blast
    ultimately show ?thesis using takeWhile_stop [of path "\<lambda>c. c \<noteq> 63" "query_part query"] assms(7) Cons by simp
  qed (simp add: query_part_def)
  have q: "take 1 (query_part query) = [63] \<longleftrightarrow> query \<noteq> []" "query \<noteq> [] \<Longrightarrow> takeWhile (\<lambda>c. c \<noteq> 63) (drop 1 (query_part query)) = query"
    using assms(9) by (auto simp: query_part_def takeWhile_eq_all_conv)
  show ?thesis
    unfolding pp_def [symmetric] s_def [symmetric]
    apply (simp only: Url_Parse_def f option.case prod.case Let_def h d d2 p)
    using q assms(6)
    by (simp add: ToUInt32_def url_tokens_def Let_def)
qed

lemma sint_small:
  fixes w :: "32 word"
  assumes "w < 2 ^ 31"
  shows "sint w = uint w"
proof -
  have u: "uint w < 2 ^ 31" using assms by (simp add: word_less_def)
  have "0 \<le> uint w" by simp
  then have l: "- (2 ^ 31) \<le> uint w" by (rule order_trans [rotated]) simp
  have "sint w = signed_take_bit 31 (uint w)" by (simp add: sint_uint)
  then show ?thesis by (simp only: signed_take_bit_int_eq_self [OF l u])
qed

lemma decimal_int_uint: "decimal_int (uint w) = decimal (unat w)"
  by (simp add: decimal_int_def not_less)

lemma ToUrlString_parts:
  assumes "url_port u < 2 ^ 31"
  shows "ToUrlString True u = url_scheme u @ [58, 47, 47] @ url_host u @
    (let digits = (if url_port u = 0 then [] else decimal (unat (url_port u))) in if digits = [] then [] else 58 # digits) @
    url_path u @ query_part (url_query_string u)"
proof -
  have d: "decimal (unat (url_port u)) \<noteq> []" using decimal_digits by blast
  show ?thesis
    unfolding ToUrlString_def sint_small [OF assms] decimal_int_uint query_part_def Let_def
    using d by (cases "url_port u = 0"; cases "url_query_string u") (simp_all add: word_gt_0)
qed


text \<open>
  Without a port and a path the query becomes part of the host: the host of the parsed URL is all that
  follows the scheme, question mark included, and there is no query string.
\<close>

theorem url_query_swallowed:
  assumes "url_parts (url_scheme u) (url_host u) 0 [] (url_query_string u)" "url_port u = 0" "url_path u = []"
    and "url_query_string u \<noteq> []" "\<forall>c \<in> set (url_query_string u). is_host_char c"
  shows "\<exists>v. Url_Parse (ToUrlString True u) = Inr (Some v) \<and> url_host v = url_host u @ [63] @ url_query_string u \<and>
    \<not> url_has_query_string v \<and> url_query_string v = []"
  using Url_Parse_parts [of "url_scheme u" "url_host u @ [63] @ url_query_string u" "[]" "[]" "[]"] assms
  by (auto simp: url_parts_def ToUrlString_def query_part_def digits_value_def)

definition sample_url :: url where
  "sample_url = new_url\<lparr>url_scheme := lit ''rtmp'', url_host := lit ''a.b'', url_port := 1935,
     url_path := lit ''/live/x'', url_query_string := lit ''k=v'', url_has_query_string := True\<rparr>"


lemma url_query_swallowed_witness:
  "\<exists>v. Url_Parse (ToUrlString True (sample_url\<lparr>url_port := 0, url_path := []\<rparr>)) = Inr (Some v) \<and> url_host v = lit ''a.b?k=v''"
  using url_query_swallowed [of "sample_url\<lparr>url_port := 0, url_path := []\<rparr>"]
  by (force simp: sample_url_def new_url_def url_parts_def lit_def is_host_char_def)

section \<open>Query strings\<close>

lemma query_entry_key: "fst (query_entry query) = query_key query"
  by (simp add: query_entry_def query_key_def Let_def)

lemma query_map_keys:
  "foldl (\<lambda>m query. m(fst (query_entry query) \<mapsto> snd (query_entry query))) m qs k \<noteq> None \<longleftrightarrow>
     m k \<noteq> None \<or> k \<in> query_key ` set qs"
  by (induction qs arbitrary: m) (auto simp: query_entry_key)

lemma query_key_Nil [simp]: "query_key [] = []"
  by (simp add: query_key_def Split_def Let_def)

lemma Join_eq_Nil: "Join ts [c] = [] \<longleftrightarrow> ts = [] \<or> ts = [[]]"
  by (cases "(ts, [c])" rule: Join.cases) auto

text \<open>The keys of the map after it was parsed from a list of queries.\<close>

lemma HasQueryKey_Join:
  assumes "url_has_query_string u" "\<not> url_query_parsed u" "url_query_string u = Join qs [38]" "\<forall>q \<in> set qs. 38 \<notin> set q" "k \<noteq> []"
  shows "fst (HasQueryKey k u) \<longleftrightarrow> url_query_map u k \<noteq> None \<or> k \<in> query_key ` set qs"
proof (cases "Join qs [38] = []")
  case True
  then have "k \<notin> query_key ` set qs" using assms(5) by (auto simp: Join_eq_Nil)
  with True assms show ?thesis by (simp add: HasQueryKey_def ParseQueryIfNeeded_def Let_def)
next
  case False
  then have "Split (url_query_string u) [38] None = qs"
    using False assms(3,4) fields_Join [of qs 38] by (cases "qs = []") (simp_all add: Split_fields)
  with False assms show ?thesis
    by (simp add: HasQueryKey_def ParseQueryIfNeeded_def Let_def query_map_keys del: not_None_eq)
qed

text \<open>
  What \<open>RemoveQueryKey\<close> removes. Afterwards a key is found exactly if one of the queries left in the string
  has it, that is one whose key differs from the removed key by more than case, or if it was in the map
  before: the map is never emptied, so a key that was looked up once stays after its removal.
\<close>

theorem remove_query_key:
  assumes "url_has_query_string u" "url_query_string u \<noteq> []" "k \<noteq> []"
  shows "fst (HasQueryKey k (snd (RemoveQueryKey key u))) \<longleftrightarrow>
    url_query_map u k \<noteq> None \<or>
    k \<in> query_key ` set (fields_of 38 (url_query_string u)) \<and> UpperCaseString k \<noteq> UpperCaseString key"
proof -
  define kept where "kept = filter (\<lambda>q. UpperCaseString (query_key q) \<noteq> UpperCaseString key) (fields_of 38 (url_query_string u))"
  have "snd (RemoveQueryKey key u) = u\<lparr>url_query_string := Join kept [38], url_query_parsed := False\<rparr>"
    using assms(1,2) by (simp add: RemoveQueryKey_def kept_def Split_fields Let_def)
  moreover have "\<forall>q \<in> set kept. 38 \<notin> set q" by (auto simp: kept_def dest: fields_separate)
  ultimately have "fst (HasQueryKey k (snd (RemoveQueryKey key u))) \<longleftrightarrow> url_query_map u k \<noteq> None \<or> k \<in> query_key ` set kept"
    using HasQueryKey_Join [of "snd (RemoveQueryKey key u)" kept k] assms(1,3) by simp
  then show ?thesis by (auto simp: kept_def)
qed

lemma remove_query_key_witness:
  "fst (HasQueryKey (lit ''k'') (snd (RemoveQueryKey (lit ''K'') (snd (HasQueryKey (lit ''k'') sample_url))))) \<and>
   \<not> fst (HasQueryKey (lit ''k'') (snd (RemoveQueryKey (lit ''K'') sample_url)))"
proof -
  define v where "v = snd (HasQueryKey (lit ''k'') sample_url)"
  have v: "url_has_query_string v" "url_query_string v \<noteq> []" "url_query_map v (lit ''k'') \<noteq> None"
    by (simp_all add: v_def HasQueryKey_def ParseQueryIfNeeded_def sample_url_def new_url_def lit_def Let_def query_map_keys
        Split_fields query_entry_key query_key_def Split_def split_loop.simps strstr.simps)
  have s: "url_has_query_string sample_url" "url_query_string sample_url \<noteq> []" "url_query_map sample_url = Map.empty"
    by (simp_all add: sample_url_def new_url_def lit_def)
  show ?thesis
    using remove_query_key [OF v(1,2), of "lit ''k''" "lit ''K''"] remove_query_key [OF s(1,2), of "lit ''k''" "lit ''K''"] v(3) s(3)
    unfolding v_def [symmetric] by (simp add: lit_def UpperCaseString_def to_upper_def is_lower_def)
qed

end
