(* ===== verification/Shared_Data.thy ===== *)
theory Shared_Data
  imports Engine_Prelude
begin

text \<open>
  \<open>ov::Data\<close> (\<open>core/data.h\<close>, \<open>core/data.cpp\<close>): byte buffers that share their vectors until one of them is
  written to. The world holds all objects and all vectors; a shared pointer is the number of its vector.
\<close>

section \<open>Objects and vectors\<close>

text \<open>
  \<open>ref_data\<close> is the memory behind \<open>_reference_data\<close>, which the caller keeps; \<open>alloc_data\<close> is
  \<open>_allocated_data\<close>.
\<close>

record data_object =
  ref_data :: "byte list option"
  alloc_data :: "nat option"
  d_offset :: nat
  d_length :: nat

record world =
  w_objects :: "data_object list"
  w_vectors :: "byte list list"

text \<open>The members before a constructor runs.\<close>

definition null_data :: data_object where
  "null_data = \<lparr>ref_data = None, alloc_data = None, d_offset = 0, d_length = 0\<rparr>"

abbreviation object_of :: "nat \<Rightarrow> world \<Rightarrow> data_object" where
  "object_of k w \<equiv> w_objects w ! k"

definition set_object :: "nat \<Rightarrow> data_object \<Rightarrow> world \<Rightarrow> world" where
  "set_object k ob w = w\<lparr>w_objects := (w_objects w)[k := ob]\<rparr>"

definition set_vector :: "nat \<Rightarrow> byte list \<Rightarrow> world \<Rightarrow> world" where
  "set_vector v bytes w = w\<lparr>w_vectors := (w_vectors w)[v := bytes]\<rparr>"

text \<open>\<open>std::make_shared\<close> of a vector, assigned to \<open>_allocated_data\<close>.\<close>

definition make_vector :: "nat \<Rightarrow> byte list \<Rightarrow> world \<Rightarrow> world" where
  "make_vector k bytes w =
     set_object k ((object_of k w)\<lparr>alloc_data := Some (length (w_vectors w))\<rparr>) (w\<lparr>w_vectors := w_vectors w @ [bytes]\<rparr>)"

definition use_count :: "nat \<Rightarrow> world \<Rightarrow> nat" where
  "use_count v w = length (filter (\<lambda>ob. alloc_data ob = Some v) (w_objects w))"

definition add_object :: "data_object \<Rightarrow> world \<Rightarrow> nat \<times> world" where
  "add_object ob w = (length (w_objects w), w\<lparr>w_objects := w_objects w @ [ob]\<rparr>)"

section \<open>Reading\<close>

definition GetLength :: "nat \<Rightarrow> world \<Rightarrow> nat" where
  "GetLength k w = d_length (object_of k w)"

definition Data_IsEmpty :: "nat \<Rightarrow> world \<Rightarrow> bool" where
  "Data_IsEmpty k w \<longleftrightarrow> GetLength k w = 0"

text \<open>The memory \<open>GetData\<close> points to: the offset of an object that only references is not added.\<close>

definition GetData_memory :: "nat \<Rightarrow> world \<Rightarrow> byte list res" where
  "GetData_memory k w =
     (case ref_data (object_of k w) of
        Some mem \<Rightarrow> Inr mem
      | None \<Rightarrow> (case alloc_data (object_of k w) of
                  None \<Rightarrow> Inl Null_Deref
                | Some v \<Rightarrow> if d_offset (object_of k w) \<le> length (w_vectors w ! v)
                            then Inr (drop (d_offset (object_of k w)) (w_vectors w ! v)) else Inl Over_Read))"

text \<open>The bytes a reader of \<open>GetData\<close> and \<open>GetLength\<close> gets.\<close>

definition data_bytes :: "nat \<Rightarrow> world \<Rightarrow> byte list res" where
  "data_bytes k w = bindR (GetData_memory k w) (\<lambda>mem. read_bytes mem 0 (GetLength k w))"

definition At :: "int \<Rightarrow> nat \<Rightarrow> world \<Rightarrow> byte res" where
  "At index k w =
     (if index < 0 \<or> int (GetLength k w) \<le> index then Inr 0
      else bindR (GetData_memory k w) (\<lambda>mem. byte_at mem (nat index)))"

definition IsEqual :: "byte list \<Rightarrow> nat \<Rightarrow> world \<Rightarrow> bool res" where
  "IsEqual bytes k w =
     (if GetLength k w = length bytes then
        if bytes = [] then Inr True else bindR (data_bytes k w) (\<lambda>own. Inr (own = bytes))
      else Inr False)"

section \<open>Detaching\<close>

text \<open>
  The part of \<open>Detach\<close> for an allocated object: it keeps a vector that nobody shares and that has no bytes
  outside the object, and copies its bytes otherwise.
\<close>

definition detach_vector :: "nat \<Rightarrow> world \<Rightarrow> (bool \<times> world) res" where
  "detach_vector k w =
     (case alloc_data (object_of k w) of
        None \<Rightarrow> Inr (False, w)
      | Some v \<Rightarrow>
        if use_count v w = 1 \<and> length (w_vectors w ! v) = GetLength k w then Inr (True, w)
        else bindR (read_bytes (w_vectors w ! v) (d_offset (object_of k w)) (GetLength k w)) (\<lambda>bytes.
          Inr (True, make_vector k bytes (set_object k ((object_of k w)\<lparr>d_offset := 0\<rparr>) w))))"

text \<open>
  \<open>Reserve\<close> and \<open>Insert\<close> over the \<open>Detach\<close> they call; the capacity of a vector has no effect on its bytes.
  What is inserted is read when it is inserted.
\<close>

definition reserve_by :: "(nat \<Rightarrow> world \<Rightarrow> (bool \<times> world) res) \<Rightarrow> nat \<Rightarrow> world \<Rightarrow> (bool \<times> world) res" where
  "reserve_by detach k w =
     (if ref_data (object_of k w) \<noteq> None \<or> alloc_data (object_of k w) \<noteq> None
      then bindR (detach k w) (\<lambda>(ok, w). Inr (ok, w))
      else Inr (True, make_vector k [] w))"

definition vector_insert :: "nat \<Rightarrow> int \<Rightarrow> byte list \<Rightarrow> world \<Rightarrow> world res" where
  "vector_insert k pos source w =
     (case alloc_data (object_of k w) of
        None \<Rightarrow> Inl Null_Deref
      | Some v \<Rightarrow>
        if 0 \<le> pos \<and> pos \<le> int (length (w_vectors w ! v))
        then Inr (set_vector v (take (nat pos) (w_vectors w ! v) @ source @ drop (nat pos) (w_vectors w ! v)) w)
        else Inl Over_Write)"

definition insert_by ::
    "(nat \<Rightarrow> world \<Rightarrow> (bool \<times> world) res) \<Rightarrow> nat \<Rightarrow> byte list res \<Rightarrow> int \<Rightarrow> world \<Rightarrow> (bool \<times> world) res" where
  "insert_by detach k source off w =
     (if int (GetLength k w) < off then Inr (False, w)
      else let off = (if off < 0 then int (GetLength k w) + off else off) in
        bindR (detach k w) (\<lambda>(ok, w).
          if \<not> ok then Inr (False, w)
          else bindR source (\<lambda>source. bindR (vector_insert k (int (d_offset (object_of k w)) + off) source w) (\<lambda>w.
            Inr (True, set_object k ((object_of k w)\<lparr>d_length := d_length (object_of k w) + length source\<rparr>) w)))))"

definition Detach :: "nat \<Rightarrow> world \<Rightarrow> (bool \<times> world) res" where
  "Detach k w =
     (case ref_data (object_of k w) of
        None \<Rightarrow> detach_vector k w
      | Some original_data \<Rightarrow>
        let off = d_offset (object_of k w); len = d_length (object_of k w) in
        bindR (reserve_by detach_vector k
                (set_object k ((object_of k w)\<lparr>ref_data := None, d_offset := 0, d_length := 0\<rparr>) w)) (\<lambda>(ok, w).
          if ok then insert_by detach_vector k (read_bytes original_data off len) (int (GetLength k w)) w
          else Inr (False, w)))"

definition Reserve :: "nat \<Rightarrow> world \<Rightarrow> (bool \<times> world) res" where
  "Reserve k w = reserve_by Detach k w"

section \<open>Writing\<close>

text \<open>\<open>Insert\<close> of the bytes behind a pointer; a null pointer with a length is refused.\<close>

definition Insert :: "nat \<Rightarrow> byte list option \<Rightarrow> nat \<Rightarrow> int \<Rightarrow> world \<Rightarrow> (bool \<times> world) res" where
  "Insert k data len off w =
     (case data of
        None \<Rightarrow> if 0 < len then Inr (False, w) else insert_by Detach k (Inr []) off w
      | Some mem \<Rightarrow> insert_by Detach k (read_bytes mem 0 len) off w)"

definition Append :: "nat \<Rightarrow> byte list option \<Rightarrow> nat \<Rightarrow> world \<Rightarrow> (bool \<times> world) res" where
  "Append k data len w = Insert k data len (int (GetLength k w)) w"

text \<open>
  \<open>Insert\<close> and \<open>Append\<close> of another object. An object that is inserted into itself is read after \<open>Detach\<close>,
  which has freed the vector or will write to it.
\<close>

definition Insert_data :: "nat \<Rightarrow> nat option \<Rightarrow> int \<Rightarrow> world \<Rightarrow> (bool \<times> world) res" where
  "Insert_data k data off w =
     (case data of
        None \<Rightarrow> Inr (False, w)
      | Some j \<Rightarrow> bindR (GetData_memory j w) (\<lambda>mem.
          insert_by Detach k
            (if j = k \<and> ref_data (object_of k w) = None \<and> 0 < GetLength k w then Inl Over_Read
             else read_bytes mem 0 (GetLength j w)) off w))"

definition Append_data :: "nat \<Rightarrow> nat option \<Rightarrow> world \<Rightarrow> (bool \<times> world) res" where
  "Append_data k data w =
     (case data of
        None \<Rightarrow> Inr (False, w)
      | Some j \<Rightarrow> Insert_data k (Some j) (int (GetLength k w)) w)"

definition SetLength :: "nat \<Rightarrow> nat \<Rightarrow> world \<Rightarrow> (bool \<times> world) res" where
  "SetLength len k w =
     bindR (Reserve k w) (\<lambda>(ok, w).
       if \<not> ok then Inr (False, w)
       else case alloc_data (object_of k w) of
              None \<Rightarrow> Inl Null_Deref
            | Some v \<Rightarrow>
              let bytes = w_vectors w ! v in
              Inr (True, set_object k ((object_of k w)\<lparr>d_length := len\<rparr>)
                (set_vector v (take len bytes @ replicate (len - length bytes) 0) w)))"

text \<open>\<open>GetWritableDataAs\<close> followed by a write through the pointer.\<close>

definition write_byte :: "nat \<Rightarrow> byte \<Rightarrow> nat \<Rightarrow> world \<Rightarrow> (bool \<times> world) res" where
  "write_byte index b k w =
     bindR (Detach k w) (\<lambda>(ok, w).
       if \<not> ok then Inr (False, w)
       else case alloc_data (object_of k w) of
              None \<Rightarrow> Inl Null_Deref
            | Some v \<Rightarrow>
              if d_offset (object_of k w) + index < length (w_vectors w ! v)
              then Inr (True, set_vector v ((w_vectors w ! v)[d_offset (object_of k w) + index := b]) w)
              else Inl Over_Write)"

text \<open>
  \<open>Erase\<close>: the end it erases to is \<open>begin + length\<close>, not \<open>begin + offset + length\<close>. Its test of the offset
  only logs. The length is subtracted in \<^verbatim>\<open>size_t\<close>, but a length beyond the vector is refused by no test and
  erases outside of it.
\<close>

definition Erase :: "int \<Rightarrow> nat \<Rightarrow> nat \<Rightarrow> world \<Rightarrow> (bool \<times> world) res" where
  "Erase off len k w =
     bindR (Detach k w) (\<lambda>(ok, w).
       if \<not> ok then Inr (False, w)
       else case alloc_data (object_of k w) of
              None \<Rightarrow> Inl Null_Deref
            | Some v \<Rightarrow>
              if 0 \<le> off \<and> off \<le> int len \<and> len \<le> length (w_vectors w ! v)
              then Inr (True, set_object k ((object_of k w)\<lparr>d_length := d_length (object_of k w) - len\<rparr>)
                (set_vector v (take (nat off) (w_vectors w ! v) @ drop len (w_vectors w ! v)) w))
              else Inl Over_Write)"

definition Clear :: "nat \<Rightarrow> world \<Rightarrow> world" where
  "Clear k w = make_vector k [] (set_object k \<lparr>ref_data = None, alloc_data = None, d_offset = 0, d_length = 0\<rparr> w)"

section \<open>Constructors and parts\<close>

text \<open>\<open>Data(capacity)\<close> and \<open>Data()\<close>; the new object is the last one.\<close>

definition new_data :: "world \<Rightarrow> nat \<times> world" where
  "new_data w = (let (k, w) = add_object null_data w in (k, make_vector k [] w))"

definition new_data_from :: "byte list option \<Rightarrow> nat \<Rightarrow> bool \<Rightarrow> world \<Rightarrow> (nat \<times> world) res" where
  "new_data_from data len reference_only w =
     (let (k, w) = add_object null_data w in
      case data of
        None \<Rightarrow> Inr (k, w)
      | Some mem \<Rightarrow>
        if reference_only then Inr (k, set_object k ((object_of k w)\<lparr>ref_data := Some mem, d_length := len\<rparr>) w)
        else bindR (Reserve k w) (\<lambda>(ok, w).
               bindR (if ok then Append k (Some mem) len w else Inr (ok, w)) (\<lambda>(_, w). Inr (k, w))))"

text \<open>The copy constructor copies the bytes of the other object, and then takes over its offset.\<close>

definition copy_data :: "nat \<Rightarrow> world \<Rightarrow> (nat \<times> world) res" where
  "copy_data j w =
     (let ob = object_of j w; (k, w) = add_object (null_data\<lparr>ref_data := ref_data ob\<rparr>) w in
      bindR (if alloc_data ob \<noteq> None
             then bindR (Append_data k (Some j) (make_vector k [] w)) (\<lambda>(_, w). Inr w)
             else Inr w) (\<lambda>w.
        Inr (k, set_object k ((object_of k w)\<lparr>d_offset := d_offset ob, d_length := d_length ob\<rparr>) w)))"

definition move_data :: "nat \<Rightarrow> world \<Rightarrow> nat \<times> world" where
  "move_data j w = (let (k, w') = add_object (object_of j w) w in (k, set_object j null_data w'))"

definition assign_data :: "nat \<Rightarrow> nat \<Rightarrow> world \<Rightarrow> world" where
  "assign_data k j w = set_object k (object_of j w) w"

text \<open>
  \<open>SubdataInternal\<close>: the check adds in 64 bits without a sign. No value is a null pointer; an object made
  before the check is destroyed again.
\<close>

definition SubdataInternal :: "int \<Rightarrow> u64 \<Rightarrow> nat \<Rightarrow> world \<Rightarrow> nat option \<times> world" where
  "SubdataInternal off len k w =
     (let ob = object_of k w; off = (if off < 0 then int (d_length ob) + off else off) in
      if off < 0 then (None, w)
      else if of_nat (d_length ob) < of_int off + len then (None, w)
      else let (i, w) = new_data w in
        (Some i, set_object i
          ((if ref_data ob \<noteq> None then (object_of i w)\<lparr>ref_data := ref_data ob\<rparr>
            else (object_of i w)\<lparr>alloc_data := alloc_data ob\<rparr>)\<lparr>d_offset := d_offset ob + nat off, d_length := unat len\<rparr>) w))"

definition Subdata :: "int \<Rightarrow> nat \<Rightarrow> world \<Rightarrow> nat option \<times> world" where
  "Subdata off k w =
     SubdataInternal off (if 0 \<le> off then of_nat (GetLength k w) - of_int off else of_int (- off)) k w"

definition Clone :: "nat \<Rightarrow> world \<Rightarrow> nat option \<times> world" where
  "Clone k w = Subdata 0 k w"

end
