(* ===== verification/Simulation.thy ===== *)
theory Simulation
  imports Engine_Prelude
begin

text \<open>
  Refinement of a specification by operations on a state: the contract of one operation, and what it gives for
  sequences of operations.
\<close>

fun run_steps :: "('op \<Rightarrow> 's \<Rightarrow> (bool \<times> 's) res) \<Rightarrow> 'op list \<Rightarrow> 's \<Rightarrow> 's res" where
  "run_steps step [] s = Inr s"
| "run_steps step (op # ops) s = bindR (step op s) (\<lambda>(ok, s). run_steps step ops s)"

text \<open>Every operation of the sequence is allowed in the state it meets.\<close>

fun steps_fit :: "('op \<Rightarrow> 's \<Rightarrow> (bool \<times> 's) res) \<Rightarrow> ('op \<Rightarrow> 's \<Rightarrow> bool) \<Rightarrow> 'op list \<Rightarrow> 's \<Rightarrow> bool" where
  "steps_fit step fits [] s = True"
| "steps_fit step fits (op # ops) s =
     (fits op s \<and> (case step op s of Inl e \<Rightarrow> False | Inr (ok, s') \<Rightarrow> steps_fit step fits ops s'))"

text \<open>
  The contract: from a good state an operation that fits succeeds, keeps the state good, and commutes with the
  abstraction.
\<close>

locale simulation =
  fixes good :: "'s \<Rightarrow> bool"
    and abs :: "'s \<Rightarrow> 'a"
    and step :: "'op \<Rightarrow> 's \<Rightarrow> (bool \<times> 's) res"
    and spec :: "'op \<Rightarrow> 'a \<Rightarrow> 'a"
    and fits :: "'op \<Rightarrow> 's \<Rightarrow> bool"
  assumes commutes: "good s \<Longrightarrow> fits op s \<Longrightarrow> \<exists>s'. step op s = Inr (True, s') \<and> good s' \<and> abs s' = spec op (abs s)"
begin

lemma step_good: "good s \<Longrightarrow> fits op s \<Longrightarrow> step op s = Inr (ok, s') \<Longrightarrow> ok \<and> good s' \<and> abs s' = spec op (abs s)"
  using commutes [of s op] by auto

lemma run_commutes:
  "good s \<Longrightarrow> steps_fit step fits ops s \<Longrightarrow>
   \<exists>s'. run_steps step ops s = Inr s' \<and> good s' \<and> abs s' = fold spec ops (abs s)"
proof (induction ops arbitrary: s)
  case (Cons op ops)
  then obtain s1 where s1: "step op s = Inr (True, s1)" "good s1" "abs s1 = spec op (abs s)"
    using commutes [of s op] by auto
  with Cons.prems(2) have "steps_fit step fits ops s1" by simp
  from Cons.IH [OF s1(2) this] s1 show ?case by auto
qed simp

end

end
