(* ===== verification/Data_Refinement.thy ===== *)
theory Data_Refinement
  imports Shared_Data Simulation
begin

text \<open>
  \<open>ov::Data\<close> against lists: an abstraction that forgets vectors, offsets and references, and a simulation that
  every operation is the list operation on its own object and leaves the others alone.
\<close>

section \<open>The abstraction\<close>

definition visible :: "byte list list \<Rightarrow> data_object \<Rightarrow> byte list" where
  "visible vs ob =
     (case ref_data ob of
        Some mem \<Rightarrow> take (d_length ob) mem
      | None \<Rightarrow> (case alloc_data ob of
                  None \<Rightarrow> []
                | Some v \<Rightarrow> take (d_length ob) (drop (d_offset ob) (vs ! v))))"

definition abs_world :: "world \<Rightarrow> byte list list" where
  "abs_world w = map (visible (w_vectors w)) (w_objects w)"

text \<open>Every object lies within its memory; one that references has no offset, and one without memory is empty.\<close>

definition object_ok :: "byte list list \<Rightarrow> data_object \<Rightarrow> bool" where
  "object_ok vs ob \<longleftrightarrow>
     (\<forall>v. alloc_data ob = Some v \<longrightarrow> v < length vs) \<and>
     (case ref_data ob of
        Some mem \<Rightarrow> d_offset ob = 0 \<and> d_length ob \<le> length mem
      | None \<Rightarrow> (case alloc_data ob of
                  None \<Rightarrow> d_offset ob = 0 \<and> d_length ob = 0
                | Some v \<Rightarrow> d_offset ob + d_length ob \<le> length (vs ! v)))"

definition world_ok :: "world \<Rightarrow> bool" where
  "world_ok w \<longleftrightarrow> list_all (object_ok (w_vectors w)) (w_objects w)"

definition live :: "nat \<Rightarrow> world \<Rightarrow> bool" where
  "live k w \<longleftrightarrow> k < length (w_objects w) \<and> (ref_data (object_of k w) \<noteq> None \<or> alloc_data (object_of k w) \<noteq> None)"

text \<open>An object that owns its vector, of which it shows every byte.\<close>

definition owner :: "nat \<Rightarrow> nat \<Rightarrow> data_object" where
  "owner v n = \<lparr>ref_data = None, alloc_data = Some v, d_offset = 0, d_length = n\<rparr>"

definition owns :: "nat \<Rightarrow> byte list \<Rightarrow> world \<Rightarrow> bool" where
  "owns k bytes w \<longleftrightarrow> k < length (w_objects w) \<and>
     (\<exists>v. object_of k w = owner v (length bytes) \<and>
       v < length (w_vectors w) \<and> w_vectors w ! v = bytes \<and>
       (\<forall>i < length (w_objects w). i \<noteq> k \<longrightarrow> alloc_data (object_of i w) \<noteq> Some v))"

text \<open>What an operation on object \<open>k\<close> may do: give it new bytes, in a vector of its own.\<close>

definition settles :: "nat \<Rightarrow> byte list \<Rightarrow> world \<Rightarrow> world \<Rightarrow> bool" where
  "settles k bytes w w' \<longleftrightarrow> world_ok w' \<and> owns k bytes w' \<and> abs_world w' = (abs_world w)[k := bytes]"

section \<open>Laws of objects and vectors\<close>

lemma owner_simps [simp]:
  "ref_data (owner v n) = None" "alloc_data (owner v n) = Some v" "d_offset (owner v n) = 0" "d_length (owner v n) = n"
  "object_ok vs (owner v n) \<longleftrightarrow> v < length vs \<and> n \<le> length (vs ! v)" "visible vs (owner v n) = take n (vs ! v)"
  by (auto simp: owner_def object_ok_def visible_def)

lemma length_visible: "object_ok vs ob \<Longrightarrow> length (visible vs ob) = d_length ob"
  by (auto simp: object_ok_def visible_def split: option.splits)

lemma object_ok_append: "object_ok vs ob \<Longrightarrow> object_ok (vs @ xs) ob \<and> visible (vs @ xs) ob = visible vs ob"
  by (auto simp: object_ok_def visible_def nth_append split: option.splits)

lemma object_ok_update:
  "object_ok vs ob \<Longrightarrow> alloc_data ob \<noteq> Some v \<Longrightarrow>
   object_ok (vs[v := bytes]) ob \<and> visible (vs[v := bytes]) ob = visible vs ob"
  by (auto simp: object_ok_def visible_def nth_list_update split: option.splits)

lemma length_abs [simp]: "length (abs_world w) = length (w_objects w)"
  by (simp add: abs_world_def)

lemma abs_nth: "k < length (w_objects w) \<Longrightarrow> abs_world w ! k = visible (w_vectors w) (object_of k w)"
  by (simp add: abs_world_def)

lemma world_ok_nth: "world_ok w \<Longrightarrow> k < length (w_objects w) \<Longrightarrow> object_ok (w_vectors w) (object_of k w)"
  by (simp add: world_ok_def list_all_length)

lemma length_abs_nth: "world_ok w \<Longrightarrow> k < length (w_objects w) \<Longrightarrow> length (abs_world w ! k) = GetLength k w"
  by (simp add: abs_nth length_visible world_ok_nth GetLength_def)

lemma owns_alone:
  assumes "use_count v w = 1" "k < length (w_objects w)" "alloc_data (object_of k w) = Some v"
  shows "\<forall>i < length (w_objects w). i \<noteq> k \<longrightarrow> alloc_data (object_of i w) \<noteq> Some v"
proof -
  let ?S = "{i. i < length (w_objects w) \<and> alloc_data (object_of i w) = Some v}"
  have "card ?S = 1" using assms(1) unfolding use_count_def length_filter_conv_card .
  then obtain j where j: "?S = {j}" by (rule card_1_singletonE)
  have "i = j" if "i < length (w_objects w)" "alloc_data (object_of i w) = Some v" for i
  proof -
    have "i \<in> ?S" using that by simp
    then show ?thesis unfolding j by simp
  qed
  then show ?thesis using assms(2,3) by metis
qed

text \<open>A new vector for one object.\<close>

lemma fresh_vector:
  assumes "world_ok w" "k < length (w_objects w)"
  shows "settles k bytes w (w\<lparr>w_objects := (w_objects w)[k := owner (length (w_vectors w)) (length bytes)], w_vectors := w_vectors w @ [bytes]\<rparr>)"
    (is "settles k bytes w ?w")
proof -
  have old: "object_ok (w_vectors w @ [bytes]) (object_of i w)" "visible (w_vectors w @ [bytes]) (object_of i w) = abs_world w ! i"
    "alloc_data (object_of i w) \<noteq> Some (length (w_vectors w))"
    if "i < length (w_objects w)" for i
    using object_ok_append [OF world_ok_nth [OF assms(1) that], of "[bytes]"] abs_nth [OF that]
      world_ok_nth [OF assms(1) that] by (auto simp: object_ok_def)
  have "world_ok ?w"
    using old(1) assms(2) by (auto simp: world_ok_def list_all_length nth_list_update)
  moreover have "owns k bytes ?w"
    using old(3) assms(2) by (auto simp: owns_def nth_list_update)
  moreover have "abs_world ?w = (abs_world w)[k := bytes]"
    using old(2) assms(2) by (intro nth_equalityI) (auto simp: abs_nth nth_list_update)
  ultimately show ?thesis by (simp add: settles_def)
qed

text \<open>New bytes in a vector that is owned.\<close>

lemma owned_update:
  assumes "settles k bytes w w'"
  obtains v where "object_of k w' = owner v (length bytes)"
    "w_vectors w' ! v = bytes" "v < length (w_vectors w')"
    "\<And>bytes'. settles k bytes' w (set_object k (owner v (length bytes'))
       (set_vector v bytes' w'))"
proof -
  obtain v where v: "object_of k w' = owner v (length bytes)"
    "w_vectors w' ! v = bytes" "v < length (w_vectors w')" "k < length (w_objects w')"
    "\<And>i. i < length (w_objects w') \<Longrightarrow> i \<noteq> k \<Longrightarrow> alloc_data (object_of i w') \<noteq> Some v"
    using assms by (auto simp: settles_def owns_def)
  have ok: "world_ok w'" "abs_world w' = (abs_world w)[k := bytes]" using assms by (simp_all add: settles_def)
  have "settles k bytes' w (set_object k (owner v (length bytes'))
     (set_vector v bytes' w'))" (is "settles k bytes' w ?w") for bytes'
  proof -
    have old: "object_ok ((w_vectors w')[v := bytes']) (object_of i w')"
      "visible ((w_vectors w')[v := bytes']) (object_of i w') = abs_world w' ! i"
      if "i < length (w_objects w')" "i \<noteq> k" for i
      using object_ok_update [OF world_ok_nth [OF ok(1) that(1)] v(5) [OF that]] abs_nth [OF that(1)] by auto
    have "world_ok ?w"
      using old(1) v(3,4) by (auto simp: world_ok_def set_object_def set_vector_def list_all_length nth_list_update
         )
    moreover have "owns k bytes' ?w"
      using v by (auto simp: owns_def set_object_def set_vector_def nth_list_update)
    moreover have "abs_world ?w = (abs_world w')[k := bytes']"
      using old(2) v(3,4) by (intro nth_equalityI) (auto simp: abs_nth set_object_def set_vector_def nth_list_update)
    ultimately show ?thesis by (simp add: settles_def ok(2))
  qed
  with v show ?thesis using that by blast
qed

lemma settles_trans:
  "settles k b w w1 \<Longrightarrow> abs_world w = (abs_world w0)[k := c] \<Longrightarrow> settles k b w0 w1"
  "settles k c w0 w \<Longrightarrow> settles k b w w1 \<Longrightarrow> settles k b w0 w1"
  by (auto simp: settles_def)

lemma settles_object:
  assumes "settles k b w w'"
  shows "k < length (w_objects w')" "GetLength k w' = length b" "abs_world w' ! k = b" "world_ok w'" "ref_data (object_of k w') = None"
    "alloc_data (object_of k w') \<noteq> None" "d_offset (object_of k w') = 0" "length (w_objects w') = length (w_objects w)"
proof -
  obtain v where v: "object_of k w' = owner v (length b)" "w_vectors w' ! v = b" and k: "k < length (w_objects w')"
    using assms by (auto simp: settles_def owns_def)
  then show "k < length (w_objects w')" "GetLength k w' = length b" "abs_world w' ! k = b" "ref_data (object_of k w') = None"
    "alloc_data (object_of k w') \<noteq> None" "d_offset (object_of k w') = 0"
    by (simp_all add: GetLength_def abs_nth)
  show "world_ok w'" "length (w_objects w') = length (w_objects w)"
    using assms length_abs [of w'] by (auto simp: settles_def)
qed

lemma make_vector_owner:
  assumes "ref_data (object_of k w) = None" "d_offset (object_of k w) = 0" "d_length (object_of k w) = length b"
  shows "make_vector k b w = w\<lparr>w_objects := (w_objects w)[k := owner (length (w_vectors w)) (length b)],
    w_vectors := w_vectors w @ [b]\<rparr>"
proof -
  have "(object_of k w)\<lparr>alloc_data := Some (length (w_vectors w))\<rparr> = owner (length (w_vectors w)) (length b)"
    using assms by (cases "object_of k w") (simp add: owner_def)
  then show ?thesis by (simp add: make_vector_def set_object_def)
qed

section \<open>Detaching\<close>

lemma detach_vector_settles:
  assumes "world_ok w" "k < length (w_objects w)" "ref_data (object_of k w) = None" "alloc_data (object_of k w) \<noteq> None"
  shows "\<exists>w'. detach_vector k w = Inr (True, w') \<and> settles k (abs_world w ! k) w w'"
proof -
  define ob where "ob = object_of k w"
  obtain v where v: "alloc_data ob = Some v" using assms(4) by (auto simp: ob_def)
  have ok: "v < length (w_vectors w)" "d_offset ob + d_length ob \<le> length (w_vectors w ! v)"
    using world_ok_nth [OF assms(1,2)] assms(3) v by (auto simp: object_ok_def ob_def)
  have a: "abs_world w ! k = take (d_length ob) (drop (d_offset ob) (w_vectors w ! v))"
    using assms(2,3) v by (simp add: abs_nth visible_def ob_def)
  show ?thesis
  proof (cases "use_count v w = 1 \<and> length (w_vectors w ! v) = d_length ob")
    case True
    with ok have "d_offset ob = 0" by simp
    with True a have b: "abs_world w ! k = w_vectors w ! v" "ob = owner v (d_length ob)"
      using v assms(3) by (simp_all add: ob_def owner_def)
    have "owns k (abs_world w ! k) w"
      using owns_alone [of v w k] True b ok(1) assms(2) v unfolding owns_def ob_def [symmetric] by auto
    then have "settles k (abs_world w ! k) w w" using assms(1) by (simp add: settles_def)
    moreover have "detach_vector k w = Inr (True, w)"
      using v True unfolding detach_vector_def ob_def [symmetric] by (simp add: GetLength_def ob_def)
    ultimately show ?thesis by blast
  next
    case False
    let ?b = "abs_world w ! k"
    let ?w = "set_object k ((object_of k w)\<lparr>d_offset := 0\<rparr>) w"
    have "length ?b = d_length ob" using a ok(2) by simp
    then have "make_vector k ?b ?w = ?w\<lparr>w_objects := (w_objects ?w)[k := owner (length (w_vectors ?w)) (length ?b)],
        w_vectors := w_vectors ?w @ [?b]\<rparr>"
      using assms(2,3) by (intro make_vector_owner) (simp_all add: set_object_def ob_def)
    moreover have "detach_vector k w = Inr (True, make_vector k ?b ?w)"
      using v False ok(2) a unfolding detach_vector_def by (auto simp: GetLength_def ob_def)
    ultimately have "detach_vector k w = Inr (True, w\<lparr>w_objects := (w_objects w)[k := owner (length (w_vectors w)) (length ?b)],
        w_vectors := w_vectors w @ [?b]\<rparr>)"
      by (simp add: set_object_def)
    then show ?thesis using fresh_vector [OF assms(1,2)] by blast
  qed
qed

lemma insert_by_settles:
  assumes "detach k w = Inr (True, w1)" "settles k b w w1" "source = Inr s" "GetLength k w = length b"
    and "- int (length b) \<le> off" "off \<le> int (length b)"
  defines "p \<equiv> nat (if off < 0 then int (length b) + off else off)"
  shows "\<exists>w'. insert_by detach k source off w = Inr (True, w') \<and> settles k (take p b @ s @ drop p b) w w'"
proof -
  obtain v where v: "object_of k w1 = owner v (length b)" "w_vectors w1 ! v = b" "v < length (w_vectors w1)"
    "\<And>b'. settles k b' w (set_object k (owner v (length b')) (set_vector v b' w1))"
    using owned_update [OF assms(2)] by metis
  let ?o = "if off < 0 then int (length b) + off else off"
  have p: "0 \<le> ?o" "?o \<le> int (length b)" "nat ?o = p" using assms(5,6) by (auto simp: p_def)
  define b' where "b' = take p b @ s @ drop p b"
  have i: "vector_insert k (int 0 + ?o) s w1 = Inr (set_vector v b' w1)"
    using p by (simp add: vector_insert_def v(1,2) b'_def)
  have "length b' = length b + length s" using p(2,3) by (simp add: b'_def)
  then have "set_object k ((object_of k (set_vector v b' w1))\<lparr>d_length := d_length (object_of k (set_vector v b' w1)) + length s\<rparr>)
      (set_vector v b' w1) = set_object k (owner v (length b')) (set_vector v b' w1)"
    by (simp add: set_vector_def v(1)) (simp add: owner_def)
  then have "insert_by detach k source off w = Inr (True, set_object k (owner v (length b')) (set_vector v b' w1))"
    using assms(1,3,4,6) i unfolding insert_by_def by (simp only: Let_def bindR_Inr split_conv v(1) owner_simps) simp
  then show ?thesis using v(4) [of b'] unfolding b'_def by blast
qed

lemma Detach_settles:
  assumes "world_ok w" "live k w"
  shows "\<exists>w'. Detach k w = Inr (True, w') \<and> settles k (abs_world w ! k) w w'"
proof (cases "ref_data (object_of k w)")
  case None
  then show ?thesis using detach_vector_settles [OF assms(1)] assms(2) by (simp add: Detach_def live_def)
next
  case (Some mem)
  have k: "k < length (w_objects w)" using assms(2) by (simp add: live_def)
  let ?ob = "(object_of k w)\<lparr>ref_data := None, d_offset := 0, d_length := 0\<rparr>"
  define w0 where "w0 = set_object k ?ob w"
  have ob: "object_ok (w_vectors w) (object_of k w)" using world_ok_nth [OF assms(1) k] .
  then have new: "object_ok (w_vectors w) ?ob" "visible (w_vectors w) ?ob = []"
    by (auto simp: object_ok_def visible_def split: option.splits)
  have w0: "k < length (w_objects w0)" "object_of k w0 = ?ob" using k by (simp_all add: w0_def set_object_def)
  have ok0: "world_ok w0" using assms(1) new(1) k
    by (auto simp: w0_def set_object_def world_ok_def list_all_length nth_list_update)
  have abs0: "abs_world w0 = (abs_world w)[k := []]"
    using new(2) k by (simp add: w0_def set_object_def abs_world_def map_update)
  have "\<exists>w1. reserve_by detach_vector k w0 = Inr (True, w1) \<and> settles k [] w0 w1"
  proof (cases "alloc_data (object_of k w0)")
    case None
    then have "reserve_by detach_vector k w0 = Inr (True, w0\<lparr>w_objects := (w_objects w0)[k := owner (length (w_vectors w0)) (length ([] :: byte list))],
        w_vectors := w_vectors w0 @ [[]]\<rparr>)"
      using w0 make_vector_owner [of w0 k "[]"] by (simp add: reserve_by_def)
    then show ?thesis using fresh_vector [OF ok0 w0(1), of "[]"] by blast
  next
    case (Some v)
    then show ?thesis using detach_vector_settles [OF ok0 w0(1)] w0(2) abs0 k by (auto simp: reserve_by_def)
  qed
  then obtain w1 where w1: "reserve_by detach_vector k w0 = Inr (True, w1)" "settles k [] w0 w1" by blast
  note o1 = settles_object [OF w1(2)]
  obtain w2 where w2: "detach_vector k w1 = Inr (True, w2)" "settles k [] w1 w2"
    using detach_vector_settles [OF o1(4,1,5,6)] o1(3) by auto
  have b: "read_bytes mem 0 (d_length (object_of k w)) = Inr (abs_world w ! k)" "d_offset (object_of k w) = 0"
    using ob Some k by (simp_all add: object_ok_def abs_nth visible_def)
  obtain w3 where w3: "insert_by detach_vector k (read_bytes mem 0 (d_length (object_of k w))) 0 w1 = Inr (True, w3)"
    "settles k (abs_world w ! k) w1 w3"
    using insert_by_settles [where detach = detach_vector and k = k and w = w1, OF w2 b(1), of 0] o1(2) by auto
  have "Detach k w = Inr (True, w3)"
    using Some b(2) w1(1) w3(1) o1(2) by (simp add: Detach_def Let_def flip: w0_def)
  moreover have "settles k (abs_world w ! k) w w3"
    using settles_trans(1) [OF settles_trans(2) [OF w1(2) w3(2)] abs0] .
  ultimately show ?thesis by blast
qed

section \<open>Operations on one object\<close>

lemma Insert_settles:
  assumes "world_ok w" "live k w" "off \<le> int (GetLength k w)" "- int (GetLength k w) \<le> off" "source = Inr s"
  defines "p \<equiv> nat (if off < 0 then int (GetLength k w) + off else off)"
  shows "\<exists>w'. insert_by Detach k source off w = Inr (True, w') \<and>
    settles k (take p (abs_world w ! k) @ s @ drop p (abs_world w ! k)) w w'"
proof -
  have len: "GetLength k w = length (abs_world w ! k)"
    using assms(1,2) by (simp add: length_abs_nth live_def)
  obtain w1 where "Detach k w = Inr (True, w1)" "settles k (abs_world w ! k) w w1"
    using Detach_settles [OF assms(1,2)] by blast
  from insert_by_settles [where detach = Detach and k = k and w = w, OF this assms(5) len, of off] show ?thesis
    using assms(3,4) by (simp only: p_def len)
qed

lemma SetLength_settles:
  assumes "world_ok w" "live k w"
  shows "\<exists>w'. SetLength n k w = Inr (True, w') \<and>
    settles k (take n (abs_world w ! k) @ replicate (n - length (abs_world w ! k)) 0) w w'"
proof -
  define b where "b = abs_world w ! k"
  obtain w1 where w1: "Detach k w = Inr (True, w1)" "settles k b w w1"
    using Detach_settles [OF assms] by (auto simp: b_def)
  obtain v where v: "object_of k w1 = owner v (length b)" "w_vectors w1 ! v = b" "v < length (w_vectors w1)"
    "\<And>b'. settles k b' w (set_object k (owner v (length b')) (set_vector v b' w1))"
    using owned_update [OF w1(2)] by metis
  define b' where "b' = take n b @ replicate (n - length b) 0"
  have "length b' = n" by (simp add: b'_def)
  then have "SetLength n k w = Inr (True, set_object k (owner v (length b')) (set_vector v b' w1))"
    using assms(2) w1(1) v(1,2) by (auto simp: SetLength_def Reserve_def reserve_by_def live_def b'_def owner_def)
  then show ?thesis using v(4) [of b'] by (simp add: b'_def b_def)
qed

lemma write_byte_settles:
  assumes "world_ok w" "live k w" "index < GetLength k w"
  shows "\<exists>w'. write_byte index x k w = Inr (True, w') \<and> settles k ((abs_world w ! k)[index := x]) w w'"
proof -
  define b where "b = abs_world w ! k"
  have len: "GetLength k w = length b" using assms(1,2) by (simp add: length_abs_nth live_def b_def)
  obtain w1 where w1: "Detach k w = Inr (True, w1)" "settles k b w w1"
    using Detach_settles [OF assms(1,2)] by (auto simp: b_def)
  obtain v where v: "object_of k w1 = owner v (length b)" "w_vectors w1 ! v = b" "v < length (w_vectors w1)"
    "\<And>b'. settles k b' w (set_object k (owner v (length b')) (set_vector v b' w1))"
    using owned_update [OF w1(2)] by metis
  have "set_object k (owner v (length b)) (set_vector v (b[index := x]) w1) = set_vector v (b[index := x]) w1"
    using v(1) settles_object(1) [OF w1(2)]
    by (metis (no_types, lifting) list_update_id set_object_def set_vector_def surjective update_convs(1,2) select_convs(1,2))
  then have "write_byte index x k w = Inr (True, set_object k (owner v (length (b[index := x]))) (set_vector v (b[index := x]) w1))"
    using w1(1) v(1,2) assms(3) len by (simp add: write_byte_def)
  then show ?thesis using v(4) [of "b[index := x]"] by (simp add: b_def)
qed

lemma Erase_settles:
  assumes "world_ok w" "live k w" "n \<le> GetLength k w"
  shows "\<exists>w'. Erase 0 n k w = Inr (True, w') \<and> settles k (drop n (abs_world w ! k)) w w'"
proof -
  define b where "b = abs_world w ! k"
  have len: "GetLength k w = length b" using assms(1,2) by (simp add: length_abs_nth live_def b_def)
  obtain w1 where w1: "Detach k w = Inr (True, w1)" "settles k b w w1"
    using Detach_settles [OF assms(1,2)] by (auto simp: b_def)
  obtain v where v: "object_of k w1 = owner v (length b)" "w_vectors w1 ! v = b" "v < length (w_vectors w1)"
    "\<And>b'. settles k b' w (set_object k (owner v (length b')) (set_vector v b' w1))"
    using owned_update [OF w1(2)] by metis
  have "Erase 0 n k w = Inr (True, set_object k (owner v (length (drop n b))) (set_vector v (drop n b) w1))"
    using w1(1) v(1,2) assms(3) len by (simp add: Erase_def owner_def)
  then show ?thesis using v(4) [of "drop n b"] by (simp add: b_def)
qed

lemma Clear_settles:
  assumes "world_ok w" "k < length (w_objects w)"
  shows "settles k [] w (Clear k w)"
proof -
  let ?w = "set_object k null_data w"
  have "Clear k w = make_vector k [] ?w" by (simp add: Clear_def null_data_def)
  also have "\<dots> = ?w\<lparr>w_objects := (w_objects ?w)[k := owner (length (w_vectors ?w)) (length ([] :: byte list))],
      w_vectors := w_vectors ?w @ [[]]\<rparr>"
    using assms(2) by (intro make_vector_owner) (simp_all add: set_object_def null_data_def)
  finally show ?thesis
    using fresh_vector [OF assms, of "[]"] by (simp add: set_object_def)
qed

lemma GetData_bytes:
  assumes "world_ok w" "live k w"
  shows "data_bytes k w = Inr (abs_world w ! k)"
    "\<exists>mem. GetData_memory k w = Inr mem \<and> read_bytes mem 0 (GetLength k w) = Inr (abs_world w ! k)"
proof -
  have k: "k < length (w_objects w)" using assms(2) by (simp add: live_def)
  show b: "\<exists>mem. GetData_memory k w = Inr mem \<and> read_bytes mem 0 (GetLength k w) = Inr (abs_world w ! k)"
    using world_ok_nth [OF assms(1) k] assms(2) k
    by (auto simp: GetData_memory_def live_def object_ok_def abs_nth visible_def GetLength_def split: option.splits)
  then show "data_bytes k w = Inr (abs_world w ! k)" by (auto simp: data_bytes_def)
qed

section \<open>New objects\<close>

lemma add_object_world:
  assumes "world_ok w" "object_ok (w_vectors w) ob" "add_object ob w = (k, w')"
  shows "world_ok w'" "abs_world w' = abs_world w @ [visible (w_vectors w) ob]" "k = length (w_objects w)"
    "object_of k w' = ob" "k < length (w_objects w')" "w_vectors w' = w_vectors w" "w_objects w' = w_objects w @ [ob]"
  using assms by (auto simp: add_object_def world_ok_def abs_world_def)

lemma null_data_ok: "object_ok vs null_data" "visible vs null_data = []"
  by (simp_all add: null_data_def object_ok_def visible_def)

lemma new_data_world:
  assumes "world_ok w"
  shows "\<exists>w'. new_data w = (length (w_objects w), w') \<and> world_ok w' \<and> abs_world w' = abs_world w @ [[]] \<and>
    owns (length (w_objects w)) [] w' \<and> (\<forall>i < length (w_objects w). object_of i w' = object_of i w) \<and>
    (\<exists>vs. w_vectors w' = w_vectors w @ vs)"
proof -
  obtain k w1 where w1: "add_object null_data w = (k, w1)" by fastforce
  note a = add_object_world [OF assms null_data_ok(1) w1]
  have m: "make_vector k [] w1 = w1\<lparr>w_objects := (w_objects w1)[k := owner (length (w_vectors w1)) (length ([] :: byte list))],
      w_vectors := w_vectors w1 @ [[]]\<rparr>"
    by (intro make_vector_owner) (simp_all add: a(4) null_data_def)
  have "settles k [] w1 (make_vector k [] w1)" unfolding m using fresh_vector [OF a(1,5)] .
  moreover have "new_data w = (k, make_vector k [] w1)" by (simp add: new_data_def w1)
  moreover have "(abs_world w1)[k := []] = abs_world w @ [[]]" using a(2,3) null_data_ok(2) by (simp add: list_update_append)
  ultimately show ?thesis
    using a(3,7) a(6) m by (auto simp: settles_def nth_append)
qed

text \<open>
  An object made with \<open>new_data\<close> whose members are then assigned: the new vector is dropped and the object
  refers to what the other one refers to.
\<close>

lemma assigned_object:
  assumes "world_ok w" "k < length (w_objects w)" "object_ok (w_vectors w) ob"
  shows "world_ok (set_object k ob w)" "abs_world (set_object k ob w) = (abs_world w)[k := visible (w_vectors w) ob]"
  using assms by (auto simp: world_ok_def set_object_def abs_world_def list_all_length nth_list_update map_update)

lemma word_sum_fits:
  assumes "0 \<le> p" "nat p + unat len \<le> n" "n < 2 ^ 64"
  shows "\<not> of_nat n < (of_int p + len :: u64)"
proof -
  have "of_int p + len = (of_nat (nat p + unat len) :: u64)"
    using assms(1) by (simp add: of_nat_nat)
  moreover have "unat (of_nat (nat p + unat len) :: u64) = nat p + unat len" "unat (of_nat n :: u64) = n"
    using assms(2,3) by (simp_all only: unat_of_nat) simp_all
  ultimately show ?thesis using assms(2) by (simp only: not_less word_le_nat_alt)
qed

lemma SubdataInternal_world:
  assumes "world_ok w" "k < length (w_objects w)" "GetLength k w < 2 ^ 64"
    and "p = (if off < 0 then int (GetLength k w) + off else off)" "0 \<le> p" "nat p + unat len \<le> GetLength k w"
    and "ref_data (object_of k w) = None \<or> p = 0"
  shows "\<exists>w'. SubdataInternal off len k w = (Some (length (w_objects w)), w') \<and> world_ok w' \<and>
    abs_world w' = abs_world w @ [take (unat len) (drop (nat p) (abs_world w ! k))]"
proof -
  let ?ob = "object_of k w" and ?i = "length (w_objects w)"
  obtain w1 vs where w1: "new_data w = (?i, w1)" "world_ok w1" "abs_world w1 = abs_world w @ [[]]" "owns ?i [] w1"
    "w_vectors w1 = w_vectors w @ vs"
    using new_data_world [OF assms(1)] by blast
  define ob where "ob = (if ref_data ?ob \<noteq> None then (object_of ?i w1)\<lparr>ref_data := ref_data ?ob\<rparr>
      else (object_of ?i w1)\<lparr>alloc_data := alloc_data ?ob\<rparr>)\<lparr>d_offset := d_offset ?ob + nat p, d_length := unat len\<rparr>"
  obtain v where v: "object_of ?i w1 = owner v 0" "v < length (w_vectors w1)" "?i < length (w_objects w1)"
    using w1(4) by (auto simp: owns_def owner_def)
  have len: "unat len \<le> d_length ?ob - nat p" "nat p \<le> d_length ?ob" using assms(6) by (simp_all add: GetLength_def)
  have ob: "object_ok (w_vectors w1) ob \<and> visible (w_vectors w1) ob = take (unat len) (drop (nat p) (abs_world w ! k))"
    using world_ok_nth [OF assms(1,2)] abs_nth [OF assms(2)] assms(7) len v(1,2) w1(5)
    by (cases "ref_data ?ob"; cases "alloc_data ?ob")
      (auto simp: ob_def object_ok_def visible_def owner_def drop_take min_def add.commute nth_append)
  have e: "(if off < 0 then int (d_length ?ob) + off else off) = p" using assms(4) by (simp add: GetLength_def)
  have "\<not> of_nat (d_length ?ob) < (of_int p + len :: u64)"
    using word_sum_fits [of p len "d_length ?ob"] assms(3,5,6) by (simp add: GetLength_def)
  then have "SubdataInternal off len k w = (Some ?i, set_object ?i ob w1)"
    using assms(5) w1(1) unfolding SubdataInternal_def Let_def e by (simp add: ob_def)
  moreover have "(abs_world w1)[?i := visible (w_vectors w1) ob] = abs_world w @ [visible (w_vectors w1) ob]"
    by (simp add: w1(3) list_update_append)
  ultimately show ?thesis
    using assigned_object [OF w1(2) v(3), of ob] ob by auto
qed

section \<open>The simulation\<close>

text \<open>Operations on objects by their numbers, and what they are on lists.\<close>

datatype data_op =
    New_Data
  | Copy_Bytes "byte list"
  | Reference_Bytes "byte list"
  | Copy_Data nat
  | Move_Data nat
  | Assign_Data nat nat
  | Take_Subdata nat int nat
  | Clone_Data nat
  | Set_Length nat nat
  | Write_Byte nat nat byte
  | Insert_Bytes nat "byte list" int
  | Append_Bytes nat "byte list"
  | Append_Object nat nat
  | Erase_Front nat nat
  | Clear_Data nat

fun perform :: "data_op \<Rightarrow> world \<Rightarrow> (bool \<times> world) res" where
  "perform New_Data w = Inr (True, snd (new_data w))"
| "perform (Copy_Bytes bs) w = map_sum id (apfst (\<lambda>_. True)) (new_data_from (Some bs) (length bs) False w)"
| "perform (Reference_Bytes bs) w = map_sum id (apfst (\<lambda>_. True)) (new_data_from (Some bs) (length bs) True w)"
| "perform (Copy_Data j) w = map_sum id (apfst (\<lambda>_. True)) (copy_data j w)"
| "perform (Move_Data j) w = Inr (True, snd (move_data j w))"
| "perform (Assign_Data k j) w = Inr (True, assign_data k j w)"
| "perform (Take_Subdata k off len) w = Inr (apfst (\<lambda>i. i \<noteq> None) (SubdataInternal off (of_nat len) k w))"
| "perform (Clone_Data k) w = Inr (apfst (\<lambda>i. i \<noteq> None) (Clone k w))"
| "perform (Set_Length k n) w = SetLength n k w"
| "perform (Write_Byte k i b) w = write_byte i b k w"
| "perform (Insert_Bytes k bs off) w = Insert k (Some bs) (length bs) off w"
| "perform (Append_Bytes k bs) w = Append k (Some bs) (length bs) w"
| "perform (Append_Object k j) w = Append_data k (Some j) w"
| "perform (Erase_Front k n) w = Erase 0 n k w"
| "perform (Clear_Data k) w = Inr (True, Clear k w)"

definition from_end :: "int \<Rightarrow> 'a list \<Rightarrow> int" where
  "from_end off x = (if off < 0 then int (length x) + off else off)"

fun perform_spec :: "data_op \<Rightarrow> byte list list \<Rightarrow> byte list list" where
  "perform_spec New_Data xs = xs @ [[]]"
| "perform_spec (Copy_Bytes bs) xs = xs @ [bs]"
| "perform_spec (Reference_Bytes bs) xs = xs @ [bs]"
| "perform_spec (Copy_Data j) xs = xs @ [xs ! j]"
| "perform_spec (Move_Data j) xs = xs[j := []] @ [xs ! j]"
| "perform_spec (Assign_Data k j) xs = xs[k := xs ! j]"
| "perform_spec (Take_Subdata k off len) xs = xs @ [take len (drop (nat (from_end off (xs ! k))) (xs ! k))]"
| "perform_spec (Clone_Data k) xs = xs @ [xs ! k]"
| "perform_spec (Set_Length k n) xs = xs[k := take n (xs ! k) @ replicate (n - length (xs ! k)) 0]"
| "perform_spec (Write_Byte k i b) xs = xs[k := (xs ! k)[i := b]]"
| "perform_spec (Insert_Bytes k bs off) xs =
     (let p = nat (from_end off (xs ! k)) in xs[k := take p (xs ! k) @ bs @ drop p (xs ! k)])"
| "perform_spec (Append_Bytes k bs) xs = xs[k := xs ! k @ bs]"
| "perform_spec (Append_Object k j) xs = xs[k := xs ! k @ xs ! j]"
| "perform_spec (Erase_Front k n) xs = xs[k := drop n (xs ! k)]"
| "perform_spec (Clear_Data k) xs = xs[k := []]"

text \<open>
  What the simulation asks for: existing objects with memory, and positions within them. A copy must not
  be made from an object with an offset, and a part of an object that references must begin at its start.
\<close>

fun fits :: "data_op \<Rightarrow> world \<Rightarrow> bool" where
  "fits (Copy_Data j) w \<longleftrightarrow> live j w \<and> d_offset (object_of j w) = 0"
| "fits (Move_Data j) w \<longleftrightarrow> j < length (w_objects w)"
| "fits (Assign_Data k j) w \<longleftrightarrow> k < length (w_objects w) \<and> j < length (w_objects w)"
| "fits (Take_Subdata k off len) w \<longleftrightarrow> k < length (w_objects w) \<and> GetLength k w < 2 ^ 64 \<and>
     0 \<le> from_end off (abs_world w ! k) \<and> nat (from_end off (abs_world w ! k)) + len \<le> GetLength k w \<and>
     (ref_data (object_of k w) = None \<or> from_end off (abs_world w ! k) = 0)"
| "fits (Clone_Data k) w \<longleftrightarrow> k < length (w_objects w) \<and> GetLength k w < 2 ^ 64"
| "fits (Set_Length k n) w \<longleftrightarrow> live k w"
| "fits (Write_Byte k i b) w \<longleftrightarrow> live k w \<and> i < GetLength k w"
| "fits (Insert_Bytes k bs off) w \<longleftrightarrow> live k w \<and> - int (GetLength k w) \<le> off \<and> off \<le> int (GetLength k w)"
| "fits (Append_Bytes k bs) w \<longleftrightarrow> live k w"
| "fits (Append_Object k j) w \<longleftrightarrow> live k w \<and> live j w \<and> j \<noteq> k"
| "fits (Erase_Front k n) w \<longleftrightarrow> live k w \<and> n \<le> GetLength k w"
| "fits (Clear_Data k) w \<longleftrightarrow> k < length (w_objects w)"
| "fits _ w \<longleftrightarrow> True"

definition simulates :: "data_op \<Rightarrow> world \<Rightarrow> bool" where
  "simulates op w \<longleftrightarrow> (\<exists>w'. perform op w = Inr (True, w') \<and> world_ok w' \<and> abs_world w' = perform_spec op (abs_world w))"

lemma settles_simulates:
  "\<exists>w'. perform op w = Inr (True, w') \<and> settles k b w w' \<Longrightarrow> perform_spec op (abs_world w) = (abs_world w)[k := b] \<Longrightarrow>
   simulates op w"
  by (auto simp: simulates_def settles_def)

lemma simulates_on_object:
  assumes "world_ok w"
  shows "fits (Set_Length k n) w \<Longrightarrow> simulates (Set_Length k n) w"
    "fits (Write_Byte k i b) w \<Longrightarrow> simulates (Write_Byte k i b) w"
    "fits (Insert_Bytes k bs off) w \<Longrightarrow> simulates (Insert_Bytes k bs off) w"
    "fits (Append_Bytes k bs) w \<Longrightarrow> simulates (Append_Bytes k bs) w"
    "fits (Append_Object k j) w \<Longrightarrow> simulates (Append_Object k j) w"
    "fits (Erase_Front k n) w \<Longrightarrow> simulates (Erase_Front k n) w"
    "fits (Clear_Data k) w \<Longrightarrow> simulates (Clear_Data k) w"
proof -
  have len: "length (abs_world w ! k) = GetLength k w" if "live k w"
    using that length_abs_nth [OF assms] by (simp add: live_def)
  show "fits (Set_Length k n) w \<Longrightarrow> simulates (Set_Length k n) w"
    using SetLength_settles [OF assms] by (intro settles_simulates) auto
  show "fits (Write_Byte k i b) w \<Longrightarrow> simulates (Write_Byte k i b) w"
    using write_byte_settles [OF assms] by (intro settles_simulates) auto
  show "fits (Insert_Bytes k bs off) w \<Longrightarrow> simulates (Insert_Bytes k bs off) w"
    using Insert_settles [OF assms, of k off "Inr bs" bs] len
    by (intro settles_simulates [where k = k]) (auto simp: Insert_def from_end_def Let_def)
  show "fits (Append_Bytes k bs) w \<Longrightarrow> simulates (Append_Bytes k bs) w"
    using Insert_settles [OF assms, of k "int (GetLength k w)" "Inr bs" bs] len
    by (intro settles_simulates [where k = k]) (auto simp: Append_def Insert_def)
  show "fits (Append_Object k j) w \<Longrightarrow> simulates (Append_Object k j) w"
    using Insert_settles [OF assms, of k "int (GetLength k w)" _ "abs_world w ! j"] GetData_bytes(2) [OF assms, of j] len
    by (intro settles_simulates [where k = k]) (auto simp: Append_data_def Insert_data_def)
  show "fits (Erase_Front k n) w \<Longrightarrow> simulates (Erase_Front k n) w"
    using Erase_settles [OF assms] by (intro settles_simulates) auto
  show "fits (Clear_Data k) w \<Longrightarrow> simulates (Clear_Data k) w"
    using Clear_settles [OF assms] by (intro settles_simulates) auto
qed

lemma make_empty_vector:
  assumes "world_ok w" "k < length (w_objects w)" "d_offset (object_of k w) = 0" "d_length (object_of k w) = 0"
  defines "w' \<equiv> make_vector k [] w"
  shows "world_ok w'" "abs_world w' = abs_world w" "live k w'" "length (w_objects w') = length (w_objects w)"
    "GetLength k w' = 0" "\<And>i. i \<noteq> k \<Longrightarrow> object_of i w' = object_of i w"
proof -
  let ?ob = "(object_of k w)\<lparr>alloc_data := Some (length (w_vectors w))\<rparr>"
  let ?w = "w\<lparr>w_vectors := w_vectors w @ [[]]\<rparr>"
  have "object_ok (w_vectors w @ [[]]) ob \<and> visible (w_vectors w @ [[]]) ob = visible (w_vectors w) ob"
    if "ob \<in> set (w_objects w)" for ob
    using object_ok_append assms(1) that by (auto simp: world_ok_def list_all_iff)
  then have "world_ok ?w" "abs_world ?w = abs_world w" by (auto simp: world_ok_def abs_world_def list_all_iff)
  moreover have "object_ok (w_vectors ?w) ?ob" "visible (w_vectors ?w) ?ob = abs_world w ! k"
    using world_ok_nth [OF assms(1,2)] assms(3,4) abs_nth [OF assms(2)]
    by (auto simp: object_ok_def visible_def split: option.splits)
  moreover have "w' = set_object k ?ob ?w" by (simp add: w'_def make_vector_def)
  ultimately show "world_ok w'" "abs_world w' = abs_world w"
    using assigned_object [of ?w k ?ob] assms(2) by simp_all
  show "live k w'" "length (w_objects w') = length (w_objects w)" "GetLength k w' = 0" "\<And>i. i \<noteq> k \<Longrightarrow> object_of i w' = object_of i w"
    using assms(2,4) by (simp_all add: w'_def make_vector_def set_object_def live_def GetLength_def)
qed

lemma appended:
  assumes "world_ok w1" "abs_world w1 = abs_world w @ [[]]" "length (w_objects w1) = Suc (length (w_objects w))"
    and "live (length (w_objects w)) w1" "GetLength (length (w_objects w)) w1 = 0" "source = Inr b"
  shows "\<exists>w'. insert_by Detach (length (w_objects w)) source 0 w1 = Inr (True, w') \<and> world_ok w' \<and>
    abs_world w' = abs_world w @ [b] \<and> d_offset (object_of (length (w_objects w)) w') = 0 \<and>
    d_length (object_of (length (w_objects w)) w') = length b"
proof -
  have "abs_world w1 ! length (w_objects w) = []"
    using assms(3,5) length_abs_nth [OF assms(1), of "length (w_objects w)"] by simp
  then obtain w2 where w2: "insert_by Detach (length (w_objects w)) source 0 w1 = Inr (True, w2)"
    "settles (length (w_objects w)) b w1 w2"
    using Insert_settles [OF assms(1,4), of 0, OF _ _ assms(6)] assms(5) by auto
  have "abs_world w2 = (abs_world w @ [[]])[length (w_objects w) := b]" using w2(2) assms(2) by (simp add: settles_def)
  then show ?thesis
    using w2(1) settles_object [OF w2(2)] by (auto simp: list_update_append GetLength_def)
qed

lemma new_data_from_simulates:
  assumes "world_ok w"
  shows "simulates (Copy_Bytes bs) w" "simulates (Reference_Bytes bs) w"
proof -
  obtain k w1 where w1: "add_object null_data w = (k, w1)" by fastforce
  note a = add_object_world [OF assms null_data_ok(1) w1, unfolded null_data_ok(2)]
  define w2 where "w2 = make_vector k [] w1"
  have z: "d_offset (object_of k w1) = 0" "d_length (object_of k w1) = 0" by (simp_all add: a(4) null_data_def)
  note m = make_empty_vector [OF a(1,5) z, folded w2_def]
  obtain w3 where w3: "insert_by Detach k (Inr bs) 0 w2 = Inr (True, w3)" "world_ok w3" "abs_world w3 = abs_world w @ [bs]"
    using appended [OF m(1), of w "Inr bs" bs] a(2,3,7) m by (auto simp del: length_abs)
  have "new_data_from (Some bs) (length bs) False w = Inr (k, w3)"
  proof -
    have "ref_data (object_of k w1) = None" "alloc_data (object_of k w1) = None" by (simp_all add: a(4) null_data_def)
    then show ?thesis
      using w3(1) m(5) by (simp add: new_data_from_def w1 Reserve_def reserve_by_def Append_def Insert_def flip: w2_def)
  qed
  then show "simulates (Copy_Bytes bs) w" using w3 by (simp add: simulates_def)
  let ?ob = "(object_of k w1)\<lparr>ref_data := Some bs, d_length := length bs\<rparr>"
  have "object_ok (w_vectors w1) ?ob" "visible (w_vectors w1) ?ob = bs"
    by (simp_all add: a(4) null_data_def object_ok_def visible_def)
  from assigned_object [OF a(1,5) this(1)] this(2)
  show "simulates (Reference_Bytes bs) w"
    using a(2,3) by (simp add: simulates_def new_data_from_def w1 list_update_append)
qed

lemma copy_data_simulates:
  assumes "world_ok w" "live j w" "d_offset (object_of j w) = 0"
  shows "simulates (Copy_Data j) w"
proof -
  let ?ob = "object_of j w"
  have j: "j < length (w_objects w)" using assms(2) by (simp add: live_def)
  note ok = world_ok_nth [OF assms(1) j]
  obtain k w1 where w1: "add_object (null_data\<lparr>ref_data := ref_data ?ob\<rparr>) w = (k, w1)" by fastforce
  have n: "object_ok (w_vectors w) (null_data\<lparr>ref_data := ref_data ?ob\<rparr>)" "visible (w_vectors w) (null_data\<lparr>ref_data := ref_data ?ob\<rparr>) = []"
    by (auto simp: null_data_def object_ok_def visible_def split: option.splits)
  note a = add_object_world [OF assms(1) n(1) w1, unfolded n(2)]
  show ?thesis
  proof (cases "alloc_data ?ob")
    case None
    let ?new = "(object_of k w1)\<lparr>d_offset := d_offset ?ob, d_length := d_length ?ob\<rparr>"
    have "object_ok (w_vectors w1) ?new" "visible (w_vectors w1) ?new = abs_world w ! j"
      using ok None assms(2,3) by (auto simp: a(4,6) null_data_def object_ok_def visible_def abs_nth j live_def split: option.splits)
    with assigned_object [OF a(1,5), of ?new] show ?thesis
      using None a(2,3) by (simp add: simulates_def copy_data_def Let_def w1 list_update_append)
  next
    case (Some v)
    define w2 where "w2 = make_vector k [] w1"
    have z: "d_offset (object_of k w1) = 0" "d_length (object_of k w1) = 0" by (simp_all add: a(4) null_data_def)
    note m = make_empty_vector [OF a(1,5) z, folded w2_def]
    have jk: "j \<noteq> k" "j < length (w_objects w2)" "object_of j w2 = ?ob" "abs_world w2 ! j = abs_world w ! j"
      using j a(2,3,7) m(2,4,6) by (auto simp: nth_append)
    then have "live j w2" using assms(2) by (simp add: live_def)
    then obtain mem where mem: "GetData_memory j w2 = Inr mem" "read_bytes mem 0 (GetLength j w2) = Inr (abs_world w ! j)"
      using GetData_bytes(2) [OF m(1), of j] unfolding jk(4) by auto
    obtain w3 where w3: "insert_by Detach k (read_bytes mem 0 (GetLength j w2)) 0 w2 = Inr (True, w3)" "world_ok w3"
      "abs_world w3 = abs_world w @ [abs_world w ! j]" "d_offset (object_of k w3) = 0" "d_length (object_of k w3) = length (abs_world w ! j)"
      using appended [OF m(1), of w _ "abs_world w ! j", OF _ _ _ _ mem(2)] a(2,3,7) m by (auto simp del: length_abs)
    have "length (abs_world w ! j) = d_length ?ob" using length_abs_nth [OF assms(1) j] by (simp add: GetLength_def)
    then have "(object_of k w3)\<lparr>d_offset := d_offset ?ob, d_length := d_length ?ob\<rparr> = object_of k w3"
      using w3(4,5) assms(3) by (cases "object_of k w3") simp
    then have "set_object k ((object_of k w3)\<lparr>d_offset := d_offset ?ob, d_length := d_length ?ob\<rparr>) w3 = w3"
      by (simp add: set_object_def)
    moreover have "Append_data k (Some j) w2 = Inr (True, w3)"
      using w3(1) mem(1) jk(1) m(5) by (simp add: Append_data_def Insert_data_def)
    ultimately show ?thesis
      using Some w3(2,3) by (simp add: simulates_def copy_data_def Let_def w1 flip: w2_def)
  qed
qed

lemma assign_move_simulates:
  assumes "world_ok w" "j < length (w_objects w)"
  shows "k < length (w_objects w) \<Longrightarrow> simulates (Assign_Data k j) w" "simulates (Move_Data j) w"
proof -
  note ok = world_ok_nth [OF assms]
  show "simulates (Assign_Data k j) w" if "k < length (w_objects w)"
    using assigned_object [OF assms(1) that ok] by (simp add: simulates_def assign_data_def abs_nth assms(2))
  obtain k w1 where w1: "add_object (object_of j w) w = (k, w1)" by fastforce
  note a = add_object_world [OF assms(1) ok w1]
  have "j < length (w_objects w1)" using assms(2) a(7) by simp
  from assigned_object [OF a(1) this null_data_ok(1)] show "simulates (Move_Data j) w"
    using a(2) assms(2) by (simp add: simulates_def move_data_def w1 null_data_ok(2) list_update_append abs_nth)
qed

lemma subdata_simulates:
  assumes "world_ok w" "k < length (w_objects w)" "GetLength k w < 2 ^ 64"
  shows "fits (Take_Subdata k off len) w \<Longrightarrow> simulates (Take_Subdata k off len) w" "simulates (Clone_Data k) w"
proof -
  have len: "length (abs_world w ! k) = GetLength k w" using length_abs_nth [OF assms(1,2)] .
  show "simulates (Take_Subdata k off len) w" if f: "fits (Take_Subdata k off len) w"
  proof -
    have "len < 2 ^ 64" using f assms(3) by simp
    then have "unat (of_nat len :: u64) = len" by (simp only: unat_of_nat) simp
    then show ?thesis
      using SubdataInternal_world [OF assms, of "from_end off (abs_world w ! k)" off "of_nat len"] f
      by (auto simp: simulates_def from_end_def len)
  qed
  have "unat (of_nat (GetLength k w) :: u64) = GetLength k w" using assms(3) by (simp only: unat_of_nat) simp
  then show "simulates (Clone_Data k) w"
    using SubdataInternal_world [OF assms, of 0 0 "of_nat (GetLength k w)"] len
    by (auto simp: simulates_def Clone_def Subdata_def)
qed

lemma fits_simulates:
  assumes "world_ok w" "fits op w"
  shows "simulates op w"
proof (cases op)
  case New_Data
  then show ?thesis using new_data_world [OF assms(1)] by (auto simp: simulates_def)
qed (use assms simulates_on_object [OF assms(1)] new_data_from_simulates [OF assms(1)] copy_data_simulates [OF assms(1)]
    assign_move_simulates [OF assms(1)] subdata_simulates [OF assms(1)] in simp_all)

interpretation data: simulation world_ok abs_world perform perform_spec fits
  by unfold_locales (use fits_simulates in \<open>simp add: simulates_def\<close>)


definition sample_world :: world where
  "sample_world = \<lparr>w_objects = [\<lparr>ref_data = None, alloc_data = Some 0, d_offset = 0, d_length = 3\<rparr>,
     \<lparr>ref_data = None, alloc_data = Some 0, d_offset = 1, d_length = 2\<rparr>], w_vectors = [[1, 2, 3]]\<rparr>"


section \<open>Where the code leaves its contract\<close>

text \<open>
  The copy constructor is wrong for a part of another buffer. The copy of an object that begins behind the
  start of its vector has a vector with only the bytes of the part, but takes over the offset: whoever reads
  its bytes reads past the end of the vector.
\<close>

theorem copied_part_overreads:
  assumes "world_ok w" "j < length (w_objects w)" "ref_data (object_of j w) = None" "d_offset (object_of j w) = d"
    and "0 < d" "0 < GetLength j w"
  shows "\<exists>k w'. copy_data j w = Inr (k, w') \<and> data_bytes k w' = Inl Over_Read"
proof -
  let ?ob = "object_of j w"
  obtain v where v: "alloc_data ?ob = Some v"
    using world_ok_nth [OF assms(1,2)] assms(3-5) by (auto simp: object_ok_def split: option.splits)
  obtain k w1 where w1: "add_object (null_data\<lparr>ref_data := ref_data ?ob\<rparr>) w = (k, w1)" by fastforce
  have null: "null_data\<lparr>ref_data := ref_data ?ob\<rparr> = null_data" by (simp add: assms(3) null_data_def)
  note a = add_object_world [OF assms(1) null_data_ok(1) w1 [unfolded null], unfolded null_data_ok(2)]
  define w2 where "w2 = make_vector k [] w1"
  have z: "d_offset (object_of k w1) = 0" "d_length (object_of k w1) = 0" by (simp_all add: a(4) null_data_def)
  note m = make_empty_vector [OF a(1,5) z, folded w2_def]
  have jk: "j \<noteq> k" "j < length (w_objects w2)" "object_of j w2 = ?ob" "abs_world w2 ! j = abs_world w ! j"
    using assms(2) a(2,3,7) m(2,4,6) by (auto simp: nth_append)
  then have "live j w2" using v by (simp add: live_def)
  then obtain mem where mem: "GetData_memory j w2 = Inr mem" "read_bytes mem 0 (GetLength j w2) = Inr (abs_world w ! j)"
    using GetData_bytes(2) [OF m(1), of j] unfolding jk(4) by auto
  have "abs_world w2 ! k = []" using m(2) a(2,3) by (simp add: nth_append)
  then obtain w3 where w3: "insert_by Detach k (read_bytes mem 0 (GetLength j w2)) 0 w2 = Inr (True, w3)"
    "settles k (abs_world w ! j) w2 w3"
    using Insert_settles [OF m(1,3), of 0, OF _ _ mem(2)] m(5) by auto
  obtain u where u: "object_of k w3 = owner u (length (abs_world w ! j))" "w_vectors w3 ! u = abs_world w ! j"
    using owned_update [OF w3(2)] by metis
  have "copy_data j w = Inr (k, set_object k ((object_of k w3)\<lparr>d_offset := d_offset ?ob, d_length := d_length ?ob\<rparr>) w3)"
    using v w1 w3(1) mem(1) jk(1) m(5) by (simp add: copy_data_def Let_def Append_data_def Insert_data_def flip: w2_def)
  moreover have "length (abs_world w ! j) = d_length ?ob" "0 < d_length ?ob"
    using length_abs_nth [OF assms(1,2)] assms(6) by (simp_all add: GetLength_def)
  ultimately show ?thesis
    using u settles_object(1) [OF w3(2)] assms(4,5)
    by (auto simp: data_bytes_def GetData_memory_def set_object_def GetLength_def read_bytes_def owner_def)
qed

lemma copied_part_overreads_witness:
  "\<exists>k w'. copy_data 1 sample_world = Inr (k, w') \<and> data_bytes k w' = Inl Over_Read"
  by (rule copied_part_overreads [where d = 1])
    (simp_all add: sample_world_def world_ok_def object_ok_def GetLength_def)

end
