(* ===== verification/Parse_Codec.thy ===== *)
theory Parse_Codec
  imports Nal_Codec Parse_Step
begin

text \<open>
  Laws of parser steps against the bits they read: a step that reads given bits gives its value and its change of
  the structure wherever the bits begin, and steps in sequence read the bits in sequence.
\<close>

named_theorems reads_intros \<open>the bits that steps read\<close>

definition reads :: "('s, 'a) parse_step \<Rightarrow> bool list \<Rightarrow> 'a \<Rightarrow> ('s \<Rightarrow> 's) \<Rightarrow> bool" where
  "reads m bs v f \<longleftrightarrow>
     (\<forall>r s rest. br_ok r \<longrightarrow> br_rest r = bs @ rest \<longrightarrow> m (r, s) = Inr (Some v, br_skip (length bs) r, f s))"

lemma readsD: "reads m bs v f \<Longrightarrow> br_ok r \<Longrightarrow> br_rest r = bs @ rest \<Longrightarrow> m (r, s) = Inr (Some v, br_skip (length bs) r, f s)"
  by (simp add: reads_def)

lemma reads_ret: "reads (step_ret x) [] x (\<lambda>s. s)"
  by (simp add: reads_def step_ret_def)

lemma reads_ret': "x = y \<Longrightarrow> reads (step_ret x) [] y (\<lambda>s. s)"
  by (simp add: reads_ret)

lemma reads_set: "reads (step_set f) [] () f"
  by (simp add: reads_def step_set_def)

lemma reads_then:
  assumes "reads m bs x f" "reads (g x) cs y h"
  shows "reads (step_then m g) (bs @ cs) y (\<lambda>s. h (f s))"
  unfolding reads_def
proof (intro allI impI)
  fix r s rest assume r: "br_ok r" "br_rest r = (bs @ cs) @ rest"
  then have "br_ok (br_skip (length bs) r)" "br_rest (br_skip (length bs) r) = cs @ rest" by simp_all
  from readsD [OF assms(2) this] readsD [OF assms(1) r(1), of "cs @ rest"] r(2)
  show "step_then m g (r, s) = Inr (Some y, br_skip (length (bs @ cs)) r, h (f s))" by (simp add: step_then_def)
qed

lemma reads_then': "reads m bs x (\<lambda>s. s) \<Longrightarrow> reads (g x) cs y f \<Longrightarrow> reads (step_then m g) (bs @ cs) y f"
  using reads_then [of m bs x "\<lambda>s. s" g cs y f] by simp

lemma reads_then_set: "reads (g ()) bs y h \<Longrightarrow> reads (step_then (step_set f) g) bs y (\<lambda>s. h (f s))"
  using reads_then [OF reads_set, of g bs y h f] by simp

lemma reads_then_end: "reads m bs x f \<Longrightarrow> reads (g x) [] y h \<Longrightarrow> reads (step_then m g) bs y (\<lambda>s. h (f s))"
  using reads_then [of m bs x f g "[]" y h] by simp

lemma reads_change: "reads m bs v f \<Longrightarrow> f = f' \<Longrightarrow> reads m bs v f'"
  by simp

lemma reads_else: "reads b bs v f \<Longrightarrow> reads (if (0 :: byte) \<noteq> 0 then a else b) bs v f"
  by simp

lemma reads_bits:
  assumes "length bs = n" "0 < n" "n \<le> LENGTH('a::len)"
  shows "reads (rd (ReadBits_into n)) bs (bits_value bs :: 'a word) (\<lambda>s. s)"
  using assms by (auto simp: reads_def rd_def ReadBits_in(2))

lemma reads_uev: "n < 2 ^ 32 - 1 \<Longrightarrow> reads (rd ReadUEV) (ue_bits n) (of_nat n) (\<lambda>s. s)"
  by (auto simp: reads_def rd_def ReadUEV_code)

lemma reads_sev: "n < 2 ^ 32 - 1 \<Longrightarrow> reads (rd ReadSEV) (ue_bits n) () (\<lambda>s. s)"
  by (auto simp: reads_def rd_def ReadSEV_def ReadUEV_code)

lemma reads_bit: "reads (rd ReadBit_into) [b] (of_bool b) (\<lambda>s. s)"
  by (auto simp: reads_def rd_def ReadBit_in(1))

lemma reads_skip:
  assumes "length bs = n" "0 < n" "n \<le> 64"
  shows "reads (rd_bool (nal_Skip (of_nat n))) bs () (\<lambda>s. s)"
proof -
  have "(ucast (of_nat n :: u32) :: byte) = of_nat n"
    by (rule bit_word_eqI) (simp add: bit_simps)
  moreover have "unat (of_nat n :: byte) = n" using assms(3) by (simp add: unat_of_nat)
  ultimately have "unat (ucast (of_nat n :: u32) :: byte) = n" by simp
  then show ?thesis
    using assms by (auto simp: reads_def rd_bool_def nal_Skip_def ReadBits_in(2) [where ?'a = 64])
qed

lemma reads_if: "reads m bs () f \<Longrightarrow> reads (step_if c m) (if c then bs else []) () (if c then f else (\<lambda>s. s))"
  by (simp add: step_if_def reads_ret)

lemma reads_repeat:
  "list_all (\<lambda>bs. reads m bs () (\<lambda>s. s)) bss \<Longrightarrow> length bss = n \<Longrightarrow> reads (step_repeat n m) (concat bss) () (\<lambda>s. s)"
proof (induction bss arbitrary: n)
  case Nil
  then show ?case using reads_ret [of "()"] by (simp)
next
  case (Cons bs bss)
  then show ?case by (cases n) (auto intro!: reads_then')
qed

lemma reads_list:
  "list_all2 (\<lambda>bs x. reads m bs x (\<lambda>s. s)) bss xs \<Longrightarrow> reads (step_list (length xs) m) (concat bss) xs (\<lambda>s. s)"
proof (induction bss xs rule: list_all2_induct)
  case Nil
  show ?case using reads_ret [of "[]"] by simp
next
  case (Cons bs bss x xs)
  then have "reads (step_then (step_list (length xs) m) (\<lambda>xs. step_ret (x # xs))) (concat bss @ []) (x # xs) (\<lambda>s. s)"
    by (intro reads_then') (auto intro: reads_ret)
  with Cons show ?case by (auto intro!: reads_then')
qed

text \<open>A step that faults whenever it finds given bits.\<close>

definition faults :: "('s, 'a) parse_step \<Rightarrow> bool list \<Rightarrow> fault \<Rightarrow> bool" where
  "faults m bs e \<longleftrightarrow> (\<forall>r s rest. br_ok r \<longrightarrow> br_rest r = bs @ rest \<longrightarrow> m (r, s) = Inl e)"

lemma faultsD: "faults m bs e \<Longrightarrow> br_ok r \<Longrightarrow> br_rest r = bs @ rest \<Longrightarrow> m (r, s) = Inl e"
  by (simp add: faults_def)

lemma faults_now: "faults (\<lambda>s. Inl e) [] e"
  by (simp add: faults_def)

lemma faults_then:
  assumes "reads m bs x f" "faults (g x) cs e"
  shows "faults (step_then m g) (bs @ cs) e"
  unfolding faults_def
proof (intro allI impI)
  fix r s rest assume r: "br_ok r" "br_rest r = (bs @ cs) @ rest"
  then have "br_ok (br_skip (length bs) r)" "br_rest (br_skip (length bs) r) = cs @ rest" by simp_all
  from faultsD [OF assms(2) this] readsD [OF assms(1) r(1), of "cs @ rest"] r(2)
  show "step_then m g (r, s) = Inl e" by (simp add: step_then_def)
qed

lemma faults_then_end: "reads m bs x f \<Longrightarrow> faults (g x) [] e \<Longrightarrow> faults (step_then m g) bs e"
  using faults_then [of m bs x f g "[]" e] by simp

lemma faults_if: "c \<Longrightarrow> faults a bs e \<Longrightarrow> faults (if c then a else b) bs e"
  by simp

end
