(* ===== verification/H264_Codec.thy ===== *)
theory H264_Codec
  imports H264_Parser Parse_Codec
begin

text \<open>Sequence parameter sets of H.264 through their bits.\<close>

unbundle bit_operations_syntax

lemma reads_ue: "n < 2 ^ 32 - 1 \<Longrightarrow> reads (rd ReadUEV) (ue_bits n) (of_nat n) (\<lambda>s. s)"
  by (rule reads_uev)

lemma reads_drop_ue: "n < 2 ^ 32 - 1 \<Longrightarrow> reads (step_then (rd ReadUEV) (\<lambda>_. step_ret ())) (ue_bits n) () (\<lambda>s. s)"
  by (rule reads_then_end [OF reads_uev reads_ret])

lemma reads_byte: "reads (rd ReadU8) (low_bits 8 (v :: byte)) v (\<lambda>s. s)"
proof -
  have "ReadU8 = ReadBits_into 8" by (rule ext) (simp add: ReadU8_def)
  then show ?thesis
    using reads_bits [of "low_bits 8 v" 8, where ?'a = 8] by (simp add: bits_value_low_bits take_bit_word_eq_self)
qed

lemma reads_skip_byte: "length bs = 8 \<Longrightarrow> reads (rd_bool (\<lambda>r. Inr (SkipBytes 1 r))) bs () (\<lambda>s. s)"
  unfolding reads_def
proof (intro allI impI)
  fix r s rest assume a: "length bs = 8" "br_ok r" "br_rest r = bs @ rest"
  have "8 \<le> length (br_rest r)" by (simp add: a(1,3))
  then have pos: "br_pos r < length (br_data r)" "br_bit r < 8"
    using a(2) by (auto simp: br_rest_def BitsConsumed_def br_ok_def)
  then have "SkipBytes 1 r = (True, br_skip 8 r)"
    by (cases r) (auto simp: SkipBytes_def br_skip_def BitsConsumed_def)
  then show "rd_bool (\<lambda>r. Inr (SkipBytes 1 r)) (r, s) = Inr (Some (), br_skip (length bs) r, s)"
    using a(1) by (simp add: rd_bool_def)
qed

section \<open>The bits of a parameter set\<close>

text \<open>
  The syntax elements of a parameter set without scaling lists and usability information, with the picture order
  of type 0 (\<open>hx_order\<close> has its count) or 2.
\<close>

record h264_syntax =
  hx_ref_idc :: "bool list"
  hx_profile :: byte
  hx_constraints :: "bool list"
  hx_level :: byte
  hx_id :: nat
  hx_chroma :: nat
  hx_plane :: bool
  hx_luma_depth :: nat
  hx_chroma_depth :: nat
  hx_bypass :: bool
  hx_frame_num :: nat
  hx_order :: "nat option"
  hx_references :: nat
  hx_gaps :: bool
  hx_width :: nat
  hx_height :: nat
  hx_frames_only :: bool
  hx_adaptive :: bool
  hx_direct :: bool
  hx_crop :: "(nat \<times> nat \<times> nat \<times> nat) option"

definition has_chroma :: "h264_syntax \<Rightarrow> bool" where
  "has_chroma x \<longleftrightarrow> hx_profile x \<in> {44, 83, 86, 100, 110, 118, 122, 244}"

definition h264_head_bits :: "h264_syntax \<Rightarrow> bool list" where
  "h264_head_bits x =
     ([False] @ hx_ref_idc x @ low_bits 5 (7 :: byte)) @ low_bits 8 (hx_profile x) @ hx_constraints x @ low_bits 8 (hx_level x) @
     ue_bits (hx_id x)"

definition h264_chroma_bits :: "h264_syntax \<Rightarrow> bool list" where
  "h264_chroma_bits x =
     (if has_chroma x then
        ue_bits (hx_chroma x) @ (if hx_chroma x = 3 then [hx_plane x] else []) @ ue_bits (hx_luma_depth x) @
        ue_bits (hx_chroma_depth x) @ [hx_bypass x] @ [False]
      else [])"

definition h264_order_bits :: "h264_syntax \<Rightarrow> bool list" where
  "h264_order_bits x =
     ue_bits (hx_frame_num x) @ ue_bits (case hx_order x of None \<Rightarrow> 2 | Some n \<Rightarrow> 0) @
     (case hx_order x of None \<Rightarrow> [] | Some n \<Rightarrow> ue_bits n) @ ue_bits (hx_references x) @ [hx_gaps x]"

definition h264_size_bits :: "h264_syntax \<Rightarrow> bool list" where
  "h264_size_bits x =
     ue_bits (hx_width x) @ ue_bits (hx_height x) @ [hx_frames_only x] @ (if hx_frames_only x then [] else [hx_adaptive x]) @
     [hx_direct x] @ [hx_crop x \<noteq> None] @
     (case hx_crop x of None \<Rightarrow> [] | Some (l, r, t, b) \<Rightarrow> ue_bits l @ ue_bits r @ ue_bits t @ ue_bits b)"

definition h264_sps_bits :: "h264_syntax \<Rightarrow> bool list" where
  "h264_sps_bits x = h264_head_bits x @ h264_chroma_bits x @ h264_order_bits x @ h264_size_bits x @ [False]"

definition small :: "nat \<Rightarrow> bool" where
  "small n \<longleftrightarrow> n < 2 ^ 32 - 1"

definition h264_syntax_ok :: "h264_syntax \<Rightarrow> bool" where
  "h264_syntax_ok x \<longleftrightarrow>
     length (hx_ref_idc x) = 2 \<and> length (hx_constraints x) = 8 \<and> small (hx_id x) \<and> small (hx_chroma x) \<and>
     small (hx_luma_depth x) \<and> small (hx_chroma_depth x) \<and> small (hx_frame_num x) \<and> small (hx_references x) \<and>
     small (hx_width x) \<and> small (hx_height x) \<and> (case hx_order x of None \<Rightarrow> True | Some n \<Rightarrow> small n) \<and>
     (case hx_crop x of None \<Rightarrow> True | Some (l, r, t, b) \<Rightarrow> small l \<and> small r \<and> small t \<and> small b)"

text \<open>What the parser makes of them: twice the cropping is taken off, whatever the chroma format and the frames.\<close>

definition h264_parsed :: "h264_syntax \<Rightarrow> h264_sps \<Rightarrow> h264_sps" where
  "h264_parsed x sps =
     (let (l, r, t, b) = (case hx_crop x of None \<Rightarrow> (0, 0, 0, 0) | Some c \<Rightarrow> c) in
      sps\<lparr>sps_profile := hx_profile x, sps_codec_level := hx_level x, sps_id := of_nat (hx_id x),
        sps_max_nr_of_reference_frames := of_nat (hx_references x),
        sps_width := (of_nat (hx_width x) + 1) * 16 - 2 * of_nat l - 2 * of_nat r,
        sps_height := (if hx_frames_only x then 1 else 2) * (of_nat (hx_height x) + 1) * 16 - 2 * of_nat t - 2 * of_nat b\<rparr>)"

section \<open>Parsing\<close>

lemma ParseNalUnitHeader_at_bits:
  assumes "length ref = 2" "br_ok r" "br_rest r = [False] @ ref @ low_bits 5 (7 :: byte) @ rest"
  shows "ParseNalUnitHeader_at new_nal_header r = Inr (True, \<lparr>nal_ref_idc = bits_value ref, nal_type = 7\<rparr>, br_skip 8 r)"
proof -
  have 1: "ReadBits_into 1 r = Inr (Some (0 :: byte), br_skip 1 r)"
    using ReadBits_in(2) [of r 1, where ?'a = 8] assms by (simp add: push_bits_def)
  have r1: "br_ok (br_skip 1 r)" "br_rest (br_skip 1 r) = ref @ low_bits 5 (7 :: byte) @ rest" using assms by simp_all
  have 2: "ReadBits_into 2 (br_skip 1 r) = Inr (Some (bits_value ref :: byte), br_skip 3 r)"
    using ReadBits_in(2) [OF r1(1), of 2, where ?'a = 8, unfolded r1(2)] assms by (simp add: numeral_3_eq_3)
  have r2: "br_ok (br_skip 3 r)" "br_rest (br_skip 3 r) = low_bits 5 (7 :: byte) @ rest" using assms by simp_all
  have 3: "ReadBits_into 5 (br_skip 3 r) = Inr (Some (7 :: byte), br_skip 8 r)"
    using ReadBits_in(2) [OF r2(1), of 5, where ?'a = 8, unfolded r2(2)] by (simp add: bits_value_low_bits take_bit_eq_mod)
  show ?thesis
    by (simp add: ParseNalUnitHeader_at_def 1 2 3 new_nal_header_def del: One_nat_def)
qed

lemma reads_h264_header:
  assumes "length ref = 2"
  shows "reads (\<lambda>s. bindR (ParseNalUnitHeader_at new_nal_header (fst s)) (\<lambda>(ok, header, r).
      Inr (if ok \<and> nal_type header = NalType_Sps then Some () else None, r, snd s)))
    ([False] @ ref @ low_bits 5 (7 :: byte)) () (\<lambda>s. s)"
  using ParseNalUnitHeader_at_bits [OF assms] assms by (auto simp: reads_def NalType_Sps_def)

lemma reads_h264_head:
  assumes "h264_syntax_ok x"
  shows "reads ParseSPS_head (h264_head_bits x) ()
    (\<lambda>sps. sps\<lparr>sps_profile := hx_profile x, sps_codec_level := hx_level x, sps_id := of_nat (hx_id x)\<rparr>)"
proof -
  have ok: "length (hx_ref_idc x) = 2" "length (hx_constraints x) = 8" "hx_id x < 2 ^ 32 - 1"
    using assms by (simp_all add: h264_syntax_ok_def small_def)
  show ?thesis
    unfolding ParseSPS_head_def h264_head_bits_def
    by (rule reads_change, (rule reads_then [OF reads_h264_header] ok reads_then_set reads_then reads_then_end reads_byte reads_skip_byte
        reads_ue reads_set)+) simp
qed

lemma reads_h264_order:
  assumes "h264_syntax_ok x"
  shows "reads ParseSPS_order (h264_order_bits x) () (\<lambda>sps. sps\<lparr>sps_max_nr_of_reference_frames := of_nat (hx_references x)\<rparr>)"
proof -
  have ok: "hx_frame_num x < 2 ^ 32 - 1" "(case hx_order x of None \<Rightarrow> 2 | Some n \<Rightarrow> 0) < (2 :: nat) ^ 32 - 1" "hx_references x < 2 ^ 32 - 1"
    using assms by (simp_all add: h264_syntax_ok_def small_def split: option.split)
  have count: "reads (if (of_nat (case hx_order x of None \<Rightarrow> 2 | Some n \<Rightarrow> 0) :: u32) = 0 then step_then (rd ReadUEV) (\<lambda>_. step_ret ())
        else if (of_nat (case hx_order x of None \<Rightarrow> 2 | Some n \<Rightarrow> 0) :: u32) = 1 then m else step_ret ())
      (case hx_order x of None \<Rightarrow> [] | Some n \<Rightarrow> ue_bits n) () (\<lambda>s. s)" for m :: "unit sps_step"
    using assms by (cases "hx_order x") (simp_all add: reads_ret reads_drop_ue h264_syntax_ok_def small_def)
  show ?thesis
    unfolding ParseSPS_order_def h264_order_bits_def
    by (rule reads_change, (rule reads_then_set count reads_then reads_then_end reads_ue reads_bit reads_ret ok)+) simp
qed

lemma reads_skip_bit: "reads (rd_bool (nal_Skip 1)) [b] () (\<lambda>s. s)"
  using reads_skip [of "[b]" 1] by simp

lemma reads_h264_chroma:
  assumes "h264_syntax_ok x" "sps_profile sps = hx_profile x"
  shows "br_ok r \<Longrightarrow> br_rest r = h264_chroma_bits x @ rest \<Longrightarrow>
    ParseSPS_chroma (r, sps) = Inr (Some (), br_skip (length (h264_chroma_bits x)) r, sps)"
proof -
  have ok: "hx_chroma x < 2 ^ 32 - 1" "hx_luma_depth x < 2 ^ 32 - 1" "hx_chroma_depth x < 2 ^ 32 - 1"
    using assms(1) by (simp_all add: h264_syntax_ok_def small_def)
  have c3: "(of_nat (hx_chroma x) :: u32) = 3 \<longleftrightarrow> hx_chroma x = 3"
    using ok(1) by (simp add: word_unat_eq_iff unat_of_nat)
  have skip: "reads (step_if ((of_nat (hx_chroma x) :: u32) = 3) (rd_bool (nal_Skip 1))) (if hx_chroma x = 3 then [hx_plane x] else []) () (\<lambda>s. s)"
    unfolding c3 by (rule reads_change [OF reads_if [OF reads_skip_bit]]) simp
  have matrix: "reads (step_if (of_bool False \<noteq> (0 :: byte)) m) [] () (\<lambda>s. s)" for m :: "unit sps_step"
    by (simp add: step_if_def reads_ret)
  show "ParseSPS_chroma (r, sps) = Inr (Some (), br_skip (length (h264_chroma_bits x)) r, sps)"
    if "br_ok r" "br_rest r = h264_chroma_bits x @ rest"
  proof (cases "has_chroma x")
    case True
    have "reads (step_then (rd ReadUEV) (\<lambda>chroma_format.
        step_then (step_if (chroma_format = 3) (rd_bool (nal_Skip 1))) (\<lambda>_.
        step_then (rd ReadUEV) (\<lambda>luma_bit_depth.
        step_then (rd ReadUEV) (\<lambda>chroma_bit_depth.
        step_then (rd ReadBit_into) (\<lambda>zero_transform_bypass_flag.
        step_then (rd ReadBit_into) (\<lambda>scaling_matrix_present_flag.
        step_if (scaling_matrix_present_flag \<noteq> 0)
          (step_repeat (if chroma_format = 3 then 12 else 8)
            (step_then (rd ReadBit_into) (\<lambda>scaling_list_present_flag.
              if scaling_list_present_flag \<noteq> 0 then step_fail else step_ret ()))))))))))
      (ue_bits (hx_chroma x) @ (if hx_chroma x = 3 then [hx_plane x] else []) @ ue_bits (hx_luma_depth x) @
        ue_bits (hx_chroma_depth x) @ [hx_bypass x] @ [False]) () (\<lambda>s. s :: h264_sps)"
      by (rule reads_change, (rule skip matrix reads_then reads_then_end reads_ue reads_bit ok)+) simp
    from readsD [OF this that(1)] that(2) True assms(2) show ?thesis
      by (simp add: ParseSPS_chroma_def h264_chroma_bits_def step_if_def has_chroma_def)
  next
    case False
    then show ?thesis
      using that assms(2) by (simp add: ParseSPS_chroma_def h264_chroma_bits_def step_if_def has_chroma_def step_ret_def)
  qed
qed

lemma reads_h264_size:
  assumes "h264_syntax_ok x"
  defines "c \<equiv> (case hx_crop x of None \<Rightarrow> (0, 0, 0, 0) | Some c \<Rightarrow> c)"
  shows "reads ParseSPS_size (h264_size_bits x) () (\<lambda>sps. sps\<lparr>
    sps_width := (of_nat (hx_width x) + 1) * 16 - 2 * of_nat (fst c) - 2 * of_nat (fst (snd c)),
    sps_height := (if hx_frames_only x then 1 else 2) * (of_nat (hx_height x) + 1) * 16
      - 2 * of_nat (fst (snd (snd c))) - 2 * of_nat (snd (snd (snd c)))\<rparr>)"
proof -
  have ok: "hx_width x < 2 ^ 32 - 1" "hx_height x < 2 ^ 32 - 1" using assms(1) by (simp_all add: h264_syntax_ok_def small_def)
  have adaptive: "reads (step_if ((of_bool (hx_frames_only x) :: byte) = 0) (step_then (rd ReadBit_into) (\<lambda>_. step_ret ())))
      (if hx_frames_only x then [] else [hx_adaptive x]) () (\<lambda>s. s)"
    using reads_then_end [OF reads_bit reads_ret] by (cases "hx_frames_only x") (simp_all add: step_if_def reads_ret)
  have frames: "(2 :: u32) - ucast (of_bool (hx_frames_only x) :: byte) = (if hx_frames_only x then 1 else 2)" by simp
  have crop: "reads (if (of_bool (hx_crop x \<noteq> None) :: byte) \<noteq> 0 then
          step_then (rd ReadUEV) (\<lambda>crop_left. step_then (rd ReadUEV) (\<lambda>crop_right.
          step_then (rd ReadUEV) (\<lambda>crop_top. step_then (rd ReadUEV) (\<lambda>crop_bottom.
            step_ret (crop_left, crop_right, crop_top, crop_bottom)))))
        else step_ret (0, 0, 0, 0))
      (case hx_crop x of None \<Rightarrow> [] | Some (l, r, t, b) \<Rightarrow> ue_bits l @ ue_bits r @ ue_bits t @ ue_bits b)
      (of_nat (fst c), of_nat (fst (snd c)), of_nat (fst (snd (snd c))), of_nat (snd (snd (snd c)))) (\<lambda>s. s)"
  proof (cases "hx_crop x")
    case None
    then show ?thesis by (simp add: c_def reads_ret)
  next
    case (Some c')
    then obtain l r t b where c': "hx_crop x = Some (l, r, t, b)" by (cases c') auto
    then have n: "l < 2 ^ 32 - 1" "r < 2 ^ 32 - 1" "t < 2 ^ 32 - 1" "b < 2 ^ 32 - 1"
      using assms(1) by (simp_all add: h264_syntax_ok_def small_def)
    have "reads (step_then (rd ReadUEV) (\<lambda>crop_left. step_then (rd ReadUEV) (\<lambda>crop_right.
          step_then (rd ReadUEV) (\<lambda>crop_top. step_then (rd ReadUEV) (\<lambda>crop_bottom.
            step_ret (crop_left, crop_right, crop_top, crop_bottom))))))
      (ue_bits l @ ue_bits r @ ue_bits t @ ue_bits b) (of_nat l, of_nat r, of_nat t, of_nat b) (\<lambda>s. s)"
      by (rule reads_change, (rule reads_then reads_then_end reads_ue reads_ret n)+) simp
    then show ?thesis by (simp add: c_def c')
  qed
  show ?thesis
    unfolding ParseSPS_size_def h264_size_bits_def
    by (rule reads_change, (rule adaptive crop reads_then reads_then_end reads_ue reads_bit reads_set ok | simp only: split_conv)+)
      (simp add: frames)
qed

lemma reads_h264_sps:
  assumes "h264_syntax_ok x" "br_ok r" "br_rest r = h264_sps_bits x @ rest"
  shows "\<exists>r'. step_then ParseSPS_head (\<lambda>_. step_then ParseSPS_chroma (\<lambda>_. step_then ParseSPS_order (\<lambda>_.
    step_then ParseSPS_size (\<lambda>_. ParseSPS_vui)))) (r, sps) = Inr (Some (), r', h264_parsed x sps)"
proof -
  let ?s1 = "sps\<lparr>sps_profile := hx_profile x, sps_codec_level := hx_level x, sps_id := of_nat (hx_id x)\<rparr>"
  define r1 where "r1 = br_skip (length (h264_head_bits x)) r"
  define r2 where "r2 = br_skip (length (h264_chroma_bits x)) r1"
  have r1: "br_ok r1" "br_rest r1 = h264_chroma_bits x @ h264_order_bits x @ h264_size_bits x @ [False] @ rest"
    using assms(2,3) by (simp_all add: r1_def h264_sps_bits_def)
  have r2: "br_ok r2" "br_rest r2 = h264_order_bits x @ h264_size_bits x @ [False] @ rest"
    using r1 by (simp_all add: r2_def)
  have head: "ParseSPS_head (r, sps) = Inr (Some (), r1, ?s1)"
    using readsD [OF reads_h264_head [OF assms(1)] assms(2)] assms(3) by (simp add: r1_def h264_sps_bits_def)
  have chroma: "ParseSPS_chroma (r1, ?s1) = Inr (Some (), r2, ?s1)"
    using reads_h264_chroma [OF assms(1) _ r1] by (simp add: r2_def)
  have vui: "reads ParseSPS_vui [False] () (\<lambda>s. s)"
    unfolding ParseSPS_vui_def by (rule reads_change, rule reads_then_end [OF reads_bit]) (simp_all add: step_if_def reads_ret)
  define c where "c = (case hx_crop x of None \<Rightarrow> (0, 0, 0, 0) | Some c \<Rightarrow> c)"
  have "reads (step_then ParseSPS_order (\<lambda>_. step_then ParseSPS_size (\<lambda>_. ParseSPS_vui)))
      (h264_order_bits x @ h264_size_bits x @ [False]) ()
      (\<lambda>sps. sps\<lparr>sps_max_nr_of_reference_frames := of_nat (hx_references x),
        sps_width := (of_nat (hx_width x) + 1) * 16 - 2 * of_nat (fst c) - 2 * of_nat (fst (snd c)),
        sps_height := (if hx_frames_only x then 1 else 2) * (of_nat (hx_height x) + 1) * 16
          - 2 * of_nat (fst (snd (snd c))) - 2 * of_nat (snd (snd (snd c)))\<rparr>)"
    unfolding c_def
    by (rule reads_change, (rule vui assms(1) reads_then [OF reads_h264_order] reads_then [OF reads_h264_size])+) simp
  from readsD [OF this r2(1), of rest] r2(2)
  have "step_then ParseSPS_order (\<lambda>_. step_then ParseSPS_size (\<lambda>_. ParseSPS_vui)) (r2, ?s1) =
    Inr (Some (), br_skip (length (h264_order_bits x @ h264_size_bits x @ [False])) r2, h264_parsed x sps)"
    by (cases c) (simp add: h264_parsed_def flip: c_def)
  with head chroma show ?thesis by (simp add: step_then_def [of ParseSPS_head] step_then_def [of ParseSPS_chroma])
qed


definition sample_h264_syntax :: h264_syntax where
  "sample_h264_syntax = \<lparr>hx_ref_idc = [True, True], hx_profile = 100, hx_constraints = replicate 8 False, hx_level = 40,
     hx_id = 0, hx_chroma = 1, hx_plane = False, hx_luma_depth = 0, hx_chroma_depth = 0, hx_bypass = False, hx_frame_num = 0,
     hx_order = Some 2, hx_references = 4, hx_gaps = False, hx_width = 119, hx_height = 67, hx_frames_only = True,
     hx_adaptive = False, hx_direct = True, hx_crop = Some (0, 0, 0, 4)\<rparr>"


end
