(* ===== verification/H265_Parser.thy ===== *)
theory H265_Parser
  imports Parse_Step
begin

text \<open>
  The H.265 parser (\<open>media/bitstream/h265/h265_parser.cpp\<close>): NAL unit headers, the search for key frames, and
  sequence parameter sets with their profiles, reference picture sets and usability information.
\<close>

section \<open>NAL unit headers\<close>

definition H265_SPS_NUT :: byte where "H265_SPS_NUT = 33"
definition H265_IDR_W_RADL :: byte where "H265_IDR_W_RADL = 19"
definition H265_CRA_NUT :: byte where "H265_CRA_NUT = 21"
definition H265_BLA_W_RADL :: byte where "H265_BLA_W_RADL = 17"

record h265_nal_header =
  h265_type :: byte
  h265_layer_id :: byte
  h265_temporal_id_plus1 :: byte

text \<open>Flags of one bit, fields of up to 8 bits, and codes; a flag or a field that is read and not used.\<close>

definition flag :: "('s, byte) parse_step" where
  "flag = rd (ReadBits_into 1)"

definition field :: "nat \<Rightarrow> ('s, byte) parse_step" where
  "field n = rd (ReadBits_into n)"

definition uev :: "('s, u32) parse_step" where
  "uev = rd ReadUEV"

definition drop_value :: "('s, 'a) parse_step \<Rightarrow> ('s, unit) parse_step" where
  "drop_value m = step_then m (\<lambda>_. step_ret ())"

definition skip_bits :: "u32 \<Rightarrow> ('s, unit) parse_step" where
  "skip_bits n = rd_bool (nal_Skip n)"

definition h265_header :: "(h265_nal_header, unit) parse_step" where
  "h265_header =
     step_then flag (\<lambda>forbidden_zero_bit.
       if forbidden_zero_bit \<noteq> 0 then step_fail
       else
         step_then (field 6) (\<lambda>v. step_then (step_set (\<lambda>h. h\<lparr>h265_type := v\<rparr>)) (\<lambda>_.
         step_then (field 6) (\<lambda>v. step_then (step_set (\<lambda>h. h\<lparr>h265_layer_id := v\<rparr>)) (\<lambda>_.
         step_then (field 3) (\<lambda>v. step_set (\<lambda>h. h\<lparr>h265_temporal_id_plus1 := v\<rparr>)))))))"

definition h265_ParseNalUnitHeader :: "byte list \<Rightarrow> nat \<Rightarrow> h265_nal_header \<Rightarrow> (bool \<times> h265_nal_header) res" where
  "h265_ParseNalUnitHeader nalu len header =
     bindR (new_nal_parser nalu len) (\<lambda>parser.
       if len < 2 then Inr (False, header)
       else bindR (h265_header (parser, header)) (\<lambda>(ok, _, header). Inr (ok \<noteq> None, header)))"

section \<open>Key frames\<close>

text \<open>
  The type of a header is not initialised, so that \<open>junk\<close> stands for what is there, for each unit, when its
  header is refused; the other two members are 0.
\<close>

function h265_keyframe_loop :: "(nat \<Rightarrow> byte) \<Rightarrow> byte list \<Rightarrow> nat \<Rightarrow> bool res" where
  "h265_keyframe_loop junk bitstream off =
     (if off < length bitstream then
        let data = drop off bitstream in
        if start_code_3 data \<or> start_code_4 data then
          let next = (if data ! 2 = 1 then off + 3 else off + 4) in
          if 2 < length bitstream - next then
            bindR (h265_ParseNalUnitHeader (drop next bitstream) 2
                    \<lparr>h265_type = junk next, h265_layer_id = 0, h265_temporal_id_plus1 = 0\<rparr>) (\<lambda>(_, header).
              if h265_type header \<in> {H265_IDR_W_RADL, H265_CRA_NUT, H265_BLA_W_RADL} then Inr True
              else h265_keyframe_loop junk bitstream next)
          else h265_keyframe_loop junk bitstream next
        else h265_keyframe_loop junk bitstream (off + 1)
      else Inr False)"
  by pat_completeness auto
termination
  by (relation "measure (\<lambda>(junk, bitstream, off). length bitstream - off)") (auto simp: Let_def split: if_splits)

declare h265_keyframe_loop.simps [simp del]

definition h265_CheckKeyframe :: "(nat \<Rightarrow> byte) \<Rightarrow> byte list \<Rightarrow> bool res" where
  "h265_CheckKeyframe junk bitstream = h265_keyframe_loop junk bitstream 0"

section \<open>Sequence parameter sets\<close>

record vui_parameters =
  vui_aspect_width :: u16
  vui_aspect_height :: u16
  vui_aspect_ratio_idc :: byte
  vui_num_units_in_tick :: u32
  vui_time_scale :: u32

definition new_vui :: vui_parameters where
  "new_vui = \<lparr>vui_aspect_width = 0, vui_aspect_height = 0, vui_aspect_ratio_idc = 0, vui_num_units_in_tick = 0,
     vui_time_scale = 0\<rparr>"

record short_term_ref_pic_set =
  inter_ref_pic_set_prediction_flag :: byte
  delta_idx_minus1 :: u32
  delta_rps_sign :: byte
  abs_delta_rps_minus1 :: u32
  used_by_curr_pic_flag :: "byte list"
  use_delta_flag :: "byte list"
  num_negative_pics :: u32
  num_positive_pics :: u32
  delta_poc_s0_minus1 :: "u32 list"
  used_by_curr_pic_s0_flag :: "byte list"
  delta_poc_s1_minus1 :: "u32 list"
  used_by_curr_pic_s1_flag :: "byte list"

definition new_rpset :: short_term_ref_pic_set where
  "new_rpset = \<lparr>inter_ref_pic_set_prediction_flag = 0, delta_idx_minus1 = 0, delta_rps_sign = 0, abs_delta_rps_minus1 = 0,
     used_by_curr_pic_flag = [], use_delta_flag = [], num_negative_pics = 0, num_positive_pics = 0,
     delta_poc_s0_minus1 = [], used_by_curr_pic_s0_flag = [], delta_poc_s1_minus1 = [], used_by_curr_pic_s1_flag = []\<rparr>"

text \<open>The profile and the level are not initialised; the id is, and no parser assigns it.\<close>

record h265_sps =
  h265_width :: u32
  h265_height :: u32
  h265_id :: u32
  h265_profile_idc :: byte
  h265_level_idc :: byte
  h265_vui :: vui_parameters

definition GetFps :: "h265_sps \<Rightarrow> u32 res" where
  "GetFps sps =
     (if vui_num_units_in_tick (h265_vui sps) = 0 then Inl Div_By_Zero
      else Inr (vui_time_scale (h265_vui sps) div vui_num_units_in_tick (h265_vui sps)))"

subsection \<open>Profile, tier and level\<close>

text \<open>The parts for the sub-layers; 88 bits are skipped at once, more than \<open>Skip\<close> can.\<close>

fun skip_sub_layers :: "(byte \<times> byte) list \<Rightarrow> ('s, unit) parse_step" where
  "skip_sub_layers [] = step_ret ()"
| "skip_sub_layers ((profile_present, level_present) # ls) =
     step_then (step_if (profile_present \<noteq> 0) (skip_bits 88)) (\<lambda>_.
     step_then (step_if (level_present \<noteq> 0) (skip_bits 8)) (\<lambda>_. skip_sub_layers ls))"

definition ProcessProfileTierLevel :: "nat \<Rightarrow> ('s, byte \<times> byte) parse_step" where
  "ProcessProfileTierLevel max_sub_layers_minus1 =
     step_then (field 2) (\<lambda>_. step_then flag (\<lambda>_.
     step_then (field 5) (\<lambda>general_profile_idc.
     step_then (skip_bits 32) (\<lambda>_.
     step_then (step_repeat 4 (drop_value flag)) (\<lambda>_.
     step_then (skip_bits 32) (\<lambda>_. step_then (skip_bits 12) (\<lambda>_.
     step_then (field 8) (\<lambda>general_level_idc.
     step_then (step_list max_sub_layers_minus1 (step_then flag (\<lambda>p. step_then flag (\<lambda>l. step_ret (p, l))))) (\<lambda>present.
     step_then (step_if (0 < max_sub_layers_minus1) (step_repeat (8 - max_sub_layers_minus1) (skip_bits 2))) (\<lambda>_.
     step_then (skip_sub_layers present) (\<lambda>_.
     step_ret (general_profile_idc, general_level_idc))))))))))))"

subsection \<open>Reference picture sets\<close>

text \<open>The flags of a predicted set; they are written into vectors that were sized before.\<close>

fun delta_flags :: "nat \<Rightarrow> nat \<Rightarrow> byte list \<Rightarrow> byte list \<Rightarrow> ('s, byte list \<times> byte list) parse_step" where
  "delta_flags 0 i used delta = step_ret (used, delta)"
| "delta_flags (Suc n) i used delta =
     (if length used \<le> i then (\<lambda>s. Inl Over_Write)
      else step_then flag (\<lambda>b.
        let used = used[i := b] in
        if b \<noteq> 0 then delta_flags n (i + 1) used delta
        else if length delta \<le> i then (\<lambda>s. Inl Over_Write)
        else step_then flag (\<lambda>d. delta_flags n (i + 1) used (delta[i := d]))))"

definition num_delta_pocs :: "short_term_ref_pic_set \<Rightarrow> u32" where
  "num_delta_pocs rps =
     (if inter_ref_pic_set_prediction_flag rps \<noteq> 0
      then of_nat (length (filter (\<lambda>i. used_by_curr_pic_flag rps ! i \<noteq> 0 \<or> use_delta_flag rps ! i \<noteq> 0)
             [0..<length (used_by_curr_pic_flag rps)]))
      else num_negative_pics rps + num_positive_pics rps)"

definition vector_resize :: "nat \<Rightarrow> 'a \<Rightarrow> 'a list \<Rightarrow> 'a list" where
  "vector_resize n x xs = take n xs @ replicate (n - length xs) x"

text \<open>
  A set that is predicted from another one. The set is an element of the list it looks the other one up in;
  the index wraps, and nothing compares it with the size of the list.
\<close>

definition predicted_rpset ::
    "u32 \<Rightarrow> short_term_ref_pic_set list \<Rightarrow> short_term_ref_pic_set \<Rightarrow> ('s, short_term_ref_pic_set) parse_step" where
  "predicted_rpset idx rpset_list rpset =
     step_then (if idx = ucast (inter_ref_pic_set_prediction_flag rpset) then uev else step_ret (delta_idx_minus1 rpset))
       (\<lambda>delta_idx.
     step_then flag (\<lambda>sign. step_then uev (\<lambda>abs_delta.
       let rpset = rpset\<lparr>delta_idx_minus1 := delta_idx, delta_rps_sign := sign, abs_delta_rps_minus1 := abs_delta\<rparr>;
           ref_rps_idx = unat (idx - (delta_idx + 1)); rps = rpset_list[unat idx := rpset] in
       if length rps \<le> ref_rps_idx then (\<lambda>s. Inl Over_Read)
       else
         let n = num_delta_pocs (rps ! ref_rps_idx) in
         step_then (delta_flags (unat n) 0 (vector_resize (unat (n + 1)) 0 (used_by_curr_pic_flag rpset))
             (vector_resize (unat (n + 1)) 1 (use_delta_flag rpset))) (\<lambda>(used, delta).
           step_ret (rpset\<lparr>used_by_curr_pic_flag := used, use_delta_flag := delta\<rparr>)))))"

definition poc_entry :: "('s, u32 \<times> byte) parse_step" where
  "poc_entry = step_then uev (\<lambda>delta_poc. step_then flag (\<lambda>used. step_ret (delta_poc, used)))"

definition explicit_rpset :: "short_term_ref_pic_set \<Rightarrow> ('s, short_term_ref_pic_set) parse_step" where
  "explicit_rpset rpset =
     step_then uev (\<lambda>negative. step_then uev (\<lambda>positive.
     step_then (step_list (unat negative) poc_entry) (\<lambda>s0.
     step_then (step_list (unat positive) poc_entry) (\<lambda>s1.
       step_ret (rpset\<lparr>num_negative_pics := negative, num_positive_pics := positive,
         delta_poc_s0_minus1 := map fst s0, used_by_curr_pic_s0_flag := map snd s0,
         delta_poc_s1_minus1 := map fst s1, used_by_curr_pic_s1_flag := map snd s1\<rparr>)))))"

definition ProcessShortTermRefPicSet ::
    "u32 \<Rightarrow> short_term_ref_pic_set list \<Rightarrow> ('s, short_term_ref_pic_set) parse_step" where
  "ProcessShortTermRefPicSet idx rpset_list =
     step_then (if idx \<noteq> 0 then flag else step_ret 0) (\<lambda>prediction_flag.
       let rpset = (rpset_list ! unat idx)\<lparr>inter_ref_pic_set_prediction_flag := prediction_flag, delta_idx_minus1 := 0\<rparr> in
       if prediction_flag = 1 then predicted_rpset idx rpset_list rpset else explicit_rpset rpset)"

text \<open>The loop over the sets: as many as \<open>n\<close> are left, from the index \<open>i\<close>.\<close>

fun ref_pic_sets :: "nat \<Rightarrow> nat \<Rightarrow> short_term_ref_pic_set list \<Rightarrow> ('s, unit) parse_step" where
  "ref_pic_sets 0 i rpset_list = step_ret ()"
| "ref_pic_sets (Suc n) i rpset_list =
     step_then (ProcessShortTermRefPicSet (of_nat i) rpset_list) (\<lambda>rpset. ref_pic_sets n (i + 1) (rpset_list[i := rpset]))"

subsection \<open>Hypothetical reference decoders\<close>

definition ProcessSubLayerHrdParameters :: "byte \<Rightarrow> u32 \<Rightarrow> ('s, unit) parse_step" where
  "ProcessSubLayerHrdParameters sub_pic_hrd_params_present_flag cpb_cnt =
     step_repeat (unat cpb_cnt + 1)
       (step_then (drop_value uev) (\<lambda>_. step_then (drop_value uev) (\<lambda>_.
        step_then (step_if (sub_pic_hrd_params_present_flag = 1)
          (step_then (drop_value uev) (\<lambda>_. drop_value uev))) (\<lambda>_. drop_value flag))))"

text \<open>The result of a part is not looked at, so that the parser goes on where a failed part stopped.\<close>

definition ignoring :: "('s, unit) parse_step \<Rightarrow> ('s, unit) parse_step" where
  "ignoring m s = bindR (m s) (\<lambda>(_, s). Inr (Some (), s))"

definition hrd_sub_layer :: "byte \<Rightarrow> byte \<Rightarrow> byte \<Rightarrow> ('s, unit) parse_step" where
  "hrd_sub_layer nal_hrd vcl_hrd sub_pic =
     step_then flag (\<lambda>fixed_pic_rate_general_flag.
     step_then (if fixed_pic_rate_general_flag = 1 then step_ret 1 else flag) (\<lambda>fixed_pic_rate_within_cvs_flag.
     step_then (if fixed_pic_rate_within_cvs_flag = 1 then step_then uev (\<lambda>_. step_ret 0) else flag) (\<lambda>low_delay_hrd_flag.
     step_then (if low_delay_hrd_flag = 1 then uev else step_ret 0) (\<lambda>cpb_cnt_minus1.
     step_then (step_if (nal_hrd = 1) (ignoring (ProcessSubLayerHrdParameters sub_pic cpb_cnt_minus1))) (\<lambda>_.
     step_if (vcl_hrd = 1) (ignoring (ProcessSubLayerHrdParameters sub_pic cpb_cnt_minus1)))))))"

definition ProcessHrdParameters :: "byte \<Rightarrow> nat \<Rightarrow> ('s, unit) parse_step" where
  "ProcessHrdParameters common_inf_present_flag max_sub_layers_minus1 =
     step_then
       (if common_inf_present_flag = 1 then
          step_then flag (\<lambda>nal_hrd. step_then flag (\<lambda>vcl_hrd.
            if nal_hrd = 1 \<or> vcl_hrd = 1 then
              step_then flag (\<lambda>sub_pic.
              step_then (step_if (sub_pic = 1)
                (step_then (drop_value (field 8)) (\<lambda>_. step_then (drop_value (field 5)) (\<lambda>_.
                 step_then (drop_value flag) (\<lambda>_. drop_value (field 5)))))) (\<lambda>_.
              step_then (step_repeat 2 (drop_value (field 4))) (\<lambda>_.
              step_then (step_if (sub_pic = 1) (drop_value (field 4))) (\<lambda>_.
              step_then (step_repeat 3 (drop_value (field 5))) (\<lambda>_. step_ret (nal_hrd, vcl_hrd, sub_pic))))))
            else step_ret (nal_hrd, vcl_hrd, 0)))
        else step_ret (0, 0, 0)) (\<lambda>(nal_hrd, vcl_hrd, sub_pic).
     step_repeat (max_sub_layers_minus1 + 1) (hrd_sub_layer nal_hrd vcl_hrd sub_pic))"

subsection \<open>Video usability information\<close>

definition when_flag :: "('s, unit) parse_step \<Rightarrow> ('s, unit) parse_step" where
  "when_flag m = step_then flag (\<lambda>b. step_if (b = 1) m)"

definition vui_aspect :: "(vui_parameters, unit) parse_step" where
  "vui_aspect =
     when_flag
       (step_then (field 8) (\<lambda>aspect_ratio_idc.
        step_then (step_set (\<lambda>v. v\<lparr>vui_aspect_ratio_idc := aspect_ratio_idc\<rparr>)) (\<lambda>_.
        step_if (aspect_ratio_idc = 255)
          (step_then (rd (ReadBits_into 16)) (\<lambda>w. step_then (rd (ReadBits_into 16)) (\<lambda>h.
             step_set (\<lambda>v. v\<lparr>vui_aspect_width := w, vui_aspect_height := h\<rparr>)))))))"

definition vui_signal :: "(vui_parameters, unit) parse_step" where
  "vui_signal =
     step_then (when_flag (drop_value flag)) (\<lambda>_.
     step_then
       (when_flag
         (step_then (drop_value (field 3)) (\<lambda>_. step_then (drop_value flag) (\<lambda>_.
          when_flag (step_repeat 3 (drop_value (field 8))))))) (\<lambda>_.
     step_then (when_flag (step_repeat 2 (drop_value uev))) (\<lambda>_.
     step_then (step_repeat 3 (drop_value flag)) (\<lambda>_.
     when_flag (step_repeat 4 (drop_value uev))))))"

definition vui_timing :: "nat \<Rightarrow> (vui_parameters, unit) parse_step" where
  "vui_timing sps_max_sub_layers_minus1 =
     when_flag
       (step_then (rd (ReadBits_into 32)) (\<lambda>ticks. step_then (step_set (\<lambda>v. v\<lparr>vui_num_units_in_tick := ticks\<rparr>)) (\<lambda>_.
        step_then (rd (ReadBits_into 32)) (\<lambda>scale. step_then (step_set (\<lambda>v. v\<lparr>vui_time_scale := scale\<rparr>)) (\<lambda>_.
        step_then (when_flag (drop_value uev)) (\<lambda>_.
        when_flag (ProcessHrdParameters 1 sps_max_sub_layers_minus1)))))))"

definition vui_restriction :: "(vui_parameters, unit) parse_step" where
  "vui_restriction = when_flag (step_then (step_repeat 3 (drop_value flag)) (\<lambda>_. step_repeat 5 (drop_value uev)))"

definition ProcessVuiParameters :: "nat \<Rightarrow> (vui_parameters, unit) parse_step" where
  "ProcessVuiParameters sps_max_sub_layers_minus1 =
     step_then vui_aspect (\<lambda>_. step_then vui_signal (\<lambda>_.
     step_then (vui_timing sps_max_sub_layers_minus1) (\<lambda>_. vui_restriction)))"

subsection \<open>The parameter set\<close>

type_synonym 'a h265_step = "(h265_sps, 'a) parse_step"

text \<open>A step on parameters of their own, which are assigned when it succeeds.\<close>

definition assigning_vui :: "(vui_parameters, unit) parse_step \<Rightarrow> unit h265_step" where
  "assigning_vui m s =
     bindR (m (fst s, new_vui)) (\<lambda>(ok, r, v).
       Inr (ok, r, if ok \<noteq> None then (snd s)\<lparr>h265_vui := v\<rparr> else snd s))"

definition sps_head :: "nat h265_step" where
  "sps_head =
     step_then (\<lambda>s. bindR (h265_header (fst s, \<lparr>h265_type = 0, h265_layer_id = 0, h265_temporal_id_plus1 = 0\<rparr>)) (\<lambda>(ok, r, h).
       Inr (if ok \<noteq> None \<and> h265_type h = H265_SPS_NUT then Some () else None, r, snd s))) (\<lambda>_.
     step_then (field 4) (\<lambda>_. step_then (field 3) (\<lambda>max_sub_layers_minus1. step_then flag (\<lambda>_.
     step_then (ProcessProfileTierLevel (unat max_sub_layers_minus1)) (\<lambda>(profile, level).
     step_then (step_set (\<lambda>sps. sps\<lparr>h265_profile_idc := profile, h265_level_idc := level\<rparr>)) (\<lambda>_.
     step_then (drop_value uev) (\<lambda>_. step_ret (unat max_sub_layers_minus1))))))))"

definition sps_size :: "unit h265_step" where
  "sps_size =
     step_then uev (\<lambda>chroma_format_idc.
     step_then (step_if (chroma_format_idc = 3) (drop_value flag)) (\<lambda>_.
     step_then uev (\<lambda>w. step_then (step_set (\<lambda>sps. sps\<lparr>h265_width := w\<rparr>)) (\<lambda>_.
     step_then uev (\<lambda>h. step_then (step_set (\<lambda>sps. sps\<lparr>h265_height := h\<rparr>)) (\<lambda>_.
     step_then flag (\<lambda>conformance_window_flag.
     step_if (conformance_window_flag \<noteq> 0) (step_repeat 4 (drop_value uev)))))))))"

text \<open>The depths, the order information and the coding block sizes; the result is the logarithm of the order count.\<close>

definition sps_coding :: "nat \<Rightarrow> u32 h265_step" where
  "sps_coding max_sub_layers_minus1 =
     step_then (step_repeat 2 (drop_value uev)) (\<lambda>_.
     step_then uev (\<lambda>log2_max_pic_order_cnt_lsb_minus4.
     step_then flag (\<lambda>sub_layer_ordering_info_present_flag.
     step_then (step_repeat (if sub_layer_ordering_info_present_flag \<noteq> 0 then max_sub_layers_minus1 + 1 else 1)
         (step_repeat 3 (drop_value uev))) (\<lambda>_.
     step_then (step_repeat 6 (drop_value uev)) (\<lambda>_. step_ret log2_max_pic_order_cnt_lsb_minus4)))))"

text \<open>
  The scaling lists: four sizes, with six matrices each and two for the last. The coefficients are in the block
  of the DC coefficient, so that those of the two small sizes are not read.
\<close>

definition scaling_list :: "nat \<Rightarrow> ('s, unit) parse_step" where
  "scaling_list i =
     step_then flag (\<lambda>scaling_list_pred_mode_flag.
       if scaling_list_pred_mode_flag = 0 then drop_value uev
       else step_if (1 < i) (step_then (rd ReadSEV) (\<lambda>_. step_repeat (min 64 (2 ^ (4 + 2 * i))) (rd ReadSEV))))"

fun each_step :: "('s, unit) parse_step list \<Rightarrow> ('s, unit) parse_step" where
  "each_step [] = step_ret ()"
| "each_step (m # ms) = step_then m (\<lambda>_. each_step ms)"

definition sps_scaling :: "unit h265_step" where
  "sps_scaling =
     when_flag (when_flag (each_step (map (\<lambda>i. step_repeat (if i = 3 then 2 else 6) (scaling_list i)) [0..<4])))"

definition sps_pcm :: "unit h265_step" where
  "sps_pcm =
     step_then (step_repeat 2 (drop_value flag)) (\<lambda>_.
     when_flag (step_then (step_repeat 2 (drop_value (field 4))) (\<lambda>_.
       step_then (step_repeat 2 (drop_value uev)) (\<lambda>_. drop_value flag))))"

text \<open>The vector of the sets is as long as the bits say; that there is memory for it is assumed.\<close>

definition sps_references :: "u32 \<Rightarrow> unit h265_step" where
  "sps_references log2_max_pic_order_cnt_lsb_minus4 =
     step_then uev (\<lambda>num_short_term_ref_pic_sets.
     step_then (ref_pic_sets (unat num_short_term_ref_pic_sets) 0 (replicate (unat num_short_term_ref_pic_sets) new_rpset)) (\<lambda>_.
     when_flag
       (step_then uev (\<lambda>num_long_term_ref_pics_sps.
        step_repeat (unat num_long_term_ref_pics_sps)
          (step_then (rd (\<lambda>r. ReadBits_into (unat (ucast (log2_max_pic_order_cnt_lsb_minus4 + 4) :: byte)) r
              :: (u32 option \<times> bit_reader) res)) (\<lambda>_. drop_value flag))))))"

definition h265_ParseSPS_at :: "unit h265_step" where
  "h265_ParseSPS_at =
     step_then sps_head (\<lambda>max_sub_layers_minus1. step_then sps_size (\<lambda>_.
     step_then (sps_coding max_sub_layers_minus1) (\<lambda>log2_max_pic_order_cnt_lsb_minus4.
     step_then sps_scaling (\<lambda>_. step_then sps_pcm (\<lambda>_.
     step_then (sps_references log2_max_pic_order_cnt_lsb_minus4) (\<lambda>_.
     step_then (step_repeat 2 (drop_value flag)) (\<lambda>_.
     step_then (when_flag (assigning_vui (ProcessVuiParameters max_sub_layers_minus1))) (\<lambda>_. drop_value flag))))))))"

definition h265_ParseSPS :: "byte list \<Rightarrow> nat \<Rightarrow> h265_sps \<Rightarrow> (bool \<times> h265_sps) res" where
  "h265_ParseSPS nalu len sps =
     bindR (new_nal_parser nalu len) (\<lambda>parser.
       bindR (h265_ParseSPS_at (parser, sps)) (\<lambda>(ok, _, sps). Inr (ok \<noteq> None, sps)))"

end
