(* ===== verification/H265_Codec.thy ===== *)
theory H265_Codec
  imports H265_Parser Parse_Codec
begin

text \<open>
  Properties of the H.265 parser: reference picture sets and sequence parameter sets through their bits, and what
  a hostile stream can do.
\<close>

unbundle bit_operations_syntax

lemma reads_flag: "reads flag [b] (of_bool b) (\<lambda>s. s)"
  using reads_bits [of "[b]" 1, where ?'a = 8] by (cases b) (simp_all add: flag_def push_bits_def)

lemma reads_flags: "reads flag [False] 0 (\<lambda>s. s)" "reads flag [True] 1 (\<lambda>s. s)"
  using reads_flag [of False] reads_flag [of True] by simp_all

lemma reads_field: "length bs = n \<Longrightarrow> 0 < n \<Longrightarrow> n \<le> 8 \<Longrightarrow> reads (field n) bs (bits_value bs) (\<lambda>s. s)"
  using reads_bits [of bs n, where ?'a = 8] by (simp add: field_def)

lemma reads_code: "n < 2 ^ 32 - 1 \<Longrightarrow> reads uev (ue_bits n) (of_nat n) (\<lambda>s. s)"
  by (simp add: uev_def reads_uev)

lemma reads_drop: "reads m bs v (\<lambda>s. s) \<Longrightarrow> reads (drop_value m) bs () (\<lambda>s. s)"
  using reads_then' [of m bs v "\<lambda>_. step_ret ()" "[]" "()" "\<lambda>s. s"] by (simp add: drop_value_def reads_ret)

lemma reads_skip_bits: "length bs = n \<Longrightarrow> 0 < n \<Longrightarrow> n \<le> 64 \<Longrightarrow> reads (skip_bits (of_nat n)) bs () (\<lambda>s. s)"
  by (simp add: skip_bits_def reads_skip)

lemma reads_when: "reads m bs () f \<Longrightarrow> reads (when_flag m) (b # (if b then bs else [])) () (if b then f else (\<lambda>s. s))"
  using reads_then' [OF reads_flag, of "\<lambda>b. step_if (b = 1) m" b] reads_if [of m bs f b] by (cases b) (simp_all add: when_flag_def)

lemma reads_when_not: "reads (when_flag m) [False] () (\<lambda>s. s)"
  using reads_then' [OF reads_flags(1), of "\<lambda>b. step_if (b = 1) m" "[]" "()"] by (simp add: when_flag_def step_if_def reads_ret)

section \<open>Reference picture sets\<close>

definition code_ok :: "nat \<Rightarrow> bool" where
  "code_ok n \<longleftrightarrow> n < 2 ^ 32 - 1"

definition poc_bits :: "nat \<times> bool \<Rightarrow> bool list" where
  "poc_bits e = ue_bits (fst e) @ [snd e]"

definition set_bits :: "(nat \<times> bool) list \<Rightarrow> (nat \<times> bool) list \<Rightarrow> bool list" where
  "set_bits s0 s1 = ue_bits (length s0) @ ue_bits (length s1) @ concat (map poc_bits s0) @ concat (map poc_bits s1)"

definition pocs_ok :: "(nat \<times> bool) list \<Rightarrow> bool" where
  "pocs_ok es \<longleftrightarrow> code_ok (length es) \<and> list_all (\<lambda>e. code_ok (fst e)) es"

definition explicit_set :: "(nat \<times> bool) list \<Rightarrow> (nat \<times> bool) list \<Rightarrow> short_term_ref_pic_set \<Rightarrow> short_term_ref_pic_set" where
  "explicit_set s0 s1 rpset = rpset\<lparr>num_negative_pics := of_nat (length s0), num_positive_pics := of_nat (length s1),
     delta_poc_s0_minus1 := map (of_nat \<circ> fst) s0, used_by_curr_pic_s0_flag := map (of_bool \<circ> snd) s0,
     delta_poc_s1_minus1 := map (of_nat \<circ> fst) s1, used_by_curr_pic_s1_flag := map (of_bool \<circ> snd) s1\<rparr>"

lemma reads_pocs:
  assumes "pocs_ok es"
  shows "reads (step_list (unat (of_nat (length es) :: u32)) poc_entry) (concat (map poc_bits es))
    (map (\<lambda>e. (of_nat (fst e), of_bool (snd e))) es) (\<lambda>s. s)"
proof -
  have "reads poc_entry (poc_bits e) (of_nat (fst e), of_bool (snd e)) (\<lambda>s. s)" if "e \<in> set es" for e
  proof -
    have c: "fst e < 2 ^ 32 - 1" using assms that by (auto simp: pocs_ok_def code_ok_def list_all_iff)
    have "reads poc_entry (ue_bits (fst e) @ [snd e] @ []) (of_nat (fst e), of_bool (snd e)) (\<lambda>s. s)"
      unfolding poc_entry_def by (rule reads_then' reads_code reads_flag reads_ret c)+
    then show ?thesis by (simp add: poc_bits_def)
  qed
  then have "list_all2 (\<lambda>bs x. reads poc_entry bs x (\<lambda>s. s)) (map poc_bits es) (map (\<lambda>e. (of_nat (fst e), of_bool (snd e))) es)"
    unfolding list_all2_map1 list_all2_map2 list_all2_same by blast
  from reads_list [OF this] show ?thesis
    using assms by (simp add: pocs_ok_def code_ok_def unat_of_nat)
qed

lemma reads_explicit:
  assumes "pocs_ok s0" "pocs_ok s1"
  shows "reads (explicit_rpset rpset) (set_bits s0 s1) (explicit_set s0 s1 rpset) (\<lambda>s. s)"
proof -
  have c: "length s0 < 2 ^ 32 - 1" "length s1 < 2 ^ 32 - 1" using assms by (simp_all add: pocs_ok_def code_ok_def)
  have "reads (explicit_rpset rpset)
      (ue_bits (length s0) @ ue_bits (length s1) @ concat (map poc_bits s0) @ concat (map poc_bits s1) @ [])
      (explicit_set s0 s1 rpset) (\<lambda>s. s)"
    unfolding explicit_rpset_def
    by (rule reads_then' reads_code reads_pocs assms c reads_ret')+ (simp add: explicit_set_def comp_def)
  then show ?thesis by (simp add: set_bits_def)
qed

text \<open>The sets of a parameter set, reads_when_not of them predicted; all but the first have a flag that says so.\<close>

definition sets_bits :: "nat \<Rightarrow> ((nat \<times> bool) list \<times> (nat \<times> bool) list) list \<Rightarrow> bool list" where
  "sets_bits i sets = concat (map (\<lambda>(j, s0, s1). (if j = 0 then [] else [False]) @ set_bits s0 s1) (enumerate i sets))"

lemma reads_explicit_set:
  assumes "pocs_ok s0" "pocs_ok s1"
  shows "reads (ProcessShortTermRefPicSet idx rpset_list) ((if idx = 0 then [] else [False]) @ set_bits s0 s1)
    (explicit_set s0 s1 ((rpset_list ! unat idx)\<lparr>inter_ref_pic_set_prediction_flag := 0, delta_idx_minus1 := 0\<rparr>)) (\<lambda>s. s)"
proof -
  have "reads (if idx \<noteq> 0 then flag else step_ret 0) (if idx = 0 then [] else [False]) 0 (\<lambda>s. s)"
    by (simp add: reads_flags reads_ret)
  then show ?thesis
    unfolding ProcessShortTermRefPicSet_def Let_def
    by (rule reads_then') (simp add: reads_explicit [OF assms])
qed

lemma reads_sets:
  "list_all (\<lambda>(s0, s1). pocs_ok s0 \<and> pocs_ok s1) sets \<Longrightarrow> i + length sets < 2 ^ 32 \<Longrightarrow>
   reads (ref_pic_sets (length sets) i rpset_list) (sets_bits i sets) () (\<lambda>s. s)"
proof (induction sets arbitrary: i rpset_list)
  case Nil
  then show ?case using reads_ret [of "()"] by (simp add: sets_bits_def)
next
  case (Cons p sets)
  obtain s0 s1 where p: "p = (s0, s1)" by (cases p)
  have i: "(of_nat i :: u32) = 0 \<longleftrightarrow> i = 0"
    using Cons.prems(2) by (simp add: word_unat_eq_iff unat_of_nat)
  have "reads (ProcessShortTermRefPicSet (of_nat i) rpset_list) ((if i = 0 then [] else [False]) @ set_bits s0 s1)
      (explicit_set s0 s1 ((rpset_list ! unat (of_nat i :: u32))\<lparr>inter_ref_pic_set_prediction_flag := 0, delta_idx_minus1 := 0\<rparr>)) (\<lambda>s. s)"
    using reads_explicit_set [of s0 s1 "of_nat i" rpset_list] Cons.prems(1) by (simp only: i) (simp add: p)
  from reads_then' [OF this, of "\<lambda>rpset. ref_pic_sets (length sets) (i + 1) (rpset_list[i := rpset])", OF Cons.IH] Cons.prems
  show ?case by (simp add: sets_bits_def p)
qed

section \<open>Sequence parameter sets\<close>

text \<open>
  The syntax elements of a parameter set with one sub-layer, no scaling lists, no PCM coding, no long-term
  references, and explicit reference picture sets. Lists hold elements of the same form that follow each other.
\<close>

record h265_syntax =
  sx_layer :: "bool list"
  sx_ids :: "bool list"
  sx_tier :: "bool list"
  sx_profile :: byte
  sx_compatibility :: "bool list"
  sx_sources :: "bool list"
  sx_reserved :: "bool list"
  sx_level :: byte
  sx_id :: nat
  sx_chroma :: nat
  sx_plane :: bool
  sx_width :: nat
  sx_height :: nat
  sx_window :: "nat list option"
  sx_depths :: "nat list"
  sx_order_count :: nat
  sx_ordering :: bool
  sx_coding :: "nat list"
  sx_tools :: "bool list"
  sx_sets :: "((nat \<times> bool) list \<times> (nat \<times> bool) list) list"
  sx_prediction :: "bool list"
  sx_timing :: "(u32 \<times> u32) option"
  sx_extension :: bool

definition codes :: "nat list \<Rightarrow> bool list" where
  "codes ns = concat (map ue_bits ns)"

definition optional_bits :: "'a option \<Rightarrow> ('a \<Rightarrow> bool list) \<Rightarrow> bool list" where
  "optional_bits x f = (case x of None \<Rightarrow> [False] | Some y \<Rightarrow> True # f y)"

definition head_bits :: "h265_syntax \<Rightarrow> bool list" where
  "head_bits x =
     [False] @ low_bits 6 (33 :: byte) @ take 6 (sx_layer x) @ drop 6 (sx_layer x) @
     take 4 (sx_ids x) @ [False, False, False] @ drop 4 (sx_ids x) @
     take 2 (sx_tier x) @ drop 2 (sx_tier x) @ low_bits 5 (sx_profile x) @ sx_compatibility x @
     concat (map (\<lambda>b. [b]) (sx_sources x)) @ take 32 (sx_reserved x) @ drop 32 (sx_reserved x) @ low_bits 8 (sx_level x) @
     ue_bits (sx_id x)"

definition size_bits :: "h265_syntax \<Rightarrow> bool list" where
  "size_bits x =
     ue_bits (sx_chroma x) @ (if sx_chroma x = 3 then [sx_plane x] else []) @ ue_bits (sx_width x) @ ue_bits (sx_height x) @
     optional_bits (sx_window x) codes"

definition coding_bits :: "h265_syntax \<Rightarrow> bool list" where
  "coding_bits x =
     codes (sx_depths x) @ ue_bits (sx_order_count x) @ [sx_ordering x] @ codes (take 3 (sx_coding x)) @ codes (drop 3 (sx_coding x))"

definition reference_bits :: "h265_syntax \<Rightarrow> bool list" where
  "reference_bits x = ue_bits (length (sx_sets x)) @ sets_bits 0 (sx_sets x) @ [False]"

text \<open>The usability information has the timing only.\<close>

definition timing_bits :: "u32 \<times> u32 \<Rightarrow> bool list" where
  "timing_bits t =
     [False, False, False, False] @ [False, False, False] @ [False] @
     (True # low_bits 32 (fst t) @ low_bits 32 (snd t) @ [False, False]) @ [False]"

definition sps_bits :: "h265_syntax \<Rightarrow> bool list" where
  "sps_bits x =
     head_bits x @ size_bits x @ coding_bits x @ [False] @ concat (map (\<lambda>b. [b]) (sx_tools x)) @ [False] @
     reference_bits x @ concat (map (\<lambda>b. [b]) (sx_prediction x)) @ optional_bits (sx_timing x) timing_bits @ [sx_extension x]"

definition syntax_ok :: "h265_syntax \<Rightarrow> bool" where
  "syntax_ok x \<longleftrightarrow>
     length (sx_layer x) = 9 \<and> length (sx_ids x) = 5 \<and> length (sx_tier x) = 3 \<and> length (sx_compatibility x) = 32 \<and>
     length (sx_sources x) = 4 \<and> length (sx_reserved x) = 44 \<and> length (sx_tools x) = 2 \<and> length (sx_prediction x) = 2 \<and>
     code_ok (sx_id x) \<and> code_ok (sx_chroma x) \<and> code_ok (sx_width x) \<and> code_ok (sx_height x) \<and> code_ok (sx_order_count x) \<and>
     list_all code_ok (sx_depths x) \<and> length (sx_depths x) = 2 \<and> list_all code_ok (sx_coding x) \<and> length (sx_coding x) = 9 \<and>
     (case sx_window x of None \<Rightarrow> True | Some ns \<Rightarrow> list_all code_ok ns \<and> length ns = 4) \<and>
     code_ok (length (sx_sets x)) \<and> list_all (\<lambda>(s0, s1). pocs_ok s0 \<and> pocs_ok s1) (sx_sets x)"

text \<open>What the parser makes of them.\<close>

definition parsed_sps :: "h265_syntax \<Rightarrow> h265_sps \<Rightarrow> h265_sps" where
  "parsed_sps x sps = sps\<lparr>h265_width := of_nat (sx_width x), h265_height := of_nat (sx_height x),
     h265_profile_idc := take_bit 5 (sx_profile x), h265_level_idc := sx_level x,
     h265_vui := (case sx_timing x of None \<Rightarrow> h265_vui sps
                  | Some (ticks, scale) \<Rightarrow> new_vui\<lparr>vui_num_units_in_tick := ticks, vui_time_scale := scale\<rparr>)\<rparr>"

lemma reads_flag_list: "length bs = n \<Longrightarrow> reads (step_repeat n (drop_value flag)) (concat (map (\<lambda>b. [b]) bs)) () (\<lambda>s. s)"
  by (rule reads_repeat) (simp_all add: list_all_iff reads_drop [OF reads_flag])

lemma reads_codes: "list_all code_ok ns \<Longrightarrow> length ns = n \<Longrightarrow> reads (step_repeat n (drop_value uev)) (codes ns) () (\<lambda>s. s)"
  unfolding codes_def by (rule reads_repeat) (auto simp: list_all_iff code_ok_def intro: reads_drop [OF reads_code])

lemma reads_low_field: "0 < n \<Longrightarrow> n \<le> 8 \<Longrightarrow> reads (field n) (low_bits n (v :: byte)) (take_bit n v) (\<lambda>s. s)"
  using reads_field [of "low_bits n v" n] by (simp add: bits_value_low_bits)

lemma reads_header:
  assumes "length layer = 9"
  shows "reads (\<lambda>s. bindR (h265_header (fst s, h)) (\<lambda>(ok, r, h). Inr (if ok \<noteq> None \<and> h265_type h = H265_SPS_NUT then Some () else None, r, snd s)))
    ([False] @ low_bits 6 (33 :: byte) @ take 6 layer @ drop 6 layer) () (\<lambda>s. s)"
proof -
  have len: "length (take 6 layer) = 6" "length (drop 6 layer) = 3" "(0 :: nat) < 6" "(6 :: nat) \<le> 8" "(0 :: nat) < 3" "(3 :: nat) \<le> 8"
    using assms by simp_all
  have "reads h265_header ([False] @ low_bits 6 (33 :: byte) @ take 6 layer @ drop 6 layer) ()
    (\<lambda>h. h\<lparr>h265_type := take_bit 6 33, h265_layer_id := bits_value (take 6 layer), h265_temporal_id_plus1 := bits_value (drop 6 layer)\<rparr>)"
    unfolding h265_header_def
    by (rule reads_change, (rule reads_then_set reads_then reads_then_end reads_flags(1) reads_else reads_low_field reads_field reads_set len)+) simp
  then show ?thesis
    by (fastforce simp: reads_def H265_SPS_NUT_def take_bit_eq_mod)
qed

lemma reads_nothing:
  "reads (step_list 0 m) [] [] (\<lambda>s. s)" "reads (step_if ((0 :: nat) < 0) k) [] () (\<lambda>s. s)"
  "reads (skip_sub_layers []) [] () (\<lambda>s. s)"
  by (simp_all add: step_if_def reads_ret)

lemma reads_profile:
  assumes "length tier = 3" "length compatibility = 32" "length sources = 4" "length reserved = 44"
  shows "reads (ProcessProfileTierLevel 0)
    (take 2 tier @ drop 2 tier @ low_bits 5 profile @ compatibility @ concat (map (\<lambda>b. [b]) sources) @ take 32 reserved @
     drop 32 reserved @ low_bits 8 level) (take_bit 5 profile, level) (\<lambda>s. s)"
proof -
  obtain t where t: "drop 2 tier = [t]" using assms(1) by (auto simp: length_Suc_conv eval_nat_numeral)
  have len: "length (take 2 tier) = 2" "length (take 32 reserved) = 32" "length (drop 32 reserved) = 12" using assms by simp_all
  have n: "(0 :: nat) < 2" "(2 :: nat) \<le> 8" "(0 :: nat) < 5" "(5 :: nat) \<le> 8" "(0 :: nat) < 8" "(8 :: nat) \<le> 8" by simp_all
  note skips = reads_skip_bits [of compatibility 32, simplified assms, simplified] reads_skip_bits [of "take 32 reserved" 32, simplified len, simplified]
    reads_skip_bits [of "drop 32 reserved" 12, simplified len, simplified]
  have l: "take_bit 8 level = level" by (simp add: take_bit_word_eq_self)
  show ?thesis
    unfolding ProcessProfileTierLevel_def t
    by (rule reads_change, (rule reads_then reads_then_end reads_flag reads_low_field reads_field reads_flag_list
        skips reads_nothing reads_ret' assms len n)+) (simp_all add: l)
qed

lemma reads_head:
  assumes "syntax_ok x"
  shows "reads sps_head (head_bits x) 0 (\<lambda>sps. sps\<lparr>h265_profile_idc := take_bit 5 (sx_profile x), h265_level_idc := sx_level x\<rparr>)"
proof -
  have ok: "length (sx_layer x) = 9" "length (sx_tier x) = 3" "length (sx_compatibility x) = 32"
    "length (sx_sources x) = 4" "length (sx_reserved x) = 44" "sx_id x < 2 ^ 32 - 1" "length (take 4 (sx_ids x)) = 4"
    using assms by (simp_all add: syntax_ok_def code_ok_def)
  obtain i where i: "drop 4 (sx_ids x) = [i]" using assms by (auto simp: syntax_ok_def length_Suc_conv eval_nat_numeral)
  have n: "(0 :: nat) < 4" "(4 :: nat) \<le> 8" by simp_all
  have z: "reads (field 3) [False, False, False] 0 (\<lambda>s. s)"
    using reads_field [of "[False, False, False]" 3] by (simp add: push_bits_def)
  have "reads sps_head (([False] @ low_bits 6 (33 :: byte) @ take 6 (sx_layer x) @ drop 6 (sx_layer x)) @
      take 4 (sx_ids x) @ [False, False, False] @ [i] @
      (take 2 (sx_tier x) @ drop 2 (sx_tier x) @ low_bits 5 (sx_profile x) @ sx_compatibility x @
       concat (map (\<lambda>b. [b]) (sx_sources x)) @ take 32 (sx_reserved x) @ drop 32 (sx_reserved x) @ low_bits 8 (sx_level x)) @
      ue_bits (sx_id x)) 0 (\<lambda>sps. sps\<lparr>h265_profile_idc := take_bit 5 (sx_profile x), h265_level_idc := sx_level x\<rparr>)"
    unfolding sps_head_def
    by (rule reads_change, (rule reads_then [OF reads_header] ok reads_then reads_then_set reads_then_end reads_field z reads_flag n
        reads_profile [where reserved = "sx_reserved x", folded unat_0 [where ?'a = 8]] reads_drop [OF reads_code] reads_ret' | simp only: split_conv)+) simp_all
  then show ?thesis unfolding head_bits_def i by (simp only: append_assoc)
qed

lemma reads_size:
  assumes "syntax_ok x"
  shows "reads sps_size (size_bits x) () (\<lambda>sps. sps\<lparr>h265_width := of_nat (sx_width x), h265_height := of_nat (sx_height x)\<rparr>)"
proof -
  have ok: "sx_chroma x < 2 ^ 32 - 1" "sx_width x < 2 ^ 32 - 1" "sx_height x < 2 ^ 32 - 1"
    using assms by (simp_all add: syntax_ok_def code_ok_def)
  have "(of_nat (sx_chroma x) :: u32) = 3 \<longleftrightarrow> sx_chroma x = 3"
    using ok(1) by (simp add: word_unat_eq_iff unat_of_nat)
  note c3 = this
  have chroma: "reads (step_if ((of_nat (sx_chroma x) :: u32) = 3) (drop_value flag)) (if sx_chroma x = 3 then [sx_plane x] else []) () (\<lambda>s. s)"
    unfolding c3 by (rule reads_change [OF reads_if [OF reads_drop [OF reads_flag]]]) simp
  have window: "reads (step_then flag (\<lambda>b. step_if (b \<noteq> 0) (step_repeat 4 (drop_value uev)))) (optional_bits (sx_window x) codes) () (\<lambda>s. s)"
  proof (cases "sx_window x")
    case None
    have "reads (step_then flag (\<lambda>b. step_if (b \<noteq> 0) (step_repeat 4 (drop_value uev)))) ([False] @ []) () (\<lambda>s. s)"
      by (rule reads_then' [OF reads_flags(1)]) (simp add: step_if_def reads_ret)
    with None show ?thesis by (simp add: optional_bits_def)
  next
    case (Some ns)
    then have ns: "list_all code_ok ns" "length ns = 4" using assms by (simp_all add: syntax_ok_def)
    have "reads (step_then flag (\<lambda>b. step_if (b \<noteq> 0) (step_repeat 4 (drop_value uev)))) ([True] @ codes ns) () (\<lambda>s. s)"
      by (rule reads_then' [OF reads_flags(2)]) (simp add: step_if_def reads_codes ns)
    with Some show ?thesis by (simp add: optional_bits_def)
  qed
  show ?thesis
    unfolding sps_size_def size_bits_def
    by (rule reads_change, (rule reads_then_set chroma window reads_then reads_code ok)+) simp
qed

lemma reads_coding:
  assumes "syntax_ok x"
  shows "reads (sps_coding 0) (coding_bits x) (of_nat (sx_order_count x)) (\<lambda>s. s)"
proof -
  have ok: "list_all code_ok (sx_depths x)" "length (sx_depths x) = 2" "sx_order_count x < 2 ^ 32 - 1"
    "list_all code_ok (take 3 (sx_coding x))" "length (take 3 (sx_coding x)) = 3"
    "list_all code_ok (drop 3 (sx_coding x))" "length (drop 3 (sx_coding x)) = 6"
    using assms by (auto simp: syntax_ok_def code_ok_def list_all_iff dest: in_set_takeD in_set_dropD)
  have once: "reads (step_repeat (if c then 0 + 1 else 1) m) bs () (\<lambda>s. s)" if "reads m bs () (\<lambda>s. s)"
    for c and m :: "(h265_sps, unit) parse_step" and bs
    using reads_repeat [of m "[bs]" 1] that by simp
  show ?thesis
    unfolding sps_coding_def coding_bits_def
    by (rule reads_change, (rule reads_then reads_then_end reads_codes reads_code reads_flag once reads_ret' ok)+) simp_all
qed

lemma reads_references:
  assumes "syntax_ok x"
  shows "reads (sps_references c) (reference_bits x) () (\<lambda>s. s)"
proof -
  have ok: "length (sx_sets x) < 2 ^ 32 - 1" "list_all (\<lambda>(s0, s1). pocs_ok s0 \<and> pocs_ok s1) (sx_sets x)" "0 + length (sx_sets x) < 2 ^ 32"
    using assms by (simp_all add: syntax_ok_def code_ok_def)
  have n: "unat (of_nat (length (sx_sets x)) :: u32) = length (sx_sets x)" using ok(1) by (simp add: unat_of_nat)
  show ?thesis
    unfolding sps_references_def reference_bits_def
    by (rule reads_change, (rule reads_then reads_code reads_sets reads_when_not ok | simp only: n)+)
qed

lemma reads_timing:
  "reads (ProcessVuiParameters 0) (timing_bits t) () (\<lambda>v. v\<lparr>vui_num_units_in_tick := fst t, vui_time_scale := snd t\<rparr>)"
proof -
  have three: "reads (step_repeat 3 (drop_value flag)) [False, False, False] () (\<lambda>s. s)"
    using reads_flag_list [of "[False, False, False]" 3] by simp
  have w: "reads (rd (ReadBits_into 32)) (low_bits 32 w) (w :: u32) (\<lambda>s. s)" for w :: u32
    using reads_bits [of "low_bits 32 w" 32, where ?'a = 32] by (simp add: bits_value_low_bits take_bit_word_eq_self)
  have signal: "reads vui_signal ([False] @ [False] @ [False] @ [False, False, False] @ [False]) () (\<lambda>s. s)"
    unfolding vui_signal_def by (rule reads_change, (rule reads_then reads_when_not three)+) simp
  have inner: "reads (step_then (rd (ReadBits_into 32)) (\<lambda>ticks. step_then (step_set (\<lambda>v. v\<lparr>vui_num_units_in_tick := ticks\<rparr>)) (\<lambda>_.
        step_then (rd (ReadBits_into 32)) (\<lambda>scale. step_then (step_set (\<lambda>v. v\<lparr>vui_time_scale := scale\<rparr>)) (\<lambda>_.
        step_then (when_flag (drop_value uev)) (\<lambda>_. when_flag (ProcessHrdParameters 1 0)))))))
      (low_bits 32 (fst t) @ low_bits 32 (snd t) @ [False] @ [False]) ()
      (\<lambda>v. v\<lparr>vui_num_units_in_tick := fst t, vui_time_scale := snd t\<rparr>)"
    by (rule reads_change, (rule reads_then_set reads_then w reads_when_not)+) simp
  then have timing: "reads (vui_timing 0) (True # low_bits 32 (fst t) @ low_bits 32 (snd t) @ [False, False]) ()
      (\<lambda>v. v\<lparr>vui_num_units_in_tick := fst t, vui_time_scale := snd t\<rparr>)"
    unfolding vui_timing_def using reads_when [OF inner, of True] by simp
  have "reads (ProcessVuiParameters 0) ([False] @ ([False] @ [False] @ [False] @ [False, False, False] @ [False]) @
      (True # low_bits 32 (fst t) @ low_bits 32 (snd t) @ [False, False]) @ [False]) ()
      (\<lambda>v. v\<lparr>vui_num_units_in_tick := fst t, vui_time_scale := snd t\<rparr>)"
    unfolding ProcessVuiParameters_def vui_aspect_def vui_restriction_def
    by (rule reads_change, (rule reads_then reads_when_not signal timing)+) simp
  then show ?thesis by (simp add: timing_bits_def)
qed

lemma reads_assigning: "reads m bs () f \<Longrightarrow> reads (assigning_vui m) bs () (\<lambda>sps. sps\<lparr>h265_vui := f new_vui\<rparr>)"
  by (auto simp: reads_def assigning_vui_def)

lemma reads_sps:
  assumes "syntax_ok x"
  shows "reads h265_ParseSPS_at (sps_bits x) () (parsed_sps x)"
proof -
  have ok: "length (sx_tools x) = 2" "length (sx_prediction x) = 2" using assms by (simp_all add: syntax_ok_def)
  have pcm: "reads sps_pcm (concat (map (\<lambda>b. [b]) (sx_tools x)) @ [False]) () (\<lambda>s. s)"
    unfolding sps_pcm_def by (rule reads_change, (rule reads_then reads_flag_list ok reads_when_not)+) simp
  have scaling: "reads sps_scaling [False] () (\<lambda>s. s)" unfolding sps_scaling_def by (rule reads_when_not)
  have vui: "reads (when_flag (assigning_vui (ProcessVuiParameters 0))) (optional_bits (sx_timing x) timing_bits) ()
      (\<lambda>sps. sps\<lparr>h265_vui := (case sx_timing x of None \<Rightarrow> h265_vui sps
        | Some (ticks, scale) \<Rightarrow> new_vui\<lparr>vui_num_units_in_tick := ticks, vui_time_scale := scale\<rparr>)\<rparr>)"
  proof (cases "sx_timing x")
    case None
    then show ?thesis using reads_when_not by (simp add: optional_bits_def)
  next
    case (Some t)
    then show ?thesis
      using reads_when [OF reads_assigning [OF reads_timing], of True t] by (cases t) (simp add: optional_bits_def)
  qed
  note last = reads_drop [OF reads_flag]
  have "reads h265_ParseSPS_at (head_bits x @ size_bits x @ coding_bits x @ [False] @ (concat (map (\<lambda>b. [b]) (sx_tools x)) @ [False]) @
      reference_bits x @ concat (map (\<lambda>b. [b]) (sx_prediction x)) @ optional_bits (sx_timing x) timing_bits @ [sx_extension x]) ()
      (parsed_sps x)"
    unfolding h265_ParseSPS_at_def
    by (rule reads_change, (rule reads_then [OF reads_head] reads_then [OF reads_size] reads_then [OF reads_coding] reads_then [OF scaling]
        reads_then [OF pcm] reads_then [OF reads_references] reads_then [OF vui] reads_then reads_flag_list last assms ok)+)
      (auto simp: parsed_sps_def split: option.splits)
  then show ?thesis by (simp add: sps_bits_def)
qed


definition sample_syntax :: h265_syntax where
  "sample_syntax = \<lparr>sx_layer = [False, False, False, False, False, False, False, False, True],
     sx_ids = [False, False, False, False, True], sx_tier = [False, False, False], sx_profile = 1,
     sx_compatibility = replicate 32 False, sx_sources = [True, False, False, True], sx_reserved = replicate 44 False,
     sx_level = 93, sx_id = 0, sx_chroma = 1, sx_plane = False, sx_width = 1280, sx_height = 720, sx_window = None,
     sx_depths = [0, 0], sx_order_count = 4, sx_ordering = True, sx_coding = [4, 2, 0, 0, 3, 0, 3, 0, 0],
     sx_tools = [True, True], sx_sets = [([(0, True)], []), ([(1, True)], [(0, False)])],
     sx_prediction = [True, True], sx_timing = Some (1, 30), sx_extension = False\<rparr>"

definition sample_unit :: "byte list" where
  "sample_unit = [66, 1, 1, 1, 0, 0, 0, 0, 144, 0, 0, 0, 0, 0, 93, 160, 2, 128, 128, 45, 22, 89, 94, 73, 54, 107, 146, 89, 192, 32, 0, 0, 0, 32, 0, 0, 3, 193]"


text \<open>
  A hostile parameter set makes the parser read outside its vector. The index of the set that a set is
  predicted from is computed without a sign from a number in the stream and compared with nothing. The second
  set with any difference but 1 refers to a set before the first: the index wraps and the lookup is out of range,
  whatever the stream holds otherwise.
\<close>

theorem h265_predicted_set_overreads:
  assumes "br_ok r" "br_rest r = [True] @ ue_bits d @ [sign] @ ue_bits a @ rest" "1 \<le> d" "d < 2 ^ 32 - 1" "a < 2 ^ 32 - 1"
    and "length rpset_list + d \<le> 2 ^ 32"
  shows "ProcessShortTermRefPicSet 1 rpset_list (r, s) = Inl Over_Read"
proof -
  have "(of_nat (2 ^ 32 - d) :: u32) = of_nat (2 ^ 32) - of_nat d"
    using assms(4) by (simp only: of_nat_diff)
  then have "(1 :: u32) - (of_nat d + 1) = of_nat (2 ^ 32 - d)" by simp
  then have "unat ((1 :: u32) - (of_nat d + 1)) = 2 ^ 32 - d"
    using assms(3) by (simp only: unat_of_nat) simp
  then have out: "length (rpset_list[unat (1 :: u32) := q]) \<le> unat ((1 :: u32) - (of_nat d + 1))" for q
    using assms(6) by simp
  have "faults (predicted_rpset 1 rpset_list q) (ue_bits d @ [sign] @ ue_bits a) Over_Read"
    if "inter_ref_pic_set_prediction_flag q = 1" for q
  proof -
    have "reads (if (1 :: u32) = ucast (inter_ref_pic_set_prediction_flag q) then uev else step_ret (delta_idx_minus1 q))
        (ue_bits d) (of_nat d) (\<lambda>s. s)"
      using assms(4) by (simp add: that reads_code)
    note first = this
    show ?thesis
      unfolding predicted_rpset_def Let_def
      by (rule faults_then faults_then_end faults_if first reads_flag reads_code assms(5) out faults_now)+
  qed
  note predicted = this
  have flag1: "reads (if (1 :: u32) \<noteq> 0 then flag else step_ret 0) [True] 1 (\<lambda>s. s)" by (simp add: reads_flags)
  have "faults (ProcessShortTermRefPicSet 1 rpset_list) ([True] @ ue_bits d @ [sign] @ ue_bits a) Over_Read"
    unfolding ProcessShortTermRefPicSet_def Let_def
    by (rule faults_then [OF flag1] faults_if refl predicted)+ simp
  from faultsD [OF this assms(1), of rest] assms(2) show ?thesis by simp
qed

lemma h265_predicted_set_overreads_witness:
  "ProcessShortTermRefPicSet 1 [new_rpset, new_rpset] (new_bit_reader [0xA4], ()) = Inl Over_Read"
proof -
  have "bits_of [0xA4] = [True] @ ue_bits 1 @ [False] @ ue_bits 0 @ [False, False]" by code_simp
  then have "br_rest (new_bit_reader [0xA4]) = [True] @ ue_bits 1 @ [False] @ ue_bits 0 @ [False, False]"
    by (simp only: br_rest_new)
  from h265_predicted_set_overreads [OF br_ok_new this, of "[new_rpset, new_rpset]" "()"] show ?thesis by simp
qed

text \<open>A sub-layer with a profile of its own makes every parameter set refused: 88 bits are more than one skip reads.\<close>

lemma sub_layer_profile_refused:
  assumes "profile_present \<noteq> 0"
  shows "skip_sub_layers ((profile_present, level_present) # ls) (r, s) = Inr (None, r, s)"
  using assms by (simp add: step_then_def step_if_def skip_bits_def rd_bool_def nal_Skip_def ReadBits_into_def)

end
