(* ===== verification/Ieee_Double.thy ===== *)
theory Ieee_Double
  imports Engine_Prelude
begin

text \<open>
  The conversions of floating point numbers that the session makes. A \<^verbatim>\<open>double\<close> is the word of its
  bits (IEEE 754, binary64), as it comes from the wire and goes back to it.
\<close>

unbundle bit_operations_syntax

definition double_exponent :: "u64 \<Rightarrow> nat" where
  "double_exponent d = unat (take_bit 11 (drop_bit 52 d))"

definition double_mantissa :: "u64 \<Rightarrow> nat" where
  "double_mantissa d = unat (take_bit 52 d)"

definition double_negative :: "u64 \<Rightarrow> bool" where
  "double_negative d = bit d 63"

text \<open>
  The magnitude is \<open>double_significand d * 2 ^ double_scale d / 2 ^ 1075\<close>; an exponent of 0 stands for the
  scale 1 without the hidden bit.
\<close>

definition double_significand :: "u64 \<Rightarrow> nat" where
  "double_significand d = (if double_exponent d = 0 then double_mantissa d else 2 ^ 52 + double_mantissa d)"

definition double_scale :: "u64 \<Rightarrow> nat" where
  "double_scale d = max 1 (double_exponent d)"

text \<open>\<^verbatim>\<open>(int32_t)d\<close>: the integer part, where it fits; C++ gives the other conversions no meaning.\<close>

definition double_to_int32 :: "u64 \<Rightarrow> int res" where
  "double_to_int32 d =
     (if double_exponent d = 2047 \<or> 1075 + 32 \<le> double_exponent d then Inl Bad_Cast
      else
        let magnitude = int (if 1075 \<le> double_scale d then double_significand d * 2 ^ (double_scale d - 1075)
                             else double_significand d div 2 ^ (1075 - double_scale d));
            i = (if double_negative d then - magnitude else magnitude)
        in if - (2 ^ 31) \<le> i \<and> i < 2 ^ 31 then Inr i else Inl Bad_Cast)"

text \<open>Division by a power of two, rounded to the nearest number and to the even one of two.\<close>

definition round_half_even :: "nat \<Rightarrow> nat \<Rightarrow> nat" where
  "round_half_even n k =
     (let q = n div 2 ^ k; r = n mod 2 ^ k in
      if 2 ^ k < 2 * r \<or> 2 * r = 2 ^ k \<and> odd q then q + 1 else q)"

text \<open>\<^verbatim>\<open>(float)d\<close>: the bits of the nearest binary32 number.\<close>

definition double_to_float :: "u64 \<Rightarrow> u32" where
  "double_to_float d =
     (let sign = (if double_negative d then 2 ^ 31 else 0 :: nat);
          magnitude =
            (if double_exponent d = 2047 then
               (if double_mantissa d = 0 then 0x7F800000 else 0x7FC00000 + double_mantissa d div 2 ^ 29 mod 2 ^ 22)
             else min 0x7F800000
               ((double_scale d - 897) * 2 ^ 23 +
                round_half_even (double_significand d) (max 29 (926 - double_scale d))))
      in of_nat (sign + magnitude))"

text \<open>\<^verbatim>\<open>x *= 1.0\<close> for an \<^verbatim>\<open>int64_t\<close>: the number goes through a \<^verbatim>\<open>double\<close>, which has 53 bits.\<close>

definition times_one :: "int \<Rightarrow> int res" where
  "times_one x =
     (let n = nat \<bar>x\<bar>; k = (if n < 2 ^ 53 then 0 else length (dropWhile (\<lambda>i. n < 2 ^ i) (rev [53..<64])));
          m = int (round_half_even n k * 2 ^ k); y = (if x < 0 then - m else m)
      in if y < 2 ^ 63 then Inr y else Inl Bad_Cast)"

text \<open>The double of a small integer.\<close>

lemma times_one_small: "\<bar>x\<bar> < 2 ^ 53 \<Longrightarrow> times_one x = Inr x"
  by (auto simp: times_one_def round_half_even_def Let_def)

end
