(* ===== verification/Rtmp_Handshake.thy ===== *)
theory Rtmp_Handshake
  imports Byte_Order
begin

text \<open>
  The RTMP handshake (\<open>media/rtmp/rtmp_handshake.cpp\<close>): the packets S1, S2, C1 and C2 of 1536 bytes and
  the digests inside them. HMAC-SHA256 belongs to OpenSSL and is the parameter \<open>hmac key message\<close>; what is
  relied on is that it writes 32 bytes. The clock is the parameter \<open>now\<close>. The packets are random bytes
  of \<^verbatim>\<open>std::mt19937\<close>, which the code never seeds, so that they are the same in every connection.
\<close>

unbundle bit_operations_syntax

abbreviation RTMP_HANDSHAKE_VERSION :: byte where "RTMP_HANDSHAKE_VERSION \<equiv> 3"
abbreviation RTMP_HANDSHAKE_PACKET_SIZE :: nat where "RTMP_HANDSHAKE_PACKET_SIZE \<equiv> 1536"
abbreviation SHA256_DIGEST_LENGTH :: nat where "SHA256_DIGEST_LENGTH \<equiv> 32"

type_synonym hmac = "byte list \<Rightarrow> byte list \<Rightarrow> byte list"

section \<open>The random numbers\<close>

text \<open>
  \<^verbatim>\<open>std::mt19937\<close> of the C++ standard: the Mersenne twister with the default seed 5489. A block is the
  624 words of the state, and its numbers are the words after tempering.
\<close>

fun mt_seed :: "nat \<Rightarrow> u32 list \<Rightarrow> u32 list" where
  "mt_seed 0 xs = xs"
| "mt_seed (Suc n) xs =
     mt_seed n (xs @ [1812433253 * (last xs XOR drop_bit 30 (last xs)) + of_nat (length xs)])"

definition mt_twist_word :: "nat \<Rightarrow> u32 list \<Rightarrow> u32 list" where
  "mt_twist_word i mt =
     (let y = (mt ! i AND 0x80000000) OR (mt ! ((i + 1) mod 624) AND 0x7FFFFFFF) in
      mt[i := mt ! ((i + 397) mod 624) XOR drop_bit 1 y XOR (if odd (unat y) then 0x9908B0DF else 0)])"

definition mt_twist :: "u32 list \<Rightarrow> u32 list" where
  "mt_twist mt = foldl (\<lambda>mt i. mt_twist_word i mt) mt [0..<624]"

definition mt_temper :: "u32 \<Rightarrow> u32" where
  "mt_temper y0 =
     (let y1 = y0 XOR drop_bit 11 y0;
          y2 = y1 XOR (push_bit 7 y1 AND 0x9D2C5680);
          y3 = y2 XOR (push_bit 15 y2 AND 0xEFC60000)
      in y3 XOR drop_bit 18 y3)"

text \<open>The numbers of \<open>n\<close> blocks from a state on.\<close>

fun mt_blocks :: "nat \<Rightarrow> u32 list \<Rightarrow> u32 list" where
  "mt_blocks 0 mt = []"
| "mt_blocks (Suc n) mt = (let mt' = mt_twist mt in map mt_temper mt' @ mt_blocks n mt')"

text \<open>The first \<open>n\<close> numbers of a new generator, each modulo 256.\<close>

definition random_bytes :: "nat \<Rightarrow> byte list" where
  "random_bytes n = map ucast (take n (mt_blocks (n div 624 + 1) (mt_seed 623 [5489])))"

section \<open>Digests\<close>

definition GenuineFMSKey :: "byte list" where
  "GenuineFMSKey =
    [0x47, 0x65, 0x6e, 0x75, 0x69, 0x6e, 0x65, 0x20, 0x41, 0x64, 0x6f, 0x62, 0x65, 0x20, 0x46, 0x6c,
     0x61, 0x73, 0x68, 0x20, 0x4d, 0x65, 0x64, 0x69, 0x61, 0x20, 0x53, 0x65, 0x72, 0x76, 0x65, 0x72,
     0x20, 0x30, 0x30, 0x31,
     0xf0, 0xee, 0xc2, 0x4a, 0x80, 0x68, 0xbe, 0xe8, 0x2e, 0x00, 0xd0, 0xd1, 0x02, 0x9e, 0x7e, 0x57,
     0x6e, 0xec, 0x5d, 0x2d, 0x29, 0x80, 0x6f, 0xab, 0x93, 0xb8, 0xe6, 0x36, 0xcf, 0xeb, 0x31, 0xae]"

definition GenuineFPKey :: "byte list" where
  "GenuineFPKey =
    [0x47, 0x65, 0x6E, 0x75, 0x69, 0x6E, 0x65, 0x20, 0x41, 0x64, 0x6F, 0x62, 0x65,
     0x20, 0x46, 0x6C, 0x61, 0x73, 0x68, 0x20, 0x50, 0x6C, 0x61, 0x79, 0x65, 0x72,
     0x20, 0x30, 0x30, 0x31, 0xF0, 0xEE, 0xC2, 0x4A, 0x80, 0x68, 0xBE, 0xE8, 0x2E,
     0x00, 0xD0, 0xD1, 0x02, 0x9E, 0x7E, 0x57, 0x6E, 0xEC, 0x5D, 0x2D, 0x29, 0x80,
     0x6F, 0xAB, 0x93, 0xB8, 0xE6, 0x36, 0xCF, 0xEB, 0x31, 0xAE]"

text \<open>The sum of four bytes from a position on.\<close>

definition sum_4 :: "byte list \<Rightarrow> nat \<Rightarrow> nat res" where
  "sum_4 handshake pos = bindR (read_bytes handshake pos 4) (\<lambda>bs. Inr (sum_list (map unat bs)))"

definition GetDigestOffset1 :: "byte list \<Rightarrow> nat res" where
  "GetDigestOffset1 handshake = bindR (sum_4 handshake 8) (\<lambda>offset. Inr (offset mod 728 + 12))"

definition GetDigestOffset2 :: "byte list \<Rightarrow> nat res" where
  "GetDigestOffset2 handshake = bindR (sum_4 handshake 772) (\<lambda>offset. Inr (offset mod 728 + 776))"

definition HmacSha256 :: "hmac \<Rightarrow> byte list \<Rightarrow> byte list \<Rightarrow> byte list" where
  "HmacSha256 hmac message key = hmac key message"

text \<open>
  \<open>CalculateDigest\<close> leaves out the 32 bytes at \<open>digest_pos\<close>. The second copy reads up to the end of the
  packet; a position after the buffer makes its length negative, that is, far too large.
\<close>

definition CalculateDigest :: "hmac \<Rightarrow> nat \<Rightarrow> byte list \<Rightarrow> byte list \<Rightarrow> byte list res" where
  "CalculateDigest hmac digest_pos message key =
     (let buffer_size = RTMP_HANDSHAKE_PACKET_SIZE - SHA256_DIGEST_LENGTH in
      if buffer_size < digest_pos then Inl Over_Write
      else bindR (read_bytes message 0 digest_pos) (\<lambda>front.
           bindR (read_bytes message (digest_pos + SHA256_DIGEST_LENGTH) (buffer_size - digest_pos)) (\<lambda>back.
             Inr (HmacSha256 hmac (front @ back) key))))"

definition VerifyDigest :: "hmac \<Rightarrow> nat \<Rightarrow> byte list \<Rightarrow> byte list \<Rightarrow> bool res" where
  "VerifyDigest hmac digest_pos message key =
     bindR (CalculateDigest hmac digest_pos message key) (\<lambda>calc_digest.
     bindR (read_bytes message digest_pos SHA256_DIGEST_LENGTH) (\<lambda>found. Inr (found = calc_digest)))"

text \<open>Writing bytes at a position of a packet.\<close>

definition write_at :: "nat \<Rightarrow> byte list \<Rightarrow> byte list \<Rightarrow> byte list res" where
  "write_at pos bs sig =
     (if pos + length bs \<le> length sig then Inr (take pos sig @ bs @ drop (pos + length bs) sig)
      else Inl Over_Write)"

section \<open>The packets\<close>

text \<open>The part that S1 and C1 share: the time, a version, random bytes, and the digest among them.\<close>

definition make_signed :: "hmac \<Rightarrow> u32 \<Rightarrow> u32 \<Rightarrow> byte list res" where
  "make_signed hmac now version =
     (let sig = WriteInt32 now @ WriteInt32LE version @ random_bytes (RTMP_HANDSHAKE_PACKET_SIZE - 8) in
      bindR (GetDigestOffset1 sig) (\<lambda>offset.
      bindR (CalculateDigest hmac offset sig (take 36 GenuineFMSKey)) (\<lambda>digest. write_at offset digest sig)))"

definition MakeS1 :: "hmac \<Rightarrow> u32 \<Rightarrow> byte list res" where
  "MakeS1 hmac now = make_signed hmac now 0x01000100"

definition MakeC1 :: "hmac \<Rightarrow> u32 \<Rightarrow> byte list res" where
  "MakeC1 hmac now = make_signed hmac now 0x01020503"

text \<open>The client's packet comes first; a packet without a version or without a valid digest is echoed.\<close>

definition echo :: "byte list \<Rightarrow> byte list res" where
  "echo client_sig = read_bytes client_sig 0 RTMP_HANDSHAKE_PACKET_SIZE"

definition MakeS2 :: "hmac \<Rightarrow> byte list \<Rightarrow> byte list res" where
  "MakeS2 hmac client_sig =
     bindR (read_bytes client_sig 4 4) (\<lambda>version.
       if version = [0, 0, 0, 0] then echo client_sig
       else
         let answer = (\<lambda>offset.
           bindR (read_bytes client_sig offset SHA256_DIGEST_LENGTH) (\<lambda>client_digest.
             let digest = HmacSha256 hmac client_digest GenuineFMSKey; sig = random_bytes 1504 in
             Inr (sig @ HmacSha256 hmac sig digest))) in
         bindR (GetDigestOffset1 client_sig) (\<lambda>offset1.
         bindR (VerifyDigest hmac offset1 client_sig (take 30 GenuineFPKey)) (\<lambda>valid1.
           if valid1 then answer offset1
           else bindR (GetDigestOffset2 client_sig) (\<lambda>offset2.
                bindR (VerifyDigest hmac offset2 client_sig (take 30 GenuineFPKey)) (\<lambda>valid2.
                  if valid2 then answer offset2 else echo client_sig)))))"

text \<open>No value where \<open>MakeC2\<close> returns \<^verbatim>\<open>false\<close>.\<close>

definition MakeC2 :: "hmac \<Rightarrow> byte list \<Rightarrow> byte list option res" where
  "MakeC2 hmac client_sig =
     bindR (GetDigestOffset1 client_sig) (\<lambda>offset.
     bindR (CalculateDigest hmac offset client_sig (take 36 GenuineFMSKey)) (\<lambda>svr_digest.
     bindR (read_bytes client_sig offset SHA256_DIGEST_LENGTH) (\<lambda>found.
       if found \<noteq> svr_digest then Inr None
       else bindR (echo client_sig) (\<lambda>sig. Inr (Some (take 4 sig @ [0, 0, 0, 0] @ drop 8 sig))))))"


section \<open>Lengths\<close>

lemma length_mt_seed [simp]: "length (mt_seed n xs) = length xs + n"
  by (induction n xs rule: mt_seed.induct) auto

lemma length_foldl_same: "(\<And>x i. length (f x i) = length x) \<Longrightarrow> length (foldl f x is) = length x"
  by (induction "is" arbitrary: x) auto

lemma length_mt_twist [simp]: "length (mt_twist mt) = length mt"
  unfolding mt_twist_def by (rule length_foldl_same) (simp add: mt_twist_word_def Let_def)

lemma length_mt_blocks [simp]: "length (mt_blocks n mt) = n * length mt"
  by (induction n mt rule: mt_blocks.induct) (auto simp: Let_def)

lemma length_random_bytes [simp]: "length (random_bytes n) = n"
proof -
  have "n \<le> n div 624 * 624 + 624"
    using div_mult_mod_eq [of n 624] mod_less_divisor [of 624 n] by linarith
  then show ?thesis by (simp add: random_bytes_def add.commute del: mt_blocks.simps)
qed

lemma GetDigestOffset_in:
  assumes "1536 \<le> length p"
  obtains o1 o2 where "GetDigestOffset1 p = Inr o1" "12 \<le> o1" "o1 < 740"
    "GetDigestOffset2 p = Inr o2" "776 \<le> o2" "o2 < 1504"
  using that assms by (simp add: GetDigestOffset1_def GetDigestOffset2_def sum_4_def)

text \<open>The digest does not cover its own place, and its place depends on the bytes 8 to 11 only.\<close>

lemma CalculateDigest_in:
  assumes "1536 \<le> length p" "off \<le> 1504"
  shows "CalculateDigest h off p k = Inr (h k (take off p @ take (1504 - off) (drop (off + 32) p)))"
  using assms by (simp add: CalculateDigest_def HmacSha256_def)

lemma write_digest:
  assumes p: "length p = 1536" and d: "length d = 32" and off: "12 \<le> off" "off \<le> 1504"
  obtains q where "write_at off d p = Inr q" "length q = 1536" "take 12 q = take 12 p"
    "take 32 (drop off q) = d" "\<And>h k. CalculateDigest h off q k = CalculateDigest h off p k"
    "GetDigestOffset1 q = GetDigestOffset1 p"
proof -
  define q where "q = take off p @ d @ drop (off + 32) p"
  have len: "length q = 1536" using assms by (simp add: q_def)
  have front: "take off q = take off p" "drop (off + 32) q = drop (off + 32) p"
    using assms by (simp_all add: q_def)
  have "take 12 q = take 12 (take off q)" "take 12 p = take 12 (take off p)"
    using off by (simp_all add: min_def)
  then have t12: "take 12 q = take 12 p" using front by simp
  have "take 4 (drop 8 q) = drop 8 (take 12 q)" "take 4 (drop 8 p) = drop 8 (take 12 p)"
    by (simp_all add: drop_take)
  then have "GetDigestOffset1 q = GetDigestOffset1 p"
    using t12 p len by (simp add: GetDigestOffset1_def sum_4_def)
  moreover have "CalculateDigest h off q k = CalculateDigest h off p k" for h k
    using p len off front by (simp add: CalculateDigest_in)
  moreover have "take 32 (drop off q) = d" using assms by (simp add: q_def)
  moreover have "write_at off d p = Inr q" using assms by (simp add: write_at_def q_def)
  ultimately show ?thesis using that len t12 by blast
qed

lemma VerifyDigest_in:
  assumes "1536 \<le> length p" "off \<le> 1504"
  shows "VerifyDigest h off p k = Inr (take 32 (drop off p) = h k (take off p @ take (1504 - off) (drop (off + 32) p)))"
  using assms by (simp add: VerifyDigest_def CalculateDigest_in)

lemma make_signed_verifies:
  assumes h: "\<And>k m. length (h k m) = 32"
  obtains p off where "make_signed h now v = Inr p" "length p = 1536" "take 8 p = WriteInt32 now @ WriteInt32LE v"
    "GetDigestOffset1 p = Inr off" "12 \<le> off" "off < 740" "VerifyDigest h off p (take 36 GenuineFMSKey) = Inr True"
proof -
  define r where "r = WriteInt32 now @ WriteInt32LE v @ random_bytes 1528"
  have r: "length r = 1536" by (simp add: r_def)
  obtain off where off: "GetDigestOffset1 r = Inr off" "12 \<le> off" "off < 740"
    using GetDigestOffset_in [of r] r by force
  define d where "d = h (take 36 GenuineFMSKey) (take off r @ take (1504 - off) (drop (off + 32) r))"
  have d: "CalculateDigest h off r (take 36 GenuineFMSKey) = Inr d"
    using r off by (simp add: CalculateDigest_in d_def)
  obtain p where p: "write_at off d r = Inr p" "length p = 1536" "take 12 p = take 12 r" "take 32 (drop off p) = d"
      "\<And>h k. CalculateDigest h off p k = CalculateDigest h off r k" "GetDigestOffset1 p = GetDigestOffset1 r"
    using write_digest [OF r, of d off] off h by (auto simp: d_def)
  have "take 8 p = take 8 (take 12 p)" by simp
  also have "\<dots> = WriteInt32 now @ WriteInt32LE v" by (simp only: p(3)) (simp add: r_def)
  finally have "take 8 p = WriteInt32 now @ WriteInt32LE v" .
  moreover have "make_signed h now v = Inr p"
    using off d p(1) by (simp add: make_signed_def r_def)
  moreover have "VerifyDigest h off p (take 36 GenuineFMSKey) = Inr True"
    using p d off by (simp add: VerifyDigest_def)
  ultimately show ?thesis using that p off by auto
qed

section \<open>Properties\<close>

text \<open>
  C20. The packet S1 always carries a digest that verifies: with an HMAC of 32 bytes, \<open>MakeS1\<close> gives 1536
  bytes with the time and the version in front, the digest at the place the packet itself names
  verifies with the server's key, and \<open>MakeC2\<close> accepts the packet and echoes it with its version cleared.
\<close>

theorem S1_verifies:
  assumes "\<And>k m. length (h k m) = 32"
  shows "\<exists>p off. MakeS1 h now = Inr p \<and> length p = 1536 \<and> take 8 p = WriteInt32 now @ [0, 1, 0, 1] \<and>
           GetDigestOffset1 p = Inr off \<and> VerifyDigest h off p (take 36 GenuineFMSKey) = Inr True \<and>
           MakeC2 h p = Inr (Some (take 4 p @ [0, 0, 0, 0] @ drop 8 p))"
proof -
  obtain p off where p: "make_signed h now 0x01000100 = Inr p" "length p = 1536"
      "take 8 p = WriteInt32 now @ WriteInt32LE 0x01000100" "GetDigestOffset1 p = Inr off" "12 \<le> off" "off < 740"
      "VerifyDigest h off p (take 36 GenuineFMSKey) = Inr True"
    by (rule make_signed_verifies [of h now "0x01000100", OF assms])
  have "WriteInt32LE 0x01000100 = [0, 1, 0, 1]" by (simp add: WriteInt32LE_def drop_bit_eq_div)
  moreover have "MakeC2 h p = Inr (Some (take 4 p @ [0, 0, 0, 0] @ drop 8 p))"
    using p(2,4-7) by (simp add: MakeC2_def CalculateDigest_in VerifyDigest_in echo_def)
  ultimately show ?thesis
    using p(1-4,7) unfolding MakeS1_def by auto
qed

definition sample_hmac :: hmac where
  "sample_hmac key message = replicate 31 7 @ [of_nat (length message)]"

lemma S1_verifies_witness:
  "\<exists>p off. MakeS1 sample_hmac 5 = Inr p \<and> length p = 1536 \<and> take 8 p = WriteInt32 5 @ [0, 1, 0, 1] \<and>
     GetDigestOffset1 p = Inr off \<and> VerifyDigest sample_hmac off p (take 36 GenuineFMSKey) = Inr True \<and>
     MakeC2 sample_hmac p = Inr (Some (take 4 p @ [0, 0, 0, 0] @ drop 8 p))"
  by (rule S1_verifies) (simp add: sample_hmac_def)

text \<open>The client's digest at a place, and the two places it may have.\<close>

definition valid_digest :: "hmac \<Rightarrow> byte list \<Rightarrow> nat \<Rightarrow> bool" where
  "valid_digest h p off \<longleftrightarrow>
     take 32 (drop off p) = h (take 30 GenuineFPKey) (take off p @ take (1504 - off) (drop (off + 32) p))"

definition digest_places :: "byte list \<Rightarrow> nat list" where
  "digest_places p = [sum_list (map unat (take 4 (drop 8 p))) mod 728 + 12,
                      sum_list (map unat (take 4 (drop 772 p))) mod 728 + 776]"

text \<open>
  C21. \<open>MakeS2\<close> never faults on a packet of 1536 bytes. A client without a version, or whose packet has no
  valid digest at either place, gets its own bytes back; any other client gets the same 1504 random bytes
  and a digest of them, keyed with the digest of its own digest.
\<close>

theorem S2_answers:
  assumes "length p = 1536"
  shows "MakeS2 h p =
    Inr (case filter (valid_digest h p) (digest_places p) of
           [] \<Rightarrow> p
         | off # _ \<Rightarrow>
             if take 4 (drop 4 p) = [0, 0, 0, 0] then p
             else random_bytes 1504 @ h (h GenuineFMSKey (take 32 (drop off p))) (random_bytes 1504))"
proof -
  obtain o1 o2 where o: "digest_places p = [o1, o2]" "GetDigestOffset1 p = Inr o1" "o1 \<le> 1504"
      "GetDigestOffset2 p = Inr o2" "o2 \<le> 1504"
    using assms by (auto simp: digest_places_def GetDigestOffset1_def GetDigestOffset2_def sum_4_def)
  have v: "VerifyDigest h off p (take 30 GenuineFPKey) = Inr (valid_digest h p off)" if "off \<le> 1504" for off
    using that assms by (simp add: VerifyDigest_in valid_digest_def)
  have "echo p = Inr p" using assms by (simp add: echo_def)
  then show ?thesis
    using assms o v by (simp add: MakeS2_def HmacSha256_def Let_def split: list.split)
qed

lemma S2_answers_witness: "MakeS2 sample_hmac (replicate 1536 0) = Inr (replicate 1536 0)"
proof -
  have "replicate 4 (0 :: byte) = [0, 0, 0, 0]" by (simp add: numeral_eq_Suc)
  then show ?thesis using S2_answers [of "replicate 1536 0" sample_hmac] by (simp split: list.split_asm)
qed

end
