(* ===== verification/Rtmp_Stream_State.thy ===== *)
theory Rtmp_Stream_State
  imports Import_Chunk Export_Chunk Amf_Document Media_Types Url Ieee_Double Rtmp_Handshake
begin

text \<open>
  The state of an RTMP session (\<open>source/rtmp/rtmp_stream.h\<close>) and the messages it sends
  (\<open>source/rtmp/rtmp_stream.cpp\<close>). The two callbacks are present or not; what they are called with is
  logged in \<open>sent\<close> and \<open>events\<close>. The counters that are only written to the log file are left out. An
  operation gives its C++ result and the new state.
\<close>

unbundle bit_operations_syntax

section \<open>Data\<close>

text \<open>\<open>RtmpHandshakeState\<close>: \<open>Complete\<close> is another name of \<open>C2\<close>.\<close>

datatype handshake_state = HS_Uninitialized | HS_C0 | HS_C1 | HS_S0 | HS_S1 | HS_S2 | HS_C2

abbreviation HS_Complete :: handshake_state where "HS_Complete \<equiv> HS_C2"

datatype rtmp_codec_type = Codec_Unknown | Codec_H264 | Codec_AAC | Codec_MP3 | Codec_SPEEX

datatype rtmp_encoder_type = Encoder_Custom | Encoder_Xsplit | Encoder_OBS | Encoder_Lavf

record rtmp_media_info =
  video_stream_coming :: bool
  audio_stream_coming :: bool
  video_codec_type :: rtmp_codec_type
  video_width :: int
  video_height :: int
  video_framerate :: u32
  video_bitrate :: int
  audio_codec_type :: rtmp_codec_type
  audio_channels :: int
  audio_bits :: int
  audio_samplerate :: int
  audio_bitrate :: int
  encoder_type :: rtmp_encoder_type

definition new_media_info :: rtmp_media_info where
  "new_media_info = \<lparr>video_stream_coming = False, audio_stream_coming = False, video_codec_type = Codec_H264,
     video_width = 0, video_height = 0, video_framerate = 0, video_bitrate = 0, audio_codec_type = Codec_AAC,
     audio_channels = 0, audio_bits = 0, audio_samplerate = 0, audio_bitrate = 0, encoder_type = Encoder_Custom\<rparr>"

text \<open>Of a \<open>MediaTrack\<close> the fields the session sets; both timestamp scales are 1.0 and the time base is 1/1000.\<close>

datatype codec_id = CodecId_None | CodecId_H264 | CodecId_H265 | CodecId_Aac

datatype channel_layout = Layout_Unknown | Layout_Mono | Layout_Stereo

record media_track =
  track_id :: int
  track_media_type :: media_type
  track_codec_id :: codec_id
  track_width :: int
  track_height :: int
  track_framerate :: u32
  track_bitrate :: int
  track_samplerate :: int
  track_layout :: channel_layout
  track_extradata :: "byte list"

definition new_media_track :: media_track where
  "new_media_track = \<lparr>track_id = 0, track_media_type = Media_Unknown, track_codec_id = CodecId_None,
     track_width = 0, track_height = 0, track_framerate = 0, track_bitrate = 0, track_samplerate = 0,
     track_layout = Layout_Unknown, track_extradata = []\<rparr>"

datatype sny_codec_type = kCodecUnknown | kCodecAac | kCodecH264 | kCodecH265

datatype bitstream_format =
    kBitStreamUnknwon | kBitStreamH264AVCC | kBitStreamH264ANNEXB | kBitStreamH265HVCC | kBitStreamH265ANNEXB
  | kBitStreamAACLATM | kBitStreamAACADTS

record media_sample =
  sample_media_type :: media_type
  sample_codec_type :: sny_codec_type
  sample_format :: bitstream_format
  sample_key :: bool
  sample_dts :: int
  sample_pts :: int
  sample_duration :: int
  sample_track :: int
  sample_data :: "byte list"

datatype source_event =
    On_App_Stream_Name cstring cstring
  | On_Track "(int \<times> media_track) list"
  | On_Sample media_sample

section \<open>State\<close>

text \<open>The maps from track ids are lists in the order of the ids, as \<^verbatim>\<open>std::map\<close> keeps them.\<close>

record rtmp_stream =
  handshake_state :: handshake_state
  import_chunk :: import_chunk
  export_chunk :: export_chunk
  media_info :: rtmp_media_info
  message_cache :: "rtmp_message list"
  cache_video_count :: u32
  cache_audio_count :: u32
  acknowledgement_size :: u32
  acknowledgement_traffic :: u32
  rtmp_stream_id :: u32
  peer_bandwidth :: u32
  client_id :: u64
  chunk_stream_id :: u32
  stream_url :: "url option"
  full_url :: cstring
  tc_url :: cstring
  app_name :: cstring
  stream_name :: cstring
  device_string :: cstring
  published :: bool
  tracks :: "(int \<times> media_track) list"
  track_codec_types :: "(int \<times> sny_codec_type) list"
  track_info_sent :: bool
  incoming_data :: "byte list list"
  remained_data :: "byte list option"
  has_send_callback :: bool
  has_callback :: bool
  sent :: "byte list list"
  events :: "source_event list"

abbreviation RTMP_DEFAULT_CHUNK_SIZE :: nat where "RTMP_DEFAULT_CHUNK_SIZE \<equiv> 128"
abbreviation RTMP_DEFAULT_ACKNOWNLEDGEMENT_SIZE :: u32 where "RTMP_DEFAULT_ACKNOWNLEDGEMENT_SIZE \<equiv> 2500000"
abbreviation RTMP_DEFAULT_PEER_BANDWIDTH :: u32 where "RTMP_DEFAULT_PEER_BANDWIDTH \<equiv> 2500000"

text \<open>The constructor. The client id is 12345.0.\<close>

definition new_rtmp_stream :: "bool \<Rightarrow> bool \<Rightarrow> rtmp_stream" where
  "new_rtmp_stream send_callback callback =
     \<lparr>handshake_state = HS_Uninitialized, import_chunk = new_import_chunk RTMP_DEFAULT_CHUNK_SIZE,
      export_chunk = new_export_chunk False RTMP_DEFAULT_CHUNK_SIZE, media_info = new_media_info,
      message_cache = [], cache_video_count = 0, cache_audio_count = 0,
      acknowledgement_size = RTMP_DEFAULT_ACKNOWNLEDGEMENT_SIZE div 2, acknowledgement_traffic = 0,
      rtmp_stream_id = 1, peer_bandwidth = RTMP_DEFAULT_PEER_BANDWIDTH, client_id = 0x40C81C8000000000,
      chunk_stream_id = 0, stream_url = None, full_url = [], tc_url = [], app_name = [], stream_name = [],
      device_string = [], published = False, tracks = [], track_codec_types = [], track_info_sent = False,
      incoming_data = [], remained_data = None, has_send_callback = send_callback, has_callback = callback,
      sent = [], events = []\<rparr>"

text \<open>\<open>insert\<close> of \<^verbatim>\<open>std::map\<close> keeps an entry that is already there.\<close>

fun map_insert :: "int \<Rightarrow> 'a \<Rightarrow> (int \<times> 'a) list \<Rightarrow> (int \<times> 'a) list" where
  "map_insert k v [] = [(k, v)]"
| "map_insert k v ((k', v') # m) =
     (if k < k' then (k, v) # (k', v') # m else if k = k' then (k', v') # m else (k', v') # map_insert k v m)"

definition codec_of :: "codec_id \<Rightarrow> sny_codec_type" where
  "codec_of c = (case c of CodecId_H264 \<Rightarrow> kCodecH264 | CodecId_H265 \<Rightarrow> kCodecH265 | CodecId_Aac \<Rightarrow> kCodecAac
     | CodecId_None \<Rightarrow> kCodecUnknown)"

definition AddTrack :: "media_track \<Rightarrow> rtmp_stream \<Rightarrow> rtmp_stream" where
  "AddTrack track s =
     s\<lparr>tracks := map_insert (track_id track) track (tracks s),
       track_codec_types := map_insert (track_id track) (codec_of (track_codec_id track)) (track_codec_types s)\<rparr>"

definition GetTrack :: "int \<Rightarrow> rtmp_stream \<Rightarrow> media_track option" where
  "GetTrack tid s = map_of (tracks s) tid"

section \<open>Sending\<close>

abbreviation RTMP_CHUNK_STREAM_ID_URGENT :: u32 where "RTMP_CHUNK_STREAM_ID_URGENT \<equiv> 2"
abbreviation RTMP_MSGID_SET_CHUNK_SIZE :: byte where "RTMP_MSGID_SET_CHUNK_SIZE \<equiv> 1"
abbreviation RTMP_MSGID_ACKNOWLEDGEMENT :: byte where "RTMP_MSGID_ACKNOWLEDGEMENT \<equiv> 3"
abbreviation RTMP_MSGID_USER_CONTROL_MESSAGE :: byte where "RTMP_MSGID_USER_CONTROL_MESSAGE \<equiv> 4"
abbreviation RTMP_MSGID_WINDOWACKNOWLEDGEMENT_SIZE :: byte where "RTMP_MSGID_WINDOWACKNOWLEDGEMENT_SIZE \<equiv> 5"
abbreviation RTMP_MSGID_SET_PEERBANDWIDTH :: byte where "RTMP_MSGID_SET_PEERBANDWIDTH \<equiv> 6"
abbreviation RTMP_MSGID_AUDIO_MESSAGE :: byte where "RTMP_MSGID_AUDIO_MESSAGE \<equiv> 8"
abbreviation RTMP_MSGID_VIDEO_MESSAGE :: byte where "RTMP_MSGID_VIDEO_MESSAGE \<equiv> 9"
abbreviation RTMP_MSGID_AMF0_DATA_MESSAGE :: byte where "RTMP_MSGID_AMF0_DATA_MESSAGE \<equiv> 18"
abbreviation RTMP_MSGID_AMF0_COMMAND_MESSAGE :: byte where "RTMP_MSGID_AMF0_COMMAND_MESSAGE \<equiv> 20"

definition SendData :: "byte list \<Rightarrow> rtmp_stream \<Rightarrow> rtmp_stream" where
  "SendData bytes s = (if has_send_callback s then s\<lparr>sent := sent s @ [bytes]\<rparr> else s)"

definition SendMessagePacket :: "mux_message_header \<Rightarrow> byte list \<Rightarrow> rtmp_stream \<Rightarrow> (bool \<times> rtmp_stream) res" where
  "SendMessagePacket message_header body s =
     bindR (ExportStreamData (export_chunk s) (Some message_header) body) (\<lambda>(export_data, e).
       let s = s\<lparr>export_chunk := e\<rparr> in
       Inr (case export_data of None \<Rightarrow> (False, s) | Some bytes \<Rightarrow> (True, SendData bytes s)))"

definition mux_header :: "u32 \<Rightarrow> byte \<Rightarrow> u32 \<Rightarrow> nat \<Rightarrow> mux_message_header" where
  "mux_header csid type_id sid body_size =
     \<lparr>mux_chunk_stream_id = csid, mux_timestamp = 0, mux_type_id = type_id, mux_stream_id = sid,
      mux_body_size = of_nat body_size\<rparr>"

definition SendUserControlMessage :: "u16 \<Rightarrow> byte list \<Rightarrow> rtmp_stream \<Rightarrow> (bool \<times> rtmp_stream) res" where
  "SendUserControlMessage message body s =
     SendMessagePacket (mux_header RTMP_CHUNK_STREAM_ID_URGENT RTMP_MSGID_USER_CONTROL_MESSAGE 0 (length body + 2))
       (WriteInt16 message @ body) s"

definition SendWindowAcknowledgementSize :: "u32 \<Rightarrow> rtmp_stream \<Rightarrow> (bool \<times> rtmp_stream) res" where
  "SendWindowAcknowledgementSize sz s =
     SendMessagePacket (mux_header RTMP_CHUNK_STREAM_ID_URGENT RTMP_MSGID_WINDOWACKNOWLEDGEMENT_SIZE (rtmp_stream_id s) 4)
       (WriteInt32 sz) s"

definition SendAcknowledgementSize :: "u32 \<Rightarrow> rtmp_stream \<Rightarrow> (bool \<times> rtmp_stream) res" where
  "SendAcknowledgementSize traffic s =
     SendMessagePacket (mux_header RTMP_CHUNK_STREAM_ID_URGENT RTMP_MSGID_ACKNOWLEDGEMENT 0 4) (WriteInt32 traffic) s"

definition SendSetPeerBandwidth :: "u32 \<Rightarrow> rtmp_stream \<Rightarrow> (bool \<times> rtmp_stream) res" where
  "SendSetPeerBandwidth bandwidth s =
     SendMessagePacket (mux_header RTMP_CHUNK_STREAM_ID_URGENT RTMP_MSGID_SET_PEERBANDWIDTH (rtmp_stream_id s) 5)
       (WriteInt32 bandwidth @ WriteInt8 2) s"

definition SendStreamBegin :: "rtmp_stream \<Rightarrow> (bool \<times> rtmp_stream) res" where
  "SendStreamBegin s = SendUserControlMessage 0 (WriteInt32 (rtmp_stream_id s)) s"

definition SendStreamEnd :: "rtmp_stream \<Rightarrow> (bool \<times> rtmp_stream) res" where
  "SendStreamEnd s = SendUserControlMessage 1 (WriteInt32 (rtmp_stream_id s)) s"

text \<open>The document is encoded into a buffer of 2048 bytes; its size becomes the size in the header.\<close>

definition SendAmfCommand :: "mux_message_header \<Rightarrow> amf_document \<Rightarrow> rtmp_stream \<Rightarrow> (bool \<times> rtmp_stream) res" where
  "SendAmfCommand message_header document s =
     (let body = document_Encode document in
      if 2048 < length body then Inl Over_Write
      else if body = [] then Inr (False, s)
      else SendMessagePacket (message_header\<lparr>mux_body_size := of_nat (length body)\<rparr>) body s)"

text \<open>Several \<open>AddProperty\<close> calls on one object, with literal names.\<close>

fun add_fields :: "(string \<times> amf_property) list \<Rightarrow> property_pairs \<Rightarrow> property_pairs res" where
  "add_fields [] ps = Inr ps"
| "add_fields ((name, p) # fs) ps = bindR (add_pair (Some (lit name)) p ps) (\<lambda>(_, ps). add_fields fs ps)"

definition SendAmfConnectResult :: "u32 \<Rightarrow> u64 \<Rightarrow> u64 \<Rightarrow> rtmp_stream \<Rightarrow> (bool \<times> rtmp_stream) res" where
  "SendAmfConnectResult csid transaction_id object_encoding s =
     bindR (add_fields [(''fmsVer'', AmfString (lit ''FMS/3,5,2,654'')), (''capabilities'', AmfNumber 0x403F000000000000),
       (''mode'', AmfNumber 0x3FF0000000000000)] []) (\<lambda>properties.
     bindR (add_fields [(''version'', AmfString (lit ''3,5,2,654''))] []) (\<lambda>array.
     bindR (add_fields [(''level'', AmfString (lit ''status'')), (''code'', AmfString (lit ''NetConnection.Connect.Success'')),
       (''description'', AmfString (lit ''Connection succeeded.'')), (''clientid'', AmfNumber (client_id s)),
       (''objectEncoding'', AmfNumber object_encoding), (''data'', AmfArray array)] []) (\<lambda>information.
       SendAmfCommand (mux_header csid RTMP_MSGID_AMF0_COMMAND_MESSAGE (rtmp_stream_id s) 0)
         [AmfString (lit ''_result''), AmfNumber transaction_id, AmfObject properties, AmfObject information] s)))"

text \<open>The documents of \<open>onFCPublish\<close> and \<open>onStatus\<close>; transaction 0 and no command object.\<close>

definition status_document :: "string \<Rightarrow> cstring \<Rightarrow> cstring \<Rightarrow> cstring \<Rightarrow> u64 \<Rightarrow> amf_document res" where
  "status_document name level code description cid =
     bindR (add_fields [(''level'', AmfString level), (''code'', AmfString code), (''description'', AmfString description),
       (''clientid'', AmfNumber cid)] []) (\<lambda>obj.
       Inr [AmfString (lit name), AmfNumber 0, AmfNull, AmfObject obj])"

definition SendAmfOnFCPublish :: "u32 \<Rightarrow> u32 \<Rightarrow> u64 \<Rightarrow> rtmp_stream \<Rightarrow> (bool \<times> rtmp_stream) res" where
  "SendAmfOnFCPublish csid sid cid s =
     bindR (status_document ''onFCPublish'' (lit ''status'') (lit ''NetStream.Publish.Start'') (lit ''FCPublish'') cid)
       (\<lambda>document. SendAmfCommand (mux_header csid RTMP_MSGID_AMF0_COMMAND_MESSAGE (rtmp_stream_id s) 0) document s)"

definition SendAmfCreateStreamResult :: "u32 \<Rightarrow> u64 \<Rightarrow> rtmp_stream \<Rightarrow> (bool \<times> rtmp_stream) res" where
  "SendAmfCreateStreamResult csid transaction_id s =
     (let s = s\<lparr>rtmp_stream_id := 1\<rparr> in
      SendAmfCommand (mux_header csid RTMP_MSGID_AMF0_COMMAND_MESSAGE 0 0)
        [AmfString (lit ''_result''), AmfNumber transaction_id, AmfNull, AmfNumber 0x3FF0000000000000] s)"

definition SendAmfOnStatus :: "u32 \<Rightarrow> u32 \<Rightarrow> string \<Rightarrow> string \<Rightarrow> string \<Rightarrow> u64 \<Rightarrow> rtmp_stream \<Rightarrow> (bool \<times> rtmp_stream) res" where
  "SendAmfOnStatus csid sid level code description cid s =
     bindR (status_document ''onStatus'' (lit level) (lit code) (lit description) cid)
       (\<lambda>document. SendAmfCommand (mux_header csid RTMP_MSGID_AMF0_COMMAND_MESSAGE sid 0) document s)"

text \<open>S0, S1 and S2; the state follows each step. \<open>data\<close> begins with C0.\<close>

definition SendHandshake :: "hmac \<Rightarrow> u32 \<Rightarrow> byte list \<Rightarrow> rtmp_stream \<Rightarrow> (bool \<times> rtmp_stream) res" where
  "SendHandshake hmac now data s =
     bindR (MakeS1 hmac now) (\<lambda>s1.
     bindR (MakeS2 hmac (drop 1 data)) (\<lambda>s2.
       let s = SendData [RTMP_HANDSHAKE_VERSION] (s\<lparr>handshake_state := HS_C1\<rparr>);
           s = SendData s1 (s\<lparr>handshake_state := HS_S0\<rparr>);
           s = SendData s2 (s\<lparr>handshake_state := HS_S1\<rparr>)
       in Inr (True, s\<lparr>handshake_state := HS_S2\<rparr>)))"

end
