(* ===== verification/Rtmp_Stream_Amf.thy ===== *)
theory Rtmp_Stream_Amf
  imports Rtmp_Stream_State
begin

text \<open>
  The handlers of AMF commands and of the metadata (\<open>source/rtmp/rtmp_stream.cpp\<close>, from \<open>OnAmfConnect\<close> to
  \<open>OnAmfDeleteStream\<close>, \<open>ReceiveAmfCommandMessage\<close> and \<open>ReceiveAmfDataMessage\<close>).
\<close>

unbundle bit_operations_syntax

section \<open>Reading an object\<close>

definition find_field :: "property_pairs \<Rightarrow> string \<Rightarrow> int" where
  "find_field object name = FindName object (Some (lit name))"

definition has_field :: "property_pairs \<Rightarrow> string \<Rightarrow> amf_data_type \<Rightarrow> bool" where
  "has_field object name ty \<longleftrightarrow>
     0 \<le> find_field object name \<and> array_GetType object (find_field object name) = ty"

definition number_field :: "property_pairs \<Rightarrow> string \<Rightarrow> u64" where
  "number_field object name = array_GetNumber object (find_field object name)"

text \<open>The assignment of a \<^verbatim>\<open>const char*\<close> to an \<^verbatim>\<open>ov::String\<close>; a null pointer empties the string.\<close>

definition string_field :: "property_pairs \<Rightarrow> string \<Rightarrow> cstring" where
  "string_field object name =
     (case array_GetString object (find_field object name) of None \<Rightarrow> [] | Some v \<Rightarrow> v)"

definition number_or :: "property_pairs \<Rightarrow> string \<Rightarrow> u64 \<Rightarrow> u64" where
  "number_or object name dflt =
     (if has_field object name TypeNumber then number_field object name else dflt)"

definition string_is :: "property_pairs \<Rightarrow> string \<Rightarrow> string \<Rightarrow> bool" where
  "string_is object name s \<longleftrightarrow> has_field object name TypeString \<and> string_field object name = lit s"

definition number_is :: "property_pairs \<Rightarrow> string \<Rightarrow> u64 \<Rightarrow> bool" where
  "number_is object name d \<longleftrightarrow> has_field object name TypeNumber \<and> number_field object name = d"

definition property_is :: "amf_document \<Rightarrow> int \<Rightarrow> amf_data_type \<Rightarrow> bool" where
  "property_is document i ty \<longleftrightarrow>
     (case GetProperty document i of None \<Rightarrow> False | Some p \<Rightarrow> property_GetType p = ty)"

definition string_property :: "amf_document \<Rightarrow> int \<Rightarrow> cstring" where
  "string_property document i =
     (case GetProperty document i of None \<Rightarrow> [] | Some p \<Rightarrow> (case property_GetString p of None \<Rightarrow> [] | Some v \<Rightarrow> v))"

section \<open>Commands\<close>

text \<open>A sequence of sends; the first one that fails ends it.\<close>

definition and_then ::
    "(rtmp_stream \<Rightarrow> (bool \<times> rtmp_stream) res) \<Rightarrow> (rtmp_stream \<Rightarrow> (bool \<times> rtmp_stream) res) \<Rightarrow>
     rtmp_stream \<Rightarrow> (bool \<times> rtmp_stream) res" where
  "and_then f g s = bindR (f s) (\<lambda>(ok, s). if ok then g s else Inr (False, s))"

definition discard_ok :: "(bool \<times> rtmp_stream) res \<Rightarrow> rtmp_stream res" where
  "discard_ok r = bindR r (\<lambda>(_, s). Inr s)"

definition OnAmfConnect :: "chunk_header \<Rightarrow> amf_document \<Rightarrow> u64 \<Rightarrow> rtmp_stream \<Rightarrow> rtmp_stream res" where
  "OnAmfConnect h document transaction_id s =
     bindR (if property_is document 2 TypeObject then
              (case property_GetAmfObject (document ! 2) of
                 None \<Rightarrow> Inl Null_Deref
               | Some object \<Rightarrow>
                   Inr (number_or object ''objectEncoding'' 0,
                     s\<lparr>app_name := if has_field object ''app'' TypeString then string_field object ''app'' else app_name s,
                       tc_url := if has_field object ''tcUrl'' TypeString then string_field object ''tcUrl'' else tc_url s\<rparr>))
            else Inr (0, s)) (\<lambda>(object_encoding, s).
     bindR (Url_Parse (tc_url s)) (\<lambda>u.
       discard_ok (and_then (SendWindowAcknowledgementSize RTMP_DEFAULT_ACKNOWNLEDGEMENT_SIZE)
         (and_then (\<lambda>s. SendSetPeerBandwidth (peer_bandwidth s) s)
         (and_then SendStreamBegin
           (SendAmfConnectResult (stream_id h) transaction_id object_encoding))) (s\<lparr>stream_url := u\<rparr>))))"

definition OnAmfCreateStream :: "chunk_header \<Rightarrow> amf_document \<Rightarrow> u64 \<Rightarrow> rtmp_stream \<Rightarrow> rtmp_stream res" where
  "OnAmfCreateStream h document transaction_id s =
     discard_ok (SendAmfCreateStreamResult (stream_id h) transaction_id s)"

text \<open>
  The stream name of a publish command: the URL is the connection's URL, a slash and the name. The parsed
  URL is used without a test for the null pointer.
\<close>

definition set_stream_name :: "cstring \<Rightarrow> rtmp_stream \<Rightarrow> rtmp_stream res" where
  "set_stream_name name s =
     (let url_text = tc_url s @ [47] @ name in
      bindR (Url_Parse url_text) (\<lambda>u.
        case u of
          None \<Rightarrow> Inl Null_Deref
        | Some u \<Rightarrow>
            Inr (s\<lparr>full_url := url_text, stream_url := Some (if url_port u = 0 then SetConnPort 836 u else u),
                   stream_name := url_stream u\<rparr>)))"

definition OnAmfFCPublish :: "chunk_header \<Rightarrow> amf_document \<Rightarrow> u64 \<Rightarrow> rtmp_stream \<Rightarrow> rtmp_stream res" where
  "OnAmfFCPublish h document transaction_id s =
     (if stream_name s = [] \<and> property_is document 3 TypeString then
        bindR (SendAmfOnFCPublish (stream_id h) (rtmp_stream_id s) (client_id s) s) (\<lambda>(ok, s).
          if ok then set_stream_name (string_property document 3) s else Inr s)
      else Inr s)"

definition OnAmfPublish :: "chunk_header \<Rightarrow> amf_document \<Rightarrow> u64 \<Rightarrow> rtmp_stream \<Rightarrow> rtmp_stream res" where
  "OnAmfPublish h document transaction_id s =
     (if stream_name s = [] \<and> \<not> property_is document 3 TypeString then
        discard_ok (SendAmfOnStatus (stream_id h) (rtmp_stream_id s) ''error'' ''NetStream.Publish.Rejected''
          ''Authentication Failed.'' (client_id s) s)
      else
        bindR (if stream_name s = [] then set_stream_name (string_property document 3) s else Inr s) (\<lambda>s.
          discard_ok (and_then SendStreamBegin
            (\<lambda>s. SendAmfOnStatus (chunk_stream_id s) (rtmp_stream_id s) ''status'' ''NetStream.Publish.Start''
              ''Publishing'' (client_id s) s) (s\<lparr>chunk_stream_id := stream_id h\<rparr>))))"

text \<open>It has no caller: the command is ignored.\<close>

definition OnAmfDeleteStream :: "rtmp_stream \<Rightarrow> rtmp_stream" where
  "OnAmfDeleteStream s =
     s\<lparr>media_info := (media_info s)\<lparr>video_stream_coming := False, audio_stream_coming := False\<rparr>\<rparr>"

text \<open>The result of the C++ function is not used; \<open>message_name\<close> selects the handler.\<close>

definition ReceiveAmfCommandMessage :: "rtmp_message \<Rightarrow> rtmp_stream \<Rightarrow> rtmp_stream res" where
  "ReceiveAmfCommandMessage message s =
     (let h = msg_header message in
      bindR (document_Decode (msg_payload message) (uint (payload_size h)) []) (\<lambda>(n, document).
        if n = 0 then Inr s
        else if \<not> property_is document 0 TypeString then Inr s
        else
          let message_name = string_property document 0;
              transaction_id = (if property_is document 1 TypeNumber then property_GetNumber (document ! 1) else 0) in
          if message_name = lit ''connect'' then OnAmfConnect h document transaction_id s
          else if message_name = lit ''createStream'' then OnAmfCreateStream h document transaction_id s
          else if message_name = lit ''FCPublish'' then OnAmfFCPublish h document transaction_id s
          else if message_name = lit ''publish'' then OnAmfPublish h document transaction_id s
          else Inr s))"

section \<open>Metadata\<close>

text \<open>\<^verbatim>\<open>IndexOf(str) >= 0\<close>: the empty string contains nothing.\<close>

definition contains :: "cstring \<Rightarrow> string \<Rightarrow> bool" where
  "contains s pat \<longleftrightarrow> s \<noteq> [] \<and> strstr s (lit pat) \<noteq> None"

definition encoder_of :: "cstring \<Rightarrow> rtmp_encoder_type" where
  "encoder_of device =
     (if contains device ''Open Broadcaster'' then Encoder_OBS
      else if contains device ''obs-output'' then Encoder_OBS
      else if contains device ''XSplitBroadcaster'' then Encoder_Xsplit
      else if contains device ''Lavf'' then Encoder_Lavf else Encoder_Custom)"

text \<open>The doubles 7.0, 10.0, 11.0 and 2.0 have one bit pattern each.\<close>

definition video_codec_of :: "property_pairs \<Rightarrow> rtmp_codec_type" where
  "video_codec_of object =
     (if string_is object ''videocodecid'' ''avc1'' \<or> string_is object ''videocodecid'' ''H264Avc'' \<or>
         number_is object ''videocodecid'' 0x401C000000000000
      then Codec_H264 else Codec_Unknown)"

definition audio_codec_of :: "property_pairs \<Rightarrow> rtmp_codec_type" where
  "audio_codec_of object =
     (let is = string_is object ''audiocodecid''; num = number_is object ''audiocodecid'' in
      if is ''mp4a'' then Codec_AAC else if is ''mp3'' then Codec_MP3 else if is ''.mp3'' then Codec_MP3
      else if is ''speex'' then Codec_SPEEX else if num 0x4024000000000000 then Codec_AAC
      else if num 0x4026000000000000 then Codec_SPEEX else if num 0x4000000000000000 then Codec_MP3
      else Codec_Unknown)"

text \<open>
  The video bit rate as an \<^verbatim>\<open>int32_t\<close>: the text of \<open>maxBitrate\<close> is read with \<open>strtol\<close>, and becomes a double
  before the conversion.
\<close>

definition video_bitrate_of :: "property_pairs \<Rightarrow> int res" where
  "video_bitrate_of object =
     (if has_field object ''maxBitrate'' TypeString then
        let v = strtol 0 (string_field object ''maxBitrate'') in
        if - (2 ^ 31) \<le> v \<and> v < 2 ^ 31 then Inr v else Inl Bad_Cast
      else double_to_int32 (number_or object ''bitrate'' (number_or object ''videodatarate'' 0)))"

definition audio_channels_of :: "property_pairs \<Rightarrow> u64" where
  "audio_channels_of object =
     (if has_field object ''audiochannels'' TypeNumber then number_field object ''audiochannels''
      else if string_is object ''audiochannels'' ''stereo'' then 0x4000000000000000
      else 0x3FF0000000000000)"

text \<open>These two fields are read whatever their type; another type than a number gives 0.\<close>

definition number_or_zero :: "property_pairs \<Rightarrow> string \<Rightarrow> u64" where
  "number_or_zero object name = (if 0 \<le> find_field object name then number_field object name else 0)"

definition OnAmfMetaData :: "amf_document \<Rightarrow> int \<Rightarrow> rtmp_stream \<Rightarrow> rtmp_stream res" where
  "OnAmfMetaData document object_index s =
     (case GetProperty document object_index of
        None \<Rightarrow> Inl Null_Deref
      | Some p \<Rightarrow>
       (case (if property_GetType p = TypeObject then property_GetAmfObject p else property_GetArray p) of
          None \<Rightarrow> Inl Null_Deref
        | Some object \<Rightarrow>
          let device = (if has_field object ''videodevice'' TypeString then string_field object ''videodevice''
                        else if has_field object ''encoder'' TypeString then string_field object ''encoder''
                        else device_string s);
              frame_rate = (if has_field object ''framerate'' TypeNumber then number_field object ''framerate''
                            else number_or object ''videoframerate'' 0x403E000000000000);
              audio_rate = (if has_field object ''audiodatarate'' TypeNumber then number_field object ''audiodatarate''
                            else number_or object ''audiobitrate'' 0) in
          bindR (double_to_int32 (number_or object ''width'' 0)) (\<lambda>width.
          bindR (double_to_int32 (number_or object ''height'' 0)) (\<lambda>height.
          bindR (video_bitrate_of object) (\<lambda>vbitrate.
          bindR (double_to_int32 audio_rate) (\<lambda>abitrate.
          bindR (double_to_int32 (audio_channels_of object)) (\<lambda>channels.
          bindR (double_to_int32 (number_or_zero object ''audiosamplesize'')) (\<lambda>bits.
          bindR (double_to_int32 (number_or_zero object ''audiosamplerate'')) (\<lambda>samplerate.
            Inr (s\<lparr>device_string := device,
              media_info := (media_info s)\<lparr>video_codec_type := video_codec_of object, video_width := width,
                video_height := height, video_framerate := double_to_float frame_rate, video_bitrate := vbitrate,
                audio_codec_type := audio_codec_of object, audio_bitrate := abitrate, audio_channels := channels,
                audio_bits := bits, audio_samplerate := samplerate, encoder_type := encoder_of device\<rparr>\<rparr>))))))))))"

definition ReceiveAmfDataMessage :: "rtmp_message \<Rightarrow> rtmp_stream \<Rightarrow> rtmp_stream res" where
  "ReceiveAmfDataMessage message s =
     bindR (document_Decode (msg_payload message) (uint (payload_size (msg_header message))) []) (\<lambda>(n, document).
       if n = 0 then Inr s
       else if property_is document 0 TypeString \<and> string_property document 0 = lit ''@setDataFrame'' \<and>
               property_is document 1 TypeString \<and> string_property document 1 = lit ''onMetaData'' \<and>
               (property_is document 2 TypeObject \<or> property_is document 2 TypeArray)
            then OnAmfMetaData document 2 s
            else Inr s)"

end
