(* ===== verification/Rtmp_Stream_Media.thy ===== *)
theory Rtmp_Stream_Media
  imports Rtmp_Stream_State Flv_Parser Aac Avc_Converter
begin

text \<open>
  Audio and video of an RTMP session (\<open>source/rtmp/rtmp_stream.cpp\<close>): messages are cached until the stream
  is published, then they become samples for the application.
\<close>

unbundle bit_operations_syntax

abbreviation RTMP_VIDEO_TRACK_ID :: int where "RTMP_VIDEO_TRACK_ID \<equiv> 0"
abbreviation RTMP_AUDIO_TRACK_ID :: int where "RTMP_AUDIO_TRACK_ID \<equiv> 1"
abbreviation RTMP_VIDEO_DATA_MIN_SIZE :: nat where "RTMP_VIDEO_DATA_MIN_SIZE \<equiv> 5"
abbreviation RTMP_AAC_AUDIO_DATA_MIN_SIZE :: nat where "RTMP_AAC_AUDIO_DATA_MIN_SIZE \<equiv> 2"
abbreviation MAX_STREAM_MESSAGE_COUNT :: u32 where "MAX_STREAM_MESSAGE_COUNT \<equiv> 100"

section \<open>Tracks\<close>

text \<open>Kbps to bps, in \<^verbatim>\<open>int\<close>.\<close>

definition times_1000 :: "int \<Rightarrow> int res" where
  "times_1000 x = (if - (2 ^ 31) \<le> x * 1000 \<and> x * 1000 < 2 ^ 31 then Inr (x * 1000) else Inl Int_Overflow)"

definition SetTrackInfo :: "rtmp_media_info \<Rightarrow> rtmp_stream \<Rightarrow> rtmp_stream res" where
  "SetTrackInfo mi s =
     bindR (if video_stream_coming mi then
              bindR (times_1000 (video_bitrate mi)) (\<lambda>bitrate.
                Inr (AddTrack (new_media_track\<lparr>track_id := RTMP_VIDEO_TRACK_ID, track_media_type := Media_Video,
                  track_codec_id := CodecId_H264, track_width := video_width mi, track_height := video_height mi,
                  track_framerate := video_framerate mi, track_bitrate := bitrate\<rparr>) s))
            else Inr s) (\<lambda>s.
     if audio_stream_coming mi then
       bindR (times_1000 (audio_bitrate mi)) (\<lambda>bitrate.
         Inr (AddTrack (new_media_track\<lparr>track_id := RTMP_AUDIO_TRACK_ID, track_media_type := Media_Audio,
           track_codec_id := CodecId_Aac, track_samplerate := audio_samplerate mi, track_bitrate := bitrate,
           track_layout := (if audio_channels mi = 1 then Layout_Mono
                            else if audio_channels mi = 2 then Layout_Stereo else Layout_Unknown)\<rparr>) s))
     else Inr s)"

section \<open>Samples\<close>

record media_packet =
  packet_media_type :: media_type
  packet_track_id :: int
  packet_data :: "byte list"
  packet_pts :: int
  packet_dts :: int
  packet_key :: bool
  packet_type :: packet_type

text \<open>The tracks are announced with the first sample for which every track has its extradata.\<close>

definition SendFrame :: "media_sample \<Rightarrow> rtmp_stream \<Rightarrow> rtmp_stream" where
  "SendFrame sample s =
     (let s1 = (if track_info_sent s then s
                else
                  let ready = list_all (\<lambda>(_, track). track_extradata track \<noteq> []) (tracks s) in
                  s\<lparr>track_info_sent := ready,
                    events := events s @ (if ready \<and> has_callback s
                      then [On_App_Stream_Name (app_name s) (stream_name s), On_Track (tracks s)] else [])\<rparr>)
      in if track_info_sent s1 \<and> has_callback s1 then s1\<lparr>events := events s1 @ [On_Sample sample]\<rparr> else s1)"

text \<open>\<open>SetCodecExtradata\<close> of the track with an id; the map and the caller share the object.\<close>

definition SetCodecExtradata :: "int \<Rightarrow> byte list \<Rightarrow> rtmp_stream \<Rightarrow> rtmp_stream" where
  "SetCodecExtradata tid extradata s =
     s\<lparr>tracks := map (\<lambda>(i, track). (i, if i = tid then track\<lparr>track_extradata := extradata\<rparr> else track)) (tracks s)\<rparr>"

definition codec_type_of :: "int \<Rightarrow> rtmp_stream \<Rightarrow> sny_codec_type" where
  "codec_type_of tid s = (case map_of (track_codec_types s) tid of None \<Rightarrow> kCodecAac | Some c \<Rightarrow> c)"

text \<open>
  A sequence header becomes the extradata of a track that has none, if it can be parsed; any other packet
  becomes a sample.
\<close>

definition ConvertToSnyMediaSample :: "media_track \<Rightarrow> media_packet \<Rightarrow> rtmp_stream \<Rightarrow> (bool \<times> rtmp_stream) res" where
  "ConvertToSnyMediaSample track packet s =
     (let video = (packet_media_type packet = Media_Video) in
      bindR (if packet_type packet = Packet_SEQUENCE_HEADER \<and> track_extradata track = [] then
               (if video then H264AvccToAnnexB_GetExtradata (packet_type packet) (packet_data packet) []
                else AACLatmToAdts_GetExtradata (packet_type packet) (packet_data packet) [])
             else Inr (False, [])) (\<lambda>(taken, extradata).
        if taken then Inr (False, SetCodecExtradata (track_id track) extradata s)
        else Inr (True, SendFrame
          \<lparr>sample_media_type = packet_media_type packet, sample_codec_type = codec_type_of (track_id track) s,
           sample_format = (if video then kBitStreamH264AVCC else kBitStreamAACLATM),
           sample_key = (if video then packet_key packet else True), sample_dts = packet_dts packet,
           sample_pts = packet_pts packet, sample_duration = 0, sample_track = track_id track,
           sample_data = packet_data packet\<rparr> s)))"

section \<open>Receiving media\<close>

definition CheckReadyToPublish :: "rtmp_stream \<Rightarrow> bool" where
  "CheckReadyToPublish s =
     (if video_stream_coming (media_info s) \<and> audio_stream_coming (media_info s) then True
      else if video_stream_coming (media_info s) \<and> MAX_STREAM_MESSAGE_COUNT div 2 < cache_video_count s then True
      else if audio_stream_coming (media_info s) \<and> MAX_STREAM_MESSAGE_COUNT div 2 < cache_audio_count s then True
      else False)"

text \<open>The packets made of a parsed video or audio tag.\<close>

definition video_packet :: "flv_video_data \<Rightarrow> int \<Rightarrow> int \<Rightarrow> media_packet" where
  "video_packet flv_video pts dts =
     \<lparr>packet_media_type = Media_Video, packet_track_id = RTMP_VIDEO_TRACK_ID, packet_data = fv_payload flv_video,
      packet_pts = pts, packet_dts = dts, packet_key = (fv_frame_type flv_video = KEY_FRAME),
      packet_type = (if fv_packet_type flv_video = AVC_SEQUENCE_HEADER then Packet_SEQUENCE_HEADER
                     else if fv_packet_type flv_video = AVC_NALU then Packet_NALU else Packet_Unknown)\<rparr>"

definition audio_packet :: "flv_audio_data \<Rightarrow> int \<Rightarrow> int \<Rightarrow> media_packet" where
  "audio_packet flv_audio pts dts =
     \<lparr>packet_media_type = Media_Audio, packet_track_id = RTMP_AUDIO_TRACK_ID, packet_data = fa_payload flv_audio,
      packet_pts = pts, packet_dts = dts, packet_key = True,
      packet_type = (if fa_packet_type flv_audio = FlvAAC_SEQUENCE_HEADER then Packet_SEQUENCE_HEADER
                     else if fa_packet_type flv_audio = FlvAAC_RAW then Packet_RAW else Packet_Unknown)\<rparr>"

text \<open>
  The part of \<open>ReceiveVideoMessage\<close> that makes a sample. The record of a sequence header is parsed and
  thrown away.
\<close>

definition video_callback :: "rtmp_message \<Rightarrow> rtmp_stream \<Rightarrow> (bool \<times> rtmp_stream) res" where
  "video_callback message s =
     (if video_stream_coming (media_info s) then
        bindR (FlvVideoData_Parse (msg_payload message)) (\<lambda>flv.
          case flv of
            None \<Rightarrow> Inr (False, s)
          | Some flv_video \<Rightarrow>
            let dts = completed_timestamp (completed (msg_header message));
                pts = dts + uint (fv_composition_time flv_video) in
            case GetTrack RTMP_VIDEO_TRACK_ID s of
              None \<Rightarrow> Inr (False, s)
            | Some track \<Rightarrow>
              bindR (times_one dts) (\<lambda>dts.
              bindR (times_one pts) (\<lambda>pts.
              bindR (if fv_packet_type flv_video = AVC_SEQUENCE_HEADER
                     then bindR (AVC_Parse (fv_payload flv_video)) (\<lambda>_. Inr ()) else Inr ()) (\<lambda>_.
                if fv_packet_type flv_video = AVC_END_SEQUENCE then Inr (True, s)
                else bindR (ConvertToSnyMediaSample track (video_packet flv_video pts dts) s) (\<lambda>(_, s).
                       Inr (True, s))))))
      else Inr (True, s))"

definition audio_callback :: "rtmp_message \<Rightarrow> rtmp_stream \<Rightarrow> (bool \<times> rtmp_stream) res" where
  "audio_callback message s =
     (if audio_stream_coming (media_info s) then
        bindR (FlvAudioData_Parse (msg_payload message)) (\<lambda>flv.
          case flv of
            None \<Rightarrow> Inr (False, s)
          | Some flv_audio \<Rightarrow>
            let pts = completed_timestamp (completed (msg_header message)); dts = pts in
            case GetTrack RTMP_AUDIO_TRACK_ID s of
              None \<Rightarrow> Inr (False, s)
            | Some track \<Rightarrow>
              bindR (times_one pts) (\<lambda>pts.
              bindR (times_one dts) (\<lambda>dts.
              bindR (if fa_packet_type flv_audio = FlvAAC_SEQUENCE_HEADER
                     then bindR (AACSpecificConfig_Parse (fa_payload flv_audio)) (\<lambda>_. Inr ()) else Inr ()) (\<lambda>_.
                bindR (ConvertToSnyMediaSample track (audio_packet flv_audio pts dts) s) (\<lambda>(_, s).
                  Inr (True, s))))))
      else Inr (True, s))"

definition video_size_ok :: "rtmp_message \<Rightarrow> bool" where
  "video_size_ok message \<longleftrightarrow> RTMP_VIDEO_DATA_MIN_SIZE \<le> unat (payload_size (msg_header message)) \<and>
     unat (payload_size (msg_header message)) \<le> RTMP_MAX_PACKET_SIZE"

definition audio_size_ok :: "rtmp_message \<Rightarrow> bool" where
  "audio_size_ok message \<longleftrightarrow> RTMP_AAC_AUDIO_DATA_MIN_SIZE \<le> unat (payload_size (msg_header message)) \<and>
     unat (payload_size (msg_header message)) \<le> RTMP_MAX_PACKET_SIZE"

text \<open>
  \<open>PublishStream\<close> calls \<open>ReceiveVideoMessage\<close> and \<open>ReceiveAudioMessage\<close> again for the cached messages. The
  stream counts as published then, so that these calls test the size and make a sample; their results
  are not used.
\<close>

fun replay :: "rtmp_message list \<Rightarrow> rtmp_stream \<Rightarrow> rtmp_stream res" where
  "replay [] s = Inr s"
| "replay (message # ms) s =
     (let type = completed_type_id (completed (msg_header message)) in
      if type = RTMP_MSGID_VIDEO_MESSAGE \<and> video_stream_coming (media_info s) then
        bindR (if video_size_ok message then video_callback message s else Inr (False, s)) (\<lambda>(_, s). replay ms s)
      else if type = RTMP_MSGID_AUDIO_MESSAGE \<and> audio_stream_coming (media_info s) then
        bindR (if audio_size_ok message then audio_callback message s else Inr (False, s)) (\<lambda>(_, s). replay ms s)
      else replay ms s)"

definition PublishStream :: "rtmp_stream \<Rightarrow> (bool \<times> rtmp_stream) res" where
  "PublishStream s =
     (let s = s\<lparr>published := True\<rparr> in
      if stream_name s = [] then Inr (False, s)
      else bindR (SetTrackInfo (media_info s) s) (\<lambda>s.
           bindR (replay (message_cache s) s) (\<lambda>s. Inr (True, s\<lparr>message_cache := []\<rparr>))))"

text \<open>The part the two share: publish, or cache the message. The flag tells whether to go on.\<close>

definition publish_or_cache :: "rtmp_message \<Rightarrow> rtmp_stream \<Rightarrow> (bool option \<times> rtmp_stream) res" where
  "publish_or_cache message s =
     (if CheckReadyToPublish s then
        bindR (PublishStream s) (\<lambda>(ok, s). Inr (if ok then None else Some False, s))
      else Inr (Some True, s\<lparr>message_cache := message_cache s @ [message], cache_video_count := cache_video_count s + 1\<rparr>))"

definition ReceiveVideoMessage :: "rtmp_message \<Rightarrow> rtmp_stream \<Rightarrow> (bool \<times> rtmp_stream) res" where
  "ReceiveVideoMessage message s =
     (if \<not> video_size_ok message then Inr (False, s)
      else bindR (if published s then Inr (None, s)
                  else publish_or_cache message (s\<lparr>media_info := (media_info s)\<lparr>video_stream_coming := True\<rparr>\<rparr>))
             (\<lambda>(result, s). case result of Some ok \<Rightarrow> Inr (ok, s) | None \<Rightarrow> video_callback message s))"

definition ReceiveAudioMessage :: "rtmp_message \<Rightarrow> rtmp_stream \<Rightarrow> (bool \<times> rtmp_stream) res" where
  "ReceiveAudioMessage message s =
     (if \<not> audio_size_ok message then Inr (False, s)
      else bindR (if published s then Inr (None, s)
                  else publish_or_cache message (s\<lparr>media_info := (media_info s)\<lparr>audio_stream_coming := True\<rparr>\<rparr>))
             (\<lambda>(result, s). case result of Some ok \<Rightarrow> Inr (ok, s) | None \<Rightarrow> audio_callback message s))"

end
