(* ===== verification/Rtmp_Stream.thy ===== *)
theory Rtmp_Stream
  imports Rtmp_Stream_Amf Rtmp_Stream_Media Import_Stream
begin

text \<open>
  The RTMP session (\<open>source/rtmp/rtmp_stream.cpp\<close>): the handshake, the loop over the chunks, the messages
  and the thread that takes the received data from its queue.
\<close>

unbundle bit_operations_syntax

section \<open>Handshake\<close>

text \<open>
  The number of bytes taken, 0 for too few and -1 for an error, and the state. In a state without a
  packet to wait for it fails.
\<close>

definition ReceiveHandshakePacket ::
    "hmac \<Rightarrow> u32 \<Rightarrow> byte list \<Rightarrow> rtmp_stream \<Rightarrow> (int \<times> rtmp_stream) res" where
  "ReceiveHandshakePacket hmac now data s =
     (let size = (case handshake_state s of
                    HS_Uninitialized \<Rightarrow> Some (1 + RTMP_HANDSHAKE_PACKET_SIZE)
                  | HS_S2 \<Rightarrow> Some RTMP_HANDSHAKE_PACKET_SIZE
                  | _ \<Rightarrow> None)
      in case size of
           None \<Rightarrow> Inr (-1, s)
         | Some process_size \<Rightarrow>
           if length data < process_size then Inr (0, s)
           else if handshake_state s = HS_Uninitialized then
             if data ! 0 \<noteq> RTMP_HANDSHAKE_VERSION then Inr (-1, s)
             else bindR (SendHandshake hmac now data (s\<lparr>handshake_state := HS_C0\<rparr>)) (\<lambda>(ok, s).
                    Inr (if ok then int process_size else -1, s))
           else Inr (int process_size, s\<lparr>handshake_state := HS_Complete\<rparr>))"

section \<open>Messages\<close>

text \<open>\<open>chunk_size\<close> is unsigned, so the test \<^verbatim>\<open>chunk_size <= 0\<close> refuses 0 only.\<close>

definition ReceiveSetChunkSize :: "rtmp_message \<Rightarrow> rtmp_stream \<Rightarrow> (bool \<times> rtmp_stream) res" where
  "ReceiveSetChunkSize message s =
     bindR (ReadInt32 (msg_payload message)) (\<lambda>chunk_size.
       if chunk_size = 0 then Inr (False, s)
       else Inr (True, s\<lparr>import_chunk := SetChunkSize (unat chunk_size) (import_chunk s)\<rparr>))"

definition ReceiveWindowAcknowledgementSize :: "rtmp_message \<Rightarrow> rtmp_stream \<Rightarrow> rtmp_stream res" where
  "ReceiveWindowAcknowledgementSize message s =
     bindR (ReadInt32 (msg_payload message)) (\<lambda>sz.
       Inr (if sz \<noteq> 0 then s\<lparr>acknowledgement_size := sz div 2, acknowledgement_traffic := 0\<rparr> else s))"

definition accepted :: "rtmp_stream res \<Rightarrow> (bool \<times> rtmp_stream) res" where
  "accepted r = bindR r (\<lambda>s. Inr (True, s))"

definition ReceiveMessage :: "rtmp_message \<Rightarrow> rtmp_stream \<Rightarrow> (bool \<times> rtmp_stream) res" where
  "ReceiveMessage message s =
     (let type_id = completed_type_id (completed (msg_header message)) in
      if type_id = RTMP_MSGID_AUDIO_MESSAGE then ReceiveAudioMessage message s
      else if type_id = RTMP_MSGID_VIDEO_MESSAGE then ReceiveVideoMessage message s
      else if type_id = RTMP_MSGID_SET_CHUNK_SIZE then ReceiveSetChunkSize message s
      else if type_id = RTMP_MSGID_AMF0_DATA_MESSAGE then accepted (ReceiveAmfDataMessage message s)
      else if type_id = RTMP_MSGID_AMF0_COMMAND_MESSAGE then accepted (ReceiveAmfCommandMessage message s)
      else if type_id = RTMP_MSGID_WINDOWACKNOWLEDGEMENT_SIZE
        then accepted (ReceiveWindowAcknowledgementSize message s)
      else Inr (True, s))"

text \<open>
  The loop over the queue of messages. No message puts another one into the queue, so as many turns as there
  are messages, and one more, are enough.
\<close>

fun ReceiveChunkMessage_loop :: "nat \<Rightarrow> rtmp_stream \<Rightarrow> (bool \<times> rtmp_stream) res" where
  "ReceiveChunkMessage_loop 0 s = Inl Endless_Loop"
| "ReceiveChunkMessage_loop (Suc fuel) s =
     (let (item, ic) = GetMessage (import_chunk s) in
      case item of
        None \<Rightarrow> Inr (True, s)
      | Some message \<Rightarrow>
          bindR (ReceiveMessage message (s\<lparr>import_chunk := ic\<rparr>)) (\<lambda>(ok, s).
            if ok then ReceiveChunkMessage_loop fuel s else Inr (False, s)))"

definition ReceiveChunkMessage :: "rtmp_stream \<Rightarrow> (bool \<times> rtmp_stream) res" where
  "ReceiveChunkMessage s = ReceiveChunkMessage_loop (GetMessageCount (import_chunk s) + 1) s"

section \<open>Chunks\<close>

text \<open>The loop: the bytes processed, no value for an error with the number it returns, and the state.\<close>

function ReceiveChunkPacket_loop ::
    "byte list \<Rightarrow> int \<Rightarrow> rtmp_stream \<Rightarrow> ((int + int) \<times> rtmp_stream) res" where
  "ReceiveChunkPacket_loop current_data process_size s =
     (if current_data = [] then Inr (Inr process_size, s)
      else bindR (Import (import_chunk s) current_data) (\<lambda>(import_size, is_completed, ic).
        let s = s\<lparr>import_chunk := ic\<rparr> in
        if import_size = 0 then Inr (Inr process_size, s)
        else if import_size < 0 then Inr (Inl import_size, s)
        else bindR (if is_completed then ReceiveChunkMessage s else Inr (True, s)) (\<lambda>(ok, s).
          if \<not> ok then Inr (Inl (-1), s)
          else ReceiveChunkPacket_loop (drop (nat import_size) current_data) (process_size + import_size) s)))"
  by pat_completeness auto
termination by (relation "measure (\<lambda>(current_data, _). length current_data)") auto

declare ReceiveChunkPacket_loop.simps [simp del]

text \<open>The acknowledgement: the processed bytes are counted, and reported when they exceed the window.\<close>

definition acknowledge :: "int \<Rightarrow> rtmp_stream \<Rightarrow> rtmp_stream res" where
  "acknowledge process_size s =
     (let traffic = acknowledgement_traffic s + of_int process_size; s = s\<lparr>acknowledgement_traffic := traffic\<rparr> in
      if acknowledgement_size s < traffic then
        bindR (SendAcknowledgementSize traffic s) (\<lambda>(_, s). Inr (s\<lparr>acknowledgement_traffic := 0\<rparr>))
      else Inr s)"

definition ReceiveChunkPacket :: "byte list \<Rightarrow> rtmp_stream \<Rightarrow> (int \<times> rtmp_stream) res" where
  "ReceiveChunkPacket data s =
     bindR (ReceiveChunkPacket_loop data 0 s) (\<lambda>(result, s).
       case result of
         Inl e \<Rightarrow> Inr (e, s)
       | Inr process_size \<Rightarrow> bindR (acknowledge process_size s) (\<lambda>s. Inr (process_size, s)))"

section \<open>The thread\<close>

definition OnDataReceived :: "byte list \<Rightarrow> rtmp_stream \<Rightarrow> rtmp_stream" where
  "OnDataReceived raw_data s = s\<lparr>incoming_data := incoming_data s @ [raw_data]\<rparr>"

definition process_packet :: "hmac \<Rightarrow> u32 \<Rightarrow> byte list \<Rightarrow> rtmp_stream \<Rightarrow> (int \<times> rtmp_stream) res" where
  "process_packet hmac now data s =
     (if handshake_state s = HS_Complete then ReceiveChunkPacket data s else ReceiveHandshakePacket hmac now data s)"

lemma loop_Nil: "ReceiveChunkPacket_loop [] p s = Inr (Inr p, s)"
  by (subst ReceiveChunkPacket_loop.simps) simp

lemma process_packet_Nil: "process_packet hmac now [] s = Inr (n, s') \<Longrightarrow> n \<le> 0"
  by (auto simp: process_packet_def ReceiveChunkPacket_def loop_Nil bindR_eq_Inr ReceiveHandshakePacket_def
      split: if_splits handshake_state.splits option.splits)

text \<open>The inner loop of \<open>onThreadProc\<close>; an error leaves the data where it is.\<close>

function process_remained :: "hmac \<Rightarrow> u32 \<Rightarrow> byte list \<Rightarrow> rtmp_stream \<Rightarrow> rtmp_stream res" where
  "process_remained hmac now data s =
     bindR (process_packet hmac now data s) (\<lambda>(process_size, s).
       if process_size \<le> 0 then Inr (s\<lparr>remained_data := Some data\<rparr>)
       else process_remained hmac now (drop (nat process_size) data) s)"
  by pat_completeness auto
termination
proof (relation "measure (\<lambda>(_, _, data, _). length data)", goal_cases)
  case (2 hmac now data s x n s')
  then have "data \<noteq> []" using process_packet_Nil [of hmac now s n s'] by auto
  with 2 show ?case by auto
qed simp

declare process_remained.simps [simp del]

text \<open>One turn of the outer loop. Without data the thread waits.\<close>

definition onThreadProc_turn :: "hmac \<Rightarrow> u32 \<Rightarrow> rtmp_stream \<Rightarrow> rtmp_stream option res" where
  "onThreadProc_turn hmac now s =
     (case incoming_data s of
        [] \<Rightarrow> Inr None
      | raw_data # rest \<Rightarrow>
          let s = s\<lparr>incoming_data := rest\<rparr>;
              data = (case remained_data s of None \<Rightarrow> raw_data | Some r \<Rightarrow> r @ raw_data) in
          bindR (process_remained hmac now data s) (\<lambda>s. Inr (Some s)))"

end
