(* ===== verification/Rtmp_Stream_Frame.thy ===== *)
theory Rtmp_Stream_Frame
  imports Rtmp_Stream
begin

text \<open>
  What the operations of a session leave alone. The senders change the exporter and the log of sent bytes
  only, the handlers of commands nothing of the media, the handlers of media nothing of the connection.
\<close>

section \<open>Frames\<close>

text \<open>The fields a sender keeps are all but three.\<close>

definition only_sends :: "rtmp_stream \<Rightarrow> rtmp_stream \<Rightarrow> bool" where
  "only_sends s s' \<longleftrightarrow>
     s' = s\<lparr>export_chunk := export_chunk s', sent := sent s', rtmp_stream_id := rtmp_stream_id s'\<rparr>"

lemma only_sends_refl [simp]: "only_sends s s"
  by (simp add: only_sends_def)

lemma only_sends_trans:
  assumes "only_sends s s'" "only_sends s' s''"
  shows "only_sends s s''"
proof -
  obtain e x i where s': "s' = s\<lparr>export_chunk := e, sent := x, rtmp_stream_id := i\<rparr>"
    using assms(1) unfolding only_sends_def by blast
  obtain e x i where "s'' = s'\<lparr>export_chunk := e, sent := x, rtmp_stream_id := i\<rparr>"
    using assms(2) unfolding only_sends_def by blast
  then show ?thesis by (simp add: s' only_sends_def)
qed

text \<open>The fields of the connection, and those of the media.\<close>

definition keeps_link :: "rtmp_stream \<Rightarrow> rtmp_stream \<Rightarrow> bool" where
  "keeps_link s s' \<longleftrightarrow>
     handshake_state s' = handshake_state s \<and> import_chunk s' = import_chunk s \<and>
     incoming_data s' = incoming_data s \<and> remained_data s' = remained_data s \<and>
     has_send_callback s' = has_send_callback s \<and> has_callback s' = has_callback s \<and>
     acknowledgement_size s' = acknowledgement_size s \<and> acknowledgement_traffic s' = acknowledgement_traffic s"

definition keeps_media :: "rtmp_stream \<Rightarrow> rtmp_stream \<Rightarrow> bool" where
  "keeps_media s s' \<longleftrightarrow>
     published s' = published s \<and> tracks s' = tracks s \<and> track_codec_types s' = track_codec_types s \<and>
     track_info_sent s' = track_info_sent s \<and> events s' = events s \<and> message_cache s' = message_cache s \<and>
     cache_video_count s' = cache_video_count s \<and> cache_audio_count s' = cache_audio_count s \<and>
     video_stream_coming (media_info s') = video_stream_coming (media_info s) \<and>
     audio_stream_coming (media_info s') = audio_stream_coming (media_info s)"

lemma keeps_refl [simp]: "keeps_link s s" "keeps_media s s"
  by (simp_all add: keeps_link_def keeps_media_def)

lemma keeps_link_trans: "keeps_link s s' \<Longrightarrow> keeps_link s' s'' \<Longrightarrow> keeps_link s s''"
  by (simp add: keeps_link_def)

lemma keeps_media_trans: "keeps_media s s' \<Longrightarrow> keeps_media s' s'' \<Longrightarrow> keeps_media s s''"
  by (simp add: keeps_media_def)

lemma only_sends_keeps:
  assumes "only_sends s s'"
  shows "keeps_link s s' \<and> keeps_media s s'"
proof -
  obtain e x i where "s' = s\<lparr>export_chunk := e, sent := x, rtmp_stream_id := i\<rparr>"
    using assms unfolding only_sends_def by blast
  then show ?thesis by (simp add: keeps_link_def keeps_media_def)
qed

section \<open>Senders\<close>

lemma SendData_frame: "only_sends s (SendData d s)"
  by (simp add: only_sends_def SendData_def)

lemma only_sends_export: "only_sends s (s\<lparr>export_chunk := e\<rparr>)" "only_sends s (s\<lparr>rtmp_stream_id := i\<rparr>)"
  by (simp_all add: only_sends_def)

lemma SendMessagePacket_frame: "SendMessagePacket mh d s = Inr (ok, s') \<Longrightarrow> only_sends s s'"
  by (auto simp: SendMessagePacket_def bindR_eq_Inr Let_def split: option.splits
      intro: only_sends_export only_sends_trans [OF only_sends_export(1) SendData_frame])

lemma Send_frames:
  "SendUserControlMessage m d s = Inr (ok, s') \<Longrightarrow> only_sends s s'"
  "SendWindowAcknowledgementSize n s = Inr (ok, s') \<Longrightarrow> only_sends s s'"
  "SendAcknowledgementSize n s = Inr (ok, s') \<Longrightarrow> only_sends s s'"
  "SendSetPeerBandwidth n s = Inr (ok, s') \<Longrightarrow> only_sends s s'"
  "SendStreamBegin s = Inr (ok, s') \<Longrightarrow> only_sends s s'"
  "SendStreamEnd s = Inr (ok, s') \<Longrightarrow> only_sends s s'"
  "SendAmfCommand mh doc s = Inr (ok, s') \<Longrightarrow> only_sends s s'"
  by (auto simp: SendUserControlMessage_def SendWindowAcknowledgementSize_def SendAcknowledgementSize_def
      SendSetPeerBandwidth_def SendStreamBegin_def SendStreamEnd_def SendAmfCommand_def Let_def
      split: if_splits intro: SendMessagePacket_frame)

lemma SendAmf_frames:
  "SendAmfConnectResult c t oe s = Inr (ok, s') \<Longrightarrow> only_sends s s'"
  "SendAmfOnFCPublish c i d s = Inr (ok, s') \<Longrightarrow> only_sends s s'"
  "SendAmfCreateStreamResult c t s = Inr (ok, s') \<Longrightarrow> only_sends s s'"
  "SendAmfOnStatus c i l k p d s = Inr (ok, s') \<Longrightarrow> only_sends s s'"
  by (auto simp: SendAmfConnectResult_def SendAmfOnFCPublish_def SendAmfCreateStreamResult_def SendAmfOnStatus_def
      Let_def bindR_eq_Inr simp del: add_fields.simps intro: Send_frames only_sends_trans [OF only_sends_export(2) Send_frames(7)])

lemmas send_frames = Send_frames SendAmf_frames

section \<open>Commands\<close>

lemma set_stream_name_frame: "set_stream_name n s = Inr s' \<Longrightarrow> keeps_link s s' \<and> keeps_media s s'"
  by (auto simp: set_stream_name_def Let_def bindR_eq_Inr keeps_link_def keeps_media_def split: option.splits)

lemma connect_sends:
  assumes "and_then (SendWindowAcknowledgementSize n) (and_then (\<lambda>s. SendSetPeerBandwidth (peer_bandwidth s) s)
     (and_then SendStreamBegin (SendAmfConnectResult c t oe))) s = Inr (ok, s')"
  shows "keeps_link s s' \<and> keeps_media s s'"
  using assms by (intro only_sends_keeps)
    (auto simp: and_then_def bindR_eq_Inr split: if_splits dest!: send_frames intro: only_sends_trans)

lemma publish_sends:
  assumes "and_then SendStreamBegin (\<lambda>s. SendAmfOnStatus (chunk_stream_id s) (rtmp_stream_id s) l c d (client_id s) s) s
     = Inr (ok, s')"
  shows "keeps_link s s' \<and> keeps_media s s'"
  using assms by (intro only_sends_keeps)
    (auto simp: and_then_def bindR_eq_Inr split: if_splits dest!: send_frames intro: only_sends_trans)

lemma OnAmfConnect_frame: "OnAmfConnect h doc t s = Inr s' \<Longrightarrow> keeps_link s s' \<and> keeps_media s s'"
  by (auto simp: OnAmfConnect_def discard_ok_def bindR_eq_Inr split: if_splits option.splits dest!: connect_sends)
     (simp_all add: keeps_link_def keeps_media_def)

lemma OnAmfFCPublish_frame:
  "OnAmfFCPublish h doc t s = Inr s' \<Longrightarrow> keeps_link s s' \<and> keeps_media s s'"
  by (auto simp: OnAmfFCPublish_def bindR_eq_Inr split: if_splits dest!: send_frames only_sends_keeps set_stream_name_frame
      intro: keeps_link_trans keeps_media_trans)

lemma OnAmfPublish_frame: "OnAmfPublish h doc t s = Inr s' \<Longrightarrow> keeps_link s s' \<and> keeps_media s s'"
  by (auto simp: OnAmfPublish_def discard_ok_def bindR_eq_Inr split: if_splits
      dest!: set_stream_name_frame publish_sends send_frames only_sends_keeps)
     (auto simp: keeps_link_def keeps_media_def)

lemma OnAmfMetaData_frame: "OnAmfMetaData doc i s = Inr s' \<Longrightarrow> keeps_link s s' \<and> keeps_media s s'"
  by (auto simp: OnAmfMetaData_def Let_def bindR_eq_Inr keeps_link_def keeps_media_def split: option.splits)

lemma command_frame:
  assumes "ReceiveAmfCommandMessage m s = Inr s'"
  shows "keeps_link s s' \<and> keeps_media s s'"
proof -
  have "OnAmfCreateStream h doc t s = Inr s' \<Longrightarrow> keeps_link s s' \<and> keeps_media s s'" for h doc t
    by (auto simp: OnAmfCreateStream_def discard_ok_def bindR_eq_Inr dest!: send_frames only_sends_keeps)
  then show ?thesis
    using assms by (auto simp: ReceiveAmfCommandMessage_def Let_def bindR_eq_Inr split: if_splits
      dest!: OnAmfConnect_frame OnAmfFCPublish_frame OnAmfPublish_frame)
qed

lemma data_frame: "ReceiveAmfDataMessage m s = Inr s' \<Longrightarrow> keeps_link s s' \<and> keeps_media s s'"
  by (auto simp: ReceiveAmfDataMessage_def bindR_eq_Inr split: if_splits dest!: OnAmfMetaData_frame)

end
