(* ===== verification/Rtmp_Media_Inv.thy ===== *)
theory Rtmp_Media_Inv
  imports Rtmp_Stream_Frame
begin

text \<open>
  The invariant of the media of a session: what the application is told, and in which order. Before the
  stream is published there are no tracks; the tracks are announced once, when all have their extradata,
  and every sample belongs to an announced track.
\<close>

lemma bindR_E:
  assumes "bindR m f = Inr y"
  obtains x where "m = Inr x" "f x = Inr y"
  using assms by (auto simp: bindR_eq_Inr)

section \<open>The invariant\<close>

definition has_extradata :: "(int \<times> media_track) list \<Rightarrow> bool" where
  "has_extradata ts \<longleftrightarrow> list_all (\<lambda>(_, track). track_extradata track \<noteq> []) ts"

definition announced :: "source_event list \<Rightarrow> int list \<Rightarrow> bool" where
  "announced es ids \<longleftrightarrow>
     (\<exists>app name ts samples. es = On_App_Stream_Name app name # On_Track ts # map On_Sample samples \<and>
        map fst ts = ids \<and> has_extradata ts \<and> list_all (\<lambda>x. sample_track x \<in> set ids) samples)"

definition tracks_ok :: "rtmp_stream \<Rightarrow> bool" where
  "tracks_ok s \<longleftrightarrow>
     map fst (tracks s) \<in> {[], [0], [1], [0, 1]} \<and> map fst (track_codec_types s) = map fst (tracks s) \<and>
     list_all (\<lambda>(i, track). track_id track = i) (tracks s)"

definition media_inv :: "rtmp_stream \<Rightarrow> bool" where
  "media_inv s \<longleftrightarrow>
     cache_audio_count s = 0 \<and> tracks_ok s \<and> (\<not> published s \<longrightarrow> tracks s = [] \<and> \<not> track_info_sent s) \<and>
     (track_info_sent s \<longrightarrow> has_extradata (tracks s)) \<and>
     (if track_info_sent s \<and> has_callback s then announced (events s) (map fst (tracks s)) else events s = [])"

lemma media_inv_new: "media_inv (new_rtmp_stream a b)"
  by (simp add: media_inv_def new_rtmp_stream_def tracks_ok_def)

lemma media_inv_keeps: "keeps_link s s' \<Longrightarrow> keeps_media s s' \<Longrightarrow> media_inv s \<Longrightarrow> media_inv s'"
  by (simp add: keeps_link_def keeps_media_def media_inv_def tracks_ok_def)

section \<open>Samples\<close>

lemma announced_sample:
  assumes "announced es ids" "sample_track x \<in> set ids"
  shows "announced (es @ [On_Sample x]) ids"
proof -
  obtain app name ts samples where
    "es = On_App_Stream_Name app name # On_Track ts # map On_Sample samples" "map fst ts = ids" "has_extradata ts"
    "list_all (\<lambda>x. sample_track x \<in> set ids) samples"
    using assms(1) unfolding announced_def by blast
  then show ?thesis
    unfolding announced_def using assms(2)
    by (intro exI [of _ app] exI [of _ name] exI [of _ ts] exI [of _ "samples @ [x]"]) simp
qed

lemma announced_first:
  assumes "has_extradata ts"
  shows "announced [On_App_Stream_Name app name, On_Track ts] (map fst ts)"
  unfolding announced_def using assms by (intro exI [of _ app] exI [of _ name] exI [of _ ts] exI [of _ "[]"]) simp

lemma SendFrame_keeps: "keeps_link s (SendFrame x s)" "published (SendFrame x s) = published s"
  "tracks (SendFrame x s) = tracks s" "media_info (SendFrame x s) = media_info s"
  by (simp_all add: SendFrame_def keeps_link_def Let_def)

lemma SendFrame_inv:
  assumes "media_inv s" "published s" "sample_track x \<in> set (map fst (tracks s))"
  shows "media_inv (SendFrame x s)"
  using assms announced_sample [of "events s" "map fst (tracks s)" x]
    announced_sample [OF announced_first [of "tracks s" "app_name s" "stream_name s"], of x]
  by (auto simp: media_inv_def SendFrame_def Let_def tracks_ok_def has_extradata_def)

lemma SetCodecExtradata_keeps: "keeps_link s (SetCodecExtradata i e s)"
  "published (SetCodecExtradata i e s) = published s" "media_info (SetCodecExtradata i e s) = media_info s"
  by (simp_all add: SetCodecExtradata_def keeps_link_def)

lemma SetCodecExtradata_inv:
  assumes "media_inv s" "\<not> track_info_sent s"
  shows "media_inv (SetCodecExtradata i e s)"
proof -
  have "map fst (map (\<lambda>(j, t). (j, if j = i then t\<lparr>track_extradata := e\<rparr> else t)) ts) = map fst ts" for ts
    by (induction ts) auto
  then show ?thesis
    using assms by (auto simp: media_inv_def SetCodecExtradata_def tracks_ok_def list_all_iff)
qed

lemma GetTrack_in:
  assumes "media_inv s" "GetTrack i s = Some track"
  shows "track_id track = i" "i \<in> set (map fst (tracks s))" "track_info_sent s \<Longrightarrow> track_extradata track \<noteq> []"
proof -
  have "(i, track) \<in> set (tracks s)" using assms(2) by (simp add: GetTrack_def map_of_SomeD)
  with assms(1) show "track_id track = i" "i \<in> set (map fst (tracks s))"
    "track_info_sent s \<Longrightarrow> track_extradata track \<noteq> []"
    by (force simp: media_inv_def tracks_ok_def has_extradata_def list_all_iff)+
qed

text \<open>A step on a published stream.\<close>

definition media_step :: "rtmp_stream \<Rightarrow> rtmp_stream \<Rightarrow> bool" where
  "media_step s s' \<longleftrightarrow>
     keeps_link s s' \<and> published s' = published s \<and> media_info s' = media_info s \<and>
     (published s \<longrightarrow> media_inv s \<longrightarrow> media_inv s')"

lemma media_step_refl [simp]: "media_step s s"
  by (simp add: media_step_def)

lemma media_step_trans: "media_step s s' \<Longrightarrow> media_step s' s'' \<Longrightarrow> media_step s s''"
  by (auto simp: media_step_def intro: keeps_link_trans)

lemma SendFrame_step:
  assumes "GetTrack i s = Some track" "sample_track x = track_id track"
  shows "media_step s (SendFrame x s)"
proof -
  have "media_inv s \<Longrightarrow> sample_track x \<in> set (map fst (tracks s))"
    using GetTrack_in(1,2) [OF _ assms(1)] assms(2) by metis
  then show ?thesis
    unfolding media_step_def by (intro conjI impI SendFrame_keeps SendFrame_inv) auto
qed

lemma SetCodecExtradata_step:
  assumes "GetTrack i s = Some track" "track_extradata track = []"
  shows "media_step s (SetCodecExtradata j e s)"
proof -
  have "media_inv s \<Longrightarrow> \<not> track_info_sent s" using GetTrack_in(3) [OF _ assms(1)] assms(2) by blast
  then show ?thesis
    unfolding media_step_def by (intro conjI impI SetCodecExtradata_keeps SetCodecExtradata_inv) auto
qed

lemma convert_step:
  assumes "ConvertToSnyMediaSample track packet s = Inr (ok, s')" "GetTrack i s = Some track"
  shows "media_step s s'"
  using assms(1) unfolding ConvertToSnyMediaSample_def Let_def
  by (auto elim!: bindR_E split: if_split_asm
      intro!: SetCodecExtradata_step [OF assms(2)] SendFrame_step [OF assms(2)])

lemma video_callback_step: "video_callback m s = Inr (ok, s') \<Longrightarrow> media_step s s'"
  unfolding video_callback_def Let_def
  by (auto elim!: bindR_E split: if_split_asm option.split_asm) (rule convert_step, assumption, assumption)+

lemma audio_callback_step: "audio_callback m s = Inr (ok, s') \<Longrightarrow> media_step s s'"
  unfolding audio_callback_def Let_def
  by (auto elim!: bindR_E split: if_split_asm option.split_asm) (rule convert_step, assumption, assumption)+

section \<open>Publishing\<close>

lemma replay_step: "replay ms s = Inr s' \<Longrightarrow> media_step s s'"
proof (induction ms arbitrary: s)
  case (Cons m ms)
  obtain s1 where "media_step s s1" "replay ms s1 = Inr s'"
    using Cons.prems
    by (auto simp: Let_def elim!: bindR_E split: if_split_asm dest: video_callback_step audio_callback_step
        intro: that media_step_refl)
  with Cons.IH show ?case by (blast intro: media_step_trans)
qed simp

lemma AddTrack_keeps: "keeps_link s (AddTrack t s)" "published (AddTrack t s) = published s"
  "media_info (AddTrack t s) = media_info s" "events (AddTrack t s) = events s" "track_info_sent (AddTrack t s) = track_info_sent s"
  "cache_audio_count (AddTrack t s) = cache_audio_count s" "message_cache (AddTrack t s) = message_cache s"
  by (simp_all add: AddTrack_def keeps_link_def)

lemma SetTrackInfo_step:
  assumes "SetTrackInfo mi s = Inr s'"
  shows "keeps_link s s'" "published s' = published s" "media_info s' = media_info s"
    "tracks s = [] \<Longrightarrow> \<not> track_info_sent s \<Longrightarrow> media_inv s \<Longrightarrow> published s \<Longrightarrow> media_inv s'"
proof -
  show "keeps_link s s'" "published s' = published s" "media_info s' = media_info s"
    using assms by (auto simp: SetTrackInfo_def AddTrack_def keeps_link_def elim!: bindR_E split: if_split_asm)
  show "tracks s = [] \<Longrightarrow> \<not> track_info_sent s \<Longrightarrow> media_inv s \<Longrightarrow> published s \<Longrightarrow> media_inv s'"
    using assms by (auto simp: SetTrackInfo_def AddTrack_def media_inv_def tracks_ok_def elim!: bindR_E split: if_split_asm)
qed

text \<open>A message keeps the invariant, and the stream stays published.\<close>

definition keeps_inv :: "rtmp_stream \<Rightarrow> rtmp_stream \<Rightarrow> bool" where
  "keeps_inv s s' \<longleftrightarrow> keeps_link s s' \<and> (published s \<longrightarrow> published s') \<and> (media_inv s \<longrightarrow> media_inv s')"

lemma keeps_inv_refl [simp]: "keeps_inv s s"
  by (simp add: keeps_inv_def)

lemma keeps_inv_trans: "keeps_inv s s' \<Longrightarrow> keeps_inv s' s'' \<Longrightarrow> keeps_inv s s''"
  by (auto simp: keeps_inv_def intro: keeps_link_trans)

lemma media_step_keeps: "media_step s s' \<Longrightarrow> published s \<Longrightarrow> keeps_inv s s' \<and> published s'"
  by (simp add: media_step_def keeps_inv_def)

lemma publish_updates:
  "keeps_inv s (s\<lparr>message_cache := c\<rparr>)" "keeps_inv s (s\<lparr>message_cache := c, cache_video_count := n\<rparr>)"
  "keeps_inv s (s\<lparr>media_info := mi\<rparr>)" "\<not> published s \<Longrightarrow> keeps_inv s (s\<lparr>published := True\<rparr>)"
  by (simp_all add: keeps_inv_def keeps_link_def media_inv_def tracks_ok_def)

lemma SetTrackInfo_keeps:
  assumes "SetTrackInfo mi (s\<lparr>published := True\<rparr>) = Inr s'" "\<not> published s"
  shows "keeps_inv s s'" "published s'"
  using SetTrackInfo_step [OF assms(1)] assms(2)
  by (auto simp: keeps_inv_def keeps_link_def media_inv_def tracks_ok_def)

lemma PublishStream_step:
  assumes "PublishStream s = Inr (ok, s')" "\<not> published s"
  shows "keeps_inv s s' \<and> published s'"
proof (cases "stream_name s = []")
  case True
  then have "s' = s\<lparr>published := True\<rparr>" using assms(1) by (simp add: PublishStream_def Let_def)
  with assms(2) show ?thesis by (simp add: publish_updates)
next
  case False
  then obtain s1 s2 where 1: "SetTrackInfo (media_info s) (s\<lparr>published := True\<rparr>) = Inr s1"
    "replay (message_cache s1) s1 = Inr s2" "s' = s2\<lparr>message_cache := []\<rparr>"
    using assms(1) by (auto simp: PublishStream_def Let_def elim!: bindR_E)
  note 2 = SetTrackInfo_keeps [OF 1(1) assms(2)]
  have 3: "keeps_inv s1 s2 \<and> published s2"
    using media_step_keeps [OF replay_step [OF 1(2)] 2(2)] .
  have "keeps_inv s s'"
    unfolding 1(3) using 2(1) 3 by (blast intro: keeps_inv_trans publish_updates)
  with 3 show ?thesis by (simp add: 1(3))
qed

lemma publish_or_cache_step:
  assumes "publish_or_cache m s = Inr (r, s')" "\<not> published s"
  shows "keeps_inv s s'" "r = None \<Longrightarrow> published s'"
  using assms publish_updates(2) [of s]
  by (auto simp: publish_or_cache_def elim!: bindR_E split: if_split_asm dest: PublishStream_step)

lemma ReceiveVideoMessage_step:
  assumes "ReceiveVideoMessage m s = Inr (ok, s')"
  shows "keeps_inv s s'"
proof (cases "published s")
  case True
  then show ?thesis
    using assms by (auto simp: ReceiveVideoMessage_def split: if_split_asm dest: video_callback_step media_step_keeps)
next
  case False
  define s0 where "s0 = s\<lparr>media_info := (media_info s)\<lparr>video_stream_coming := True\<rparr>\<rparr>"
  have s0: "keeps_inv s s0" "\<not> published s0" using False by (simp_all add: s0_def publish_updates)
  show ?thesis
  proof (cases "video_size_ok m")
    case True
    then obtain r s1 where 1: "publish_or_cache m s0 = Inr (r, s1)"
      "(case r of Some ok \<Rightarrow> Inr (ok, s1) | None \<Rightarrow> video_callback m s1) = Inr (ok, s')"
      using assms False by (auto simp: ReceiveVideoMessage_def s0_def elim!: bindR_E)
    note 2 = publish_or_cache_step [OF 1(1) s0(2)]
    have "keeps_inv s1 s'"
      using 1(2) 2(2) by (auto split: option.split_asm dest: video_callback_step media_step_keeps)
    with 2(1) s0(1) show ?thesis by (blast intro: keeps_inv_trans)
  qed (use assms in \<open>simp add: ReceiveVideoMessage_def\<close>)
qed

lemma ReceiveAudioMessage_step:
  assumes "ReceiveAudioMessage m s = Inr (ok, s')"
  shows "keeps_inv s s'"
proof (cases "published s")
  case True
  then show ?thesis
    using assms by (auto simp: ReceiveAudioMessage_def split: if_split_asm dest: audio_callback_step media_step_keeps)
next
  case False
  define s0 where "s0 = s\<lparr>media_info := (media_info s)\<lparr>audio_stream_coming := True\<rparr>\<rparr>"
  have s0: "keeps_inv s s0" "\<not> published s0" using False by (simp_all add: s0_def publish_updates)
  show ?thesis
  proof (cases "audio_size_ok m")
    case True
    then obtain r s1 where 1: "publish_or_cache m s0 = Inr (r, s1)"
      "(case r of Some ok \<Rightarrow> Inr (ok, s1) | None \<Rightarrow> audio_callback m s1) = Inr (ok, s')"
      using assms False by (auto simp: ReceiveAudioMessage_def s0_def elim!: bindR_E)
    note 2 = publish_or_cache_step [OF 1(1) s0(2)]
    have "keeps_inv s1 s'"
      using 1(2) 2(2) by (auto split: option.split_asm dest: audio_callback_step media_step_keeps)
    with 2(1) s0(1) show ?thesis by (blast intro: keeps_inv_trans)
  qed (use assms in \<open>simp add: ReceiveAudioMessage_def\<close>)
qed

end
