(* ===== verification/Rtmp_Stream_Loop.thy ===== *)
theory Rtmp_Stream_Loop
  imports Rtmp_Media_Inv
begin

text \<open>
  The loops of a session: what a message may change, the loop over the messages with its fuel, and the loop
  over the chunks as a reader of a byte stream that arrives in pieces.
\<close>

section \<open>One message\<close>

definition ack_ok :: "rtmp_stream \<Rightarrow> bool" where
  "ack_ok s \<longleftrightarrow> acknowledgement_traffic s \<le> acknowledgement_size s"

text \<open>What every message keeps; only a set chunk size message changes the importer.\<close>

definition keeps_session :: "rtmp_stream \<Rightarrow> rtmp_stream \<Rightarrow> bool" where
  "keeps_session s s' \<longleftrightarrow>
     handshake_state s' = handshake_state s \<and> incoming_data s' = incoming_data s \<and>
     remained_data s' = remained_data s \<and> has_send_callback s' = has_send_callback s \<and>
     has_callback s' = has_callback s \<and> import_queue (import_chunk s') = import_queue (import_chunk s) \<and>
     (import_ok (import_chunk s) \<longrightarrow> import_ok (import_chunk s')) \<and>
     (published s \<longrightarrow> published s') \<and> (media_inv s \<longrightarrow> media_inv s') \<and> (ack_ok s \<longrightarrow> ack_ok s')"

lemma keeps_session_refl [simp]: "keeps_session s s"
  by (simp add: keeps_session_def)

lemma keeps_session_trans: "keeps_session s s' \<Longrightarrow> keeps_session s' s'' \<Longrightarrow> keeps_session s s''"
  by (simp add: keeps_session_def)

lemma keeps_inv_session: "keeps_inv s s' \<Longrightarrow> keeps_session s s'"
  by (auto simp: keeps_inv_def keeps_link_def keeps_session_def ack_ok_def)

lemma keeps_media_session: "keeps_link s s' \<and> keeps_media s s' \<Longrightarrow> keeps_session s s'"
  using media_inv_keeps [of s s'] by (auto simp: keeps_media_def keeps_link_def keeps_session_def ack_ok_def)

lemma media_inv_updates [simp]:
  "media_inv (s\<lparr>import_chunk := ic\<rparr>) = media_inv s"
  "media_inv (s\<lparr>acknowledgement_size := a, acknowledgement_traffic := b\<rparr>) = media_inv s"
  "media_inv (s\<lparr>acknowledgement_size := a\<rparr>) = media_inv s"
  "media_inv (s\<lparr>acknowledgement_traffic := b\<rparr>) = media_inv s" "media_inv (s\<lparr>handshake_state := h\<rparr>) = media_inv s"
  "media_inv (s\<lparr>incoming_data := l\<rparr>) = media_inv s" "media_inv (s\<lparr>remained_data := r\<rparr>) = media_inv s"
  "ack_ok (s\<lparr>import_chunk := ic\<rparr>) = ack_ok s" "ack_ok (s\<lparr>handshake_state := h\<rparr>) = ack_ok s"
  "ack_ok (s\<lparr>incoming_data := l\<rparr>) = ack_ok s" "ack_ok (s\<lparr>remained_data := r\<rparr>) = ack_ok s"
  by (simp_all add: media_inv_def tracks_ok_def ack_ok_def)

lemma SetChunkSize_ok: "w \<noteq> 0 \<Longrightarrow> import_ok ic \<Longrightarrow> import_ok (SetChunkSize (unat (w :: u32)) ic)"
  using unat_less_power [of w] by (simp add: import_ok_def SetChunkSize_def unat_gt_0)

lemma SetChunkSize_session:
  assumes "ReceiveSetChunkSize m s = Inr (ok, s')"
  shows "keeps_session s s'"
proof (cases "ReadInt32 (msg_payload m)")
  case (Inr w)
  then show ?thesis
    using assms by (auto simp: ReceiveSetChunkSize_def keeps_session_def SetChunkSize_ok split: if_split_asm)
      (simp add: SetChunkSize_def)
qed (use assms in \<open>simp add: ReceiveSetChunkSize_def\<close>)

lemma WindowAck_session:
  assumes "ReceiveWindowAcknowledgementSize m s = Inr s'"
  shows "keeps_session s s'"
proof (cases "ReadInt32 (msg_payload m)")
  case (Inr w)
  then show ?thesis
    using assms by (cases "w = 0") (auto simp: ReceiveWindowAcknowledgementSize_def keeps_session_def ack_ok_def)
qed (use assms in \<open>simp add: ReceiveWindowAcknowledgementSize_def\<close>)

lemma accepted_E:
  assumes "accepted r = Inr (ok, s')"
  shows "ok" "r = Inr s'"
  using assms by (auto simp: accepted_def elim!: bindR_E)

lemma ReceiveMessage_session:
  assumes "ReceiveMessage m s = Inr (ok, s')"
  shows "keeps_session s s'"
proof -
  define type_id where "type_id = completed_type_id (completed (msg_header m))"
  consider "ReceiveAudioMessage m s = Inr (ok, s')" | "ReceiveVideoMessage m s = Inr (ok, s')"
    | "ReceiveSetChunkSize m s = Inr (ok, s')" | "ReceiveAmfDataMessage m s = Inr s'"
    | "ReceiveAmfCommandMessage m s = Inr s'" | "ReceiveWindowAcknowledgementSize m s = Inr s'" | "s' = s"
    using assms unfolding ReceiveMessage_def Let_def type_id_def [symmetric]
    by (auto split: if_split_asm dest: accepted_E(2))
  then show ?thesis
  proof cases
    case 1 then show ?thesis by (rule keeps_inv_session [OF ReceiveAudioMessage_step])
  next
    case 2 then show ?thesis by (rule keeps_inv_session [OF ReceiveVideoMessage_step])
  next
    case 3 then show ?thesis by (rule SetChunkSize_session)
  next
    case 4 then show ?thesis by (rule keeps_media_session [OF data_frame])
  next
    case 5 then show ?thesis by (rule keeps_media_session [OF command_frame])
  next
    case 6 then show ?thesis by (rule WindowAck_session)
  qed simp
qed

section \<open>The loop over the messages\<close>

lemma GetMessage_cases:
  obtains (none) "GetMessage ic = (None, ic)" "queue_items (import_queue ic) = [] \<or> queue_stop (import_queue ic)"
  | (item) m ms where "GetMessage ic = (Some m, ic\<lparr>import_queue := (import_queue ic)\<lparr>queue_items := ms\<rparr>\<rparr>)"
      "queue_items (import_queue ic) = m # ms" "\<not> queue_stop (import_queue ic)"
  by (cases "queue_items (import_queue ic)"; cases "queue_stop (import_queue ic)")
     (auto simp: GetMessage_def TryDequeue_def queue_defs)

text \<open>As many turns as messages, and one more, are enough: more of them change nothing.\<close>

lemma loop_fuel:
  "GetMessageCount (import_chunk s) < n \<Longrightarrow> GetMessageCount (import_chunk s) < k \<Longrightarrow>
   ReceiveChunkMessage_loop n s = ReceiveChunkMessage_loop k s"
proof (induction n arbitrary: k s)
  case (Suc n)
  then obtain k' where k: "k = Suc k'" by (cases k) auto
  show ?case
  proof (cases "import_chunk s" rule: GetMessage_cases)
    case none
    then show ?thesis by (simp add: k)
  next
    case (item m ms)
    define s1 where "s1 = s\<lparr>import_chunk := (import_chunk s)\<lparr>import_queue := (import_queue (import_chunk s))\<lparr>queue_items := ms\<rparr>\<rparr>\<rparr>"
    have "ReceiveChunkMessage_loop n t = ReceiveChunkMessage_loop k' t" if "ReceiveMessage m s1 = Inr (ok, t)" for ok t
    proof (rule Suc.IH)
      have "GetMessageCount (import_chunk t) = length ms"
        using ReceiveMessage_session [OF that] by (simp add: keeps_session_def GetMessageCount_def queue_Size_def s1_def)
      then show "GetMessageCount (import_chunk t) < n" "GetMessageCount (import_chunk t) < k'"
        using Suc.prems item(2) k by (simp_all add: GetMessageCount_def queue_Size_def)
    qed
    then show ?thesis
      using item by (cases "ReceiveMessage m s1") (auto simp: k s1_def)
  qed
qed simp

text \<open>So the loop has its recursion equation without fuel.\<close>

lemma ReceiveChunkMessage_eq:
  "ReceiveChunkMessage s =
     (case GetMessage (import_chunk s) of
        (None, _) \<Rightarrow> Inr (True, s)
      | (Some message, ic) \<Rightarrow>
          bindR (ReceiveMessage message (s\<lparr>import_chunk := ic\<rparr>)) (\<lambda>(ok, s).
            if ok then ReceiveChunkMessage s else Inr (False, s)))"
proof (cases "import_chunk s" rule: GetMessage_cases)
  case none
  then show ?thesis by (simp add: ReceiveChunkMessage_def)
next
  case (item m ms)
  define s1 where "s1 = s\<lparr>import_chunk := (import_chunk s)\<lparr>import_queue := (import_queue (import_chunk s))\<lparr>queue_items := ms\<rparr>\<rparr>\<rparr>"
  have "ReceiveChunkMessage_loop (length (m # ms)) t = ReceiveChunkMessage t" if "ReceiveMessage m s1 = Inr (ok, t)" for ok t
    unfolding ReceiveChunkMessage_def
    using ReceiveMessage_session [OF that]
    by (intro loop_fuel) (simp_all add: keeps_session_def GetMessageCount_def queue_Size_def s1_def)
  then show ?thesis
    using item by (cases "ReceiveMessage m s1")
      (auto simp: ReceiveChunkMessage_def GetMessageCount_def queue_Size_def s1_def)
qed

lemma ReceiveChunkMessage_loop_step: "ReceiveChunkMessage_loop n s = Inr (ok, s') \<Longrightarrow>
  (import_ok (import_chunk s) \<longrightarrow> import_ok (import_chunk s')) \<and> (media_inv s \<longrightarrow> media_inv s') \<and>
  (ack_ok s \<longrightarrow> ack_ok s') \<and> (published s \<longrightarrow> published s') \<and> handshake_state s' = handshake_state s \<and>
  incoming_data s' = incoming_data s \<and> remained_data s' = remained_data s \<and>
  has_callback s' = has_callback s \<and> has_send_callback s' = has_send_callback s"
proof (induction n arbitrary: s)
  case (Suc n)
  show ?case
  proof (cases "import_chunk s" rule: GetMessage_cases)
    case none
    then show ?thesis using Suc.prems by simp
  next
    case (item m ms)
    define s1 where "s1 = s\<lparr>import_chunk := (import_chunk s)\<lparr>import_queue := (import_queue (import_chunk s))\<lparr>queue_items := ms\<rparr>\<rparr>\<rparr>"
    have s1: "import_ok (import_chunk s) \<longrightarrow> import_ok (import_chunk s1)" "media_inv s \<longrightarrow> media_inv s1" "ack_ok s \<longrightarrow> ack_ok s1"
      "published s1 = published s" "handshake_state s1 = handshake_state s" "incoming_data s1 = incoming_data s"
      "remained_data s1 = remained_data s" "has_callback s1 = has_callback s" "has_send_callback s1 = has_send_callback s"
      using item(2) by (auto simp: s1_def import_ok_def media_inv_def tracks_ok_def ack_ok_def)
    obtain o1 t where t: "ReceiveMessage m s1 = Inr (o1, t)" "(if o1 then ReceiveChunkMessage_loop n t else Inr (False, t)) = Inr (ok, s')"
      using Suc.prems item by (auto simp: s1_def elim!: bindR_E)
    have "keeps_session s1 t" using t(1) by (rule ReceiveMessage_session)
    then show ?thesis
      using Suc.IH [of t] t(2) s1 by (cases o1) (auto simp: keeps_session_def)
  qed
qed simp

section \<open>The loop over the chunks\<close>

definition session_ok :: "rtmp_stream \<Rightarrow> bool" where
  "session_ok s \<longleftrightarrow> import_ok (import_chunk s)"

definition session_import :: "rtmp_stream step" where
  "session_import s d = (case import_spec (import_chunk s) d of (n, finished, ic) \<Rightarrow> (n, finished, s\<lparr>import_chunk := ic\<rparr>))"

definition session_handle :: "rtmp_stream \<Rightarrow> rtmp_stream option" where
  "session_handle s = (case ReceiveChunkMessage s of Inr (True, s') \<Rightarrow> Some s' | _ \<Rightarrow> None)"

lemma session_handle_ok:
  assumes "session_handle s = Some s'" "session_ok s"
  shows "session_ok s'"
proof -
  have "ReceiveChunkMessage s = Inr (True, s')"
    using assms(1) by (auto simp: session_handle_def split: sum.splits prod.splits bool.splits)
  with assms(2) show ?thesis
    unfolding ReceiveChunkMessage_def session_ok_def by (blast dest: ReceiveChunkMessage_loop_step)
qed

interpretation session: incremental_reader session_ok session_import session_handle
proof unfold_locales
  fix s d e n finished s'
  assume ok: "session_ok s"
  show "session_handle s = Some s' \<Longrightarrow> session_ok s'" using ok by (rule session_handle_ok [rotated])
  show "session_import s d = (n, True, s') \<Longrightarrow> 0 < n"
    using ok by (auto simp: session_import_def session_ok_def split: prod.splits dest: import_spec_bound(3))
  show "session_import s d = (n, False, s') \<Longrightarrow> 0 \<le> n \<Longrightarrow>
      session_import s (d @ e) = add_count n (session_import s' (drop (nat n) d @ e))"
    using ok import_spec_resume [of "import_chunk s" d n _ e]
    by (auto simp: session_import_def session_ok_def add_count_def split: prod.splits)
  assume st: "session_import s d = (n, finished, s')"
  show "session_ok s'"
    using ok st by (auto simp: session_import_def session_ok_def split: prod.splits dest: import_spec_ok)
  show "n \<le> int (length d)"
    using ok st by (auto simp: session_import_def session_ok_def split: prod.splits dest: import_spec_bound(2))
  show "n < 0 \<or> finished \<Longrightarrow> session_import s (d @ e) = (n, finished, s')"
    using ok st import_spec_settled [of "import_chunk s" d n finished _ e]
    by (auto simp: session_import_def session_ok_def split: prod.splits)
qed

text \<open>The C++ loop succeeds exactly where the reader does, with the same state.\<close>

lemma chunk_loop_reader:
  assumes "session_ok s" "length d < 2 ^ 31"
  shows "ReceiveChunkPacket_loop d p s = Inr (Inr q, t) \<longleftrightarrow>
    (\<exists>r. read_all session_import session_handle s d = (t, Some r) \<and> q = p + int (length d) - int (length r))"
  using assms
proof (induction "length d" arbitrary: d p s rule: less_induct)
  case less
  show ?case
  proof (cases "d = []")
    case True
    then show ?thesis by (auto simp: loop_Nil)
  next
    case False
    obtain n fin ic where st: "import_spec (import_chunk s) d = (n, fin, ic)" by (metis prod_cases3)
    define s1 where "s1 = s\<lparr>import_chunk := ic\<rparr>"
    have si: "session_import s d = (n, fin, s1)" by (simp add: session_import_def st s1_def)
    have I: "Import (import_chunk s) d = Inr (n, fin, ic)"
      using Import_eq [of "import_chunk s" d] less.prems st by (simp add: session_ok_def)
    have ok1: "session_ok s1" using session.step_ok [OF less.prems(1) si] .
    have n: "n \<le> int (length d)" using session.step_bound [OF less.prems(1) si] .
    have IH: "ReceiveChunkPacket_loop (drop (nat n) d) (p + n) s2 = Inr (Inr q, t) \<longleftrightarrow>
      (\<exists>r. read_all session_import session_handle s2 (drop (nat n) d) = (t, Some r) \<and> q = p + int (length d) - int (length r))"
      if "0 < n" "session_ok s2" for s2
      using less.hyps [of "drop (nat n) d" s2 "p + n"] less.prems(2) that n False by (auto simp: of_nat_diff)
    have L: "ReceiveChunkPacket_loop d p s =
        (if n = 0 then Inr (Inr p, s1) else if n < 0 then Inr (Inl n, s1)
         else bindR (if fin then ReceiveChunkMessage s1 else Inr (True, s1)) (\<lambda>(ok, s).
           if \<not> ok then Inr (Inl (-1), s) else ReceiveChunkPacket_loop (drop (nat n) d) (p + n) s))"
      using False I by (subst ReceiveChunkPacket_loop.simps) (simp add: s1_def)
    have R: "read_all session_import session_handle s d =
        (if n = 0 then (s1, Some d) else if n < 0 then (s1, None)
         else if fin then (case session_handle s1 of None \<Rightarrow> (s1, None)
           | Some s2 \<Rightarrow> read_all session_import session_handle s2 (drop (nat n) d))
         else read_all session_import session_handle s1 (drop (nat n) d))"
      using False si by (subst read_all.simps) simp
    consider "n \<le> 0" | "0 < n" "\<not> fin" | "0 < n" "fin" by linarith
    then show ?thesis
    proof cases
      case 3
      show ?thesis
      proof (cases "ReceiveChunkMessage s1")
        case (Inr x)
        then obtain ok s2 where x: "ReceiveChunkMessage s1 = Inr (ok, s2)" by (cases x) auto
        then show ?thesis
          using 3 IH [of s2] session.handle_ok [OF ok1, of s2] by (cases ok) (auto simp: L R session_handle_def)
      qed (use 3 in \<open>auto simp: L R session_handle_def\<close>)
    qed (use IH [OF _ ok1] in \<open>auto simp: L R\<close>)
  qed
qed

text \<open>What a run over the chunks keeps, whether it ends with an error or not.\<close>

definition keeps_run :: "rtmp_stream \<Rightarrow> rtmp_stream \<Rightarrow> bool" where
  "keeps_run s s' \<longleftrightarrow>
     (import_ok (import_chunk s) \<longrightarrow> import_ok (import_chunk s')) \<and> (media_inv s \<longrightarrow> media_inv s') \<and>
     (ack_ok s \<longrightarrow> ack_ok s') \<and> (published s \<longrightarrow> published s') \<and> handshake_state s' = handshake_state s \<and>
     incoming_data s' = incoming_data s \<and> remained_data s' = remained_data s \<and>
     has_callback s' = has_callback s \<and> has_send_callback s' = has_send_callback s"

lemma keeps_run_trans: "keeps_run s s' \<Longrightarrow> keeps_run s' s'' \<Longrightarrow> keeps_run s s''"
  by (simp add: keeps_run_def)

lemma ReceiveChunkMessage_run: "ReceiveChunkMessage s = Inr (ok, s') \<Longrightarrow> keeps_run s s'"
  unfolding ReceiveChunkMessage_def keeps_run_def by (rule ReceiveChunkMessage_loop_step)

lemma chunk_loop_run:
  "session_ok s \<Longrightarrow> length d < 2 ^ 31 \<Longrightarrow> ReceiveChunkPacket_loop d p s = Inr (r, s') \<Longrightarrow> keeps_run s s'"
proof (induction "length d" arbitrary: d p s rule: less_induct)
  case less
  show ?case
  proof (cases "d = []")
    case True
    with less.prems show ?thesis by (simp add: loop_Nil keeps_run_def)
  next
    case False
    obtain n fin ic where I: "Import (import_chunk s) d = Inr (n, fin, ic)" "import_spec (import_chunk s) d = (n, fin, ic)"
      using Import_eq [of "import_chunk s" d] less.prems(1,2) by (cases "import_spec (import_chunk s) d") (auto simp: session_ok_def)
    have ic: "keeps_run s (s\<lparr>import_chunk := ic\<rparr>)" "import_ok ic"
      using import_spec_ok [OF _ I(2)] less.prems(1) by (simp_all add: keeps_run_def session_ok_def)
    consider "n \<le> 0" | "0 < n" by linarith
    then show ?thesis
    proof cases
      case 1
      with less.prems(3) False I(1) ic show ?thesis
        by (subst (asm) ReceiveChunkPacket_loop.simps) (auto simp: Let_def split: if_split_asm)
    next
      case 2
      then obtain ok s2 where m: "(if fin then ReceiveChunkMessage (s\<lparr>import_chunk := ic\<rparr>) else Inr (True, s\<lparr>import_chunk := ic\<rparr>)) = Inr (ok, s2)"
        "(if \<not> ok then Inr (Inl (-1), s2) else ReceiveChunkPacket_loop (drop (nat n) d) (p + n) s2) = Inr (r, s')"
        using less.prems(3) False I(1) by (subst (asm) ReceiveChunkPacket_loop.simps) (auto simp: Let_def elim!: bindR_E)
      have "keeps_run (s\<lparr>import_chunk := ic\<rparr>) s2"
        using m(1) by (auto split: if_split_asm dest: ReceiveChunkMessage_run simp: keeps_run_def)
      then have s2: "keeps_run s s2" "session_ok s2"
        using ic less.prems(1) by (auto intro: keeps_run_trans simp: keeps_run_def session_ok_def)
      have "ok \<Longrightarrow> keeps_run s2 s'"
        using less.hyps [of "drop (nat n) d" s2 "p + n"] False 2 m(2) s2(2) less.prems(2) by simp
      with m(2) s2(1) show ?thesis by (cases ok) (auto intro: keeps_run_trans)
    qed
  qed
qed

end
