(* ===== verification/Rtmp_Session.thy ===== *)
theory Rtmp_Session
  imports Rtmp_Stream_Loop
begin

text \<open>
  The properties of an RTMP session: what is sent during the handshake, the invariant of the reachable
  sessions, the data cut into pieces, the loop over the messages, and when a stream is published.
\<close>

unbundle bit_operations_syntax

section \<open>Data in pieces\<close>

text \<open>The rest of a read is the end of the data.\<close>

lemma read_all_suffix: "read_all step handle s d = (s', Some r) \<Longrightarrow> \<exists>k \<le> length d. r = drop k d"
proof (induction "length d" arbitrary: s d rule: less_induct)
  case less
  show ?case
  proof (cases "d = []")
    case False
    obtain n fin s1 where st: "step s d = (n, fin, s1)" by (metis prod_cases3)
    have IH: "\<exists>k \<le> length d. r = drop k d" if n: "0 < n" and rd: "read_all step handle t (drop (nat n) d) = (s', Some r)" for t
    proof -
      obtain k where "k \<le> length (drop (nat n) d)" "r = drop k (drop (nat n) d)"
        using less.hyps [OF _ rd] False n by auto
      then have "r = drop (min (length d) (k + nat n)) d" by (simp add: min_def)
      then show ?thesis using min.cobounded1 by blast
    qed
    consider "n < 0" | "n = 0" | "0 < n" by linarith
    then show ?thesis
    proof cases
      case 2
      then show ?thesis
        using less.prems False st by (intro exI [of _ 0]) (simp add: read_all.simps [of _ _ _ d])
    qed (use less.prems False st IH in \<open>auto simp: read_all.simps [of _ _ _ d] split: if_split_asm option.split_asm\<close>)
  qed (use less.prems in simp)
qed

text \<open>A receiver that keeps what the loop over the chunks leaves, as the thread does.\<close>

fun receive_pieces :: "byte list list \<Rightarrow> byte list \<Rightarrow> rtmp_stream \<Rightarrow> (byte list \<times> rtmp_stream) option" where
  "receive_pieces [] rest s = Some (rest, s)"
| "receive_pieces (p # ps) rest s =
     (case ReceiveChunkPacket_loop (rest @ p) 0 s of
        Inr (Inr n, s') \<Rightarrow> receive_pieces ps (drop (nat n) (rest @ p)) s'
      | _ \<Rightarrow> None)"

lemma receive_pieces_reader:
  "session_ok s \<Longrightarrow> length (rest @ concat ps) < 2 ^ 31 \<Longrightarrow>
   receive_pieces ps rest s =
     (case read_pieces session_import session_handle s rest ps of (s', Some r) \<Rightarrow> Some (r, s') | _ \<Rightarrow> None)"
proof (induction ps arbitrary: rest s)
  case (Cons p ps)
  define d where "d = rest @ p"
  obtain t r where rd: "read_all session_import session_handle s d = (t, r)" by force
  have t: "session_ok t" using session.read_all_ok [OF Cons.prems(1), of d] rd by simp
  have d: "length d < 2 ^ 31" using Cons.prems(2) by (simp add: d_def)
  show ?case
  proof (cases r)
    case None
    then have "ReceiveChunkPacket_loop d 0 s \<noteq> Inr (Inr n, s')" for n s'
      using chunk_loop_reader [OF Cons.prems(1) d, of 0 n s'] rd by simp
    then show ?thesis
      using None rd by (simp add: d_def split: sum.split prod.split)
  next
    case (Some rst)
    obtain k where k: "k \<le> length d" "rst = drop k d" using read_all_suffix [of session_import session_handle s d t rst] rd Some by auto
    have "ReceiveChunkPacket_loop d 0 s = Inr (Inr (int k), t)"
      using chunk_loop_reader [OF Cons.prems(1) d, of 0 "int k" t] rd Some k by (auto simp: of_nat_diff)
    moreover have "length (rst @ concat ps) < 2 ^ 31"
      using Cons.prems(2) k by (simp add: d_def)
    ultimately show ?thesis
      using Cons.IH [OF t, of rst] rd Some k(2) by (simp add: d_def)
  qed
qed simp



section \<open>The loop over the messages\<close>


section \<open>The loop over the messages\<close>



section \<open>The reachable sessions\<close>

text \<open>
  A session starts fresh, the network gives it data at any time, and its thread takes a turn. One turn has
  less than 2 GiB at hand. A fault ends the process, so it has no successor.
\<close>

definition turn_data :: "rtmp_stream \<Rightarrow> byte list" where
  "turn_data s = (case remained_data s of None \<Rightarrow> [] | Some r \<Rightarrow> r) @ concat (take 1 (incoming_data s))"

inductive session_reachable :: "hmac \<Rightarrow> rtmp_stream \<Rightarrow> bool" for hmac where
  start: "session_reachable hmac (new_rtmp_stream send_callback callback)"
| receive: "session_reachable hmac s \<Longrightarrow> session_reachable hmac (OnDataReceived d s)"
| turn: "session_reachable hmac s \<Longrightarrow> length (turn_data s) < 2 ^ 31 \<Longrightarrow>
    onThreadProc_turn hmac now s = Inr (Some s') \<Longrightarrow> session_reachable hmac s'"

definition handshake_bytes :: "rtmp_stream \<Rightarrow> nat list" where
  "handshake_bytes s =
     (if handshake_state s = HS_S2 \<and> has_send_callback s
      then [1, RTMP_HANDSHAKE_PACKET_SIZE, RTMP_HANDSHAKE_PACKET_SIZE] else [])"

definition session_inv :: "rtmp_stream \<Rightarrow> bool" where
  "session_inv s \<longleftrightarrow>
     import_ok (import_chunk s) \<and> media_inv s \<and> ack_ok s \<and>
     handshake_state s \<in> {HS_Uninitialized, HS_S2, HS_Complete} \<and>
     (handshake_state s \<noteq> HS_Complete \<longrightarrow>
        import_chunk s = new_import_chunk RTMP_DEFAULT_CHUNK_SIZE \<and> \<not> published s \<and>
        map length (sent s) = handshake_bytes s)"

lemma session_inv_new: "session_inv (new_rtmp_stream a b)"
  using media_inv_new [of a b] import_ok_new [of 128]
  by (simp add: session_inv_def handshake_bytes_def ack_ok_def new_rtmp_stream_def)

lemma session_inv_updates [simp]:
  "session_inv (s\<lparr>incoming_data := i\<rparr>) = session_inv s" "session_inv (s\<lparr>remained_data := r\<rparr>) = session_inv s"
  by (simp_all add: session_inv_def handshake_bytes_def)

text \<open>The digest of the parameter has the size of a SHA-256 digest.\<close>

definition digest_sized :: "hmac \<Rightarrow> bool" where
  "digest_sized hmac \<longleftrightarrow> (\<forall>k m. length (hmac k m) = SHA256_DIGEST_LENGTH)"

lemma MakeS2_in:
  assumes "1536 \<le> length p" "digest_sized h"
  obtains q where "MakeS2 h p = Inr q" "length q = 1536"
proof -
  obtain o1 o2 where o: "GetDigestOffset1 p = Inr o1" "o1 < 740" "GetDigestOffset2 p = Inr o2" "o2 < 1504"
    using GetDigestOffset_in [OF assms(1)] by metis
  obtain v1 v2 where v: "VerifyDigest h o1 p (take 30 GenuineFPKey) = Inr v1"
      "VerifyDigest h o2 p (take 30 GenuineFPKey) = Inr v2"
    using assms(1) o by (simp add: VerifyDigest_in)
  have "\<exists>q. MakeS2 h p = Inr q \<and> length q = 1536"
    using assms o v by (cases v1; cases v2) (simp_all add: MakeS2_def echo_def HmacSha256_def digest_sized_def Let_def)
  then show ?thesis using that by blast
qed

lemma SendHandshake_session:
  assumes "1537 \<le> length d" "digest_sized hmac" "sent s = []"
  shows "\<exists>s' x. SendHandshake hmac now d s = Inr (True, s') \<and>
    s' = s\<lparr>handshake_state := HS_S2, sent := x\<rparr> \<and> map length x = (if has_send_callback s then [1, 1536, 1536] else [])"
proof -
  obtain p where p: "MakeS1 hmac now = Inr p" "length p = 1536"
    using make_signed_verifies [of hmac now "0x01000100"] assms(2) unfolding MakeS1_def digest_sized_def by metis
  obtain q where q: "MakeS2 hmac (drop 1 d) = Inr q" "length q = 1536"
    using MakeS2_in [OF _ assms(2), of "drop 1 d"] assms(1) by force
  show ?thesis
    using assms(3) p q by (cases s) (auto simp: SendHandshake_def SendData_def)
qed

lemma ReceiveHandshakePacket_session:
  assumes "session_inv s" "handshake_state s \<noteq> HS_Complete" "ReceiveHandshakePacket hmac now d s = Inr (n, s')"
    "digest_sized hmac"
  shows "session_inv s'"
proof -
  consider "handshake_state s = HS_Uninitialized" | "handshake_state s = HS_S2"
    using assms(1,2) by (auto simp: session_inv_def)
  then show ?thesis
  proof cases
    case 1
    have sent: "sent (s\<lparr>handshake_state := HS_C0\<rparr>) = []"
      using assms(1) 1 by (simp add: session_inv_def handshake_bytes_def)
    show ?thesis
    proof (cases "1537 \<le> length d \<and> d ! 0 = 3")
      case True
      obtain t x where t: "SendHandshake hmac now d (s\<lparr>handshake_state := HS_C0\<rparr>) = Inr (True, t)"
        "t = s\<lparr>handshake_state := HS_C0\<rparr>\<lparr>handshake_state := HS_S2, sent := x\<rparr>"
        "map length x = (if has_send_callback s then [1, 1536, 1536] else [])"
        using SendHandshake_session [OF _ assms(4) sent, of d now] True by auto
      then have "s' = t" using assms(3) True 1 by (simp add: ReceiveHandshakePacket_def)
      then show ?thesis
        using t(2,3) assms(1) 1 import_ok_new [of 128]
        by (simp add: session_inv_def handshake_bytes_def media_inv_def tracks_ok_def ack_ok_def)
    qed (use assms(1,3) 1 in \<open>auto simp: ReceiveHandshakePacket_def split: if_split_asm\<close>)
  qed (use assms(1,3) in \<open>auto simp: ReceiveHandshakePacket_def session_inv_def split: if_split_asm\<close>)
qed

lemma acknowledge_session:
  assumes "session_inv s" "handshake_state s = HS_Complete" "acknowledge n s = Inr s'"
  shows "session_inv s'"
proof -
  define s1 where "s1 = s\<lparr>acknowledgement_traffic := acknowledgement_traffic s + of_int n\<rparr>"
  have s1: "import_ok (import_chunk s1)" "media_inv s1" "handshake_state s1 = HS_Complete"
    using assms(1,2) by (simp_all add: s1_def session_inv_def)
  show ?thesis
  proof (cases "ack_ok s1")
    case True
    then have "\<not> acknowledgement_size s < acknowledgement_traffic s1" by (simp add: ack_ok_def s1_def not_less)
    then have "s' = s1" using assms(3) by (simp add: acknowledge_def s1_def Let_def)
    with True s1 show ?thesis by (simp add: session_inv_def)
  next
    case False
    then obtain ok s2 where 2: "SendAcknowledgementSize (acknowledgement_traffic s1) s1 = Inr (ok, s2)"
      "s' = s2\<lparr>acknowledgement_traffic := 0\<rparr>"
      using assms(3) by (auto simp: acknowledge_def ack_ok_def s1_def Let_def not_le elim!: bindR_E)
    have "keeps_session s1 s2"
      using send_frames(3) [OF 2(1)] by (intro keeps_media_session only_sends_keeps)
    then show ?thesis using s1 2(2) by (simp add: session_inv_def keeps_session_def ack_ok_def)
  qed
qed

lemma process_packet_session:
  assumes "session_inv s" "length d < 2 ^ 31" "process_packet hmac now d s = Inr (n, s')" "digest_sized hmac"
  shows "session_inv s'"
proof (cases "handshake_state s = HS_Complete")
  case True
  obtain r s1 where 1: "ReceiveChunkPacket_loop d 0 s = Inr (r, s1)"
    "(case r of Inl e \<Rightarrow> Inr (e, s1) | Inr k \<Rightarrow> bindR (acknowledge k s1) (\<lambda>s. Inr (k, s))) = Inr (n, s')"
    using assms(3) True by (auto simp: process_packet_def ReceiveChunkPacket_def elim!: bindR_E)
  have "keeps_run s s1"
    using chunk_loop_run [OF _ assms(2) 1(1)] assms(1) by (simp add: session_ok_def session_inv_def)
  then have "session_inv s1" "handshake_state s1 = HS_Complete"
    using assms(1) True by (simp_all add: keeps_run_def session_inv_def)
  with 1(2) show ?thesis
    by (auto split: sum.split_asm elim!: bindR_E dest: acknowledge_session)
next
  case False
  with assms show ?thesis
    by (auto simp: process_packet_def intro: ReceiveHandshakePacket_session)
qed

lemma process_remained_session:
  "session_inv s \<Longrightarrow> length d < 2 ^ 31 \<Longrightarrow> process_remained hmac now d s = Inr s' \<Longrightarrow> digest_sized hmac \<Longrightarrow> session_inv s'"
proof (induction "length d" arbitrary: d s rule: less_induct)
  case less
  obtain n s1 where 1: "process_packet hmac now d s = Inr (n, s1)"
    "(if n \<le> 0 then Inr (s1\<lparr>remained_data := Some d\<rparr>) else process_remained hmac now (drop (nat n) d) s1) = Inr s'"
    using less.prems(3) by (subst (asm) process_remained.simps) (auto elim!: bindR_E)
  note s1 = process_packet_session [OF less.prems(1,2) 1(1) less.prems(4)]
  show ?case
  proof (cases "n \<le> 0")
    case True
    then show ?thesis using 1(2) s1 by auto
  next
    case False
    then have "d \<noteq> []" using 1(1) process_packet_Nil by auto
    then show ?thesis
      using less.hyps [of "drop (nat n) d" s1] False 1(2) s1 less.prems(2,4) by auto
  qed
qed

lemma session_inv_reachable:
  assumes "session_reachable hmac s" "digest_sized hmac"
  shows "session_inv s"
  using assms
proof (induction rule: session_reachable.induct)
  case (turn s now s')
  obtain raw rest where r: "incoming_data s = raw # rest"
    using turn.hyps(3) by (auto simp: onThreadProc_turn_def split: list.split_asm)
  define d where "d = (case remained_data s of None \<Rightarrow> raw | Some x \<Rightarrow> x @ raw)"
  have "process_remained hmac now d (s\<lparr>incoming_data := rest\<rparr>) = Inr s'"
    using turn.hyps(3) r by (auto simp: onThreadProc_turn_def d_def Let_def elim!: bindR_E)
  moreover have "length d < 2 ^ 31"
    using turn.hyps(2) r by (simp add: turn_data_def d_def split: option.split_asm)
  ultimately show ?case
    using process_remained_session [of "s\<lparr>incoming_data := rest\<rparr>" d hmac now s'] turn by simp
qed (simp_all add: session_inv_new OnDataReceived_def)

text \<open>
  C3. The invariant of every session, whatever the network sends and however it is cut. The importer and the
  media state are consistent, and the unacknowledged traffic is within its window. Between two turns the
  handshake has not begun, waits for C2 or is complete; before it is complete no chunk has been read,
  nothing is published, and what was sent is nothing or the packets S0, S1 and S2. The application hears
  nothing until every track has its extradata; then it hears the names, the tracks, and samples of these
  tracks only.
\<close>

theorem session_invariant:
  assumes "session_reachable hmac s" "digest_sized hmac"
  shows "session_inv s"
  by (rule session_inv_reachable [OF assms])

text \<open>A session that has received one byte.\<close>

lemma session_invariant_witness:
  "session_inv ((new_rtmp_stream True True)\<lparr>remained_data := Some [3]\<rparr>)"
proof -
  have "onThreadProc_turn sample_hmac 0 (OnDataReceived [3] (new_rtmp_stream True True)) =
      Inr (Some ((new_rtmp_stream True True)\<lparr>remained_data := Some [3]\<rparr>))"
    by (simp add: onThreadProc_turn_def OnDataReceived_def new_rtmp_stream_def process_remained.simps process_packet_def
        ReceiveHandshakePacket_def)
  then have "session_reachable sample_hmac ((new_rtmp_stream True True)\<lparr>remained_data := Some [3]\<rparr>)"
    by (rule session_reachable.turn [OF session_reachable.receive [OF session_reachable.start], rotated])
      (simp add: turn_data_def OnDataReceived_def new_rtmp_stream_def)
  then show ?thesis by (rule session_invariant) (simp add: digest_sized_def sample_hmac_def)
qed

section \<open>The handshake completes\<close>

text \<open>The answer depends on the bytes of C1 only.\<close>

lemma MakeS2_take:
  assumes "1536 \<le> length p"
  shows "MakeS2 h p = MakeS2 h (take 1536 p)"
proof -
  obtain o1 o2 where o: "GetDigestOffset1 p = Inr o1" "o1 < 740" "GetDigestOffset2 p = Inr o2" "o2 < 1504"
    using GetDigestOffset_in [OF assms] by metis
  moreover have "GetDigestOffset1 (take 1536 p) = GetDigestOffset1 p" "GetDigestOffset2 (take 1536 p) = GetDigestOffset2 p"
    using assms by (simp_all add: GetDigestOffset1_def GetDigestOffset2_def sum_4_def drop_take)
  moreover have "VerifyDigest h off (take 1536 p) k = VerifyDigest h off p k" if "off \<le> 1504" for off k
    using assms that by (simp add: VerifyDigest_in drop_take min_def)
  ultimately show ?thesis
    using assms by (simp add: MakeS2_def echo_def drop_take min_def cong: if_cong)
qed

text \<open>
  C6. A client's handshake succeeds. From a fresh session the bytes of C0, C1 and C2 lead to a complete
  handshake, with nothing left over, and the packets S0, S1 and S2 are sent in this order, S2 made from the
  client's C1.
\<close>

theorem handshake_completes:
  assumes "digest_sized hmac" "length c1 = 1536" "length c2 = 1536"
  shows "\<exists>s1 s2. MakeS1 hmac now = Inr s1 \<and> MakeS2 hmac c1 = Inr s2 \<and> length s1 = 1536 \<and> length s2 = 1536 \<and>
    process_remained hmac now ([RTMP_HANDSHAKE_VERSION] @ c1 @ c2) (new_rtmp_stream True callback) =
      Inr ((new_rtmp_stream True callback)
        \<lparr>handshake_state := HS_Complete, sent := [[RTMP_HANDSHAKE_VERSION], s1, s2], remained_data := Some []\<rparr>)"
proof -
  obtain s1 where s1: "MakeS1 hmac now = Inr s1" "length s1 = 1536"
    using make_signed_verifies [of hmac now "0x01000100"] assms(1) unfolding MakeS1_def digest_sized_def by metis
  obtain s2 where s2: "MakeS2 hmac c1 = Inr s2" "length s2 = 1536"
    using MakeS2_in [of c1 hmac] assms(1,2) by auto
  have S2: "MakeS2 hmac (c1 @ c2) = Inr s2"
    using MakeS2_take [of "c1 @ c2" hmac] s2 assms(2,3) by simp
  define t where "t = (new_rtmp_stream True callback)\<lparr>handshake_state := HS_S2, sent := [[RTMP_HANDSHAKE_VERSION], s1, s2]\<rparr>"
  have 1: "process_packet hmac now ([RTMP_HANDSHAKE_VERSION] @ c1 @ c2) (new_rtmp_stream True callback) = Inr (1537, t)"
    using assms(2,3) s1 S2
    by (simp add: process_packet_def ReceiveHandshakePacket_def new_rtmp_stream_def SendHandshake_def SendData_def t_def)
  have 2: "process_packet hmac now c2 t = Inr (1536, t\<lparr>handshake_state := HS_Complete\<rparr>)"
    using assms(3) by (simp add: process_packet_def ReceiveHandshakePacket_def t_def)
  have 3: "process_packet hmac now [] (t\<lparr>handshake_state := HS_Complete\<rparr>) = Inr (0, t\<lparr>handshake_state := HS_Complete\<rparr>)"
    by (simp add: process_packet_def ReceiveChunkPacket_def loop_Nil acknowledge_def t_def new_rtmp_stream_def Let_def)
  have "process_remained hmac now ([RTMP_HANDSHAKE_VERSION] @ c1 @ c2) (new_rtmp_stream True callback) =
      process_remained hmac now c2 t"
    using assms(2) by (subst process_remained.simps, subst 1) simp
  also have "\<dots> = process_remained hmac now [] (t\<lparr>handshake_state := HS_Complete\<rparr>)"
    using assms(3) by (subst process_remained.simps, subst 2) simp
  also have "\<dots> = Inr (t\<lparr>handshake_state := HS_Complete, remained_data := Some []\<rparr>)"
    by (subst process_remained.simps, subst 3) simp
  finally show ?thesis using s1 s2 by (simp add: t_def)
qed

lemma handshake_completes_witness:
  "\<exists>s1 s2. process_remained sample_hmac 0 ([3] @ replicate 1536 1 @ replicate 1536 2) (new_rtmp_stream True True) =
      Inr ((new_rtmp_stream True True)
        \<lparr>handshake_state := HS_Complete, sent := [[3], s1, s2], remained_data := Some []\<rparr>)"
  using handshake_completes [of sample_hmac "replicate 1536 1" "replicate 1536 2" 0 True]
  by (force simp: digest_sized_def sample_hmac_def)

end
