(* ===== verification/Rtmp_Publish.thy ===== *)
theory Rtmp_Publish
  imports Rtmp_Stream_Loop Amf_Codec
begin

text \<open>
  When a stream is published, and when it never is: streams with audio only, streams without a name, and a
  publish command before the connect command.
\<close>

unbundle bit_operations_syntax

section \<open>A sequence of messages\<close>

text \<open>Messages handled in turn, whether they are accepted or not.\<close>

fun deliver :: "rtmp_message list \<Rightarrow> rtmp_stream \<Rightarrow> rtmp_stream res" where
  "deliver [] s = Inr s"
| "deliver (m # ms) s = bindR (ReceiveMessage m s) (\<lambda>(_, s). deliver ms s)"

definition is_type :: "byte \<Rightarrow> rtmp_message \<Rightarrow> bool" where
  "is_type ty m \<longleftrightarrow> completed_type_id (completed (msg_header m)) = ty"

section \<open>Audio without video\<close>

text \<open>
  C19. A stream with audio only is never published: as long as no video has come, every audio message is
  accepted and cached, however many there are, because the count of cached audio messages that
  \<open>CheckReadyToPublish\<close> compares with its limit stays 0. The cache grows without a bound and the application
  hears nothing.
\<close>

theorem audio_only_is_never_published:
  assumes "media_inv s" "\<not> published s" "\<not> video_stream_coming (media_info s)"
    "list_all (\<lambda>m. is_type RTMP_MSGID_AUDIO_MESSAGE m \<and> audio_size_ok m) ms"
  shows "\<exists>s'. deliver ms s = Inr s' \<and> message_cache s' = message_cache s @ ms \<and> \<not> published s' \<and>
    events s' = events s \<and> cache_audio_count s' = 0"
  using assms
proof (induction ms arbitrary: s)
  case (Cons m ms)
  have c: "cache_audio_count s = 0" using Cons.prems(1) by (simp add: media_inv_def)
  define t where "t = s\<lparr>media_info := (media_info s)\<lparr>audio_stream_coming := True\<rparr>, message_cache := message_cache s @ [m],
    cache_video_count := cache_video_count s + 1\<rparr>"
  have "ReceiveMessage m s = Inr (True, t)"
    using Cons.prems c by (simp add: ReceiveMessage_def is_type_def ReceiveAudioMessage_def publish_or_cache_def
        CheckReadyToPublish_def t_def)
  moreover have "media_inv t" using Cons.prems(1) by (simp add: t_def media_inv_def tracks_ok_def)
  ultimately show ?case
    using Cons.IH [of t] Cons.prems by (auto simp: t_def)
qed (simp add: media_inv_def)

definition sample_message :: "byte \<Rightarrow> byte list \<Rightarrow> rtmp_message" where
  "sample_message ty body =
     \<lparr>msg_header = new_chunk_header\<lparr>payload_size := of_nat (length body),
        completed := (completed new_chunk_header)\<lparr>completed_type_id := ty\<rparr>\<rparr>, msg_payload = body\<rparr>"

lemma audio_only_is_never_published_witness:
  "\<exists>s'. deliver (replicate 1000 (sample_message 8 [175, 1, 33])) (new_rtmp_stream True True) = Inr s' \<and>
     length (message_cache s') = 1000 \<and> \<not> published s' \<and> events s' = []"
proof -
  have 1: "media_inv (new_rtmp_stream True True)" by (rule media_inv_new)
  have 2: "list_all (\<lambda>m. is_type RTMP_MSGID_AUDIO_MESSAGE m \<and> audio_size_ok m) (replicate 1000 (sample_message 8 [175, 1, 33]))"
    by (simp add: list_all_iff is_type_def audio_size_ok_def sample_message_def)
  show ?thesis
    using audio_only_is_never_published [OF 1 _ _ 2] by (force simp: new_rtmp_stream_def new_media_info_def)
qed

section \<open>No name\<close>

text \<open>A stream that counts as published but has no tracks.\<close>

definition dead :: "rtmp_stream \<Rightarrow> bool" where
  "dead s \<longleftrightarrow> published s \<and> tracks s = []"

lemma dead_video: "dead s \<Longrightarrow> video_callback m s = Inr (ok, s') \<Longrightarrow> s' = s"
  by (auto simp: dead_def video_callback_def GetTrack_def Let_def elim!: bindR_E split: if_split_asm option.split_asm)

lemma dead_audio: "dead s \<Longrightarrow> audio_callback m s = Inr (ok, s') \<Longrightarrow> s' = s"
  by (auto simp: dead_def audio_callback_def GetTrack_def Let_def elim!: bindR_E split: if_split_asm option.split_asm)

lemma dead_message:
  assumes "dead s" "ReceiveMessage m s = Inr (ok, s')"
  shows "dead s' \<and> events s' = events s"
proof -
  define type_id where "type_id = completed_type_id (completed (msg_header m))"
  consider "ReceiveAudioMessage m s = Inr (ok, s')" | "ReceiveVideoMessage m s = Inr (ok, s')"
    | "ReceiveSetChunkSize m s = Inr (ok, s')" | "ReceiveAmfDataMessage m s = Inr s'"
    | "ReceiveAmfCommandMessage m s = Inr s'" | "ReceiveWindowAcknowledgementSize m s = Inr s'" | "s' = s"
    using assms(2) unfolding ReceiveMessage_def Let_def type_id_def [symmetric]
    by (auto split: if_split_asm dest: accepted_E(2))
  then show ?thesis
  proof cases
    case 1
    then have "s' = s" using assms(1) dead_audio [OF assms(1)]
      by (auto simp: ReceiveAudioMessage_def dead_def split: if_split_asm)
    with assms(1) show ?thesis by simp
  next
    case 2
    then have "s' = s" using assms(1) dead_video [OF assms(1)]
      by (auto simp: ReceiveVideoMessage_def dead_def split: if_split_asm)
    with assms(1) show ?thesis by simp
  next
    case 4
    with data_frame assms(1) show ?thesis by (auto simp: dead_def keeps_media_def)
  next
    case 5
    with command_frame assms(1) show ?thesis by (auto simp: dead_def keeps_media_def)
  qed (use assms(1) in \<open>auto simp: dead_def ReceiveSetChunkSize_def ReceiveWindowAcknowledgementSize_def
      elim!: bindR_E split: if_split_asm\<close>)
qed

text \<open>
  A stream that becomes ready before it has a name is lost. \<open>PublishStream\<close> fails but marks the stream as
  published, so it is not tried again: whatever messages follow, a publish command with a name among them,
  the stream gets no tracks and the application hears nothing.
\<close>

theorem unnamed_stream_is_lost:
  assumes "media_inv s" "\<not> published s" "stream_name s = []" "PublishStream s = Inr (ok, s1)" "deliver ms s1 = Inr s2"
  shows "\<not> ok \<and> published s2 \<and> tracks s2 = [] \<and> events s2 = []"
proof -
  have s1: "\<not> ok" "s1 = s\<lparr>published := True\<rparr>"
    using assms(3,4) by (auto simp: PublishStream_def Let_def)
  have "dead s1" "events s1 = []"
    using assms(1,2) by (simp_all add: s1 dead_def media_inv_def)
  then have "dead s2 \<and> events s2 = []"
    using assms(5)
  proof (induction ms arbitrary: s1)
    case (Cons m ms)
    then obtain ok t where "ReceiveMessage m s1 = Inr (ok, t)" "deliver ms t = Inr s2"
      by (auto elim!: bindR_E)
    with Cons.IH [of t] Cons.prems(1,2) dead_message [of s1 m ok t] show ?case by simp
  qed simp
  with s1 show ?thesis by (simp add: dead_def)
qed

lemma unnamed_stream_is_lost_witness:
  "\<exists>s2. deliver [sample_message 9 [23, 1, 0, 0, 0]] ((new_rtmp_stream True True)\<lparr>published := True\<rparr>) = Inr s2 \<and>
     published s2 \<and> tracks s2 = []"
proof -
  define s1 where "s1 = (new_rtmp_stream True True)\<lparr>published := True\<rparr>"
  have 1: "PublishStream (new_rtmp_stream True True) = Inr (False, s1)"
    by (simp add: PublishStream_def new_rtmp_stream_def s1_def)
  have 2: "deliver [sample_message 9 [23, 1, 0, 0, 0]] s1 = Inr s1"
    by (simp add: s1_def ReceiveMessage_def sample_message_def ReceiveVideoMessage_def video_size_ok_def video_callback_def
        new_rtmp_stream_def new_media_info_def)
  show ?thesis
    using unnamed_stream_is_lost [OF media_inv_new _ _ 1 2] 2 by (simp add: s1_def new_rtmp_stream_def)
qed

section \<open>Publishing before connecting\<close>

definition publish_command :: "u64 \<Rightarrow> cstring \<Rightarrow> amf_document" where
  "publish_command transaction_id name =
     [AmfString (lit ''publish''), AmfNumber transaction_id, AmfNull, AmfString name]"

lemma strstr_None_drop: "strstr s pat = None \<Longrightarrow> strstr (drop k s) pat = None"
proof (induction s arbitrary: k)
  case (Cons c s)
  then have "strstr s pat = None" by (subst (asm) strstr.simps) (simp split: if_split_asm)
  with Cons show ?case by (cases k) auto
qed simp

lemma strstr_None_take: "strstr s pat = None \<Longrightarrow> take (length pat) s \<noteq> pat"
  by (subst (asm) strstr.simps) (simp split: if_split_asm)

lemma scheme_length_None: "strstr s [58, 47, 47] = None \<Longrightarrow> scheme_length n s = None"
proof (induction s arbitrary: n)
  case (Cons c s)
  have "strstr s [58, 47, 47] = None" using strstr_None_drop [OF Cons.prems, of 1] by simp
  moreover have "take 3 s \<noteq> [58, 47, 47]" using strstr_None_take [OF calculation] by (simp add: numeral_3_eq_3)
  ultimately show ?case using Cons.IH [of "n + 1"] by (simp add: authority_at_def)
qed simp

lemma find_url_None: "strstr s [58, 47, 47] = None \<Longrightarrow> find_url s = None"
proof (induction s)
  case (Cons c s)
  have "strstr s [58, 47, 47] = None" using strstr_None_drop [OF Cons.prems, of 1] by simp
  with Cons.IH scheme_length_None [OF Cons.prems, of 0] show ?case by (subst find_url.simps) simp
qed (subst find_url.simps, simp)

text \<open>
  One message can stop the server. A publish command whose URL, the connection's one with a slash and the
  name, has no scheme is answered by using the null pointer that \<open>Url::Parse\<close> returns. Before a connect
  command with a \<open>tcUrl\<close>, every stream name without \<^verbatim>\<open>://\<close> does it.
\<close>

theorem publish_without_url_crashes:
  assumes "stream_name s = []" "strstr (tc_url s @ [47] @ name) [58, 47, 47] = None"
    "name \<noteq> []" "0 \<notin> set name" "length name < 2 ^ 16"
    "msg_payload m = document_Encode (publish_command tid name)"
    "uint (payload_size (msg_header m)) = int (length (document_Encode (publish_command tid name)))"
    "is_type RTMP_MSGID_AMF0_COMMAND_MESSAGE m"
  shows "ReceiveMessage m s = Inl Null_Deref"
proof -
  have wf: "list_all wf_property (publish_command tid name)"
    using assms(4,5) by (simp add: publish_command_def lit_def)
  have "document_Decode (document_Encode (publish_command tid name))
      (int (length (document_Encode (publish_command tid name)))) [] =
      Inr (length (document_Encode (publish_command tid name)), publish_command tid name)"
    using document_Decode_Encode [OF wf, of "[]" "[]"] assms(3) by (simp add: publish_command_def)
  then have "document_Decode (msg_payload m) (uint (payload_size (msg_header m))) [] =
      Inr (length (document_Encode (publish_command tid name)), publish_command tid name)"
    by (simp only: assms(6,7))
  moreover have "length (document_Encode (publish_command tid name)) \<noteq> 0"
    by (simp add: publish_command_def document_Encode_def)
  moreover have "find_url (tc_url s @ [47] @ name) = None"
    using assms(2) by (rule find_url_None)
  ultimately show ?thesis
    using assms(1,8)
    by (simp add: ReceiveMessage_def is_type_def accepted_def ReceiveAmfCommandMessage_def publish_command_def property_is_def
        string_property_def GetProperty_def OnAmfPublish_def set_stream_name_def Url_Parse_def lit_def property_GetString_def Let_def)
qed

lemma publish_without_url_crashes_witness:
  "ReceiveMessage (sample_message 20 (document_Encode (publish_command 0 (lit ''live'')))) (new_rtmp_stream True True) =
     Inl Null_Deref"
  by (rule publish_without_url_crashes [of _ "lit ''live''" _ 0])
    (simp_all add: new_rtmp_stream_def sample_message_def is_type_def lit_def strstr.simps publish_command_def
      document_Encode_def EncodeString_def EncodeNumber_def)

end
