(* ===== verification/Rtmp_Reply.thy ===== *)
theory Rtmp_Reply
  imports Rtmp_Stream_State Chunk_Roundtrip Amf_Codec
begin

text \<open>
  The replies of a session: what a client whose importer is in step with the session's exporter understands.
\<close>

unbundle bit_operations_syntax

section \<open>A reply\<close>

text \<open>
  A send is understood when the client's importer takes exactly the bytes that were sent, finishes one
  message, and decodes the document from it; the two ends stay in step.
\<close>

definition understood ::
    "(rtmp_stream \<Rightarrow> (bool \<times> rtmp_stream) res) \<Rightarrow> u32 \<Rightarrow> u32 \<Rightarrow> amf_document \<Rightarrow> rtmp_stream \<Rightarrow> import_chunk \<Rightarrow> bool" where
  "understood send csid sid document s client \<longleftrightarrow>
     (\<exists>bs s' client' m.
        send s = Inr (True, s') \<and> sent s' = sent s @ [bs] \<and>
        Import client bs = Inr (int (length bs), True, client') \<and> in_step (export_chunk s') client' \<and>
        import_queue client' = Enqueue m (import_queue client) \<and>
        message_view m = (csid, RTMP_MSGID_AMF0_COMMAND_MESSAGE, sid, 0, document_Encode document) \<and>
        document_Decode (msg_payload m) (int (length (msg_payload m))) [] = Inr (length (msg_payload m), document))"

lemma length_exported_small:
  assumes "length data \<le> 2048" "0 < export_chunk_size e"
  shows "length (exported_bytes e mh data) < 2 ^ 31"
proof -
  have "(length data - 1) div export_chunk_size e \<le> length data"
    using div_le_dividend [of "length data - 1"] diff_le_self [of "length data" 1] le_trans by blast
  moreover have "GetBasicHeaderSizeByChunkStreamID csid + (if ext then 4 else 0) \<le> 7" for csid ext
    using GetBasicHeaderSizeByChunkStreamID_bounds(2) [of csid] by simp
  ultimately have "(length data - 1) div export_chunk_size e * (GetBasicHeaderSizeByChunkStreamID csid + (if ext then 4 else 0))
      \<le> length data * 7" for csid ext
    by (rule mult_le_mono)
  note blocks = this
  have "GetChunkDataRawSize (export_chunk_size e) csid (length data) ext \<le> length data * 8" for csid ext
    using blocks [of csid ext] by (cases ext) (auto simp: GetChunkDataRawSize_def Let_def)
  then have "length (exported_bytes e mh data) \<le> RTMP_PACKET_HEADER_SIZE_MAX + length data * 8"
    using exported_header_raw_bound by (simp only: length_exported_bytes [OF assms(2)] add_mono)
  with assms(1) show ?thesis by simp
qed

lemma SendMessagePacket_understood:
  assumes "in_step (export_chunk s) client" "import_ok client" "has_send_callback s"
    and "sendable (import_chunk_size client) mh data" "length data \<le> 2048"
  obtains bs s' client' m where "SendMessagePacket mh data s = Inr (True, s')" "sent s' = sent s @ [bs]"
    "Import client bs = Inr (int (length bs), True, client')" "in_step (export_chunk s') client'"
    "import_queue client' = Enqueue m (import_queue client)" "message_view m = sent_view (mh, data)"
proof -
  let ?bs = "exported_bytes (export_chunk s) mh data"
  obtain h where h: "\<And>rest. import_spec client (?bs @ rest) = (int (length ?bs), True, received client h data)"
    "stream_id h = mux_chunk_stream_id mh" "same_values mh (completed h)"
    "in_step (exported_state (export_chunk s) mh) (received client h data)"
    using exported_message_imported [OF assms(1,4)] by metis
  have e: "ExportStreamData (export_chunk s) (Some mh) data = Inr (Some ?bs, exported_state (export_chunk s) mh)"
    using assms(1,4) by (intro ExportStreamData_eq) (simp_all add: in_step_def sendable_def well_sized_def)
  have "message_view \<lparr>msg_header = h, msg_payload = data\<rparr> = sent_view (mh, data)"
    using h(2,3) by (simp add: message_view_def sent_view_def same_values_def Let_def)
  moreover have "Import client ?bs = Inr (int (length ?bs), True, received client h data)"
    using h(1) [of "[]"] Import_eq [OF assms(2), of ?bs] length_exported_small [OF assms(5)] assms(1) by (simp add: in_step_def)
  ultimately show ?thesis
    using that [of "s\<lparr>export_chunk := exported_state (export_chunk s) mh, sent := sent s @ [?bs]\<rparr>" ?bs
      "received client h data" "\<lparr>msg_header = h, msg_payload = data\<rparr>"] e h(4) assms(3)
    by (simp add: SendMessagePacket_def SendData_def received_def)
qed

lemma SendAmfCommand_understood:
  assumes "in_step (export_chunk s) client" "import_ok client" "has_send_callback s"
    and "2 \<le> csid" "csid < 320" "list_all wf_property document" "document \<noteq> []" "last document \<noteq> AmfString []"
    and "length (document_Encode document) \<le> 2048" "document_Encode document \<noteq> []"
  shows "understood (SendAmfCommand (mux_header csid RTMP_MSGID_AMF0_COMMAND_MESSAGE sid 0) document) csid sid document s client"
proof -
  let ?data = "document_Encode document"
  let ?mh = "mux_header csid RTMP_MSGID_AMF0_COMMAND_MESSAGE sid 0\<lparr>mux_body_size := of_nat (length ?data)\<rparr>"
  have "sendable (import_chunk_size client) ?mh ?data"
    using assms(4,5,9,10) order.strict_implies_order [OF order.strict_trans2 [OF assms(5), of 65599]]
    by (simp add: sendable_def well_sized_def mux_header_def unat_of_nat)
  then obtain bs s' client' m where 1: "SendMessagePacket ?mh ?data s = Inr (True, s')" "sent s' = sent s @ [bs]"
    "Import client bs = Inr (int (length bs), True, client')" "in_step (export_chunk s') client'"
    "import_queue client' = Enqueue m (import_queue client)" "message_view m = sent_view (?mh, ?data)"
    using SendMessagePacket_understood [OF assms(1-3) _ assms(9)] by metis
  have "msg_payload m = ?data" using 1(6) by (simp add: message_view_def sent_view_def Let_def)
  moreover have "SendAmfCommand (mux_header csid RTMP_MSGID_AMF0_COMMAND_MESSAGE sid 0) document s = Inr (True, s')"
    using 1(1) assms(9,10) by (simp add: SendAmfCommand_def)
  ultimately show ?thesis
    unfolding understood_def
    using 1 document_Decode_Encode [OF assms(6-8), of "[]" "[]"]
    by (intro exI [of _ bs] exI [of _ s'] exI [of _ client'] exI [of _ m]) (simp add: sent_view_def mux_header_def Let_def)
qed

section \<open>The four replies\<close>

definition connect_reply :: "u64 \<Rightarrow> u64 \<Rightarrow> u64 \<Rightarrow> amf_document" where
  "connect_reply transaction_id object_encoding cid =
     [AmfString (lit ''_result''), AmfNumber transaction_id,
      AmfObject [(lit ''fmsVer'', AmfString (lit ''FMS/3,5,2,654'')), (lit ''capabilities'', AmfNumber 0x403F000000000000),
        (lit ''mode'', AmfNumber 0x3FF0000000000000)],
      AmfObject [(lit ''level'', AmfString (lit ''status'')), (lit ''code'', AmfString (lit ''NetConnection.Connect.Success'')),
        (lit ''description'', AmfString (lit ''Connection succeeded.'')), (lit ''clientid'', AmfNumber cid),
        (lit ''objectEncoding'', AmfNumber object_encoding),
        (lit ''data'', AmfArray [(lit ''version'', AmfString (lit ''3,5,2,654''))])]]"

definition status_reply :: "string \<Rightarrow> string \<Rightarrow> string \<Rightarrow> string \<Rightarrow> u64 \<Rightarrow> amf_document" where
  "status_reply name level code description cid =
     [AmfString (lit name), AmfNumber 0, AmfNull,
      AmfObject [(lit ''level'', AmfString (lit level)), (lit ''code'', AmfString (lit code)),
        (lit ''description'', AmfString (lit description)), (lit ''clientid'', AmfNumber cid)]]"

lemma understood_cong:
  assumes "understood g csid sid document t client" "f s = g t" "sent t = sent s"
  shows "understood f csid sid document s client"
  using assms by (simp add: understood_def)

lemma connect_reply_ok:
  "list_all wf_property (connect_reply tid encoding cid)" "connect_reply tid encoding cid \<noteq> []"
  "last (connect_reply tid encoding cid) \<noteq> AmfString []"
  "length (document_Encode (connect_reply tid encoding cid)) \<le> 2048"
  "document_Encode (connect_reply tid encoding cid) \<noteq> []"
  by (simp_all add: connect_reply_def lit_def document_Encode_def EncodeString_def EncodeNumber_def)

text \<open>
  C18. The client understands the replies. When its importer is in step with the exporter, and the command came
  on a chunk stream below 320, the replies to connect, createStream, FCPublish and publish fit the buffer
  of 2048 bytes, arrive as one message each, and decode to the documents that were meant.
\<close>

theorem replies_are_understood:
  assumes "in_step (export_chunk s) client" "import_ok client" "has_send_callback s" "2 \<le> csid" "csid < 320"
  shows "understood (SendAmfConnectResult csid tid encoding) csid (rtmp_stream_id s)
           (connect_reply tid encoding (client_id s)) s client \<and>
    understood (SendAmfCreateStreamResult csid tid) csid 0
           [AmfString (lit ''_result''), AmfNumber tid, AmfNull, AmfNumber 0x3FF0000000000000] s client \<and>
    understood (SendAmfOnFCPublish csid sid cid) csid (rtmp_stream_id s)
           (status_reply ''onFCPublish'' ''status'' ''NetStream.Publish.Start'' ''FCPublish'' cid) s client \<and>
    understood (SendAmfOnStatus csid sid ''status'' ''NetStream.Publish.Start'' ''Publishing'' cid) csid sid
           (status_reply ''onStatus'' ''status'' ''NetStream.Publish.Start'' ''Publishing'' cid) s client"
  (is "?a \<and> ?b \<and> ?c \<and> ?d")
proof (intro conjI)
  note command = SendAmfCommand_understood [OF assms(1-5)]
  show ?a
    by (rule understood_cong [OF command [OF connect_reply_ok]])
      (simp_all add: SendAmfConnectResult_def connect_reply_def lit_def add_pair_def)
  show ?b
    by (rule understood_cong [OF SendAmfCommand_understood, where t = "s\<lparr>rtmp_stream_id := 1\<rparr>"])
      (use assms in \<open>simp_all add: SendAmfCreateStreamResult_def lit_def document_Encode_def EncodeString_def EncodeNumber_def\<close>)
  show ?c
    by (rule understood_cong [OF command])
      (simp_all add: SendAmfOnFCPublish_def status_document_def status_reply_def lit_def add_pair_def document_Encode_def
        EncodeString_def EncodeNumber_def)
  show ?d
    by (rule understood_cong [OF command])
      (simp_all add: SendAmfOnStatus_def status_document_def status_reply_def lit_def add_pair_def document_Encode_def
        EncodeString_def EncodeNumber_def)
qed

lemma replies_are_understood_witness:
  "understood (SendAmfConnectResult 3 0x3FF0000000000000 0) 3 1 (connect_reply 0x3FF0000000000000 0 0x40C81C8000000000)
     (new_rtmp_stream True True) (new_import_chunk 128)"
  using replies_are_understood [of "new_rtmp_stream True True" "new_import_chunk 128" 3]
  by (simp add: new_rtmp_stream_def in_step_new import_ok_new)

end
