(* ===== verification/Rtmp_Progress.thy ===== *)
theory Rtmp_Progress
  imports Rtmp_Session
begin

text \<open>
  The direction of a session: the handshake states in the order of the protocol, and that a session never goes back
  in it.
\<close>

section \<open>The order of the handshake\<close>

text \<open>The states by the numbers that the enumeration gives them.\<close>

fun handshake_code :: "handshake_state \<Rightarrow> nat" where
  "handshake_code HS_Uninitialized = 0"
| "handshake_code HS_C0 = 1"
| "handshake_code HS_C1 = 2"
| "handshake_code HS_S0 = 3"
| "handshake_code HS_S1 = 4"
| "handshake_code HS_S2 = 5"
| "handshake_code HS_C2 = 6"

lemma handshake_code_inject: "handshake_code a = handshake_code b \<longleftrightarrow> a = b"
  by (cases a; cases b) simp_all

instantiation handshake_state :: linorder
begin

definition less_eq_handshake_state :: "handshake_state \<Rightarrow> handshake_state \<Rightarrow> bool" where
  "less_eq_handshake_state a b = (handshake_code a \<le> handshake_code b)"

definition less_handshake_state :: "handshake_state \<Rightarrow> handshake_state \<Rightarrow> bool" where
  "less_handshake_state a b = (handshake_code a < handshake_code b)"

instance
  by standard (auto simp: less_eq_handshake_state_def less_handshake_state_def handshake_code_inject)

end

lemma handshake_bounds [simp]: "HS_Uninitialized \<le> h" "h \<le> HS_Complete"
  by (cases h; simp add: less_eq_handshake_state_def)+

section \<open>Progress\<close>

text \<open>One step of a session: data comes in, or the thread takes a turn.\<close>

inductive session_step :: "hmac \<Rightarrow> rtmp_stream \<Rightarrow> rtmp_stream \<Rightarrow> bool" for hmac where
  receive: "session_step hmac s (OnDataReceived d s)"
| turn: "length (turn_data s) < 2 ^ 31 \<Longrightarrow> onThreadProc_turn hmac now s = Inr (Some s') \<Longrightarrow> session_step hmac s s'"

definition advances :: "rtmp_stream \<Rightarrow> rtmp_stream \<Rightarrow> bool" where
  "advances s s' = (handshake_state s \<le> handshake_state s' \<and> (published s \<longrightarrow> published s'))"

lemma advances_refl [simp]: "advances s s"
  by (simp add: advances_def)

lemma advances_trans: "advances s s1 \<Longrightarrow> advances s1 s2 \<Longrightarrow> advances s s2"
  by (auto simp: advances_def)

lemma advances_updates [simp]:
  "advances (s\<lparr>incoming_data := i\<rparr>) s' = advances s s'" "advances s (s'\<lparr>remained_data := r\<rparr>) = advances s s'"
  "advances s (s'\<lparr>incoming_data := i\<rparr>) = advances s s'"
  by (simp_all add: advances_def)

lemma acknowledge_advances:
  assumes "acknowledge n s = Inr s'"
  shows "advances s s'"
proof -
  define s1 where "s1 = s\<lparr>acknowledgement_traffic := acknowledgement_traffic s + of_int n\<rparr>"
  have "s' = s1 \<or> (\<exists>ok s2. SendAcknowledgementSize (acknowledgement_traffic s1) s1 = Inr (ok, s2) \<and>
      s' = s2\<lparr>acknowledgement_traffic := 0\<rparr>)"
    using assms by (auto simp: acknowledge_def s1_def Let_def split: if_split_asm elim!: bindR_E)
  moreover have "advances s (s2\<lparr>acknowledgement_traffic := 0\<rparr>)" if "SendAcknowledgementSize t s1 = Inr (ok, s2)" for t ok s2
    using keeps_media_session [OF only_sends_keeps [OF send_frames(3) [OF that]]]
    by (simp add: keeps_session_def advances_def s1_def)
  moreover have "advances s s1" by (simp add: advances_def s1_def)
  ultimately show ?thesis by blast
qed

lemma handshake_advances:
  assumes "session_inv s" "handshake_state s \<noteq> HS_Complete" "ReceiveHandshakePacket hmac now d s = Inr (n, s')" "digest_sized hmac"
  shows "advances s s'"
proof -
  have unpublished: "\<not> published s" using assms(1,2) by (simp add: session_inv_def)
  consider "handshake_state s = HS_Uninitialized" | "handshake_state s = HS_S2"
    using assms(1,2) by (auto simp: session_inv_def)
  then show ?thesis
  proof cases
    case 1
    then show ?thesis using unpublished by (simp add: advances_def)
  next
    case 2
    then have "s' = s \<or> s' = s\<lparr>handshake_state := HS_Complete\<rparr>"
      using assms(3) by (auto simp: ReceiveHandshakePacket_def split: if_split_asm)
    then show ?thesis using unpublished by (auto simp: advances_def)
  qed
qed

lemma process_packet_advances:
  assumes "session_inv s" "length d < 2 ^ 31" "process_packet hmac now d s = Inr (n, s')" "digest_sized hmac"
  shows "advances s s'"
proof (cases "handshake_state s = HS_Complete")
  case True
  obtain r s1 where 1: "ReceiveChunkPacket_loop d 0 s = Inr (r, s1)"
    "(case r of Inl e \<Rightarrow> Inr (e, s1) | Inr k \<Rightarrow> bindR (acknowledge k s1) (\<lambda>s. Inr (k, s))) = Inr (n, s')"
    using assms(3) True by (auto simp: process_packet_def ReceiveChunkPacket_def elim!: bindR_E)
  have "keeps_run s s1"
    using chunk_loop_run [OF _ assms(2) 1(1)] assms(1) by (simp add: session_ok_def session_inv_def)
  then have "advances s s1" by (simp add: keeps_run_def advances_def)
  with 1(2) show ?thesis
    by (auto split: sum.split_asm elim!: bindR_E dest: acknowledge_advances intro: advances_trans)
next
  case False
  with assms show ?thesis by (auto simp: process_packet_def intro: handshake_advances)
qed

lemma process_remained_advances:
  "session_inv s \<Longrightarrow> length d < 2 ^ 31 \<Longrightarrow> process_remained hmac now d s = Inr s' \<Longrightarrow> digest_sized hmac \<Longrightarrow> advances s s'"
proof (induction "length d" arbitrary: d s rule: less_induct)
  case less
  obtain n s1 where 1: "process_packet hmac now d s = Inr (n, s1)"
    "(if n \<le> 0 then Inr (s1\<lparr>remained_data := Some d\<rparr>) else process_remained hmac now (drop (nat n) d) s1) = Inr s'"
    using less.prems(3) by (subst (asm) process_remained.simps) (auto elim!: bindR_E)
  note s1 = process_packet_session [OF less.prems(1,2) 1(1) less.prems(4)]
    process_packet_advances [OF less.prems(1,2) 1(1) less.prems(4)]
  show ?case
  proof (cases "n \<le> 0")
    case True
    then show ?thesis using 1(2) s1 by auto
  next
    case False
    then have "d \<noteq> []" using 1(1) process_packet_Nil by auto
    then have "advances s1 s'"
      using less.hyps [of "drop (nat n) d" s1] False 1(2) s1 less.prems(2,4) by auto
    then show ?thesis using s1(2) advances_trans by blast
  qed
qed


lemma session_step_advances:
  assumes "session_reachable hmac s" "session_step hmac s s'" "digest_sized hmac"
  shows "session_reachable hmac s' \<and> advances s s'"
  using assms(2)
proof (cases rule: session_step.cases)
  case (receive d)
  then show ?thesis using session_reachable.receive [OF assms(1), of d] by (simp add: OnDataReceived_def)
next
  case (turn now)
  obtain raw rest where r: "incoming_data s = raw # rest"
    using turn(2) by (auto simp: onThreadProc_turn_def split: list.split_asm)
  define d where "d = (case remained_data s of None \<Rightarrow> raw | Some x \<Rightarrow> x @ raw)"
  have "process_remained hmac now d (s\<lparr>incoming_data := rest\<rparr>) = Inr s'"
    using turn(2) r by (auto simp: onThreadProc_turn_def d_def Let_def elim!: bindR_E)
  moreover have "length d < 2 ^ 31"
    using turn(1) r by (simp add: turn_data_def d_def split: option.split_asm)
  moreover have "session_inv (s\<lparr>incoming_data := rest\<rparr>)"
    using session_inv_reachable [OF assms(1,3)] by simp
  ultimately have "advances s s'"
    using process_remained_advances [of "s\<lparr>incoming_data := rest\<rparr>" d hmac now s'] assms(3) by simp
  then show ?thesis using session_reachable.turn [OF assms(1) turn] by simp
qed

text \<open>
  C4. A session never goes back. From any state it can be in, and whatever the network sends, in however many steps
  the handshake moves only forward in the order of its states, and a stream that is published stays published.
\<close>

theorem session_never_goes_back:
  assumes "session_reachable hmac s" "(session_step hmac)\<^sup>*\<^sup>* s s'" "digest_sized hmac"
  shows "handshake_state s \<le> handshake_state s' \<and> (published s \<longrightarrow> published s')"
proof -
  from assms(2) have "session_reachable hmac s' \<and> advances s s'"
  proof (induction rule: rtranclp_induct)
    case base
    then show ?case using assms(1) by simp
  next
    case (step y z)
    then show ?case using session_step_advances [of hmac y z] assms(3) advances_trans by blast
  qed
  then show ?thesis by (simp add: advances_def)
qed

text \<open>A session that receives one byte, and handles it in the next turn of its thread.\<close>

theorem session_never_goes_back_witness:
  "(session_step sample_hmac)\<^sup>*\<^sup>* (new_rtmp_stream True True) ((new_rtmp_stream True True)\<lparr>remained_data := Some [3]\<rparr>) \<and>
   handshake_state (new_rtmp_stream True True) \<le> handshake_state ((new_rtmp_stream True True)\<lparr>remained_data := Some [3]\<rparr>)"
proof -
  let ?s = "OnDataReceived [3] (new_rtmp_stream True True)"
  have "onThreadProc_turn sample_hmac 0 ?s = Inr (Some ((new_rtmp_stream True True)\<lparr>remained_data := Some [3]\<rparr>))"
    by (simp add: onThreadProc_turn_def OnDataReceived_def new_rtmp_stream_def process_remained.simps process_packet_def
        ReceiveHandshakePacket_def)
  moreover have "length (turn_data ?s) < 2 ^ 31"
    by (simp add: turn_data_def OnDataReceived_def new_rtmp_stream_def)
  ultimately have steps: "(session_step sample_hmac)\<^sup>*\<^sup>* (new_rtmp_stream True True)
      ((new_rtmp_stream True True)\<lparr>remained_data := Some [3]\<rparr>)"
    by (meson converse_rtranclp_into_rtranclp r_into_rtranclp session_step.receive session_step.turn)
  then show ?thesis
    using session_never_goes_back [OF session_reachable.start steps] by (simp add: digest_sized_def sample_hmac_def)
qed

end
