(* ===== verification/Gf_Bit_Stream.thy ===== *)
theory Gf_Bit_Stream
  imports Bit_Codec
begin

text \<open>
  The bit stream of \<open>core/bitstream.cpp\<close>, over memory or over a file. Memory that \<^verbatim>\<open>malloc\<close> and \<^verbatim>\<open>realloc\<close> return
  holds unknown bytes, the field \<open>bs_junk\<close>; that there is memory is assumed. The call back at the end of the
  stream is counted. A release build is modelled, in which assertions do nothing.
\<close>

unbundle bit_operations_syntax

section \<open>Files\<close>

text \<open>A \<^verbatim>\<open>FILE\<close> that is open for reading and writing: its bytes, the offset and the end-of-file flag.\<close>

record c_file =
  file_bytes :: "byte list"
  file_pos :: nat
  file_eof :: bool

text \<open>At the end, \<^verbatim>\<open>fgetc\<close> gives -1, of which the code keeps a byte.\<close>

definition fgetc :: "c_file \<Rightarrow> byte \<times> c_file" where
  "fgetc f = (if file_pos f < length (file_bytes f) then (file_bytes f ! file_pos f, f\<lparr>file_pos := file_pos f + 1\<rparr>)
     else (-1, f\<lparr>file_eof := True\<rparr>))"

definition fread :: "nat \<Rightarrow> c_file \<Rightarrow> byte list \<times> c_file" where
  "fread n f = (let xs = take n (drop (file_pos f) (file_bytes f)) in
     (xs, f\<lparr>file_pos := file_pos f + length xs, file_eof := file_eof f \<or> length xs < n\<rparr>))"

definition fwrite :: "byte list \<Rightarrow> c_file \<Rightarrow> c_file" where
  "fwrite xs f =
     f\<lparr>file_bytes := take (file_pos f) (file_bytes f) @ replicate (file_pos f - length (file_bytes f)) 0 @ xs @
         drop (file_pos f + length xs) (file_bytes f),
       file_pos := file_pos f + length xs\<rparr>"

text \<open>\<^verbatim>\<open>fseek\<close> to an offset from the start of the file, which fails when that is negative.\<close>

definition fseek :: "int \<Rightarrow> c_file \<Rightarrow> c_file" where
  "fseek i f = (if i < 0 then f else f\<lparr>file_pos := nat i, file_eof := False\<rparr>)"

section \<open>The stream\<close>

datatype bs_mode = BS_READ | BS_WRITE | BS_FILE_READ | BS_FILE_WRITE | BS_WRITE_DYN

record gf_bit_stream =
  bs_stream :: "c_file option"
  bs_original :: "byte list option"
  bs_size :: u64
  bs_bufferSize :: u64
  bs_position :: u64
  bs_current :: u32
  bs_nbBits :: u32
  bs_bsmode :: bs_mode
  bs_EndOfStream :: bool
  bs_eos_calls :: nat
  bs_junk :: "nat \<Rightarrow> byte"

abbreviation BS_MEM_BLOCK_ALLOC_SIZE :: u64 where
  "BS_MEM_BLOCK_ALLOC_SIZE \<equiv> 512"

text \<open>
  \<^verbatim>\<open>realloc\<close> to \<open>n\<close> bytes, which frees the memory when \<open>n\<close> is 0, and \<^verbatim>\<open>malloc\<close> as its use without old memory.
\<close>

definition realloc :: "(nat \<Rightarrow> byte) \<Rightarrow> u32 \<Rightarrow> byte list option \<Rightarrow> byte list option" where
  "realloc junk n m = (let old = (case m of None \<Rightarrow> [] | Some xs \<Rightarrow> xs) in
     if n = 0 \<and> m \<noteq> None then None else Some (take (unat n) old @ map junk [length old..<unat n]))"

definition load_range :: "byte list option \<Rightarrow> nat \<Rightarrow> nat \<Rightarrow> byte list res" where
  "load_range m i n = (case m of None \<Rightarrow> Inl Null_Deref | Some xs \<Rightarrow> read_bytes xs i n)"

definition load :: "byte list option \<Rightarrow> nat \<Rightarrow> byte res" where
  "load m i = (case m of None \<Rightarrow> Inl Null_Deref | Some xs \<Rightarrow> byte_at xs i)"

definition store_range :: "byte list option \<Rightarrow> nat \<Rightarrow> byte list \<Rightarrow> byte list option res" where
  "store_range m i ys = (case m of None \<Rightarrow> Inl Null_Deref | Some xs \<Rightarrow>
     if i + length ys \<le> length xs then Inr (Some (take i xs @ ys @ drop (i + length ys) xs)) else Inl Over_Write)"

text \<open>No stream is \<^verbatim>\<open>nullptr\<close>. The other modes than the two public ones are refused.\<close>

definition gf_bs_new :: "(nat \<Rightarrow> byte) \<Rightarrow> byte list option \<Rightarrow> u64 \<Rightarrow> bs_mode \<Rightarrow> gf_bit_stream option" where
  "gf_bs_new junk buffer BufferSize md =
     (if buffer \<noteq> None \<and> BufferSize = 0 then None
      else let tmp = \<lparr>bs_stream = None, bs_original = buffer, bs_size = BufferSize, bs_bufferSize = 0,
                bs_position = 0, bs_current = 0, bs_nbBits = 0, bs_bsmode = md, bs_EndOfStream = False,
                bs_eos_calls = 0, bs_junk = junk\<rparr> in
        (case md of
           BS_READ \<Rightarrow> Some (tmp\<lparr>bs_nbBits := 8\<rparr>)
         | BS_WRITE \<Rightarrow>
             (if buffer = None then
                let n = (if BufferSize \<noteq> 0 then BufferSize + BS_MEM_BLOCK_ALLOC_SIZE else BS_MEM_BLOCK_ALLOC_SIZE) in
                  (case realloc junk (ucast n) None of
                     None \<Rightarrow> None
                   | Some xs \<Rightarrow> Some (tmp\<lparr>bs_bufferSize := n, bs_original := Some xs, bs_bsmode := BS_WRITE_DYN\<rparr>))
              else Some tmp)
         | _ \<Rightarrow> None))"

definition gf_bs_from_file :: "(nat \<Rightarrow> byte) \<Rightarrow> c_file option \<Rightarrow> bs_mode \<Rightarrow> gf_bit_stream option" where
  "gf_bs_from_file junk f md = (case f of None \<Rightarrow> None | Some f \<Rightarrow>
     let m = (if md = BS_READ then BS_FILE_READ else BS_FILE_WRITE) in
     Some \<lparr>bs_stream = Some (fseek (int (file_pos f)) f), bs_original = None, bs_size = of_nat (length (file_bytes f)),
       bs_bufferSize = 0, bs_position = of_nat (file_pos f), bs_current = 0,
       bs_nbBits = (if m = BS_FILE_READ then 8 else 0), bs_bsmode = m, bs_EndOfStream = False,
       bs_eos_calls = 0, bs_junk = junk\<rparr>)"

definition BS_IsAlign :: "gf_bit_stream \<Rightarrow> bool" where
  "BS_IsAlign bs = (if bs_bsmode bs = BS_READ \<or> bs_bsmode bs = BS_FILE_READ then bs_nbBits bs = 8 else bs_nbBits bs = 0)"

section \<open>Reading\<close>

definition end_of_stream :: "gf_bit_stream \<Rightarrow> gf_bit_stream" where
  "end_of_stream bs = (if bs_EndOfStream bs then bs\<lparr>bs_eos_calls := bs_eos_calls bs + 1\<rparr> else bs)"

definition BS_ReadByte :: "gf_bit_stream \<Rightarrow> (byte \<times> gf_bit_stream) res" where
  "BS_ReadByte bs =
     (if bs_bsmode bs = BS_READ then
        if bs_size bs \<le> bs_position bs then Inr (0, end_of_stream bs)
        else bindR (load (bs_original bs) (unat (bs_position bs))) (\<lambda>b.
          Inr (b, bs\<lparr>bs_position := bs_position bs + 1\<rparr>))
      else (case bs_stream bs of
        None \<Rightarrow> Inl Null_Deref
      | Some f \<Rightarrow>
          if \<not> file_eof f then
            let (b, f') = fgetc f in Inr (b, bs\<lparr>bs_position := bs_position bs + 1, bs_stream := Some f'\<rparr>)
          else Inr (0, end_of_stream bs)))"

definition gf_bs_read_bit :: "gf_bit_stream \<Rightarrow> (byte \<times> gf_bit_stream) res" where
  "gf_bs_read_bit bs =
     bindR (if bs_nbBits bs = 8
            then bindR (BS_ReadByte bs) (\<lambda>(b, bs). Inr (bs\<lparr>bs_current := ucast b, bs_nbBits := 0\<rparr>))
            else Inr bs) (\<lambda>bs.
       let c = push_bit 1 (bs_current bs) in
         Inr (ucast (drop_bit 8 (c AND 0x100)), bs\<lparr>bs_current := c, bs_nbBits := bs_nbBits bs + 1\<rparr>))"

text \<open>The loop of the two functions that read an integer, at the width of its result.\<close>

fun read_bits :: "nat \<Rightarrow> 'a::len word \<Rightarrow> gf_bit_stream \<Rightarrow> ('a word \<times> gf_bit_stream) res" where
  "read_bits 0 ret bs = Inr (ret, bs)"
| "read_bits (Suc n) ret bs = bindR (gf_bs_read_bit bs) (\<lambda>(b, bs). read_bits n (push_bit 1 ret OR ucast b) bs)"

definition gf_bs_read_int :: "u32 \<Rightarrow> gf_bit_stream \<Rightarrow> (u32 \<times> gf_bit_stream) res" where
  "gf_bs_read_int nBits bs = read_bits (unat nBits) 0 bs"

definition gf_bs_read_u8 :: "gf_bit_stream \<Rightarrow> (u32 \<times> gf_bit_stream) res" where
  "gf_bs_read_u8 bs = bindR (BS_ReadByte bs) (\<lambda>(b, bs). Inr (ucast b, bs))"

text \<open>The bytes of the wider reads, one after the other.\<close>

fun read_more :: "nat \<Rightarrow> u32 \<Rightarrow> gf_bit_stream \<Rightarrow> (u32 \<times> gf_bit_stream) res" where
  "read_more 0 ret bs = Inr (ret, bs)"
| "read_more (Suc n) ret bs = bindR (BS_ReadByte bs) (\<lambda>(b, bs). read_more n (push_bit 8 ret OR ucast b) bs)"

definition gf_bs_read_u16 :: "gf_bit_stream \<Rightarrow> (u32 \<times> gf_bit_stream) res" where
  "gf_bs_read_u16 bs = bindR (BS_ReadByte bs) (\<lambda>(b, bs). read_more 1 (ucast b) bs)"

definition gf_bs_read_u24 :: "gf_bit_stream \<Rightarrow> (u32 \<times> gf_bit_stream) res" where
  "gf_bs_read_u24 bs = bindR (BS_ReadByte bs) (\<lambda>(b, bs). read_more 2 (ucast b) bs)"

definition gf_bs_read_u32 :: "gf_bit_stream \<Rightarrow> (u32 \<times> gf_bit_stream) res" where
  "gf_bs_read_u32 bs = bindR (BS_ReadByte bs) (\<lambda>(b, bs). read_more 3 (ucast b) bs)"

definition gf_bs_read_u64 :: "gf_bit_stream \<Rightarrow> (u64 \<times> gf_bit_stream) res" where
  "gf_bs_read_u64 bs = bindR (gf_bs_read_u32 bs) (\<lambda>(h, bs). bindR (gf_bs_read_u32 bs) (\<lambda>(l, bs).
     Inr (push_bit 32 (ucast h) OR ucast l, bs)))"

function gf_bs_read_long_int :: "u32 \<Rightarrow> gf_bit_stream \<Rightarrow> (u64 \<times> gf_bit_stream) res" where
  "gf_bs_read_long_int nBits bs =
     (if 64 < nBits then bindR (gf_bs_read_long_int (nBits - 64) bs) (\<lambda>(_, bs). gf_bs_read_long_int 64 bs)
      else read_bits (unat nBits) 0 bs)"
  by pat_completeness auto
termination
  by (relation "measure (unat \<circ> fst)") (auto simp: word_less_nat_alt unat_sub_if_size)

declare gf_bs_read_long_int.simps [simp del]

text \<open>The memory of a floating point number of \<open>k\<close> bytes, filled from the last byte on.\<close>

fun read_float_bits :: "nat list \<Rightarrow> byte list \<Rightarrow> gf_bit_stream \<Rightarrow> (byte list \<times> gf_bit_stream) res" where
  "read_float_bits [] buf bs = Inr (buf, bs)"
| "read_float_bits (i # is) buf bs = bindR (gf_bs_read_bit bs) (\<lambda>(b, bs).
     let j = length buf - 1 - i div 8 in
       read_float_bits is (buf[j := buf ! j OR push_bit (7 - i mod 8) b]) bs)"

definition gf_bs_read_float :: "gf_bit_stream \<Rightarrow> (byte list \<times> gf_bit_stream) res" where
  "gf_bs_read_float bs = read_float_bits [0..<32] (replicate 4 0) bs"

definition gf_bs_read_double :: "gf_bit_stream \<Rightarrow> (byte list \<times> gf_bit_stream) res" where
  "gf_bs_read_double bs = read_float_bits [0..<64] (replicate 8 0) bs"

text \<open>\<open>gf_bs_read_data\<close> returns a count and what it has stored at \<^verbatim>\<open>data\<close>.\<close>

fun read_octets :: "nat \<Rightarrow> gf_bit_stream \<Rightarrow> (byte list \<times> gf_bit_stream) res" where
  "read_octets 0 bs = Inr ([], bs)"
| "read_octets (Suc n) bs = bindR (gf_bs_read_int 8 bs) (\<lambda>(v, bs).
     bindR (read_octets n bs) (\<lambda>(vs, bs). Inr (ucast v # vs, bs)))"

definition gf_bs_read_data :: "u32 \<Rightarrow> gf_bit_stream \<Rightarrow> (u32 \<times> byte list \<times> gf_bit_stream) res" where
  "gf_bs_read_data nbBytes bs =
     (let orig = bs_position bs in
      if bs_size bs < orig + ucast nbBytes then Inr (0, [], bs)
      else if BS_IsAlign bs then
        let moved = bs\<lparr>bs_position := orig + ucast nbBytes\<rparr> in
        (if bs_bsmode bs = BS_READ \<or> bs_bsmode bs = BS_WRITE_DYN then
           bindR (load_range (bs_original bs) (unat orig) (unat nbBytes)) (\<lambda>xs. Inr (nbBytes, xs, moved))
         else if bs_bsmode bs = BS_FILE_READ \<or> bs_bsmode bs = BS_FILE_WRITE then
           (case bs_stream bs of None \<Rightarrow> Inl Null_Deref | Some f \<Rightarrow>
              let (xs, f') = fread (unat nbBytes) f in Inr (nbBytes, xs, moved\<lparr>bs_stream := Some f'\<rparr>))
         else Inr (0, [], bs))
      else bindR (read_octets (unat nbBytes) bs) (\<lambda>(xs, bs). Inr (ucast (bs_position bs - orig), xs, bs)))"

section \<open>Writing\<close>

definition put_byte :: "byte \<Rightarrow> gf_bit_stream \<Rightarrow> gf_bit_stream res" where
  "put_byte val bs = bindR (store_range (bs_original bs) (unat (bs_position bs)) [val]) (\<lambda>m.
     Inr (bs\<lparr>bs_original := m, bs_position := bs_position bs + 1\<rparr>))"

definition BS_WriteByte :: "byte \<Rightarrow> gf_bit_stream \<Rightarrow> gf_bit_stream res" where
  "BS_WriteByte val bs =
     (if bs_bsmode bs = BS_READ \<or> bs_bsmode bs = BS_FILE_READ then Inr bs
      else if bs_original bs = None \<and> bs_stream bs = None then Inr bs
      else if bs_bsmode bs = BS_WRITE \<or> bs_bsmode bs = BS_WRITE_DYN then
        if bs_position bs = bs_size bs then
          if bs_bsmode bs \<noteq> BS_WRITE_DYN then Inr bs
          else if 0xFFFFFFFF < bs_size bs then Inr bs
          else
            let cap = bs_size bs + 1 + BS_MEM_BLOCK_ALLOC_SIZE;
                bs1 = (if bs_bufferSize bs < bs_size bs + 1
                  then bs\<lparr>bs_bufferSize := cap, bs_original := realloc (bs_junk bs) (ucast cap) (bs_original bs)\<rparr>
                  else bs) in
            if bs_original bs1 = None then Inr bs1
            else put_byte val (bs1\<lparr>bs_size := bs_size bs + 1\<rparr>)
        else put_byte val bs
      else (case bs_stream bs of
        None \<Rightarrow> Inl Null_Deref
      | Some f \<Rightarrow> Inr (bs\<lparr>bs_stream := Some (fwrite [val] f),
            bs_size := (if bs_size bs = bs_position bs then bs_size bs + 1 else bs_size bs),
            bs_position := bs_position bs + 1\<rparr>)))"

definition BS_WriteBit :: "bool \<Rightarrow> gf_bit_stream \<Rightarrow> gf_bit_stream res" where
  "BS_WriteBit b bs =
     (let c = push_bit 1 (bs_current bs) OR of_bool b; n = bs_nbBits bs + 1 in
      if n = 8 then bindR (BS_WriteByte (ucast c) (bs\<lparr>bs_current := c, bs_nbBits := 0\<rparr>)) (\<lambda>bs. Inr (bs\<lparr>bs_current := 0\<rparr>))
      else Inr (bs\<lparr>bs_current := c, bs_nbBits := n\<rparr>))"

text \<open>The loop of the functions that write an integer: the highest bit first, which is its sign.\<close>

fun write_bits :: "nat \<Rightarrow> 'a::len word \<Rightarrow> gf_bit_stream \<Rightarrow> gf_bit_stream res" where
  "write_bits 0 value bs = Inr bs"
| "write_bits (Suc n) value bs = bindR (BS_WriteBit (sint value < 0) bs) (write_bits n (push_bit 1 value))"

text \<open>
  A shift by the width of the value or more, or by a negative number, has no meaning, also for 0 bits. A bit that
  is shifted out of a signed integer is dropped, as the compilers do.
\<close>

definition gf_bs_write_int :: "32 word \<Rightarrow> int \<Rightarrow> gf_bit_stream \<Rightarrow> gf_bit_stream res" where
  "gf_bs_write_int value nBits bs =
     (if nBits \<le> 0 \<or> 32 < nBits then Inl Bad_Shift
      else write_bits (nat nBits) (push_bit (nat (32 - nBits)) value) bs)"

function gf_bs_write_long_int :: "64 word \<Rightarrow> int \<Rightarrow> gf_bit_stream \<Rightarrow> gf_bit_stream res" where
  "gf_bs_write_long_int value nBits bs =
     (if 64 < nBits then bindR (gf_bs_write_int 0 (nBits - 64) bs) (gf_bs_write_long_int value 64)
      else if nBits \<le> 0 then Inl Bad_Shift
      else write_bits (nat nBits) (push_bit (nat (64 - nBits)) value) bs)"
  by pat_completeness auto
termination by (relation "measure (\<lambda>(_, n, _). nat n)") auto

declare gf_bs_write_long_int.simps [simp del]

definition gf_bs_write_u8 :: "u32 \<Rightarrow> gf_bit_stream \<Rightarrow> gf_bit_stream res" where
  "gf_bs_write_u8 value bs = BS_WriteByte (ucast value) bs"

text \<open>The bytes of the wider writes, one after the other.\<close>

fun write_all :: "byte list \<Rightarrow> gf_bit_stream \<Rightarrow> gf_bit_stream res" where
  "write_all [] bs = Inr bs"
| "write_all (b # xs) bs = bindR (BS_WriteByte b bs) (write_all xs)"

definition gf_bs_write_u16 :: "u32 \<Rightarrow> gf_bit_stream \<Rightarrow> gf_bit_stream res" where
  "gf_bs_write_u16 value = write_all [ucast (drop_bit 8 value AND 0xff), ucast (value AND 0xff)]"

definition gf_bs_write_u24 :: "u32 \<Rightarrow> gf_bit_stream \<Rightarrow> gf_bit_stream res" where
  "gf_bs_write_u24 value =
     write_all [ucast (drop_bit 16 value AND 0xff), ucast (drop_bit 8 value AND 0xff), ucast (value AND 0xff)]"

definition gf_bs_write_u32 :: "u32 \<Rightarrow> gf_bit_stream \<Rightarrow> gf_bit_stream res" where
  "gf_bs_write_u32 value =
     write_all [ucast (drop_bit 24 value AND 0xff), ucast (drop_bit 16 value AND 0xff),
       ucast (drop_bit 8 value AND 0xff), ucast (value AND 0xff)]"

definition gf_bs_write_u64 :: "u64 \<Rightarrow> gf_bit_stream \<Rightarrow> gf_bit_stream res" where
  "gf_bs_write_u64 value bs =
     bindR (gf_bs_write_u32 (ucast (drop_bit 32 value AND 0xffffffff)) bs)
       (gf_bs_write_u32 (ucast (value AND 0xffffffff)))"

text \<open>A floating point number is given by its memory.\<close>

fun write_float_bits :: "nat list \<Rightarrow> byte list \<Rightarrow> gf_bit_stream \<Rightarrow> gf_bit_stream res" where
  "write_float_bits [] sz bs = Inr bs"
| "write_float_bits (i # is) sz bs =
     bindR (BS_WriteBit (sz ! (length sz - 1 - i div 8) AND push_bit (7 - i mod 8) 1 \<noteq> 0) bs) (write_float_bits is sz)"

definition gf_bs_write_float :: "byte list \<Rightarrow> gf_bit_stream \<Rightarrow> gf_bit_stream res" where
  "gf_bs_write_float value = write_float_bits [0..<32] value"

definition gf_bs_write_double :: "byte list \<Rightarrow> gf_bit_stream \<Rightarrow> gf_bit_stream res" where
  "gf_bs_write_double value = write_float_bits [0..<64] value"

text \<open>\<open>gf_bs_write_data\<close> with as many bytes as \<open>data\<close> has. A \<^verbatim>\<open>char\<close> is signed.\<close>

fun write_octets :: "byte list \<Rightarrow> gf_bit_stream \<Rightarrow> gf_bit_stream res" where
  "write_octets [] bs = Inr bs"
| "write_octets (b # xs) bs = bindR (gf_bs_write_int (scast b) 8 bs) (write_octets xs)"

definition put_data :: "byte list \<Rightarrow> gf_bit_stream \<Rightarrow> (u32 \<times> gf_bit_stream) res" where
  "put_data data bs = bindR (store_range (bs_original bs) (unat (bs_position bs)) data) (\<lambda>m.
     Inr (of_nat (length data), bs\<lparr>bs_original := m, bs_position := bs_position bs + of_nat (length data)\<rparr>))"

definition gf_bs_write_data :: "byte list \<Rightarrow> gf_bit_stream \<Rightarrow> (u32 \<times> gf_bit_stream) res" where
  "gf_bs_write_data data bs =
     (let begin = bs_position bs; nbBytes = of_nat (length data); to = begin + nbBytes in
      if nbBytes = 0 then Inr (0, bs)
      else if BS_IsAlign bs then
        (case bs_bsmode bs of
           BS_WRITE \<Rightarrow> if bs_size bs < to then Inr (0, bs) else put_data data bs
         | BS_WRITE_DYN \<Rightarrow>
             if bs_size bs < to then
               if 0xFFFFFFFF < bs_size bs + nbBytes then Inr (0, bs)
               else
                 let cap = to + BS_MEM_BLOCK_ALLOC_SIZE;
                     bs1 = (if bs_bufferSize bs < to
                       then bs\<lparr>bs_bufferSize := cap, bs_original := realloc (bs_junk bs) (ucast cap) (bs_original bs)\<rparr>
                       else bs) in
                 if bs_original bs1 = None then Inr (0, bs1)
                 else put_data data (bs1\<lparr>bs_size := to\<rparr>)
             else put_data data bs
         | BS_READ \<Rightarrow> Inr (0, bs)
         | _ \<Rightarrow> (case bs_stream bs of None \<Rightarrow> Inl Null_Deref | Some f \<Rightarrow>
             Inr (of_nat (length data), bs\<lparr>bs_stream := Some (fwrite data f),
               bs_size := (if bs_size bs = begin then bs_size bs + nbBytes else bs_size bs), bs_position := to\<rparr>)))
      else bindR (write_octets data bs) (\<lambda>bs. Inr (ucast (bs_position bs - begin), bs)))"

section \<open>Positions\<close>

definition gf_bs_align :: "gf_bit_stream \<Rightarrow> (byte \<times> gf_bit_stream) res" where
  "gf_bs_align bs =
     (let res = ucast (8 - bs_nbBits bs) :: byte in
      if bs_bsmode bs = BS_READ \<or> bs_bsmode bs = BS_FILE_READ then
        if 0 < res then bindR (gf_bs_read_int (ucast res) bs) (\<lambda>(_, bs). Inr (res, bs)) else Inr (res, bs)
      else if 0 < bs_nbBits bs then bindR (gf_bs_write_int 0 (uint res) bs) (\<lambda>bs. Inr (res, bs))
      else Inr (0, bs))"

definition gf_bs_available :: "gf_bit_stream \<Rightarrow> (u64 \<times> gf_bit_stream) res" where
  "gf_bs_available bs =
     (case bs_bsmode bs of
        BS_WRITE \<Rightarrow> Inr (-1, bs)
      | BS_WRITE_DYN \<Rightarrow> Inr (-1, bs)
      | BS_FILE_WRITE \<Rightarrow> (case bs_stream bs of None \<Rightarrow> Inl Null_Deref | Some f \<Rightarrow>
          Inr (of_nat (length (file_bytes f)) - of_nat (file_pos f),
            bs\<lparr>bs_stream := Some (fseek (int (file_pos f)) f)\<rparr>))
      | _ \<Rightarrow> Inr (bs_size bs - bs_position bs, bs))"

definition BS_CutBuffer :: "gf_bit_stream \<Rightarrow> (u32 \<times> gf_bit_stream) res" where
  "BS_CutBuffer bs =
     (if bs_bsmode bs \<noteq> BS_WRITE_DYN \<and> bs_bsmode bs \<noteq> BS_WRITE then Inr (-1, bs)
      else bindR (gf_bs_align bs) (\<lambda>(_, bs).
        let nbBytes = ucast (bs_size bs - bs_position bs) in
        if nbBytes = 0 \<or> nbBytes = 0xFFFFFFFF \<or> 0xFFFFFFFF \<le> bs_position bs then Inr (0, bs)
        else let bs1 = bs\<lparr>bs_original := realloc (bs_junk bs) (ucast (bs_position bs)) (bs_original bs)\<rparr> in
          if bs_original bs1 = None then Inr (-1, bs1)
          else Inr (nbBytes, bs1\<lparr>bs_size := bs_position bs, bs_bufferSize := bs_position bs\<rparr>)))"

text \<open>The memory and the size that are handed out; nothing, when they are not assigned.\<close>

definition gf_bs_get_content :: "gf_bit_stream \<Rightarrow> ((byte list option \<times> u32) option \<times> gf_bit_stream) res" where
  "gf_bs_get_content bs =
     (if bs_bsmode bs \<noteq> BS_WRITE_DYN then Inr (None, bs)
      else bindR (if bs_position bs = 0 \<and> bs_nbBits bs = 0 then Inr ((None, 0), bs)
                  else bindR (BS_CutBuffer bs) (\<lambda>(_, bs). Inr ((bs_original bs, ucast (bs_size bs)), bs)))
        (\<lambda>(out, bs). Inr (Some out, bs\<lparr>bs_original := None, bs_size := 0, bs_position := 0, bs_bufferSize := 0\<rparr>)))"

fun write_zeros :: "nat \<Rightarrow> gf_bit_stream \<Rightarrow> gf_bit_stream res" where
  "write_zeros 0 bs = Inr bs"
| "write_zeros (Suc n) bs = bindR (gf_bs_write_int 0 8 bs) (write_zeros n)"

definition gf_bs_skip_bytes :: "u64 \<Rightarrow> gf_bit_stream \<Rightarrow> gf_bit_stream res" where
  "gf_bs_skip_bytes nbBytes bs =
     (if nbBytes = 0 then Inr bs
      else bindR (gf_bs_align bs) (\<lambda>(_, bs).
        let moved = bs\<lparr>bs_position := bs_position bs + nbBytes\<rparr> in
        (case bs_bsmode bs of
           BS_READ \<Rightarrow> Inr moved
         | BS_WRITE \<Rightarrow> write_zeros (unat nbBytes) bs
         | BS_WRITE_DYN \<Rightarrow> write_zeros (unat nbBytes) bs
         | _ \<Rightarrow> (case bs_stream bs of None \<Rightarrow> Inl Null_Deref | Some f \<Rightarrow>
             Inr (moved\<lparr>bs_stream := Some (fseek (int (file_pos f) + sint nbBytes) f)\<rparr>)))))"

definition gf_bs_rewind_bits :: "u64 \<Rightarrow> gf_bit_stream \<Rightarrow> gf_bit_stream res" where
  "gf_bs_rewind_bits nbBits bs =
     (if bs_bsmode bs \<noteq> BS_READ then Inr bs
      else
        let nbBits1 = nbBits - ucast (bs_nbBits bs);
            nbBytes = drop_bit 3 (nbBits1 + 8);
            nbBits2 = nbBytes * 8 - nbBits1 in
        bindR (gf_bs_align bs) (\<lambda>(_, bs).
        bindR (gf_bs_read_int (ucast nbBits2) (bs\<lparr>bs_position := bs_position bs - (nbBytes + 1)\<rparr>)) (\<lambda>(_, bs). Inr bs)))"

datatype gf_err = GF_OK | GF_BAD_PARAM | GF_IO_ERR

definition BS_SeekIntern :: "u64 \<Rightarrow> gf_bit_stream \<Rightarrow> (gf_err \<times> gf_bit_stream) res" where
  "BS_SeekIntern offset bs =
     (if bs_bsmode bs = BS_READ \<or> bs_bsmode bs = BS_WRITE \<or> bs_bsmode bs = BS_WRITE_DYN then
        if 0xFFFFFFFF < offset then Inr (GF_IO_ERR, bs)
        else if bs_size bs \<le> offset \<and> bs_bsmode bs \<noteq> BS_WRITE_DYN then Inr (GF_BAD_PARAM, bs)
        else bindR
          (if bs_size bs \<le> offset then
             let cap = offset + 1 + BS_MEM_BLOCK_ALLOC_SIZE;
                 bs1 = (if bs_bufferSize bs \<le> offset
                   then bs\<lparr>bs_bufferSize := cap, bs_original := realloc (bs_junk bs) (ucast cap) (bs_original bs)\<rparr>
                   else bs);
                 n = ucast (offset + 1 - bs_size bs) :: u32 in
               bindR (store_range (bs_original bs1) (unat (bs_size bs)) (replicate (unat n) 0)) (\<lambda>m.
                 Inr (bs1\<lparr>bs_original := m, bs_size := offset + 1\<rparr>))
           else Inr bs) (\<lambda>bs.
             bindR (load (bs_original bs) (unat offset)) (\<lambda>b.
               Inr (GF_OK, bs\<lparr>bs_current := scast b, bs_position := offset,
                 bs_nbBits := (if bs_bsmode bs = BS_READ then 8 else 0)\<rparr>)))
      else (case bs_stream bs of None \<Rightarrow> Inl Null_Deref | Some f \<Rightarrow>
        Inr (GF_OK, bs\<lparr>bs_stream := Some (fseek (sint offset) f), bs_position := offset, bs_current := 0,
          bs_nbBits := (if bs_bsmode bs = BS_FILE_READ then 8 else 0)\<rparr>)))"

definition gf_bs_seek :: "u64 \<Rightarrow> gf_bit_stream \<Rightarrow> (gf_err \<times> gf_bit_stream) res" where
  "gf_bs_seek offset bs =
     (if bs_size bs < offset then Inr (GF_BAD_PARAM, bs)
      else bindR (gf_bs_align bs) (\<lambda>(_, bs). BS_SeekIntern offset bs))"

definition gf_bs_peek_bits :: "u32 \<Rightarrow> u32 \<Rightarrow> gf_bit_stream \<Rightarrow> (u32 \<times> gf_bit_stream) res" where
  "gf_bs_peek_bits numBits byte_offset bs =
     (if bs_bsmode bs \<noteq> BS_READ \<and> bs_bsmode bs \<noteq> BS_FILE_READ then Inr (0, bs)
      else if numBits = 0 \<or> bs_size bs < bs_position bs + ucast byte_offset then Inr (0, bs)
      else
        let curPos = bs_position bs; curBits = bs_nbBits bs; current = bs_current bs in
        bindR (if byte_offset \<noteq> 0
               then bindR (gf_bs_seek (curPos + ucast byte_offset) bs) (\<lambda>(_, bs). Inr bs) else Inr bs) (\<lambda>bs.
        bindR (gf_bs_read_int numBits bs) (\<lambda>(ret, bs).
        bindR (gf_bs_seek curPos bs) (\<lambda>(_, bs).
          Inr (ret, bs\<lparr>bs_nbBits := curBits, bs_current := current\<rparr>)))))"

definition gf_bs_get_refreshed_size :: "gf_bit_stream \<Rightarrow> (u64 \<times> gf_bit_stream) res" where
  "gf_bs_get_refreshed_size bs =
     (if bs_bsmode bs = BS_FILE_READ \<or> bs_bsmode bs = BS_FILE_WRITE then
        (case bs_stream bs of None \<Rightarrow> Inl Null_Deref | Some f \<Rightarrow>
          let n = of_nat (length (file_bytes f)) in
            Inr (n, bs\<lparr>bs_size := n, bs_stream := Some (fseek (int (file_pos f)) f)\<rparr>))
      else Inr (bs_size bs, bs))"

definition gf_bs_get_size :: "gf_bit_stream \<Rightarrow> u64" where
  "gf_bs_get_size bs = bs_size bs"

definition gf_bs_get_position :: "gf_bit_stream \<Rightarrow> u64" where
  "gf_bs_get_position bs = bs_position bs"

definition gf_bs_bits_available :: "gf_bit_stream \<Rightarrow> byte" where
  "gf_bs_bits_available bs =
     (if bs_position bs < bs_size bs then 8
      else if bs_nbBits bs < 8 then ucast (8 - bs_nbBits bs) else 0)"

definition gf_bs_set_eos_callback :: "bool \<Rightarrow> gf_bit_stream \<Rightarrow> gf_bit_stream" where
  "gf_bs_set_eos_callback EndOfStream bs = bs\<lparr>bs_EndOfStream := EndOfStream\<rparr>"

section \<open>Little endian integers and the rest\<close>

definition gf_bs_read_u32_le :: "gf_bit_stream \<Rightarrow> (u32 \<times> gf_bit_stream) res" where
  "gf_bs_read_u32_le bs =
     bindR (gf_bs_read_int 8 bs) (\<lambda>(ret, bs).
     bindR (gf_bs_read_int 8 bs) (\<lambda>(v1, bs).
     bindR (gf_bs_read_int 8 bs) (\<lambda>(v2, bs).
     bindR (gf_bs_read_int 8 bs) (\<lambda>(v3, bs).
       Inr (ret OR push_bit 8 v1 OR push_bit 16 v2 OR push_bit 24 v3, bs)))))"

definition gf_bs_read_u16_le :: "gf_bit_stream \<Rightarrow> (u16 \<times> gf_bit_stream) res" where
  "gf_bs_read_u16_le bs =
     bindR (gf_bs_read_int 8 bs) (\<lambda>(ret, bs).
     bindR (gf_bs_read_int 8 bs) (\<lambda>(v, bs). Inr (ucast (ret OR push_bit 8 v), bs)))"

definition gf_bs_write_u32_le :: "u32 \<Rightarrow> gf_bit_stream \<Rightarrow> gf_bit_stream res" where
  "gf_bs_write_u32_le val bs =
     bindR (gf_bs_write_int (val AND 0xFF) 8 bs) (\<lambda>bs.
     bindR (gf_bs_write_int (drop_bit 8 val) 8 bs) (\<lambda>bs.
     bindR (gf_bs_write_int (drop_bit 16 val) 8 bs) (\<lambda>bs.
       gf_bs_write_int (drop_bit 24 val) 8 bs)))"

definition gf_bs_write_u16_le :: "u32 \<Rightarrow> gf_bit_stream \<Rightarrow> gf_bit_stream res" where
  "gf_bs_write_u16_le val bs =
     bindR (gf_bs_write_int (val AND 0xFF) 8 bs) (\<lambda>bs. gf_bs_write_int (drop_bit 8 val) 8 bs)"

definition gf_bs_get_bit_offset :: "gf_bit_stream \<Rightarrow> u32" where
  "gf_bs_get_bit_offset bs =
     (if bs_stream bs \<noteq> None then 0
      else if bs_bsmode bs = BS_READ then ucast ((bs_position bs - 1) * 8 + ucast (bs_nbBits bs))
      else ucast (bs_position bs * 8 + ucast (bs_nbBits bs)))"

definition gf_bs_get_bit_position :: "gf_bit_stream \<Rightarrow> u32" where
  "gf_bs_get_bit_position bs = (if bs_stream bs \<noteq> None then 0 else bs_nbBits bs)"

text \<open>
  The loop of \<open>gf_bs_read_vluimsbf5\<close> counts the one bits. Behind the end there are only zeros, so the bits of the
  memory and of the file, one more byte of the file, and the bits of \<open>current\<close> bound its turns.
\<close>

fun vluimsbf5_words :: "nat \<Rightarrow> u32 \<Rightarrow> gf_bit_stream \<Rightarrow> (u32 \<times> gf_bit_stream) res" where
  "vluimsbf5_words 0 nb_words bs = Inl Endless_Loop"
| "vluimsbf5_words (Suc fuel) nb_words bs = bindR (gf_bs_read_int 1 bs) (\<lambda>(b, bs).
     if b \<noteq> 0 then vluimsbf5_words fuel (nb_words + 1) bs else Inr (nb_words, bs))"

definition stream_bits :: "gf_bit_stream \<Rightarrow> nat" where
  "stream_bits bs = 8 * (case bs_original bs of None \<Rightarrow> 0 | Some xs \<Rightarrow> length xs) +
     8 * (case bs_stream bs of None \<Rightarrow> 0 | Some f \<Rightarrow> length (file_bytes f) + 1) + 32"

definition gf_bs_read_vluimsbf5 :: "gf_bit_stream \<Rightarrow> (u32 \<times> gf_bit_stream) res" where
  "gf_bs_read_vluimsbf5 bs =
     bindR (vluimsbf5_words (stream_bits bs + 1) 0 bs) (\<lambda>(nb_words, bs). gf_bs_read_int (4 * (nb_words + 1)) bs)"

text \<open>Integers of given widths, written and read one after the other.\<close>

fun gf_write_ints :: "(nat \<times> u32) list \<Rightarrow> gf_bit_stream \<Rightarrow> gf_bit_stream res" where
  "gf_write_ints [] bs = Inr bs"
| "gf_write_ints ((n, v) # fs) bs = bindR (gf_bs_write_int v (int n) bs) (gf_write_ints fs)"

fun gf_read_ints :: "nat list \<Rightarrow> gf_bit_stream \<Rightarrow> (u32 list \<times> gf_bit_stream) res" where
  "gf_read_ints [] bs = Inr ([], bs)"
| "gf_read_ints (n # ns) bs = bindR (gf_bs_read_int (of_nat n) bs) (\<lambda>(v, bs).
     bindR (gf_read_ints ns bs) (\<lambda>(vs, bs). Inr (v # vs, bs)))"

end
