(* ===== verification/Gf_Bit_Codec.thy ===== *)
theory Gf_Bit_Codec
  imports Gf_Bit_Stream
begin

text \<open>
  The bit stream over memory. A stream that reads delivers the bits of its buffer and then zeros for ever; a stream
  with its own buffer collects the bits that are written. The two are inverse to each other.
\<close>

unbundle bit_operations_syntax


section \<open>The bits a stream delivers\<close>

text \<open>
  The bits that are left: those of \<open>current\<close>, and those of the bytes from the position on. Behind them there are
  zeros.
\<close>

definition gf_rest :: "gf_bit_stream \<Rightarrow> bool list" where
  "gf_rest bs = take (8 - unat (bs_nbBits bs)) (byte_bits (ucast (bs_current bs))) @
     bits_of (drop (unat (bs_position bs)) (take (unat (bs_size bs)) (the (bs_original bs))))"

definition gf_bits :: "gf_bit_stream \<Rightarrow> nat \<Rightarrow> bool" where
  "gf_bits bs i = (i < length (gf_rest bs) \<and> gf_rest bs ! i)"

definition gf_reading :: "gf_bit_stream \<Rightarrow> bool" where
  "gf_reading bs = (bs_bsmode bs = BS_READ \<and> bs_nbBits bs \<le> 8 \<and>
     (\<exists>data. bs_original bs = Some data \<and> unat (bs_size bs) \<le> length data))"

lemma bit_shifted: "bit (push_bit 1 (c :: u32)) n \<longleftrightarrow> n < 32 \<and> 0 < n \<and> bit c (n - 1)"
  unfolding bit_push_bit_iff by (auto simp: Suc_le_eq dest: bit_imp_le_length)

lemma byte_bits_push: "byte_bits (ucast c) = bit c 7 # take 7 (byte_bits (ucast (push_bit 1 (c :: u32))))"
proof (rule nth_equalityI)
  fix i assume "i < length (byte_bits (ucast c))"
  then show "byte_bits (ucast c) ! i = (bit c 7 # take 7 (byte_bits (ucast (push_bit 1 c)))) ! i"
    by (cases i) (simp_all add: nth_byte_bits bit_ucast_iff,
      auto simp: bit_shifted [unfolded push_bit_eq_mult, simplified])
qed simp

lemma ucast_u32_byte [simp]: "ucast (ucast (b :: byte) :: u32) = b"
  by (rule bit_word_eqI) (auto simp: bit_simps)

lemma byte_bits_0: "byte_bits 0 = replicate 8 False"
  by (rule nth_equalityI) (auto simp: nth_byte_bits)

lemma shifted_out: "ucast (drop_bit 8 (push_bit 1 (c :: u32) AND 0x100)) = (of_bool (bit c 7) :: byte)"
proof (rule bit_word_eqI)
  fix n :: nat assume "n < LENGTH(8)"
  have "bit (0x100 :: u32) (8 + n) \<longleftrightarrow> n = 0"
    using bit_exp_iff [where ?'a = "32 word", of 8 "8 + n"] by (auto simp: possible_bit_def)
  then show "bit (ucast (drop_bit 8 (push_bit 1 c AND 0x100)) :: byte) n = bit (of_bool (bit c 7) :: byte) n"
    unfolding bit_ucast_iff bit_drop_bit_eq bit_and_iff bit_shifted o_def
    by (auto simp: bit_simps)
qed

definition shifted :: "gf_bit_stream \<Rightarrow> gf_bit_stream" where
  "shifted bs = bs\<lparr>bs_current := push_bit 1 (bs_current bs), bs_nbBits := bs_nbBits bs + 1\<rparr>"

lemma read_current:
  assumes "gf_reading bs" "bs_nbBits bs < 8"
  shows "gf_bs_read_bit bs = Inr (of_bool (bit (bs_current bs) 7), shifted bs)" "gf_reading (shifted bs)"
    "gf_rest bs = bit (bs_current bs) 7 # gf_rest (shifted bs)"
proof -
  define m where "m = unat (bs_nbBits bs)"
  have n: "m < 8" "unat (bs_nbBits bs + 1) = m + 1"
    using assms(2) by (auto simp: m_def word_less_nat_alt unat_word_ariths)
  show "gf_rest bs = bit (bs_current bs) 7 # gf_rest (shifted bs)"
    using n by (simp add: gf_rest_def shifted_def byte_bits_push [of "bs_current bs"] take_Cons' flip: m_def)
  have "bs_nbBits bs \<noteq> 8" using assms(2) by auto
  then show "gf_bs_read_bit bs = Inr (of_bool (bit (bs_current bs) 7), shifted bs)"
    by (simp only: gf_bs_read_bit_def Let_def shifted_out bindR_Inr if_False shifted_def)
  show "gf_reading (shifted bs)" using assms n by (simp add: gf_reading_def word_le_nat_alt shifted_def)
qed

text \<open>A byte is fetched; behind the end it is 0, and the call back is called.\<close>

definition fetched :: "gf_bit_stream \<Rightarrow> gf_bit_stream" where
  "fetched bs =
     (if bs_size bs \<le> bs_position bs then (end_of_stream bs)\<lparr>bs_current := 0, bs_nbBits := 0\<rparr>
      else bs\<lparr>bs_position := bs_position bs + 1, bs_nbBits := 0,
        bs_current := ucast (the (bs_original bs) ! unat (bs_position bs))\<rparr>)"

lemma end_of_stream_fields [simp]:
  "bs_stream (end_of_stream bs) = bs_stream bs" "bs_original (end_of_stream bs) = bs_original bs"
  "bs_size (end_of_stream bs) = bs_size bs" "bs_bufferSize (end_of_stream bs) = bs_bufferSize bs"
  "bs_position (end_of_stream bs) = bs_position bs" "bs_current (end_of_stream bs) = bs_current bs"
  "bs_nbBits (end_of_stream bs) = bs_nbBits bs" "bs_bsmode (end_of_stream bs) = bs_bsmode bs"
  "bs_EndOfStream (end_of_stream bs) = bs_EndOfStream bs" "bs_junk (end_of_stream bs) = bs_junk bs"
  by (simp_all add: end_of_stream_def)

lemma read_fetched:
  assumes "gf_reading bs" "bs_nbBits bs = 8"
  shows "gf_bs_read_bit bs = gf_bs_read_bit (fetched bs)" "gf_reading (fetched bs)" "bs_nbBits (fetched bs) = 0"
proof -
  obtain data where data: "bs_original bs = Some data" "unat (bs_size bs) \<le> length data" "bs_bsmode bs = BS_READ"
    using assms(1) by (auto simp: gf_reading_def)
  show "bs_nbBits (fetched bs) = 0" by (simp add: fetched_def)
  moreover have "bindR (BS_ReadByte bs) (\<lambda>(b, bs). Inr (bs\<lparr>bs_current := ucast b, bs_nbBits := 0\<rparr>)) = Inr (fetched bs)"
    using data by (auto simp: BS_ReadByte_def load_def fetched_def word_less_nat_alt word_le_nat_alt)
  ultimately show "gf_bs_read_bit bs = gf_bs_read_bit (fetched bs)"
    using assms(2) by (simp add: gf_bs_read_bit_def)
  show "gf_reading (fetched bs)"
    using assms(1) by (auto simp: gf_reading_def fetched_def)
qed

lemma gf_bits_fetched:
  assumes "gf_reading bs" "bs_nbBits bs = 8"
  shows "gf_bits (fetched bs) = gf_bits bs"
    and "\<not> bs_size bs \<le> bs_position bs \<Longrightarrow> gf_rest (fetched bs) = gf_rest bs"
    and "bs_size bs \<le> bs_position bs \<Longrightarrow> gf_rest bs = []"
proof -
  obtain data where data: "bs_original bs = Some data" "unat (bs_size bs) \<le> length data"
    using assms(1) by (auto simp: gf_reading_def)
  have same: "gf_rest (fetched bs) = gf_rest bs" if "\<not> bs_size bs \<le> bs_position bs"
  proof -
    have less: "unat (bs_position bs) < unat (bs_size bs)" "unat (bs_position bs + 1) = unat (bs_position bs) + 1"
      using that unat_less_power [of "bs_size bs"] by (auto simp: word_le_nat_alt unat_word_ariths)
    have "drop (unat (bs_position bs)) (take (unat (bs_size bs)) data) =
        data ! unat (bs_position bs) # drop (unat (bs_position bs) + 1) (take (unat (bs_size bs)) data)"
      using less data by (subst Cons_nth_drop_Suc [symmetric]) auto
    then show ?thesis using that assms(2) data less by (simp add: gf_rest_def fetched_def)
  qed
  then show "\<not> bs_size bs \<le> bs_position bs \<Longrightarrow> gf_rest (fetched bs) = gf_rest bs" .
  show empty: "bs_size bs \<le> bs_position bs \<Longrightarrow> gf_rest bs = []"
    using assms(2) data by (simp add: gf_rest_def word_le_nat_alt)
  show "gf_bits (fetched bs) = gf_bits bs"
  proof (cases "bs_size bs \<le> bs_position bs")
    case True
    then have "gf_rest (fetched bs) = replicate 8 False"
      using data by (simp add: gf_rest_def fetched_def word_le_nat_alt byte_bits_0)
    then show ?thesis using empty [OF True] by (auto simp: gf_bits_def fun_eq_iff)
  qed (simp add: same gf_bits_def fun_eq_iff)
qed

lemma gf_bs_read_bit_bits:
  assumes "gf_reading bs"
  shows "\<exists>bs'. gf_bs_read_bit bs = Inr (of_bool (gf_bits bs 0), bs') \<and> gf_reading bs' \<and>
    gf_bits bs' = (\<lambda>i. gf_bits bs (i + 1))"
proof -
  have current: "\<exists>bs'. gf_bs_read_bit bs = Inr (of_bool (gf_bits bs 0), bs') \<and> gf_reading bs' \<and>
      gf_bits bs' = (\<lambda>i. gf_bits bs (i + 1))" if ok: "gf_reading bs" "bs_nbBits bs < 8" for bs
  proof -
    show ?thesis using read_current [OF ok] by (auto simp: gf_bits_def fun_eq_iff)
  qed
  show ?thesis
  proof (cases "bs_nbBits bs = 8")
    case True
    have "bs_nbBits (fetched bs) < 8" using read_fetched(3) [OF assms True] by simp
    from current [OF read_fetched(2) [OF assms True] this] show ?thesis
      by (simp only: read_fetched(1) [OF assms True] gf_bits_fetched(1) [OF assms True])
  next
    case False
    with assms have "bs_nbBits bs < 8" by (auto simp: gf_reading_def)
    then show ?thesis using current assms by blast
  qed
qed

text \<open>Integers: a read never fails, and takes the next bits, the highest first.\<close>

lemma read_bits_bits:
  "gf_reading bs \<Longrightarrow>
     \<exists>bs'. read_bits n ret bs = Inr (push_bits ret (map (gf_bits bs) [0..<n]), bs') \<and> gf_reading bs' \<and>
       gf_bits bs' = (\<lambda>i. gf_bits bs (i + n))"
proof (induction n arbitrary: ret bs)
  case (Suc n)
  obtain bs1 where bs1: "gf_bs_read_bit bs = Inr (of_bool (gf_bits bs 0), bs1)" "gf_reading bs1"
      "gf_bits bs1 = (\<lambda>i. gf_bits bs (i + 1))"
    using gf_bs_read_bit_bits [OF Suc.prems] by blast
  have upt: "map (gf_bits bs) [0..<Suc n] = gf_bits bs 0 # map (gf_bits bs1) [0..<n]"
    using bs1(3) by (simp add: upt_conv_Cons map_Suc_upt [symmetric] del: upt_Suc)
  have u: "ucast (of_bool b :: byte) = (of_bool b :: 'a word)" for b by simp
  show ?case
    using Suc.IH [OF bs1(2), of "push_bit 1 ret OR ucast (of_bool (gf_bits bs 0) :: byte)"] bs1(1,3)
    by (simp only: upt read_bits.simps bindR_Inr prod.case push_bits_def foldl.simps u) (auto simp: ac_simps)
qed simp

lemma gf_bs_read_int_bits:
  "gf_reading bs \<Longrightarrow>
     \<exists>bs'. gf_bs_read_int n bs = Inr (bits_value (map (gf_bits bs) [0..<unat n]), bs') \<and> gf_reading bs' \<and>
       gf_bits bs' = (\<lambda>i. gf_bits bs (i + unat n))"
  unfolding gf_bs_read_int_def by (rule read_bits_bits)

lemma gf_reading_new:
  assumes "gf_bs_new junk (Some data) n BS_READ = Some bs" "unat n \<le> length data"
  shows "gf_reading bs" "gf_rest bs = bits_of (take (unat n) data)"
  using assms by (auto simp: gf_bs_new_def gf_reading_def gf_rest_def split: if_split_asm)


section \<open>The bits a stream collects\<close>

text \<open>
  A stream that owns its memory and has only been appended to: the bytes before the position and the bits that wait in
  \<open>current\<close> are \<open>w\<close>.
\<close>

definition gf_holds :: "gf_bit_stream \<Rightarrow> bool list \<Rightarrow> bool" where
  "gf_holds bs w = (bs_bsmode bs = BS_WRITE_DYN \<and> bs_nbBits bs < 8 \<and> bs_size bs = bs_position bs \<and>
     (\<exists>mem. bs_original bs = Some mem \<and> bs_bufferSize bs = of_nat (length mem) \<and>
       unat (bs_position bs) \<le> length mem \<and> length mem < 2 ^ 32 \<and>
       w = bits_of (take (unat (bs_position bs)) mem) @ low_bits (unat (bs_nbBits bs)) (bs_current bs)))"

lemma gf_holds_position: "gf_holds bs w \<Longrightarrow> 8 * unat (bs_position bs) + unat (bs_nbBits bs) = length w"
  by (auto simp: gf_holds_def)

lemma low_bits_pushed: "low_bits (Suc n) (push_bit 1 c OR of_bool b) = low_bits n c @ [b]" if "n < 8" for c :: u32
proof (rule nth_equalityI)
  fix i assume i: "i < length (low_bits (Suc n) (push_bit 1 c OR of_bool b))"
  have "bit (push_bit 1 c OR of_bool b) m \<longleftrightarrow> (if m = 0 then b else bit c (m - 1))" if "m < 32" for m
    unfolding bit_or_iff bit_shifted using that by (auto simp: bit_simps)
  then show "low_bits (Suc n) (push_bit 1 c OR of_bool b) ! i = (low_bits n c @ [b]) ! i"
    using i that by (auto simp: nth_low_bits nth_append)
qed simp

lemma byte_bits_low: "byte_bits (ucast (c :: u32)) = low_bits 8 c"
  by (rule nth_equalityI) (auto simp: nth_byte_bits nth_low_bits bit_simps)

text \<open>A byte is appended; the memory grows by blocks when it is full.\<close>

lemma put_appended:
  assumes "p < length mem" "bs_original bs = Some mem" "unat (bs_position bs) = p"
  shows "put_byte v bs = Inr (bs\<lparr>bs_original := Some (mem[p := v]), bs_position := bs_position bs + 1\<rparr>)"
  using assms by (simp add: put_byte_def store_range_def upd_conv_take_nth_drop)

lemma BS_WriteByte_holds:
  assumes "gf_holds bs w" "bs_nbBits bs = 0" "length w + 4200 < 2 ^ 35"
  shows "\<exists>bs'. BS_WriteByte v bs = Inr bs' \<and> bs_nbBits bs' = 0 \<and> gf_holds bs' (w @ byte_bits v)"
proof -
  obtain mem where mem: "bs_bsmode bs = BS_WRITE_DYN" "bs_size bs = bs_position bs" "bs_original bs = Some mem"
      "bs_bufferSize bs = of_nat (length mem)" "unat (bs_position bs) \<le> length mem" "length mem < 2 ^ 32"
      "w = bits_of (take (unat (bs_position bs)) mem)"
    using assms(1,2) by (auto simp: gf_holds_def low_bits_def)
  define p where "p = unat (bs_position bs)"
  have p: "p + 520 < 2 ^ 32" "p \<le> length mem" "bs_position bs = of_nat p"
    using assms(3) mem(5,7) by (simp_all add: p_def)
  have up: "unat (of_nat k :: u64) = k" if "k < 2 ^ 33" for k using that by (simp add: unat_of_nat)
  define mem1 where "mem1 = (if p < length mem then mem else mem @ map (bs_junk bs) [length mem..<p + 513])"
  have mem1: "p < length mem1" "length mem1 < 2 ^ 32" "take p mem1 = take p mem"
    using p mem(6) by (auto simp: mem1_def)
  define bs1 where "bs1 = bs\<lparr>bs_original := Some mem1, bs_bufferSize := of_nat (length mem1), bs_size := of_nat (p + 1)\<rparr>"
  have "BS_WriteByte v bs = put_byte v bs1"
  proof -
    have s: "bs_size bs = of_nat p" "\<not> 0xFFFFFFFF < bs_size bs" "bs_size bs + 1 = of_nat (p + 1)"
        "bs_bufferSize bs < bs_size bs + 1 \<longleftrightarrow> \<not> p < length mem"
      using mem p by (auto simp: word_less_nat_alt up unat_word_ariths)
    have r: "realloc (bs_junk bs) (ucast (bs_size bs + 1 + BS_MEM_BLOCK_ALLOC_SIZE)) (Some mem) =
        Some (mem @ map (bs_junk bs) [length mem..<p + 513])" if "\<not> p < length mem"
    proof -
      have "unat (ucast (bs_size bs + 1 + BS_MEM_BLOCK_ALLOC_SIZE) :: u32) = p + 513"
        using p s by (simp add: unat_ucast_mod unat_word_ariths up)
      moreover from this have "(ucast (bs_size bs + 1 + BS_MEM_BLOCK_ALLOC_SIZE) :: u32) \<noteq> 0" by (metis unat_0 add_eq_0_iff_both_eq_0 zero_neq_numeral)
      ultimately show ?thesis using that p by (simp add: realloc_def)
    qed
    show ?thesis
    proof (cases "p < length mem")
      case True
      have "bs\<lparr>bs_size := bs_size bs + 1\<rparr> = bs1"
        using mem s True by (cases bs) (simp add: bs1_def mem1_def)
      then show ?thesis using mem(1-3) s True by (auto simp: BS_WriteByte_def Let_def)
    next
      case False
      have "bs\<lparr>bs_bufferSize := bs_size bs + 1 + BS_MEM_BLOCK_ALLOC_SIZE, bs_original := Some mem1, bs_size := bs_size bs + 1\<rparr> = bs1"
        using mem s False p by (cases bs) (simp add: bs1_def mem1_def)
      then show ?thesis using mem(1-3) s False r [OF False] by (auto simp: BS_WriteByte_def Let_def mem1_def)
    qed
  qed
  also have "\<dots> = Inr (bs1\<lparr>bs_original := Some (mem1[p := v]), bs_position := bs_position bs1 + 1\<rparr>)"
    using mem1 by (intro put_appended) (simp_all add: bs1_def p_def)
  finally have w: "BS_WriteByte v bs = Inr (bs1\<lparr>bs_original := Some (mem1[p := v]), bs_position := bs_position bs1 + 1\<rparr>)" .
  have "take (p + 1) (mem1[p := v]) = take p mem @ [v]"
    using mem1 by (metis length_list_update nth_list_update_eq take_Suc_conv_app_nth take_update_cancel Suc_eq_plus1 order_refl)
  moreover have "unat (of_nat p + 1 :: u64) = Suc p" using p up [of "p + 1"] by (simp add: add.commute)
  ultimately show ?thesis
    using w mem(1,7) p(3) mem1 assms(2) up [of p] p(1)
    by (auto simp: gf_holds_def bs1_def low_bits_def)
qed

lemma BS_WriteBit_holds:
  assumes "gf_holds bs w" "length w + 4200 < 2 ^ 35"
  shows "\<exists>bs'. BS_WriteBit b bs = Inr bs' \<and> gf_holds bs' (w @ [b])"
proof -
  obtain mem where mem: "bs_bsmode bs = BS_WRITE_DYN" "bs_nbBits bs < 8" "bs_original bs = Some mem"
      "w = bits_of (take (unat (bs_position bs)) mem) @ low_bits (unat (bs_nbBits bs)) (bs_current bs)"
    using assms(1) by (auto simp: gf_holds_def)
  define c where "c = push_bit 1 (bs_current bs) OR of_bool b"
  have n: "unat (bs_nbBits bs) < 8" "unat (bs_nbBits bs + 1) = Suc (unat (bs_nbBits bs))"
    using mem(2) by (auto simp: word_less_nat_alt unat_word_ariths)
  have low: "low_bits (Suc (unat (bs_nbBits bs))) c = low_bits (unat (bs_nbBits bs)) (bs_current bs) @ [b]"
    using low_bits_pushed [OF n(1)] by (simp add: c_def)
  show ?thesis
  proof (cases "bs_nbBits bs + 1 = 8")
    case True
    with n have 7: "Suc (unat (bs_nbBits bs)) = 8" by simp
    define w0 where "w0 = bits_of (take (unat (bs_position bs)) mem)"
    have "gf_holds (bs\<lparr>bs_current := c, bs_nbBits := 0\<rparr>) w0"
      using assms(1) mem by (auto simp: gf_holds_def w0_def low_bits_def)
    moreover have "length w0 + 4200 < 2 ^ 35" using assms(2) mem(4) by (simp add: w0_def)
    ultimately obtain bs' where bs': "BS_WriteByte (ucast c) (bs\<lparr>bs_current := c, bs_nbBits := 0\<rparr>) = Inr bs'"
        "bs_nbBits bs' = 0" "gf_holds bs' (w0 @ byte_bits (ucast c))"
      using BS_WriteByte_holds [of _ w0 "ucast c"] by fastforce
    have "w @ [b] = w0 @ byte_bits (ucast c)" using mem(4) low 7 by (simp add: w0_def byte_bits_low)
    moreover have "gf_holds (bs'\<lparr>bs_current := 0\<rparr>) (w0 @ byte_bits (ucast c))"
      using bs'(2,3) by (simp add: gf_holds_def low_bits_def)
    ultimately show ?thesis using bs'(1) True by (simp add: BS_WriteBit_def Let_def c_def)
  next
    case False
    have "bs_nbBits bs + 1 < 8" using False n by (auto simp: word_less_nat_alt word_unat_eq_iff)
    then have "gf_holds (bs\<lparr>bs_current := c, bs_nbBits := bs_nbBits bs + 1\<rparr>) (w @ [b])"
      using assms(1) mem low n by (auto simp: gf_holds_def)
    then show ?thesis using False by (simp add: BS_WriteBit_def Let_def c_def)
  qed
qed

text \<open>Integers: the bits that are written are the low ones.\<close>

lemma write_bits_holds:
  fixes v :: "'a::len word"
  shows "gf_holds bs w \<Longrightarrow> n \<le> LENGTH('a) \<Longrightarrow> length w + n + 4200 < 2 ^ 35 \<Longrightarrow>
     \<exists>bs'. write_bits n v bs = Inr bs' \<and> gf_holds bs' (w @ map (\<lambda>i. bit v (LENGTH('a) - 1 - i)) [0..<n])"
proof (induction n arbitrary: v bs w)
  case (Suc n)
  have s: "sint v < 0 \<longleftrightarrow> bit v (LENGTH('a) - 1)"
    by (simp add: bit_last_iff)
  obtain bs1 where bs1: "BS_WriteBit (sint v < 0) bs = Inr bs1" "gf_holds bs1 (w @ [bit v (LENGTH('a) - 1)])"
    using BS_WriteBit_holds [OF Suc.prems(1), of "sint v < 0"] Suc.prems(3) by (auto simp: s)
  obtain bs2 where bs2: "write_bits n (push_bit 1 v) bs1 = Inr bs2"
      "gf_holds bs2 ((w @ [bit v (LENGTH('a) - 1)]) @ map (\<lambda>i. bit (push_bit 1 v) (LENGTH('a) - 1 - i)) [0..<n])"
    using Suc.IH [OF bs1(2), of "push_bit 1 v"] Suc.prems(2,3) by auto
  have "map (\<lambda>i. bit (push_bit 1 v) (LENGTH('a) - 1 - i)) [0..<n] = map (\<lambda>i. bit v (LENGTH('a) - 1 - Suc i)) [0..<n]"
    using Suc.prems(2) unfolding bit_push_bit_iff by (auto simp: less_diff_conv)
  also have "[bit v (LENGTH('a) - 1)] @ \<dots> = map (\<lambda>i. bit v (LENGTH('a) - 1 - i)) [0..<Suc n]"
    by (simp add: upt_conv_Cons map_Suc_upt [symmetric] del: upt_Suc)
  finally show ?case using bs1(1) bs2 by simp
qed simp

lemma gf_bs_write_int_holds:
  assumes "gf_holds bs w" "0 < n" "n \<le> 32" "length w + n + 4200 < 2 ^ 35"
  shows "\<exists>bs'. gf_bs_write_int v (int n) bs = Inr bs' \<and> gf_holds bs' (w @ low_bits n v)"
proof -
  have "map (\<lambda>i. bit (push_bit (32 - n) v) (31 - i)) [0..<n] = low_bits n v"
    using assms(2,3) by (auto simp: low_bits_def bit_push_bit_iff)
  moreover have "nat (32 - int n) = 32 - n" by simp
  ultimately show ?thesis
    using write_bits_holds [OF assms(1), of n "push_bit (32 - n) v"] assms by (auto simp: gf_bs_write_int_def)
qed

lemma gf_holds_new: "\<exists>bs. gf_bs_new junk None 0 BS_WRITE = Some bs \<and> gf_holds bs []"
  by (simp add: gf_bs_new_def realloc_def gf_holds_def low_bits_def)

text \<open>The contents: the bytes with these bits, the last one filled up with zeros.\<close>

lemma gf_bs_align_holds:
  assumes "gf_holds bs w" "length w + 4208 < 2 ^ 35"
  shows "\<exists>r bs' z. gf_bs_align bs = Inr (r, bs') \<and> gf_holds bs' (w @ replicate z False) \<and> bs_nbBits bs' = 0 \<and> z < 8"
proof (cases "bs_nbBits bs = 0")
  case True
  then show ?thesis using assms(1) by (auto simp: gf_bs_align_def gf_holds_def intro!: exI [of _ 0])
next
  case False
  define n where "n = 8 - unat (bs_nbBits bs)"
  have nb: "unat (bs_nbBits bs) < 8" "0 < unat (bs_nbBits bs)"
    using assms(1) False by (auto simp: gf_holds_def word_less_nat_alt unat_gt_0)
  then have n: "0 < n" "n < 8" by (simp_all add: n_def)
  have "unat (ucast (8 - bs_nbBits bs) :: byte) = n"
    using nb by (simp add: n_def unat_ucast_mod unat_sub word_le_nat_alt)
  then have "uint (ucast (8 - bs_nbBits bs) :: byte) = int n"
    by (metis uint_nat)
  moreover obtain bs' where bs': "gf_bs_write_int 0 (int n) bs = Inr bs'" "gf_holds bs' (w @ low_bits n (0 :: 32 word))"
    using gf_bs_write_int_holds [OF assms(1) n(1)] n assms(2) by fastforce
  moreover have z: "low_bits n (0 :: 32 word) = replicate n False" by (rule nth_equalityI) (auto simp: nth_low_bits)
  moreover have "bs_nbBits bs' = 0"
  proof -
    have "8 * unat (bs_position bs') + unat (bs_nbBits bs') = 8 * unat (bs_position bs) + 8"
      using gf_holds_position [OF bs'(2)] gf_holds_position [OF assms(1)] nb by (simp add: n_def)
    moreover have "unat (bs_nbBits bs') < 8" using bs'(2) by (auto simp: gf_holds_def word_less_nat_alt)
    ultimately have "unat (bs_nbBits bs') = 0" by presburger
    then show ?thesis by (simp add: unat_eq_zero)
  qed
  moreover have "bs_bsmode bs = BS_WRITE_DYN" using assms(1) by (simp add: gf_holds_def)
  ultimately show ?thesis
    using False n by (auto simp: gf_bs_align_def Let_def unat_gt_0 word_gt_0 intro!: exI [of _ n])
qed

lemma gf_bs_get_content_holds:
  assumes "gf_holds bs w" "length w + 4208 < 2 ^ 35" "w \<noteq> []"
  shows "\<exists>mem n bs'. gf_bs_get_content bs = Inr (Some (Some mem, n), bs') \<and> unat n \<le> length mem \<and>
    unat n = (length w + 7) div 8 \<and> bits_of (take (unat n) mem) = w @ replicate (8 * unat n - length w) False"
proof -
  obtain r bs1 z where bs1: "gf_bs_align bs = Inr (r, bs1)" "gf_holds bs1 (w @ replicate z False)" "bs_nbBits bs1 = 0" "z < 8"
    using gf_bs_align_holds [OF assms(1,2)] by blast
  obtain mem where mem: "bs_original bs1 = Some mem" "bs_size bs1 = bs_position bs1"
      "unat (bs_position bs1) \<le> length mem" "length mem < 2 ^ 32"
      "w @ replicate z False = bits_of (take (unat (bs_position bs1)) mem)"
    using bs1(2,3) by (auto simp: gf_holds_def low_bits_def)
  define n where "n = (ucast (bs_position bs1) :: u32)"
  have n: "unat n = unat (bs_position bs1)" using mem(3,4) by (simp add: n_def unat_ucast_mod)
  have len: "8 * unat n = length w + z"
    using gf_holds_position [OF bs1(2)] bs1(3) n by simp
  have "bs_bsmode bs = BS_WRITE_DYN" using assms(1) by (simp add: gf_holds_def)
  moreover have "\<not> (bs_position bs = 0 \<and> bs_nbBits bs = 0)"
    using gf_holds_position [OF assms(1)] assms(3) by auto
  ultimately have "\<exists>bs'. gf_bs_get_content bs = Inr (Some (Some mem, n), bs')"
    using bs1(1) mem by (auto simp: gf_bs_get_content_def BS_CutBuffer_def Let_def n_def)
  then show ?thesis using mem n len bs1(4) by auto
qed


section \<open>Fields\<close>

lemma gf_write_ints_holds:
  "gf_holds bs w \<Longrightarrow> \<forall>(n, v) \<in> set fs. 0 < n \<and> n \<le> 32 \<Longrightarrow> length w + length (fields_bits fs) + 4200 < 2 ^ 35 \<Longrightarrow>
     \<exists>bs'. gf_write_ints fs bs = Inr bs' \<and> gf_holds bs' (w @ fields_bits fs)"
proof (induction fs arbitrary: bs w)
  case (Cons f fs)
  obtain n v where f: "f = (n, v)" by fastforce
  obtain bs1 where bs1: "gf_bs_write_int v (int n) bs = Inr bs1" "gf_holds bs1 (w @ low_bits n v)"
    using gf_bs_write_int_holds [OF Cons.prems(1), of n v] Cons.prems(2,3) by (auto simp: f)
  obtain bs2 where "gf_write_ints fs bs1 = Inr bs2" "gf_holds bs2 ((w @ low_bits n v) @ fields_bits fs)"
    using Cons.IH [OF bs1(2)] Cons.prems(2,3) by (auto simp: f)
  then show ?case using bs1(1) by (simp add: f)
qed simp

lemma gf_read_ints_bits:
  "gf_reading bs \<Longrightarrow> \<forall>(n, v) \<in> set fs. n \<le> 32 \<Longrightarrow>
     map (gf_bits bs) [0..<length (fields_bits fs)] = fields_bits fs \<Longrightarrow>
     \<exists>bs'. gf_read_ints (map fst fs) bs = Inr (map (\<lambda>(n, v). take_bit n v) fs, bs')"
proof (induction fs arbitrary: bs)
  case (Cons f fs)
  obtain n v where f: "f = (n, v)" by fastforce
  let ?l = "length (fields_bits fs)"
  have n: "unat (of_nat n :: u32) = n" using Cons.prems(2) by (auto simp: f unat_of_nat)
  obtain bs1 where bs1: "gf_bs_read_int (of_nat n) bs = Inr (bits_value (map (gf_bits bs) [0..<n]), bs1)" "gf_reading bs1"
      "gf_bits bs1 = (\<lambda>i. gf_bits bs (i + n))"
    using gf_bs_read_int_bits [OF Cons.prems(1), of "of_nat n"] n by auto
  have "[0..<n + ?l] = [0..<n] @ map (\<lambda>i. i + n) [0..<?l]"
    by (simp add: upt_add_eq_append [of 0 n] map_add_upt add.commute)
  then have "map (gf_bits bs) [0..<n] @ map (gf_bits bs1) [0..<?l] = low_bits n v @ fields_bits fs"
    using Cons.prems(3) bs1(3) by (simp add: f comp_def)
  then have split: "map (gf_bits bs) [0..<n] = low_bits n v" "map (gf_bits bs1) [0..<?l] = fields_bits fs"
    by (simp_all add: append_eq_append_conv)
  then show ?case using Cons.IH [OF bs1(2)] Cons.prems(2) bs1(1) by (auto simp: f bits_value_low_bits)
qed simp

section \<open>Properties\<close>

text \<open>
  C25. Integers of 1 to 32 bits that are written to a stream with its own memory come back from a stream that reads
  its contents: they are packed without a gap into the least number of bytes, whatever the memory held before, and
  each is cut to its width.
\<close>

theorem gf_ints_roundtrip:
  assumes "fs \<noteq> []" "\<forall>(n, v) \<in> set fs. 0 < n \<and> n \<le> 32" "sum_list (map fst fs) + 4208 < 2 ^ 35"
  shows "\<exists>bs mem n bs'. gf_bs_new junk None 0 BS_WRITE = Some bs \<and>
    bindR (gf_write_ints fs bs) gf_bs_get_content = Inr (Some (Some mem, n), bs') \<and>
    unat n = (sum_list (map fst fs) + 7) div 8 \<and>
    (\<exists>rs rs'. gf_bs_new junk' (Some mem) (ucast n) BS_READ = Some rs \<and>
      gf_read_ints (map fst fs) rs = Inr (map (\<lambda>(n, v). take_bit n v) fs, rs'))"
proof -
  have l: "length (fields_bits fs) = sum_list (map fst fs)" by (induction fs) (auto simp: fields_bits_def)
  obtain bs where bs: "gf_bs_new junk None 0 BS_WRITE = Some bs" "gf_holds bs []" using gf_holds_new by blast
  obtain ws where ws: "gf_write_ints fs bs = Inr ws" "gf_holds ws (fields_bits fs)"
    using gf_write_ints_holds [OF bs(2) assms(2)] assms(3) l by auto
  have "fields_bits fs \<noteq> []" using assms(1,2) by (cases fs) (auto simp: fields_bits_def low_bits_def)
  then obtain mem n bs' where c: "gf_bs_get_content ws = Inr (Some (Some mem, n), bs')" "unat n \<le> length mem"
      "unat n = (length (fields_bits fs) + 7) div 8"
      "bits_of (take (unat n) mem) = fields_bits fs @ replicate (8 * unat n - length (fields_bits fs)) False"
    using gf_bs_get_content_holds [OF ws(2)] assms(3) l by auto
  have n: "unat (ucast n :: u64) = unat n" by (simp add: unsigned_ucast_eq take_bit_nat_eq_self_iff less_trans [OF unat_less_power])
  moreover have "0 < unat n" using c(3) \<open>fields_bits fs \<noteq> []\<close> by (cases "fields_bits fs") auto
  ultimately have "(ucast n :: u64) \<noteq> 0" by (metis unat_0 less_irrefl)
  then obtain rs where rs: "gf_bs_new junk' (Some mem) (ucast n) BS_READ = Some rs" by (auto simp: gf_bs_new_def)
  note reading = gf_reading_new [OF rs, unfolded n, OF c(2)]
  have "map (gf_bits rs) [0..<length (fields_bits fs)] = fields_bits fs"
    by (rule nth_equalityI) (auto simp: gf_bits_def reading(2) c(4) nth_append)
  then obtain rs' where "gf_read_ints (map fst fs) rs = Inr (map (\<lambda>(n, v). take_bit n v) fs, rs')"
    using gf_read_ints_bits [OF reading(1), of fs] assms(2) by fastforce
  then show ?thesis using bs(1) ws(1) c l rs by auto
qed

theorem gf_ints_roundtrip_witness:
  "\<exists>bs mem n bs'. gf_bs_new (\<lambda>_. 0xCD) None 0 BS_WRITE = Some bs \<and>
    bindR (gf_write_ints [(12, 0xFFF), (5, 0x42), (32, 0xDEADBEEF)] bs) gf_bs_get_content =
      Inr (Some (Some mem, n), bs') \<and> unat n = 7 \<and>
    (\<exists>rs rs'. gf_bs_new (\<lambda>_. 0) (Some mem) (ucast n) BS_READ = Some rs \<and>
      gf_read_ints [12, 5, 32] rs = Inr ([0xFFF, 2, 0xDEADBEEF], rs'))"
  using gf_ints_roundtrip [of "[(12, 0xFFF), (5, 0x42), (32, 0xDEADBEEF)]" "\<lambda>_. 0xCD" "\<lambda>_. 0"]
  by (simp add: take_bit_eq_mask mask_eq_exp_minus_1)

end
