(* ===== verification/Aac_Utils.thy ===== *)
theory Aac_Utils
  imports Gf_Bit_Codec Aac_Codec
begin

text \<open>
  The AAC helpers of the demuxer (\<open>media/aac_utils.cpp\<close>), which use the bit stream: the configuration of the extra
  data, and the ADTS header that is put before a packet.
\<close>

unbundle bit_operations_syntax

definition aac_get_sample_rate_by_index :: "32 word \<Rightarrow> 32 word" where
  "aac_get_sample_rate_by_index index =
     (if index = 0 then 96000 else if index = 1 then 88200 else if index = 2 then 64000 else if index = 3 then 48000
      else if index = 4 then 44100 else if index = 5 then 32000 else if index = 6 then 24000
      else if index = 7 then 22050 else if index = 8 then 16000 else if index = 9 then 12000
      else if index = 10 then 11025 else if index = 11 then 8000 else if index = 12 then 7350 else 0)"

definition aac_get_index_by_sample_rate :: "32 word \<Rightarrow> 32 word" where
  "aac_get_index_by_sample_rate sample_rate = (let r = sint sample_rate in
     if 92017 \<le> r then 0 else if 75132 \<le> r then 1 else if 55426 \<le> r then 2 else if 46009 \<le> r then 3
     else if 37566 \<le> r then 4 else if 27713 \<le> r then 5 else if 23004 \<le> r then 6 else if 18783 \<le> r then 7
     else if 13856 \<le> r then 8 else if 11502 \<le> r then 9 else if 9391 \<le> r then 10 else 11)"

text \<open>Profile, sample rate and channels; no value is the result \<^verbatim>\<open>false\<close>.\<close>

definition aac_parse_extra_data ::
    "(nat \<Rightarrow> byte) \<Rightarrow> byte list option \<Rightarrow> int \<Rightarrow> (32 word \<times> 32 word \<times> 32 word) option res" where
  "aac_parse_extra_data junk data n =
     (if n < 2 \<or> data = None then Inr None
      else (case gf_bs_new junk data 2 BS_READ of
        None \<Rightarrow> Inl Null_Deref
      | Some bs \<Rightarrow>
          bindR (gf_bs_read_int 5 bs) (\<lambda>(profile, bs).
          bindR (gf_bs_read_int 4 bs) (\<lambda>(index, bs).
          bindR (gf_bs_read_int 4 bs) (\<lambda>(channels, bs).
            Inr (Some (profile, aac_get_sample_rate_by_index index, channels)))))))"

definition aac_make_adts_header ::
    "(nat \<Rightarrow> byte) \<Rightarrow> 32 word \<Rightarrow> 32 word \<Rightarrow> 32 word \<Rightarrow> 32 word \<Rightarrow> 32 word \<Rightarrow> byte list res" where
  "aac_make_adts_header junk mpeg_version profile sample_rate channels aac_data_length =
     (case gf_bs_new junk None 0 BS_WRITE of
        None \<Rightarrow> Inl Null_Deref
      | Some bs \<Rightarrow>
          bindR (gf_write_ints
            [(12, 0xFFFF), (1, mpeg_version), (2, 0), (1, 1), (2, profile - 1),
             (4, aac_get_index_by_sample_rate sample_rate), (1, 0),
             (3, if channels = 8 then 7 else channels), (1, 0), (1, 0), (1, 0), (1, 0),
             (13, aac_data_length), (11, 0x7FF), (2, 0)] bs) (\<lambda>bs.
          bindR (gf_bs_align bs) (\<lambda>(_, bs).
          bindR (gf_bs_get_content bs) (\<lambda>(out, bs).
            (case out of
               Some (Some adts_data, adts_size) \<Rightarrow> read_bytes adts_data 0 (unat adts_size)
             | _ \<Rightarrow> Inr [])))))"

section \<open>Properties\<close>

text \<open>The index is found again from the rate, but 7350 is taken for 8000.\<close>

lemma rate_index_cases:
  assumes "i < (12 :: u32)"
  shows "i \<in> {0, 1, 2, 3, 4, 5, 6, 7, 8, 9, 10, 11}"
proof -
  have "unat i < 12" using assms by (simp add: word_less_nat_alt)
  moreover have "n \<in> {0, 1, 2, 3, 4, 5, 6, 7, 8, 9, 10, 11}" if "n < 12" for n :: nat
    using that unfolding insert_iff empty_iff by presburger
  ultimately have "of_nat (unat i) \<in> {0, 1, 2, 3, 4, 5, 6, 7, 8, 9, 10, 11 :: u32}" by fastforce
  then show ?thesis by simp
qed

lemma index_of_rate:
  "i < 12 \<Longrightarrow> aac_get_index_by_sample_rate (aac_get_sample_rate_by_index i) = i"
  "aac_get_index_by_sample_rate (aac_get_sample_rate_by_index 12) = 11"
proof -
  assume "i < 12"
  from rate_index_cases [OF this] show "aac_get_index_by_sample_rate (aac_get_sample_rate_by_index i) = i"
    by (elim insertE emptyE) (simp_all add: aac_get_index_by_sample_rate_def aac_get_sample_rate_by_index_def)
qed (simp add: aac_get_index_by_sample_rate_def aac_get_sample_rate_by_index_def)

lemma rate_number:
  assumes "i < (12 :: u32)" "adts_sampling_frequency_index a = take_bit 4 (ucast i)"
  shows "SamplerateNum a = aac_get_sample_rate_by_index i"
  using rate_index_cases [OF assms(1)] assms(2)
  by (elim insertE emptyE) (simp_all add: SamplerateNum_def aac_get_sample_rate_by_index_def Let_def take_bit_eq_mask mask_eq_exp_minus_1)

lemma aac_parse_extra_data_bits:
  assumes "bits_of (take 2 data) = low_bits 5 (t :: u32) @ low_bits 4 (i :: u32) @ low_bits 4 (c :: u32) @ rest" "2 \<le> length data"
    "2 \<le> k"
  shows "aac_parse_extra_data junk (Some data) k =
    Inr (Some (take_bit 5 t, aac_get_sample_rate_by_index (take_bit 4 i), take_bit 4 c))"
proof -
  obtain bs where bs: "gf_bs_new junk (Some data) 2 BS_READ = Some bs" by (auto simp: gf_bs_new_def)
  have reading: "gf_reading bs" "gf_rest bs = bits_of (take 2 data)"
    using gf_reading_new [OF bs] assms(2) by simp_all
  have "map (gf_bits bs) [0..<length (fields_bits [(5, t), (4, i), (4, c)])] = fields_bits [(5, t), (4, i), (4, c)]"
    by (rule nth_equalityI) (auto simp: gf_bits_def reading(2) assms(1) nth_append)
  then obtain bs' where r: "gf_read_ints [5, 4, 4] bs = Inr ([take_bit 5 t, take_bit 4 i, take_bit 4 c], bs')"
    using gf_read_ints_bits [OF reading(1), of "[(5, t), (4, i), (4, c)]"] by auto
  then show ?thesis using bs assms(3) by (auto simp: aac_parse_extra_data_def res_simps)
qed

definition adts_bits :: "32 word \<Rightarrow> 32 word \<Rightarrow> 32 word \<Rightarrow> 32 word \<Rightarrow> 32 word \<Rightarrow> bool list" where
  "adts_bits v p i c n = fields_bits [(12, 0xFFFF), (1, v), (2, 0), (1, 1), (2, p), (4, i), (1, 0), (3, c), (1, 0), (1, 0),
     (1, 0), (1, 0), (13, n), (11, 0x7FF), (2, 0)]"

lemma aac_make_adts_header_bits:
  "\<exists>h. aac_make_adts_header junk v p r c n = Inr h \<and> length h = 7 \<and>
     bits_of h = adts_bits v (p - 1) (aac_get_index_by_sample_rate r) (if c = 8 then 7 else c) n"
proof -
  let ?fs = "[(12, 0xFFFF), (1, v), (2, 0), (1, 1), (2, p - 1), (4, aac_get_index_by_sample_rate r), (1, 0),
     (3, if c = 8 then 7 else c), (1, 0), (1, 0), (1, 0), (1, 0), (13, n), (11, 0x7FF), (2, 0)] :: (nat \<times> u32) list"
  obtain bs where bs: "gf_bs_new junk None 0 BS_WRITE = Some bs" "gf_holds bs []" using gf_holds_new by blast
  have "\<forall>(n, v) \<in> set ?fs. 0 < n \<and> n \<le> 32" by simp
  then obtain ws where ws: "gf_write_ints ?fs bs = Inr ws" "gf_holds ws (fields_bits ?fs)"
    using gf_write_ints_holds [OF bs(2), of ?fs] by auto
  have len: "length (fields_bits ?fs) = 56" by simp
  obtain x bs1 z where al: "gf_bs_align ws = Inr (x, bs1)" "gf_holds bs1 (fields_bits ?fs @ replicate z False)"
      "bs_nbBits bs1 = 0" "z < 8"
    using gf_bs_align_holds [OF ws(2)] len by auto
  have "8 * unat (bs_position bs1) = 56 + z" using gf_holds_position [OF al(2)] al(3) len by simp
  then have z: "z = 0" using al(4) by presburger
  then have al': "gf_holds bs1 (fields_bits ?fs)" using al(2) by simp
  have "fields_bits ?fs \<noteq> []" by (simp add: low_bits_def)
  then obtain mem k bs2 where c: "gf_bs_get_content bs1 = Inr (Some (Some mem, k), bs2)" "unat k \<le> length mem"
      "unat k = 7" "bits_of (take (unat k) mem) = fields_bits ?fs @ replicate (8 * unat k - 56) False"
    using gf_bs_get_content_holds [OF al'] unfolding len by auto
  then show ?thesis
    using bs(1) ws(1) al(1) by (simp add: aac_make_adts_header_def adts_bits_def del: fields_bits_simps)
qed


lemma aac_make_adts_header_parsed:
  assumes "aac_make_adts_header junk v p r c n = Inr h"
  shows "AACAdts_Parse (h @ rest) = Inr (Some
    \<lparr>adts_syncword = 0xFFF, adts_id = bit v 0, adts_layer = 0, adts_protection_absent = True,
     adts_profile = take_bit 2 (ucast (p - 1)), adts_sampling_frequency_index = take_bit 4 (ucast (aac_get_index_by_sample_rate r)),
     adts_private_bit = 0, adts_channel_configuration = take_bit 3 (ucast (if c = 8 then 7 else c)),
     adts_original_copy = False, adts_home = False, adts_copyright_identification_bit = False,
     adts_copyright_identification_start = False, adts_aac_frame_length = take_bit 13 (ucast n),
     adts_buffer_fullness = 0x7FF, adts_number_of_raw_data_blocks_in_frame = 0, adts_crc = None\<rparr>)"
proof -
  have len: "length h = 7" and bits: "bits_of (h @ rest) =
      adts_bits v (p - 1) (aac_get_index_by_sample_rate r) (if c = 8 then 7 else c) n @ bits_of rest"
    using aac_make_adts_header_bits [of junk v p r c n] assms by auto
  have one: "low_bits 1 (w :: u32) = [bit w 0]" for w by (simp add: low_bits_def)
  have k: "take_bit 12 (ucast (0xFFFF :: u32) :: u16) = 0xFFF" "take_bit 11 (ucast (0x7FF :: u32) :: u16) = 0x7FF"
    by (simp_all add: take_bit_eq_mask mask_eq_exp_minus_1)
  show ?thesis
    using len by (simp add: AACAdts_Parse_def ReadBits_new ReadBits_skip ReadBit_skip bits adts_bits_def
        bits_value_low_bits k one [simplified] nth_append del: bits_of_simps)
qed

text \<open>
  C30. From a configuration to an ADTS header: for a configuration of one of the four plain object types, one of the
  first twelve rates and one to seven channels, the header that \<open>aac_make_adts_header\<close> builds from what
  \<open>aac_parse_extra_data\<close> reads has, as \<open>AACAdts\<close> parses it, the object type, the rate and the channels of the
  configuration and the given length.
\<close>

theorem aac_extra_data_to_adts:
  assumes "asc_object_type c \<in> {1, 2, 3, 4}" "asc_sampling_frequency_index c < 12" "asc_channel c \<in> {1 .. 7}" "n < 2 ^ 13"
  shows "\<exists>d p r ch h a. AACSpecificConfig_Serialize c = Inr d \<and>
    aac_parse_extra_data junk (Some d) 2 = Inr (Some (p, r, ch)) \<and>
    aac_make_adts_header junk' 0 p r ch n = Inr h \<and> AACAdts_Parse (h @ rest) = Inr (Some a) \<and>
    adts_Profile a = asc_object_type c \<and> SamplerateNum a = r \<and> adts_channel_configuration a = asc_channel c \<and>
    ucast (adts_aac_frame_length a) = n"
proof -
  define t i ch where "t = (ucast (asc_object_type c) :: u32)" "i = (ucast (asc_sampling_frequency_index c) :: u32)"
    "ch = (ucast (asc_channel c) :: u32)"
  obtain d where d: "AACSpecificConfig_Serialize c = Inr d" "length d = 2"
      "bits_of d = low_bits 5 t @ low_bits 4 i @ low_bits 4 ch @ replicate 3 False"
    using Serialize_bits [of c] by (auto simp: t_i_ch_def)
  have small: "take_bit 5 t = t" "take_bit 4 i = i" "take_bit 4 ch = ch"
    using assms by (auto simp: t_i_ch_def unat_ucast_byte word_less_nat_alt word_le_nat_alt intro!: take_bit_small)
  have parsed: "aac_parse_extra_data junk (Some d) 2 = Inr (Some (t, aac_get_sample_rate_by_index i, ch))"
    using aac_parse_extra_data_bits [of d t i ch "replicate 3 False" 2] d by (simp add: small)
  let ?r = "aac_get_sample_rate_by_index i"
  obtain h where h: "aac_make_adts_header junk' 0 t ?r ch n = Inr h"
    using aac_make_adts_header_bits by blast
  have i: "i < 12" using assms(2) by (simp add: t_i_ch_def word_less_nat_alt unat_ucast_byte)
  have v: "take_bit 2 (ucast (t - 1)) + 1 = asc_object_type c"
    using assms(1) by (auto simp: t_i_ch_def take_bit_eq_mask mask_eq_exp_minus_1)
  have ch8: "ch \<noteq> 8" using assms(3) by (auto simp: t_i_ch_def word_le_nat_alt unat_ucast_byte dest!: arg_cong [where f = unat])
  have ch: "take_bit 3 (ucast ch) = asc_channel c"
    using assms(3) by (auto simp: t_i_ch_def word_le_nat_alt intro!: take_bit_small)
  have n: "ucast (take_bit 13 (ucast n :: u16)) = n"
  proof -
    have "take_bit 13 n = n" using assms(4) by (intro take_bit_small) (simp add: word_less_nat_alt)
    moreover have "ucast (take_bit 13 (ucast n :: u16)) = take_bit 13 n" by (rule bit_word_eqI) (auto simp: bit_simps)
    ultimately show ?thesis by simp
  qed
  obtain a where a: "AACAdts_Parse (h @ rest) = Inr (Some a)" "adts_profile a = take_bit 2 (ucast (t - 1))"
      "adts_sampling_frequency_index a = take_bit 4 (ucast i)" "adts_channel_configuration a = take_bit 3 (ucast ch)"
      "adts_aac_frame_length a = take_bit 13 (ucast n)"
    using aac_make_adts_header_parsed [OF h, of rest] ch8 index_of_rate(1) [OF i] by simp
  have "adts_Profile a = asc_object_type c" "SamplerateNum a = ?r"
      "adts_channel_configuration a = asc_channel c" "ucast (adts_aac_frame_length a) = n"
    using v ch n rate_number [OF i a(3)] by (simp_all add: a adts_Profile_def)
  then show ?thesis using d(1) parsed h a(1) by blast
qed


theorem aac_extra_data_to_adts_witness:
  "\<exists>d p r ch h a. AACSpecificConfig_Serialize \<lparr>asc_object_type = 2, asc_sampling_frequency_index = 4, asc_channel = 2\<rparr> = Inr d \<and>
    aac_parse_extra_data (\<lambda>_. 0) (Some d) 2 = Inr (Some (p, r, ch)) \<and>
    aac_make_adts_header (\<lambda>_. 0xFF) 0 p r ch 371 = Inr h \<and> AACAdts_Parse (h @ []) = Inr (Some a) \<and>
    adts_Profile a = 2 \<and> SamplerateNum a = r \<and> adts_channel_configuration a = 2 \<and> ucast (adts_aac_frame_length a) = (371 :: u32)"
  using aac_extra_data_to_adts [of "\<lparr>asc_object_type = 2, asc_sampling_frequency_index = 4, asc_channel = 2\<rparr>" 371
      "\<lambda>_. 0" "\<lambda>_. 0xFF" "[]"]
  by simp

end
