(* ===== verification/Gf_Bit_Position.thy ===== *)
theory Gf_Bit_Position
  imports Gf_Bit_Codec
begin

text \<open>
  Moving in the bit stream over memory: where a stream is in its data, how a read moves it, and what going back and
  peeking do.
\<close>

unbundle bit_operations_syntax

section \<open>Positions\<close>

text \<open>What a read leaves alone.\<close>

definition gf_same :: "gf_bit_stream \<Rightarrow> gf_bit_stream \<Rightarrow> bool" where
  "gf_same bs bs' = (bs' = bs\<lparr>bs_position := bs_position bs', bs_current := bs_current bs', bs_nbBits := bs_nbBits bs',
     bs_eos_calls := bs_eos_calls bs'\<rparr>)"

lemma gf_same_refl [simp]: "gf_same bs bs"
  by (cases bs) (simp add: gf_same_def)

lemma gf_same_trans: "gf_same bs bs1 \<Longrightarrow> gf_same bs1 bs2 \<Longrightarrow> gf_same bs bs2"
  by (cases bs, cases bs1, cases bs2) (simp add: gf_same_def)

lemma gf_same_fields:
  "gf_same bs bs' \<Longrightarrow> bs_size bs' = bs_size bs" "gf_same bs bs' \<Longrightarrow> bs_bsmode bs' = bs_bsmode bs"
  "gf_same bs bs' \<Longrightarrow> bs_original bs' = bs_original bs"
  by (cases bs, cases bs', simp add: gf_same_def)+

text \<open>
  A read moves the position forward, never past the size; at the end it stays where it is.
\<close>

definition gf_moved :: "gf_bit_stream \<Rightarrow> gf_bit_stream \<Rightarrow> bool" where
  "gf_moved bs bs' = (gf_reading bs' \<and> gf_same bs bs' \<and> bs_position bs \<le> bs_position bs' \<and> bs_position bs' \<le> bs_size bs)"

lemma gf_moved_refl: "gf_reading bs \<Longrightarrow> bs_position bs \<le> bs_size bs \<Longrightarrow> gf_moved bs bs"
  by (simp add: gf_moved_def)

lemma gf_moved_trans: "gf_moved bs bs1 \<Longrightarrow> gf_moved bs1 bs2 \<Longrightarrow> gf_moved bs bs2"
  using gf_same_trans gf_same_fields(1) unfolding gf_moved_def by (metis order_trans)

lemma gf_bs_read_bit_moved:
  assumes "gf_reading bs" "bs_position bs \<le> bs_size bs"
  shows "\<exists>b bs'. gf_bs_read_bit bs = Inr (b, bs') \<and> gf_moved bs bs'"
proof -
  obtain b bs' where r: "gf_bs_read_bit bs = Inr (b, bs')" "gf_reading bs'"
    using gf_bs_read_bit_bits [OF assms(1)] by blast
  have shift: "gf_moved bs (bs1\<lparr>bs_current := c, bs_nbBits := n\<rparr>)"
    if "gf_moved bs bs1" "gf_reading (bs1\<lparr>bs_current := c, bs_nbBits := n\<rparr>)" for bs1 c n
    using that unfolding gf_moved_def gf_same_def by (cases bs, cases bs1) simp
  have fetch: "gf_moved bs (fetched bs)" if "bs_nbBits bs = 8"
  proof -
    have "bs_position bs \<le> bs_position bs + 1 \<and> bs_position bs + 1 \<le> bs_size bs" if "\<not> bs_size bs \<le> bs_position bs"
      using that unat_less_power [of "bs_size bs"] by (auto simp: word_le_nat_alt unat_word_ariths)
    then show ?thesis
      using read_fetched(2) [OF assms(1) that] assms(2)
      by (cases bs) (auto simp: gf_moved_def gf_same_def fetched_def end_of_stream_def)
  qed
  have "\<exists>bs1 c n. bs' = bs1\<lparr>bs_current := c, bs_nbBits := n\<rparr> \<and> gf_moved bs bs1"
  proof (cases "bs_nbBits bs = 8")
    case True
    then have "gf_bs_read_bit (fetched bs) = Inr (b, bs')" using r(1) read_fetched(1) [OF assms(1)] by simp
    then show ?thesis using fetch [OF True] read_fetched(3) [OF assms(1) True]
      by (auto simp: gf_bs_read_bit_def Let_def)
  next
    case False
    then show ?thesis using r(1) gf_moved_refl [OF assms] by (auto simp: gf_bs_read_bit_def Let_def)
  qed
  then show ?thesis using r shift by blast
qed

lemma read_bits_moved:
  "gf_reading bs \<Longrightarrow> bs_position bs \<le> bs_size bs \<Longrightarrow> \<exists>v bs'. read_bits n ret bs = Inr (v, bs') \<and> gf_moved bs bs'"
proof (induction n arbitrary: ret bs)
  case 0
  then show ?case by (simp add: gf_moved_refl)
next
  case (Suc n)
  obtain b bs1 where bs1: "gf_bs_read_bit bs = Inr (b, bs1)" "gf_moved bs bs1"
    using gf_bs_read_bit_moved [OF Suc.prems] by blast
  then have "gf_reading bs1" "bs_position bs1 \<le> bs_size bs1"
    using gf_same_fields(1) by (auto simp: gf_moved_def)
  from Suc.IH [OF this] bs1 show ?case by (fastforce intro: gf_moved_trans)
qed


text \<open>The stream is at bit \<open>P\<close> of the data, inside the byte before its position.\<close>

definition gf_at :: "gf_bit_stream \<Rightarrow> byte list \<Rightarrow> nat \<Rightarrow> bool" where
  "gf_at bs data P = (gf_reading bs \<and> bs_position bs \<le> bs_size bs \<and> 0 < bs_nbBits bs \<and>
     8 * unat (bs_position bs) + unat (bs_nbBits bs) = P + 8 \<and>
     length data = unat (bs_size bs) \<and> take (unat (bs_size bs)) (the (bs_original bs)) = data \<and>
     gf_rest bs = drop P (bits_of data))"

lemma gf_at_new: "gf_bs_new junk (Some data) n BS_READ = Some bs \<Longrightarrow> unat n = length data \<Longrightarrow> gf_at bs data 0"
  using gf_reading_new [of junk data n bs] by (auto simp: gf_at_def gf_bs_new_def split: if_split_asm)

lemma gf_at_aligned:
  "gf_at bs data P \<Longrightarrow> unat i \<le> length data \<Longrightarrow> gf_at (bs\<lparr>bs_position := i, bs_nbBits := 8\<rparr>) data (8 * unat i)"
  by (auto simp: gf_at_def gf_reading_def gf_rest_def drop_bits_of word_le_nat_alt)

lemma gf_at_read_bit:
  assumes "gf_at bs data P" "P < 8 * length data"
  shows "\<exists>b bs'. gf_bs_read_bit bs = Inr (b, bs') \<and> gf_at bs' data (P + 1) \<and> gf_same bs bs'"
proof -
  have step: "gf_at (shifted bs1) data (P + 1)"
    if at: "gf_reading bs1" "bs_nbBits bs1 < 8" "gf_rest bs1 = drop P (bits_of data)" "bs_position bs1 \<le> bs_size bs1"
      "8 * unat (bs_position bs1) + unat (bs_nbBits bs1) = P + 8" "length data = unat (bs_size bs1)"
      "take (unat (bs_size bs1)) (the (bs_original bs1)) = data" for bs1
  proof -
    have "gf_rest (shifted bs1) = drop (P + 1) (bits_of data)"
      using read_current(3) [OF at(1,2)] at(3) by (metis drop_Suc drop_drop list.sel(3) tl_drop Suc_eq_plus1 drop0)
    moreover have "unat (bs_nbBits bs1 + 1) = unat (bs_nbBits bs1) + 1" "bs_nbBits bs1 + 1 \<noteq> 0"
      using at(2) by (auto simp: word_less_nat_alt unat_word_ariths unat_eq_zero [symmetric])
    ultimately show ?thesis
      using read_current(2) [OF at(1,2)] at by (simp add: gf_at_def shifted_def word_gt_0)
  qed
  have at: "gf_reading bs" "bs_position bs \<le> bs_size bs" "0 < bs_nbBits bs"
      "8 * unat (bs_position bs) + unat (bs_nbBits bs) = P + 8"
      "length data = unat (bs_size bs)" "take (unat (bs_size bs)) (the (bs_original bs)) = data"
      "gf_rest bs = drop P (bits_of data)"
    using assms(1) by (simp_all add: gf_at_def)
  show ?thesis
  proof (cases "bs_nbBits bs = 8")
    case True
    then have less: "\<not> bs_size bs \<le> bs_position bs" using assms(2) at by (simp add: word_le_nat_alt)
    then have "unat (bs_position bs + 1) = unat (bs_position bs) + 1"
      using unat_less_power [of "bs_size bs"] by (auto simp: word_le_nat_alt unat_word_ariths)
    then have "gf_at (shifted (fetched bs)) data (P + 1)"
      using less at True read_fetched [OF at(1) True] gf_bits_fetched(2) [OF at(1) True less]
      by (intro step) (auto simp: fetched_def word_le_nat_alt)
    moreover have "gf_same bs (shifted (fetched bs))"
      using less by (cases bs) (simp add: gf_same_def shifted_def fetched_def)
    ultimately show ?thesis
      using read_fetched [OF at(1) True] read_current(1) [of "fetched bs"] by auto
  next
    case False
    then have n: "bs_nbBits bs < 8" using at(1) by (auto simp: gf_reading_def)
    have "gf_same bs (shifted bs)" by (cases bs) (simp add: gf_same_def shifted_def)
    then show ?thesis using read_current(1) [OF at(1) n] step [OF at(1) n] at by auto
  qed
qed

lemma gf_at_read_bits:
  "gf_at bs data P \<Longrightarrow> P + n \<le> 8 * length data \<Longrightarrow>
     \<exists>v bs'. read_bits n ret bs = Inr (v, bs') \<and> gf_at bs' data (P + n) \<and> gf_same bs bs'"
proof (induction n arbitrary: ret bs P)
  case (Suc n)
  obtain b bs1 where bs1: "gf_bs_read_bit bs = Inr (b, bs1)" "gf_at bs1 data (P + 1)" "gf_same bs bs1"
    using gf_at_read_bit [OF Suc.prems(1)] Suc.prems(2) by auto
  then show ?case
    using Suc.IH [OF bs1(2), of "push_bit 1 ret OR ucast b"] Suc.prems(2) gf_same_trans [OF bs1(3)] by fastforce
qed simp

lemma whole_byte: "8 * a + b = 8 * c + 8 \<Longrightarrow> 0 < b \<Longrightarrow> b \<le> 8 \<Longrightarrow> a = c \<and> b = 8" for a b c :: nat
  by presburger

lemma gf_at_align:
  assumes "gf_at bs data P"
  shows "\<exists>r bs'. gf_bs_align bs = Inr (r, bs') \<and> gf_at bs' data (8 * unat (bs_position bs)) \<and> gf_same bs bs' \<and>
    bs_position bs' = bs_position bs \<and> bs_nbBits bs' = 8"
proof -
  define n where "n = unat (bs_nbBits bs)"
  have at: "gf_reading bs" "8 * unat (bs_position bs) + n = P + 8" "unat (bs_position bs) \<le> length data" "n \<le> 8"
      "bs_bsmode bs = BS_READ"
    using assms by (auto simp: gf_at_def gf_reading_def n_def word_le_nat_alt)
  have res: "unat (ucast (8 - bs_nbBits bs) :: byte) = 8 - n"
    using at(4) by (simp add: n_def unat_ucast_mod unat_sub word_le_nat_alt)
  have goal: "bs_position bs' = bs_position bs \<and> bs_nbBits bs' = 8" if "gf_at bs' data (8 * unat (bs_position bs))" for bs'
  proof -
    have "8 * unat (bs_position bs') + unat (bs_nbBits bs') = 8 * unat (bs_position bs) + 8"
        "0 < unat (bs_nbBits bs')" "unat (bs_nbBits bs') \<le> 8"
      using that by (auto simp: gf_at_def gf_reading_def word_less_nat_alt word_le_nat_alt)
    from whole_byte [OF this] show ?thesis
      by (simp only: word_unat_eq_iff [where ?'a = 64] word_unat_eq_iff [where ?'a = 32]) simp
  qed
  show ?thesis
  proof (cases "n = 8")
    case True
    then have "(ucast (8 - bs_nbBits bs) :: byte) = 0" using res by (simp add: unat_eq_zero)
    moreover have "gf_at bs data (8 * unat (bs_position bs))" using assms at True by simp
    ultimately show ?thesis using goal [of bs] at(5) by (simp add: gf_bs_align_def)
  next
    case False
    have u: "unat (ucast (ucast (8 - bs_nbBits bs) :: byte) :: u32) = 8 - n" by (simp only: unat_ucast_byte res)
    have P: "P + (8 - n) = 8 * unat (bs_position bs)" using at by simp
    obtain v bs' where bs': "read_bits (8 - n) (0 :: u32) bs = Inr (v, bs')" "gf_at bs' data (8 * unat (bs_position bs))"
        "gf_same bs bs'"
      using gf_at_read_bits [OF assms, of "8 - n" 0] at by (auto simp: P)
    moreover have "(ucast (8 - bs_nbBits bs) :: byte) \<noteq> 0" using res False at(4) by (auto simp: unat_eq_zero)
    ultimately show ?thesis
      using goal [OF bs'(2)] at(5) by (simp add: gf_bs_align_def gf_bs_read_int_def u word_gt_0 Let_def)
  qed
qed


text \<open>
  Going back \<open>k\<close> bits: the code finds the byte and the bits of it that are to be read again, in integers that wrap
  when \<open>k\<close> is less than the bits already taken from the current byte.
\<close>

lemma rewind_arithmetic:
  fixes n p k :: nat
  assumes "n \<le> 8" "0 < n" "k \<le> 8 * p - 8 + n" "0 < k" "0 < p" "p < 2 ^ 60"
  defines "b1 \<equiv> (of_nat k :: u64) - of_nat n"
  defines "B \<equiv> drop_bit 3 (b1 + 8)"
  shows "unat (B * 8 - b1) \<in> {1..8}"
    and "\<exists>q. of_nat p - (B + 1) = (of_nat q - 1 :: u64) \<and> q \<le> p \<and> 8 * q + unat (B * 8 - b1) = 8 * p + n - k"
proof -
  have up: "unat (of_nat k :: u64) = k" if "k < 2 ^ 64" for k using that by (simp add: unat_of_nat)
  have "unat (B * 8 - b1) \<in> {1..8} \<and>
    (\<exists>q. of_nat p - (B + 1) = (of_nat q - 1 :: u64) \<and> q \<le> p \<and> 8 * q + unat (B * 8 - b1) = 8 * p + n - k)"
  proof (cases "k < n")
    case True
    have e: "b1 + 8 = of_nat (8 + k - n)" using assms(1) by (simp add: b1_def of_nat_diff)
    have "unat (b1 + 8) = 8 + k - n" unfolding e by (rule up) (use assms(1) True in simp)
    then have "unat B = 0" using True by (simp add: B_def drop_bit_unat)
    then have B: "B = 0" by (simp add: unat_eq_zero)
    have "B * 8 - b1 = of_nat (n - k)" using True by (simp add: B b1_def of_nat_diff)
    then have "unat (B * 8 - b1) = n - k" using up [of "n - k"] assms(1) by simp
    then show ?thesis using True assms(1,3,5) B by (intro conjI exI [of _ p]) auto
  next
    case False
    define m where "m = k - n"
    define c where "c = (m + 8) div 8"
    have "b1 = of_nat m" using False by (simp add: b1_def m_def of_nat_diff)
    moreover have m: "m + 8 \<le> 8 * p" "m + 8 < 2 ^ 64" using assms(3,5,6) False by (simp_all add: m_def)
    ultimately have "unat (b1 + 8) = m + 8" using up [of "m + 8"] by (simp add: add.commute)
    then have "unat B = c" by (simp add: B_def drop_bit_unat c_def)
    then have B: "B = of_nat c" by (metis of_nat_unat ucast_id)
    have c: "m < 8 * c" "8 * c \<le> m + 8" "c \<le> p" using m by (auto simp: c_def)
    have "B * 8 - b1 = of_nat (8 * c - m)" using c by (simp add: B \<open>b1 = of_nat m\<close> of_nat_diff)
    then have u: "unat (B * 8 - b1) = 8 * c - m" using up [of "8 * c - m"] c m by simp
    have "of_nat p - (B + 1) = (of_nat (p - c) - 1 :: u64)" using c by (simp add: B of_nat_diff)
    moreover have "8 * (p - c) + (8 * c - m) = 8 * p + n - k" using c False by (simp add: m_def)
    ultimately show ?thesis using u c by (intro conjI exI [of _ "p - c"]) auto
  qed
  then show "unat (B * 8 - b1) \<in> {1..8}"
    "\<exists>q. of_nat p - (B + 1) = (of_nat q - 1 :: u64) \<and> q \<le> p \<and> 8 * q + unat (B * 8 - b1) = 8 * p + n - k"
    by blast+
qed


lemma gf_bs_read_int_at:
  assumes "gf_at bs data P" "P + unat n \<le> 8 * length data"
  shows "\<exists>v bs'. gf_bs_read_int n bs = Inr (v, bs') \<and> gf_at bs' data (P + unat n)"
  using gf_at_read_bits [OF assms, of 0] by (auto simp: gf_bs_read_int_def)

lemma gf_at_reading: "gf_at bs data P \<Longrightarrow> gf_reading bs"
  by (simp add: gf_at_def)

lemma gf_at_bits: "gf_at bs data P \<Longrightarrow> gf_bits bs i = (P + i < 8 * length data \<and> bits_of data ! (P + i))"
  by (auto simp: gf_bits_def gf_at_def less_diff_conv add.commute)

text \<open>Behind the end of the data there are only zeros.\<close>

lemma gf_bits_past:
  "gf_reading bs \<Longrightarrow> bs_size bs \<le> bs_position bs \<Longrightarrow> bs_nbBits bs = 8 \<Longrightarrow> gf_bits bs i = False"
  by (auto simp: gf_bits_def gf_rest_def gf_reading_def word_le_nat_alt)

lemma gf_bs_rewind_bits_at:
  assumes "gf_at bs data P" "0 < k" "k \<le> P" "length data < 2 ^ 60"
  shows "\<exists>bs'. gf_bs_rewind_bits (of_nat k) bs = Inr bs' \<and> gf_reading bs' \<and>
    gf_bits bs' = (\<lambda>i. k < P \<and> P - k + i < 8 * length data \<and> bits_of data ! (P - k + i))"
proof -
  define n where "n = unat (bs_nbBits bs)"
  define p where "p = unat (bs_position bs)"
  define b1 where "b1 = (of_nat k :: u64) - ucast (bs_nbBits bs)"
  define B where "B = drop_bit 3 (b1 + 8)"
  have at: "n \<le> 8" "0 < n" "8 * p + n = P + 8" "p \<le> length data" "bs_bsmode bs = BS_READ"
    using assms(1) by (auto simp: gf_at_def gf_reading_def n_def p_def word_le_nat_alt word_less_nat_alt)
  have p: "bs_position bs = of_nat p" "(ucast (bs_nbBits bs) :: u64) = of_nat n" "0 < p"
    using at assms(2,3) by (auto simp: p_def n_def)
  obtain q where q: "unat (B * 8 - b1) \<in> {1..8}" "of_nat p - (B + 1) = (of_nat q - 1 :: u64)" "q \<le> p"
      "8 * q + unat (B * 8 - b1) = 8 * p + n - k"
    using rewind_arithmetic [of n k p] at(1-4) p(2,3) assms(2-4) by (auto simp: B_def b1_def)
  obtain r bs1 where bs1: "gf_bs_align bs = Inr (r, bs1)" "gf_at bs1 data (8 * p)" "gf_same bs bs1"
      "bs_position bs1 = bs_position bs" "bs_nbBits bs1 = 8"
    using gf_at_align [OF assms(1)] by (auto simp: p_def)
  define bs2 where "bs2 = bs1\<lparr>bs_position := of_nat q - 1\<rparr>"
  have rewind: "gf_bs_rewind_bits (of_nat k) bs = bindR (gf_bs_read_int (ucast (B * 8 - b1)) bs2) (\<lambda>(_, bs). Inr bs)"
  proof -
    have "bs_position bs1 - (B + 1) = of_nat q - 1" using bs1(4) p(1) q(2) by simp
    then show ?thesis
      using at(5) bs1(1) unfolding gf_bs_rewind_bits_def Let_def bs2_def b1_def [symmetric] B_def [symmetric]
      by (simp only: bindR_Inr prod.case) simp
  qed
  have u: "unat (ucast (B * 8 - b1) :: u32) = unat (B * 8 - b1)" using q(1) by (simp add: unat_ucast_mod)
  have reading2: "gf_reading bs2" using bs1(2) by (auto simp: bs2_def gf_at_def gf_reading_def)
  obtain v bs' where bs': "gf_bs_read_int (ucast (B * 8 - b1)) bs2 = Inr (v, bs')" "gf_reading bs'"
      "gf_bits bs' = (\<lambda>i. gf_bits bs2 (i + unat (B * 8 - b1)))"
    using gf_bs_read_int_bits [OF reading2, of "ucast (B * 8 - b1)"] u by auto
  define r' where "r' = unat (B * 8 - b1)"
  have r': "0 < r'" "r' \<le> 8" "8 * q + r' = P + 8 - k" using q(1,4) at(3) by (simp_all add: r'_def)
  have "gf_bits bs' i = (k < P \<and> P - k + i < 8 * length data \<and> bits_of data ! (P - k + i))" for i
  proof (cases "q = 0")
    case True
    then have "bs_position bs2 = - 1" by (simp add: bs2_def)
    then have "\<not> gf_bits bs2 (i + r')"
      using gf_bits_past [OF reading2] bs1(5) by (auto simp: bs2_def)
    moreover have "k = P" using True r' assms(3) by simp
    ultimately show ?thesis using bs'(3) by (simp add: r'_def)
  next
    case False
    then have "bs2 = bs1\<lparr>bs_position := of_nat (q - 1), bs_nbBits := 8\<rparr>"
      using bs1(5) by (cases bs1) (simp add: bs2_def of_nat_diff)
    moreover have "unat (of_nat (q - 1) :: u64) = q - 1" using q(3) at(4) assms(4) by (simp add: unat_of_nat)
    ultimately have "gf_at bs2 data (8 * (q - 1))"
      using gf_at_aligned [OF bs1(2), of "of_nat (q - 1)"] q(3) at(4) by simp
    moreover have "8 * (q - 1) + (i + r') = P - k + i" "k < P" using False r' assms(3) by simp_all
    ultimately show ?thesis using bs'(3) by (simp add: gf_at_bits flip: r'_def)
  qed
  then show ?thesis using rewind bs'(1,2) by auto
qed




text \<open>Bits of the current byte are read without a fetch.\<close>

lemma read_within:
  "gf_reading bs \<Longrightarrow> unat (bs_nbBits bs) + k \<le> 8 \<Longrightarrow>
     \<exists>v c. read_bits k ret bs = Inr (v, bs\<lparr>bs_current := c, bs_nbBits := bs_nbBits bs + of_nat k\<rparr>)"
proof (induction k arbitrary: ret bs)
  case 0
  then show ?case by (intro exI [of _ ret] exI [of _ "bs_current bs"]) simp
next
  case (Suc k)
  have n: "bs_nbBits bs < 8" "unat (bs_nbBits bs + 1) = unat (bs_nbBits bs) + 1"
    using Suc.prems(2) by (auto simp: word_less_nat_alt unat_word_ariths)
  have "unat (bs_nbBits (shifted bs)) + k \<le> 8" using Suc.prems(2) n(2) by (simp add: shifted_def)
  from Suc.IH [OF read_current(2) [OF Suc.prems(1) n(1)] this] read_current(1) [OF Suc.prems(1) n(1)]
  show ?case by (auto simp: shifted_def ac_simps)
qed

lemma gf_bs_align_reading:
  assumes "gf_reading bs"
  shows "\<exists>r c. gf_bs_align bs = Inr (r, bs\<lparr>bs_current := c, bs_nbBits := 8\<rparr>)"
proof -
  define n where "n = unat (bs_nbBits bs)"
  have m: "bs_bsmode bs = BS_READ" "n \<le> 8" using assms by (auto simp: gf_reading_def n_def word_le_nat_alt)
  have res: "unat (ucast (8 - bs_nbBits bs) :: byte) = 8 - n"
    using m(2) by (simp add: n_def unat_ucast_mod unat_sub word_le_nat_alt)
  then have u: "unat (ucast (ucast (8 - bs_nbBits bs) :: byte) :: u32) = 8 - n" by (simp only: unat_ucast_byte)
  have s: "bs_nbBits bs + of_nat (8 - n) = 8" using m(2) by (simp add: n_def of_nat_diff)
  show ?thesis
  proof (cases "n = 8")
    case True
    then have "(ucast (8 - bs_nbBits bs) :: byte) = 0" using res by (simp add: unat_eq_zero)
    moreover have "bs = bs\<lparr>bs_current := bs_current bs, bs_nbBits := 8\<rparr>" using s True by (cases bs) simp
    ultimately have "gf_bs_align bs = Inr (0, bs\<lparr>bs_current := bs_current bs, bs_nbBits := 8\<rparr>)"
      using m(1) by (simp add: gf_bs_align_def)
    then show ?thesis by blast
  next
    case False
    then have z: "(ucast (8 - bs_nbBits bs) :: byte) \<noteq> 0" using res m(2) by (auto simp: unat_eq_zero)
    obtain v c where "read_bits (8 - n) (0 :: u32) bs = Inr (v, bs\<lparr>bs_current := c, bs_nbBits := 8\<rparr>)"
      using read_within [OF assms, of "8 - n" 0] m(2) unfolding s by (auto simp flip: n_def)
    then have "\<exists>r. gf_bs_align bs = Inr (r, bs\<lparr>bs_current := c, bs_nbBits := 8\<rparr>)"
      using m(1) z by (simp add: gf_bs_align_def gf_bs_read_int_def u word_gt_0 Let_def)
    then show ?thesis by blast
  qed
qed

text \<open>A seek inside the buffer; to its end it fails, and only aligns.\<close>

lemma gf_bs_seek_reading:
  assumes "gf_reading bs" "i \<le> bs_size bs" "bs_size bs \<le> 0xFFFFFFFF"
  shows "\<exists>e c. gf_bs_seek i bs = Inr (e, bs\<lparr>bs_current := c, bs_nbBits := 8,
    bs_position := (if i < bs_size bs then i else bs_position bs)\<rparr>)"
proof -
  obtain data where data: "bs_original bs = Some data" "unat (bs_size bs) \<le> length data" "bs_bsmode bs = BS_READ"
    using assms(1) by (auto simp: gf_reading_def)
  obtain r c where a: "gf_bs_align bs = Inr (r, bs\<lparr>bs_current := c, bs_nbBits := 8\<rparr>)"
    using gf_bs_align_reading [OF assms(1)] by blast
  show ?thesis
  proof (cases "i < bs_size bs")
    case True
    then have "unat i < length data" "\<not> 0xFFFFFFFF < i" "\<not> bs_size bs \<le> i"
      using data(2) assms(3) by (auto simp: word_less_nat_alt word_le_nat_alt)
    then have "BS_SeekIntern i (bs\<lparr>bs_current := c, bs_nbBits := 8\<rparr>) =
        Inr (GF_OK, bs\<lparr>bs_current := scast (data ! unat i), bs_nbBits := 8, bs_position := i\<rparr>)"
      using data by (simp add: BS_SeekIntern_def load_def)
    then show ?thesis using a assms(2) True by (auto simp: gf_bs_seek_def not_less)
  next
    case False
    then have "BS_SeekIntern i (bs\<lparr>bs_current := c, bs_nbBits := 8\<rparr>) = Inr (GF_BAD_PARAM, bs\<lparr>bs_current := c, bs_nbBits := 8\<rparr>)"
      using data assms(2,3) by (auto simp: BS_SeekIntern_def)
    moreover have "bs\<lparr>bs_current := c, bs_nbBits := 8\<rparr> = bs\<lparr>bs_current := c, bs_nbBits := 8, bs_position := bs_position bs\<rparr>"
      by (cases bs) simp
    ultimately show ?thesis using a assms(2) False by (auto simp: gf_bs_seek_def not_less)
  qed
qed

lemma gf_same_updates:
  "gf_same bs bs' \<Longrightarrow> gf_same bs (bs'\<lparr>bs_current := c, bs_nbBits := n, bs_position := p\<rparr>)"
  by (cases bs, cases bs') (simp add: gf_same_def)

lemma gf_same_restored:
  "gf_same bs bs' \<Longrightarrow> bs_position bs' = bs_position bs \<Longrightarrow>
     bs'\<lparr>bs_nbBits := bs_nbBits bs, bs_current := bs_current bs\<rparr> = bs\<lparr>bs_eos_calls := bs_eos_calls bs'\<rparr>"
  by (cases bs, cases bs') (simp add: gf_same_def)

text \<open>Where a peek starts, as a number of bits.\<close>

definition peek_start :: "gf_bit_stream \<Rightarrow> nat \<Rightarrow> nat \<Rightarrow> nat" where
  "peek_start bs P off =
     (if off = 0 then P
      else if unat (bs_position bs) + off < unat (bs_size bs) then 8 * (unat (bs_position bs) + off)
      else 8 * unat (bs_position bs))"

lemma gf_peek_at:
  assumes "gf_at bs data P" "length data \<le> 0xFFFFFFFF" "m \<noteq> 0" "unat (bs_position bs) + unat off \<le> length data"
  shows "\<exists>bs'. gf_bs_peek_bits m off bs =
      Inr (bits_value (take (unat m) (drop (peek_start bs P (unat off)) (bits_of data) @ replicate (unat m) False)), bs') \<and>
    bs' = bs\<lparr>bs_eos_calls := bs_eos_calls bs'\<rparr>"
proof -
  have at: "gf_reading bs" "bs_position bs \<le> bs_size bs" "bs_bsmode bs = BS_READ" "length data = unat (bs_size bs)"
    using assms(1) by (auto simp: gf_at_def gf_reading_def)
  have size: "bs_size bs \<le> 0xFFFFFFFF" using assms(2) at(4) by (simp add: word_le_nat_alt)
  have small: "unat (bs_position bs) + unat off < 2 ^ 64" using assms(2,4) by simp
  have uoff: "unat (ucast off :: u64) = unat off"
    by (simp add: unsigned_ucast_eq take_bit_nat_eq_self_iff less_trans [OF unat_less_power])
  then have sum: "unat (bs_position bs + ucast off) = unat (bs_position bs) + unat off"
    using small by (simp add: unat_word_ariths)
  have le: "bs_position bs + ucast off \<le> bs_size bs" using sum assms(4) at(4) by (simp add: word_le_nat_alt)
  have "\<exists>bs1. (if off \<noteq> 0 then bindR (gf_bs_seek (bs_position bs + ucast off) bs) (\<lambda>(_, bs). Inr bs) else Inr bs) = Inr bs1 \<and>
      gf_at bs1 data (peek_start bs P (unat off)) \<and> gf_same bs bs1 \<and> bs_position bs \<le> bs_position bs1"
  proof (cases "off = 0")
    case True
    then show ?thesis using assms(1) by (simp add: peek_start_def)
  next
    case False
    let ?i = "if bs_position bs + ucast off < bs_size bs then bs_position bs + ucast off else bs_position bs"
    obtain e c where seek: "gf_bs_seek (bs_position bs + ucast off) bs =
        Inr (e, bs\<lparr>bs_current := c, bs_nbBits := 8, bs_position := ?i\<rparr>)"
      using gf_bs_seek_reading [OF at(1) le size] by blast
    have i: "unat ?i \<le> length data" "bs_position bs \<le> ?i" using sum at by (auto simp: word_le_nat_alt word_less_nat_alt)
    have "gf_at (bs\<lparr>bs_current := c, bs_nbBits := 8, bs_position := ?i\<rparr>) data (8 * unat ?i)"
      using assms(1) i(1) by (auto simp: gf_at_def gf_reading_def gf_rest_def drop_bits_of word_le_nat_alt)
    moreover have "8 * unat ?i = peek_start bs P (unat off)"
      using False sum by (auto simp: peek_start_def word_less_nat_alt unat_eq_zero)
    moreover have "gf_same bs (bs\<lparr>bs_current := c, bs_nbBits := 8, bs_position := ?i\<rparr>)"
      by (rule gf_same_updates) simp
    ultimately show ?thesis using seek False i(2) by auto
  qed
  then obtain bs1 where bs1: "(if off \<noteq> 0 then bindR (gf_bs_seek (bs_position bs + ucast off) bs) (\<lambda>(_, bs). Inr bs) else Inr bs) = Inr bs1"
      "gf_at bs1 data (peek_start bs P (unat off))" "gf_same bs bs1" "bs_position bs \<le> bs_position bs1" by blast
  have at1: "gf_reading bs1" "bs_position bs1 \<le> bs_size bs1" using bs1(2) by (simp_all add: gf_at_def)
  let ?v = "bits_value (map (gf_bits bs1) [0..<unat m]) :: u32"
  obtain bs2 where r: "gf_bs_read_int m bs1 = Inr (?v, bs2)" using gf_bs_read_int_bits [OF at1(1)] by blast
  have fwd: "gf_moved bs1 bs2"
    using read_bits_moved [OF at1, of "unat m" "0 :: u32"] r by (auto simp: gf_bs_read_int_def)
  then have at2: "gf_reading bs2" "gf_same bs bs2" "bs_position bs \<le> bs_position bs2" "bs_position bs2 \<le> bs_size bs"
    using gf_same_trans [OF bs1(3)] bs1(4) gf_same_fields(1) [OF bs1(3)] by (auto simp: gf_moved_def)
  have size2: "bs_size bs2 = bs_size bs" by (rule gf_same_fields(1) [OF at2(2)])
  have there: "(if bs_position bs < bs_size bs then bs_position bs else bs_position bs2) = bs_position bs"
    using at(2) at2(3,4) by auto
  obtain e c where seek: "gf_bs_seek (bs_position bs) bs2 =
      Inr (e, bs2\<lparr>bs_current := c, bs_nbBits := 8, bs_position := bs_position bs\<rparr>)"
    using gf_bs_seek_reading [OF at2(1), of "bs_position bs"] at(2) size by (auto simp: size2 there)
  have v: "map (gf_bits bs1) [0..<unat m] =
      take (unat m) (drop (peek_start bs P (unat off)) (bits_of data) @ replicate (unat m) False)"
    by (rule nth_equalityI) (auto simp: gf_at_bits [OF bs1(2)] nth_append)
  have restored: "bs2\<lparr>bs_current := c, bs_nbBits := 8, bs_position := bs_position bs\<rparr>
      \<lparr>bs_nbBits := bs_nbBits bs, bs_current := bs_current bs\<rparr> = bs\<lparr>bs_eos_calls := bs_eos_calls bs2\<rparr>"
    using gf_same_restored [OF gf_same_updates [OF at2(2), of "bs_position bs" c 8]] by simp
  have "gf_bs_peek_bits m off bs = Inr (?v, bs\<lparr>bs_eos_calls := bs_eos_calls bs2\<rparr>)"
    using at(3) assms(3) le r seek restored bs1(1)
    by (simp add: gf_bs_peek_bits_def Let_def not_less)
  then show ?thesis by (simp add: v)
qed


lemma whole_bytes_before:
  fixes p n P :: nat
  assumes "8 * p + n = P + 8" "0 < n" "n \<le> 8"
  shows "p = (P + 7) div 8"
proof -
  have "P + 7 = (n - 1) + 8 * p" "n - 1 < 8" using assms by linarith+
  then show ?thesis by simp
qed

lemma gf_at_position:
  assumes "gf_at bs data P"
  shows "unat (bs_position bs) = (P + 7) div 8"
proof (rule whole_bytes_before)
  have at: "8 * unat (bs_position bs) + unat (bs_nbBits bs) = P + 8" "0 < bs_nbBits bs" "bs_nbBits bs \<le> 8"
    using assms unfolding gf_at_def gf_reading_def by blast+
  show "8 * unat (bs_position bs) + unat (bs_nbBits bs) = P + 8" by (rule at)
  show "0 < unat (bs_nbBits bs)" "unat (bs_nbBits bs) \<le> 8"
    using at(2,3) unfolding word_less_nat_alt word_le_nat_alt by simp_all
qed

section \<open>Properties\<close>

text \<open>
  Going back: after \<open>n\<close> bits have been read from a buffer, \<open>gf_bs_rewind_bits\<close> by \<open>k\<close> bits makes the
  stream deliver again the bits from \<open>n - k\<close> on. Going back to the very first bit, however, makes the position wrap,
  and from then on the stream delivers only zeros.
\<close>

theorem gf_rewind_rereads:
  assumes "gf_bs_new junk (Some data) (of_nat (length data)) BS_READ = Some bs" "length data < 2 ^ 60"
    "unat n \<le> 8 * length data" "0 < k" "k \<le> unat n"
  shows "\<exists>v bs1 bs2 bs3. gf_bs_read_int n bs = Inr (v, bs1) \<and> gf_bs_rewind_bits (of_nat k) bs1 = Inr bs2 \<and>
    gf_bs_read_int m bs2 = Inr (bits_value (take (unat m)
      ((if k < unat n then drop (unat n - k) (bits_of data) else []) @ replicate (unat m) False)), bs3)"
proof -
  have "unat (of_nat (length data) :: u64) = length data" using assms(2) by (simp add: unat_of_nat)
  from gf_at_new [OF assms(1) this] obtain v bs1 where
    bs1: "gf_bs_read_int n bs = Inr (v, bs1)" "gf_at bs1 data (unat n)"
    using gf_bs_read_int_at [of bs data 0 n] assms(3) by auto
  obtain bs2 where bs2: "gf_bs_rewind_bits (of_nat k) bs1 = Inr bs2" "gf_reading bs2"
      "gf_bits bs2 = (\<lambda>i. k < unat n \<and> unat n - k + i < 8 * length data \<and> bits_of data ! (unat n - k + i))"
    using gf_bs_rewind_bits_at [OF bs1(2) assms(4,5,2)] by auto
  have "map (gf_bits bs2) [0..<unat m] = take (unat m)
      ((if k < unat n then drop (unat n - k) (bits_of data) else []) @ replicate (unat m) False)"
    by (rule nth_equalityI) (auto simp: bs2(3) nth_append)
  then show ?thesis using bs1(1) bs2(1) gf_bs_read_int_bits [OF bs2(2), of m] by auto
qed

theorem gf_rewind_rereads_witness:
  "(\<exists>bs v bs1 bs2 bs3. gf_bs_new (\<lambda>_. 0) (Some [0xA5, 0x3C]) 2 BS_READ = Some bs \<and>
     gf_bs_read_int 12 bs = Inr (v, bs1) \<and> gf_bs_rewind_bits 9 bs1 = Inr bs2 \<and> gf_bs_read_int 8 bs2 = Inr (0x29, bs3)) \<and>
   (\<exists>bs v bs1 bs2 bs3. gf_bs_new (\<lambda>_. 0) (Some [0xA5, 0x3C]) 2 BS_READ = Some bs \<and>
     gf_bs_read_int 12 bs = Inr (v, bs1) \<and> gf_bs_rewind_bits 12 bs1 = Inr bs2 \<and> gf_bs_read_int 8 bs2 = Inr (0, bs3))"
proof -
  obtain bs where bs: "gf_bs_new (\<lambda>_. 0) (Some [0xA5, 0x3C]) (of_nat (length [0xA5, 0x3C :: byte])) BS_READ = Some bs"
    by (auto simp: gf_bs_new_def)
  have "drop 3 (bits_of [0xA5, 0x3C]) = [False, False, True, False, True, False, False, True, True, True, True, False, False]"
    by (simp add: byte_bits_def upt_rec)
  then show ?thesis
    using gf_rewind_rereads [OF bs, of 12 9 8] gf_rewind_rereads [OF bs, of 12 12 8] bs byte_bits_0 [symmetric]
    by (auto simp: push_bits_def byte_bits_def upt_rec)
qed


end
