(* ===== verification/Io_Stream.thy ===== *)
theory Io_Stream
  imports Simulation
begin

text \<open>
  The data streams of \<open>core/datastream.cpp\<close> over memory: \<^verbatim>\<open>IOStream\<close>, which writes and reads typed values through two
  virtual functions, \<^verbatim>\<open>MemIOStream\<close>, \<^verbatim>\<open>QueueIOStream\<close> and \<^verbatim>\<open>ReversedMemIOStream\<close>. An \<^verbatim>\<open>int64_t\<close> is an integer;
  a sum that does not fit is a fault. Memory that is allocated holds unknown bytes, the field \<open>io_junk\<close>; that there
  is memory is assumed. A release build is modelled, in which assertions do nothing.
\<close>

unbundle bit_operations_syntax

section \<open>Typed values\<close>

datatype byte_order = BigEndian | LittleEndian

record io_stream =
  sys_byte_order :: byte_order
  io_byte_order :: byte_order
  read_ok :: bool
  write_ok :: bool

definition sum64 :: "int \<Rightarrow> int \<Rightarrow> int res" where
  "sum64 a b = (if - (2 ^ 63) \<le> a + b \<and> a + b < 2 ^ 63 then Inr (a + b) else Inl Int_Overflow)"

text \<open>The loop of \<open>swapOrder\<close>, which exchanges \<open>pointer[i]\<close> and \<open>pointer[count - i - 1]\<close>.\<close>

fun swap_loop :: "nat list \<Rightarrow> nat \<Rightarrow> nat \<Rightarrow> byte list \<Rightarrow> byte list res" where
  "swap_loop [] offset count buffer = Inr buffer"
| "swap_loop (i # is) offset count buffer =
     (let p = offset + i; n = offset + (count - i - 1) in
      if p < length buffer \<and> n < length buffer
      then swap_loop is offset count (buffer[p := buffer ! n, n := buffer ! p])
      else Inl Over_Read)"

definition swapOrder :: "byte list \<Rightarrow> int \<Rightarrow> int \<Rightarrow> (bool \<times> byte list) res" where
  "swapOrder buffer offset count =
     (if count \<le> 1 then Inr (True, buffer)
      else if offset < 0 \<or> count \<le> offset then Inr (False, buffer)
      else bindR (swap_loop [0..<nat count div 2] (nat offset) (nat count) buffer) (\<lambda>b. Inr (True, b)))"

definition other_order :: "'a io_stream_scheme \<Rightarrow> bool" where
  "other_order s = (io_byte_order s = BigEndian \<and> sys_byte_order s = LittleEndian \<or>
     io_byte_order s = LittleEndian \<and> sys_byte_order s = BigEndian)"

text \<open>The memory of an integer on a machine, and the integer in a memory.\<close>

definition little_endian :: "nat \<Rightarrow> 'a::len word \<Rightarrow> byte list" where
  "little_endian n v = map (\<lambda>i. ucast (drop_bit (8 * i) v)) [0..<n]"

definition memory_of :: "byte_order \<Rightarrow> nat \<Rightarrow> 'a::len word \<Rightarrow> byte list" where
  "memory_of sys n v = (if sys = LittleEndian then little_endian n v else rev (little_endian n v))"

definition little_endian_value :: "byte list \<Rightarrow> 'a::len word" where
  "little_endian_value bs = foldr (\<lambda>b v. push_bit 8 v OR ucast b) bs 0"

definition value_of :: "byte_order \<Rightarrow> byte list \<Rightarrow> 'a::len word" where
  "value_of sys bs = little_endian_value (if sys = LittleEndian then bs else rev bs)"

text \<open>
  The virtual functions: \<open>rd n\<close> is \<open>read(buffer, n)\<close> and gives the bytes it has stored, \<open>wr bs\<close> is
  \<open>write(bs, length bs)\<close>. \<open>io_read\<close> works on the memory that the variable had before.
\<close>

type_synonym 's io_reader = "int \<Rightarrow> 's \<Rightarrow> (int \<times> byte list \<times> 's) res"
type_synonym 's io_writer = "byte list \<Rightarrow> 's \<Rightarrow> (int \<times> 's) res"

definition io_read ::
    "'a io_stream_scheme io_reader \<Rightarrow> byte list \<Rightarrow> 'a io_stream_scheme \<Rightarrow> (byte list \<times> 'a io_stream_scheme) res" where
  "io_read rd v s = bindR (rd (int (length v)) s) (\<lambda>(_, got, s).
     let v1 = got @ drop (length got) v in
     if read_ok s \<and> other_order s then bindR (swapOrder v1 0 (int (length v1))) (\<lambda>(_, v2). Inr (v2, s))
     else Inr (v1, s))"

definition io_write ::
    "'a io_stream_scheme io_writer \<Rightarrow> byte list \<Rightarrow> 'a io_stream_scheme \<Rightarrow> 'a io_stream_scheme res" where
  "io_write wr v s = bindR (if other_order s then swapOrder v 0 (int (length v)) else Inr (True, v)) (\<lambda>(_, v).
     bindR (wr v s) (\<lambda>(_, s). Inr s))"

text \<open>
  The operators on integers and floating point numbers of \<open>n\<close> bytes; a floating point number is the word of its bits.
  A variable keeps its value, or a part of it, when the read fails.
\<close>

definition read_value ::
    "'a io_stream_scheme io_reader \<Rightarrow> nat \<Rightarrow> 'b::len word \<Rightarrow> 'a io_stream_scheme \<Rightarrow> ('b word \<times> 'a io_stream_scheme) res" where
  "read_value rd n v s = bindR (io_read rd (memory_of (sys_byte_order s) n v) s) (\<lambda>(m, s).
     Inr (value_of (sys_byte_order s) m, s))"

definition write_value ::
    "'a io_stream_scheme io_writer \<Rightarrow> nat \<Rightarrow> 'b::len word \<Rightarrow> 'a io_stream_scheme \<Rightarrow> 'a io_stream_scheme res" where
  "write_value wr n v s = io_write wr (memory_of (sys_byte_order s) n v) s"

definition read_bool :: "'a io_stream_scheme io_reader \<Rightarrow> 'a io_stream_scheme \<Rightarrow> (bool \<times> 'a io_stream_scheme) res" where
  "read_bool rd s = bindR (read_value rd 1 (0 :: byte) s) (\<lambda>(tempC, s). Inr (tempC \<noteq> 0, s))"

definition write_bool :: "'a io_stream_scheme io_writer \<Rightarrow> bool \<Rightarrow> 'a io_stream_scheme \<Rightarrow> 'a io_stream_scheme res" where
  "write_bool wr v s = write_value wr 1 (if v then 0xFF else 0 :: byte) s"

text \<open>A string with its size before it. The bytes that a partial read leaves in the buffer are dropped.\<close>

definition read_string ::
    "'a io_stream_scheme io_reader \<Rightarrow> byte list \<Rightarrow> 'a io_stream_scheme \<Rightarrow> (byte list \<times> 'a io_stream_scheme) res" where
  "read_string rd v s = bindR (read_value rd 4 (0 :: u32) s) (\<lambda>(sSize, s).
     bindR (rd (uint sSize) s) (\<lambda>(_, got, s). Inr (if read_ok s then got else v, s)))"

definition write_string :: "'a io_stream_scheme io_writer \<Rightarrow> byte list \<Rightarrow> 'a io_stream_scheme \<Rightarrow> 'a io_stream_scheme res" where
  "write_string wr v s = (let sSize = of_nat (length v) :: u32 in
     bindR (write_value wr 4 sSize s) (\<lambda>s. bindR (wr (take (unat sSize) v) s) (\<lambda>(_, s). Inr s)))"

text \<open>Some bytes of an integer: the lowest first, but the reader of 64 bits takes the highest first.\<close>

fun writeBytes ::
    "'a io_stream_scheme io_writer \<Rightarrow> nat \<Rightarrow> 'b::len word \<Rightarrow> 'a io_stream_scheme \<Rightarrow> 'a io_stream_scheme res" where
  "writeBytes wr 0 v s = Inr s"
| "writeBytes wr (Suc n) v s =
     bindR (write_value wr 1 (ucast (v AND 0xFF) :: byte) s) (writeBytes wr n (drop_bit 8 v))"

fun readBytes64_loop ::
    "'a io_stream_scheme io_reader \<Rightarrow> nat \<Rightarrow> byte \<Rightarrow> u64 \<Rightarrow> 'a io_stream_scheme \<Rightarrow> (u64 \<times> 'a io_stream_scheme) res" where
  "readBytes64_loop rd 0 v8 v s = Inr (v, s)"
| "readBytes64_loop rd (Suc n) v8 v s = bindR (read_value rd 1 v8 s) (\<lambda>(v8, s).
     readBytes64_loop rd n v8 (push_bit 8 v OR ucast v8) s)"

definition readBytes64 :: "'a io_stream_scheme io_reader \<Rightarrow> nat \<Rightarrow> 'a io_stream_scheme \<Rightarrow> (u64 \<times> 'a io_stream_scheme) res" where
  "readBytes64 rd n s = readBytes64_loop rd n 0 0 s"

fun readBytes32_loop ::
    "'a io_stream_scheme io_reader \<Rightarrow> nat list \<Rightarrow> byte \<Rightarrow> u32 \<Rightarrow> 'a io_stream_scheme \<Rightarrow> (u32 \<times> 'a io_stream_scheme) res" where
  "readBytes32_loop rd [] v8 v s = Inr (v, s)"
| "readBytes32_loop rd (i # is) v8 v s = bindR (read_value rd 1 v8 s) (\<lambda>(v8, s).
     if 32 \<le> 8 * i then Inl Bad_Shift
     else readBytes32_loop rd is v8 (v OR push_bit (8 * i) (ucast v8)) s)"

definition readBytes32 :: "'a io_stream_scheme io_reader \<Rightarrow> nat \<Rightarrow> 'a io_stream_scheme \<Rightarrow> (u32 \<times> 'a io_stream_scheme) res" where
  "readBytes32 rd n s = readBytes32_loop rd [0..<n] 0 0 s"

text \<open>Integers of 24 bits: the highest byte, then the others as 16 bits. Both readers take the byte as unsigned.\<close>

definition readUInt24 :: "'a io_stream_scheme io_reader \<Rightarrow> 'a io_stream_scheme \<Rightarrow> (32 word \<times> 'a io_stream_scheme) res" where
  "readUInt24 rd s = bindR (read_value rd 1 (0 :: byte) s) (\<lambda>(v8, s).
     bindR (read_value rd 2 (0 :: u16) s) (\<lambda>(v16, s). Inr (push_bit 16 (ucast v8) OR ucast v16, s)))"

definition writeUInt24 :: "'a io_stream_scheme io_writer \<Rightarrow> 32 word \<Rightarrow> 'a io_stream_scheme \<Rightarrow> 'a io_stream_scheme res" where
  "writeUInt24 wr v s = bindR (write_value wr 1 (ucast (signed_drop_bit 16 v) :: byte) s)
     (write_value wr 2 (ucast (v AND 0xFFFF) :: u16))"

definition readInt24 :: "'a io_stream_scheme io_reader \<Rightarrow> 'a io_stream_scheme \<Rightarrow> (32 word \<times> 'a io_stream_scheme) res" where
  "readInt24 rd s = bindR (read_value rd 1 (0 :: byte) s) (\<lambda>(v8, s).
     bindR (read_value rd 2 (0 :: u16) s) (\<lambda>(v16, s). Inr (push_bit 16 (ucast v8) OR ucast v16, s)))"

definition writeInt24 :: "'a io_stream_scheme io_writer \<Rightarrow> 32 word \<Rightarrow> 'a io_stream_scheme \<Rightarrow> 'a io_stream_scheme res" where
  "writeInt24 wr v s = bindR (write_value wr 1 (ucast (signed_drop_bit 16 v) :: byte) s)
     (write_value wr 2 (ucast (v AND 0xFFFF) :: u16))"

text \<open>
  \<open>write(stream, size)\<close>, from another stream with the virtual functions \<open>data\<close>, \<open>size\<close>, \<open>pos\<close> and \<open>read\<close>. From one
  with data it copies without moving that stream, from another one in pieces of 64 KiB.
\<close>

function copy_loop ::
    "'a io_stream_scheme io_writer \<Rightarrow> 's io_reader \<Rightarrow> int \<Rightarrow> 'a io_stream_scheme \<Rightarrow> 's \<Rightarrow>
     (int \<times> 'a io_stream_scheme \<times> 's) res" where
  "copy_loop wr rd dataLeft s t =
     bindR (rd (if 65536 < dataLeft then 65536 else dataLeft) t) (\<lambda>(readSize, got, t).
       if 0 < readSize then
         bindR (wr got s) (\<lambda>(writeSize, s).
           if 0 < dataLeft - readSize \<and> readSize = writeSize then copy_loop wr rd (dataLeft - readSize) s t
           else Inr (dataLeft - readSize, s, t))
       else Inr (dataLeft - readSize, s, t))"
  by pat_completeness auto
termination by (relation "measure (\<lambda>(_, _, dataLeft, _). nat dataLeft)") auto

declare copy_loop.simps [simp del]

definition write_stream ::
    "'a io_stream_scheme io_writer \<Rightarrow> ('s \<Rightarrow> byte list option) \<Rightarrow> ('s \<Rightarrow> int) \<Rightarrow> ('s \<Rightarrow> int) \<Rightarrow> 's io_reader \<Rightarrow> int \<Rightarrow>
     'a io_stream_scheme \<Rightarrow> 's \<Rightarrow> (int \<times> 'a io_stream_scheme \<times> 's) res" where
  "write_stream wr data_of size_of pos_of rd n s t =
     (if n \<le> 0 then Inr (0, s, t)
      else (case data_of t of
        Some dataBegin \<Rightarrow>
          let copySize = min n (size_of t - pos_of t) in
          if copySize \<le> 0 then bindR (wr [] s) (\<lambda>(k, s). Inr (k, s, t))
          else if pos_of t < 0 then Inl Over_Read
          else bindR (read_bytes dataBegin (nat (pos_of t)) (nat copySize)) (\<lambda>xs. bindR (wr xs s) (\<lambda>(k, s). Inr (k, s, t)))
      | None \<Rightarrow> bindR (copy_loop wr rd n s t) (\<lambda>(dataLeft, s, t). Inr (n - dataLeft, s, t))))"

definition remainSize :: "int \<Rightarrow> int \<Rightarrow> int" where
  "remainSize nPos nSize = (if nPos < 0 \<or> nSize < 0 then 0 else nSize - nPos)"

section \<open>Memory streams\<close>

record mem_stream = io_stream +
  io_buffer :: "byte list option"
  io_pos :: int
  io_size :: int
  io_alloc :: bool
  io_max_size :: int
  io_left_end :: int
  io_junk :: "nat \<Rightarrow> byte"

text \<open>
  \<open>io_left_end\<close> is the field of \<^verbatim>\<open>ReversedMemIOStream\<close>. An object before its construction is an argument of the
  constructors, as not all of them set it.
\<close>

definition new_stream :: "byte_order \<Rightarrow> byte_order \<Rightarrow> mem_stream \<Rightarrow> mem_stream" where
  "new_stream sys order s = s\<lparr>sys_byte_order := sys, io_byte_order := order, read_ok := False, write_ok := False,
     io_buffer := None, io_size := 0, io_max_size := 0, io_pos := 0, io_alloc := False\<rparr>"

definition allocBufer :: "(nat \<Rightarrow> byte) \<Rightarrow> int \<Rightarrow> byte list option" where
  "allocBufer junk n = (if n \<le> 0 then None else Some (map junk [0..<nat n]))"

definition reallocBuffer :: "(nat \<Rightarrow> byte) \<Rightarrow> byte list option \<Rightarrow> int \<Rightarrow> byte list option" where
  "reallocBuffer junk buffer n =
     (if buffer = None \<or> n \<le> 0 then None
      else Some (take (nat n) (the buffer) @ map junk [length (the buffer)..<nat n]))"

definition freeBuffer :: "mem_stream \<Rightarrow> mem_stream" where
  "freeBuffer s = s\<lparr>io_buffer := None, io_size := 0, io_max_size := 0, io_pos := 0, io_alloc := False\<rparr>"

definition allocSize :: "int \<Rightarrow> mem_stream \<Rightarrow> mem_stream" where
  "allocSize n s = (case allocBufer (io_junk s) n of
     Some b \<Rightarrow> s\<lparr>io_buffer := Some b, io_size := n, io_max_size := n, io_pos := 0, io_alloc := True\<rparr>
   | None \<Rightarrow> s\<lparr>io_buffer := None, io_size := 0, io_max_size := 0, io_pos := 0, io_alloc := False\<rparr>)"

text \<open>The memory grows by more than is needed, to a multiple of 256 or of 1024 bytes.\<close>

definition grown_size :: "int \<Rightarrow> int res" where
  "grown_size n = bindR (sum64 n 256) (\<lambda>m. bindR (sum64 m (drop_bit 3 m)) (\<lambda>m.
     if m < 4096 then bindR (sum64 m 255) (\<lambda>m. Inr (m AND NOT 255))
     else bindR (sum64 m 4095) (\<lambda>m. Inr (m AND NOT 1023))))"

definition reallocSize :: "int \<Rightarrow> mem_stream \<Rightarrow> mem_stream res" where
  "reallocSize n s =
     (if io_buffer s = None then Inr (allocSize n s)
      else if \<not> io_alloc s then Inr s
      else if n \<le> io_max_size s then Inr (if io_size s < n then s\<lparr>io_size := n\<rparr> else s)
      else bindR (grown_size n) (\<lambda>maxSize.
        (case reallocBuffer (io_junk s) (io_buffer s) maxSize of
           None \<Rightarrow> Inr (s\<lparr>io_buffer := None, io_size := 0, io_max_size := 0, io_pos := 0, io_alloc := False\<rparr>)
         | Some b \<Rightarrow> Inr (s\<lparr>io_buffer := Some b, io_size := n, io_max_size := maxSize\<rparr>))))"

text \<open>
  Memory of a caller is seen through the stream; it is \<open>n\<close> bytes long when the caller says so rightly.
\<close>

definition setBuffer :: "byte list option \<Rightarrow> int \<Rightarrow> mem_stream \<Rightarrow> mem_stream" where
  "setBuffer buffer n s = (freeBuffer s)\<lparr>io_buffer := buffer, io_size := n, io_max_size := n, io_alloc := False\<rparr>"

definition new_stream_over :: "byte_order \<Rightarrow> byte_order \<Rightarrow> byte list option \<Rightarrow> int \<Rightarrow> mem_stream \<Rightarrow> mem_stream" where
  "new_stream_over sys order buffer n s = setBuffer buffer n (new_stream sys order s)"

definition new_stream_of_size :: "byte_order \<Rightarrow> byte_order \<Rightarrow> int \<Rightarrow> mem_stream \<Rightarrow> mem_stream" where
  "new_stream_of_size sys order n s = allocSize n (new_stream sys order s)"

text \<open>
  The copy of another stream's memory: \<open>max_size\<close> bytes, of which \<open>size\<close> are copied. The byte order is not copied;
  the copy constructor sets the default one, the assignment leaves it alone.
\<close>

definition copy_memory :: "int \<Rightarrow> int \<Rightarrow> byte list option \<Rightarrow> mem_stream \<Rightarrow> mem_stream res" where
  "copy_memory n cap buffer s =
     (case buffer of
        None \<Rightarrow> Inr s
      | Some src \<Rightarrow>
          (case allocBufer (io_junk s) cap of
             None \<Rightarrow> Inr s
           | Some b \<Rightarrow> if n < 0 then Inl Over_Read
               else bindR (read_bytes src 0 (nat n)) (\<lambda>xs.
                 if length b < length xs then Inl Over_Write
                 else Inr (s\<lparr>io_buffer := Some (xs @ drop (length xs) b), io_alloc := True\<rparr>))))"

definition assign_stream :: "mem_stream \<Rightarrow> mem_stream \<Rightarrow> mem_stream res" where
  "assign_stream t s = copy_memory (io_size t) (io_max_size t) (io_buffer t)
     ((freeBuffer s)\<lparr>io_size := io_size t, io_pos := io_pos t, io_max_size := io_max_size t\<rparr>)"

definition copy_stream :: "byte_order \<Rightarrow> mem_stream \<Rightarrow> mem_stream \<Rightarrow> mem_stream res" where
  "copy_stream sys t s = copy_memory (io_size t) (io_max_size t) (io_buffer t)
     ((new_stream sys LittleEndian s)\<lparr>io_size := io_size t, io_pos := io_pos t, io_max_size := io_max_size t\<rparr>)"

definition reserve :: "int \<Rightarrow> mem_stream \<Rightarrow> mem_stream res" where
  "reserve n s = bindR (reallocSize n s) (\<lambda>s'. Inr (s'\<lparr>io_size := io_size s\<rparr>))"

definition resize :: "int \<Rightarrow> mem_stream \<Rightarrow> mem_stream res" where
  "resize n s = reallocSize n s"

definition reset :: "mem_stream \<Rightarrow> mem_stream" where
  "reset s = s\<lparr>io_size := 0, io_pos := 0\<rparr>"

text \<open>Bytes of a buffer at a position, which may be anything.\<close>

definition buffer_read :: "byte list \<Rightarrow> int \<Rightarrow> int \<Rightarrow> byte list res" where
  "buffer_read b i n = (if i < 0 \<or> n < 0 then Inl Over_Read else read_bytes b (nat i) (nat n))"

definition buffer_write :: "byte list \<Rightarrow> int \<Rightarrow> byte list \<Rightarrow> byte list res" where
  "buffer_write b i xs =
     (if i < 0 \<or> length b < nat i + length xs then Inl Over_Write
      else Inr (take (nat i) b @ xs @ drop (nat i + length xs) b))"

text \<open>The destination of a read is a buffer that is large enough, or \<^verbatim>\<open>nullptr\<close>.\<close>

definition mem_read_to :: "bool \<Rightarrow> int \<Rightarrow> mem_stream \<Rightarrow> (int \<times> byte list \<times> mem_stream) res" where
  "mem_read_to null n s =
     (if n \<le> 0 then Inr (0, [], s\<lparr>read_ok := True\<rparr>)
      else (case io_buffer s of
        None \<Rightarrow> Inr (-1, [], s\<lparr>read_ok := False\<rparr>)
      | Some b \<Rightarrow>
          if io_size s \<le> 0 \<or> null \<or> io_size s \<le> io_pos s then Inr (-1, [], s\<lparr>read_ok := False\<rparr>)
          else let readLen = (if io_size s - io_pos s < n then io_size s - io_pos s else n) in
            bindR (buffer_read b (io_pos s) readLen) (\<lambda>xs.
              Inr (readLen, xs, s\<lparr>io_pos := io_pos s + readLen, read_ok := n = readLen\<rparr>))))"

definition mem_read :: "mem_stream io_reader" where
  "mem_read n s = mem_read_to False n s"

text \<open>Of the source, \<^verbatim>\<open>nullptr\<close> or some memory, \<open>n\<close> bytes are written.\<close>

definition mem_write_from :: "byte list option \<Rightarrow> int \<Rightarrow> mem_stream \<Rightarrow> (int \<times> mem_stream) res" where
  "mem_write_from buffer n s =
     (if n \<le> 0 then Inr (0, s\<lparr>write_ok := True\<rparr>)
      else (case buffer of
        None \<Rightarrow> Inr (-1, s\<lparr>write_ok := False\<rparr>)
      | Some src \<Rightarrow>
          bindR (sum64 n (io_pos s)) (\<lambda>to. bindR (reallocSize to s) (\<lambda>s.
          bindR (sum64 n (io_pos s)) (\<lambda>to.
            (case io_buffer s of
               None \<Rightarrow> Inr (-1, s\<lparr>write_ok := False\<rparr>)
             | Some b \<Rightarrow>
                 if io_size s < to then Inr (-1, s\<lparr>write_ok := False\<rparr>)
                 else bindR (read_bytes src 0 (nat n)) (\<lambda>xs. bindR (buffer_write b (io_pos s) xs) (\<lambda>b.
                   Inr (n, s\<lparr>io_buffer := Some b, io_pos := to, write_ok := True\<rparr>)))))))))"

definition mem_write :: "mem_stream io_writer" where
  "mem_write bs s = mem_write_from (Some bs) (int (length bs)) s"

definition seek :: "int \<Rightarrow> mem_stream \<Rightarrow> bool \<times> mem_stream" where
  "seek pos s = (if pos < 0 \<or> io_size s < pos then (False, s) else (True, s\<lparr>io_pos := pos\<rparr>))"

definition seekToBegin :: "mem_stream \<Rightarrow> bool \<times> mem_stream" where
  "seekToBegin s = (True, s\<lparr>io_pos := 0\<rparr>)"

definition seekToEnd :: "mem_stream \<Rightarrow> bool \<times> mem_stream" where
  "seekToEnd s = (True, s\<lparr>io_pos := io_size s\<rparr>)"

definition skip :: "int \<Rightarrow> mem_stream \<Rightarrow> (bool \<times> mem_stream) res" where
  "skip count s =
     (if io_buffer s = None \<or> io_size s \<le> 0 then Inr (False, s)
      else bindR (sum64 (io_pos s) count) (\<lambda>pos.
        if io_size s < pos then Inr (False, s\<lparr>io_pos := io_size s\<rparr>) else Inr (True, s\<lparr>io_pos := pos\<rparr>)))"

definition stream_pos :: "mem_stream \<Rightarrow> int" where
  "stream_pos s = (if io_buffer s = None \<or> io_size s \<le> 0 then 0 else io_pos s)"

definition stream_size :: "mem_stream \<Rightarrow> int" where
  "stream_size s = (if io_buffer s = None \<or> io_size s \<le> 0 then 0 else io_size s)"

definition stream_data :: "mem_stream \<Rightarrow> byte list option" where
  "stream_data s = io_buffer s"

definition atEnd :: "mem_stream \<Rightarrow> bool" where
  "atEnd s = (io_size s \<le> io_pos s)"

section \<open>Queues\<close>

definition queue_push :: "byte list option \<Rightarrow> int \<Rightarrow> mem_stream \<Rightarrow> (int \<times> mem_stream) res" where
  "queue_push buffer n s =
     (if buffer = None \<and> 0 < n then Inr (-1, s)
      else let endPos = io_size s in
        bindR (sum64 endPos n) (\<lambda>to. bindR (reallocSize to s) (\<lambda>s.
          (case io_buffer s of
             None \<Rightarrow> Inr (-1, s)
           | Some b \<Rightarrow>
               if 0 < n then
                 bindR (read_bytes (the buffer) 0 (nat n)) (\<lambda>xs. bindR (buffer_write b endPos xs) (\<lambda>b.
                   Inr (n, s\<lparr>io_buffer := Some b\<rparr>)))
               else Inr (n, s)))))"

text \<open>\<^verbatim>\<open>memmove\<close> of the bytes behind the cut; between null pointers it moves nothing.\<close>

definition queue_cut :: "int \<Rightarrow> mem_stream \<Rightarrow> (int \<times> mem_stream) res" where
  "queue_cut n s =
     (if n \<le> io_size s then
        bindR (sum64 (io_size s) (- n)) (\<lambda>rest.
        bindR (case io_buffer s of
            None \<Rightarrow> if rest = 0 then Inr None else Inl Null_Deref
          | Some b \<Rightarrow> bindR (buffer_read b n rest) (\<lambda>xs. bindR (buffer_write b 0 xs) (\<lambda>b. Inr (Some b)))) (\<lambda>b.
        bindR (sum64 (io_pos s) (- n)) (\<lambda>p.
          Inr (rest, s\<lparr>io_buffer := b, io_size := rest, io_pos := (if 0 \<le> p then p else 0)\<rparr>))))
      else Inr (0, s\<lparr>io_size := 0, io_pos := 0\<rparr>))"

definition queue_cut_pos :: "mem_stream \<Rightarrow> (int \<times> mem_stream) res" where
  "queue_cut_pos s = queue_cut (io_pos s) s"

section \<open>Reversed streams\<close>

text \<open>
  \<^verbatim>\<open>ReversedMemIOStream\<close> repeats most functions of \<^verbatim>\<open>MemIOStream\<close> with \<open>left_end_\<close> in addition. The constructor
  without a buffer and the copy constructor leave that field as it was.
\<close>

definition rev_freeBuffer :: "mem_stream \<Rightarrow> mem_stream" where
  "rev_freeBuffer s = (freeBuffer s)\<lparr>io_left_end := 0\<rparr>"

definition rev_allocSize :: "int \<Rightarrow> mem_stream \<Rightarrow> mem_stream" where
  "rev_allocSize n s = (allocSize n s)\<lparr>io_left_end := 0\<rparr>"

definition rev_reallocSize :: "int \<Rightarrow> mem_stream \<Rightarrow> mem_stream res" where
  "rev_reallocSize n s =
     (if io_buffer s = None then Inr (rev_allocSize n s)
      else if \<not> io_alloc s then Inr s
      else if n \<le> io_max_size s then Inr (if io_size s < n then s\<lparr>io_size := n\<rparr> else s)
      else bindR (grown_size n) (\<lambda>maxSize.
        (case reallocBuffer (io_junk s) (io_buffer s) maxSize of
           None \<Rightarrow> Inr (s\<lparr>io_buffer := None, io_size := 0, io_max_size := 0, io_left_end := 0, io_pos := 0, io_alloc := False\<rparr>)
         | Some b \<Rightarrow> Inr (s\<lparr>io_buffer := Some b, io_size := n, io_max_size := maxSize\<rparr>))))"

definition rev_setBuffer :: "byte list option \<Rightarrow> int \<Rightarrow> mem_stream \<Rightarrow> mem_stream" where
  "rev_setBuffer buffer n s = (rev_freeBuffer s)\<lparr>io_buffer := buffer, io_size := n, io_max_size := n, io_alloc := False\<rparr>"

definition new_reversed :: "byte_order \<Rightarrow> byte_order \<Rightarrow> mem_stream \<Rightarrow> mem_stream" where
  "new_reversed sys order s = (new_stream sys order s)
     \<lparr>io_buffer := None, io_size := 0, io_pos := 0, io_alloc := False, io_max_size := 0\<rparr>"

definition new_reversed_over :: "byte_order \<Rightarrow> byte_order \<Rightarrow> byte list option \<Rightarrow> int \<Rightarrow> mem_stream \<Rightarrow> mem_stream" where
  "new_reversed_over sys order buffer n s = rev_setBuffer buffer n ((new_stream sys order s)
     \<lparr>io_buffer := None, io_size := 0, io_max_size := 0, io_left_end := 0, io_pos := n, io_alloc := False\<rparr>)"

definition new_reversed_of_size :: "byte_order \<Rightarrow> byte_order \<Rightarrow> int \<Rightarrow> mem_stream \<Rightarrow> mem_stream" where
  "new_reversed_of_size sys order n s = rev_allocSize n ((new_stream sys order s)
     \<lparr>io_buffer := None, io_size := 0, io_max_size := 0, io_left_end := 0, io_pos := n, io_alloc := False\<rparr>)"

definition reversed_of_stream :: "byte_order \<Rightarrow> mem_stream \<Rightarrow> mem_stream \<Rightarrow> mem_stream res" where
  "reversed_of_stream sys t s = copy_memory (stream_size t) (stream_size t) (stream_data t)
     ((new_stream sys LittleEndian s)\<lparr>io_size := stream_size t, io_left_end := stream_pos t, io_pos := stream_size t,
        io_max_size := stream_size t\<rparr>)"

definition copy_reversed :: "byte_order \<Rightarrow> mem_stream \<Rightarrow> mem_stream \<Rightarrow> mem_stream res" where
  "copy_reversed sys t s = copy_memory (io_size t) (io_max_size t) (io_buffer t)
     ((new_stream sys LittleEndian s)\<lparr>io_size := io_size t, io_pos := io_pos t, io_max_size := io_max_size t\<rparr>)"

definition rev_assign_stream :: "mem_stream \<Rightarrow> mem_stream \<Rightarrow> mem_stream res" where
  "rev_assign_stream t s = copy_memory (stream_size t) (stream_size t) (stream_data t)
     ((rev_freeBuffer s)\<lparr>io_size := stream_size t, io_pos := stream_size t, io_max_size := stream_size t\<rparr>)"

definition rev_assign_reversed :: "mem_stream \<Rightarrow> mem_stream \<Rightarrow> mem_stream res" where
  "rev_assign_reversed t s = copy_memory (io_size t) (io_max_size t) (io_buffer t)
     ((rev_freeBuffer s)\<lparr>io_size := io_size t, io_pos := io_pos t, io_max_size := io_max_size t\<rparr>)"

definition rev_reserve :: "int \<Rightarrow> mem_stream \<Rightarrow> mem_stream res" where
  "rev_reserve n s = bindR (rev_reallocSize n s) (\<lambda>s'. Inr (s'\<lparr>io_size := io_size s\<rparr>))"

definition rev_resize :: "int \<Rightarrow> mem_stream \<Rightarrow> mem_stream res" where
  "rev_resize n s = rev_reallocSize n s"

definition rev_reset :: "mem_stream \<Rightarrow> mem_stream" where
  "rev_reset s = s\<lparr>io_size := 0, io_pos := 0, io_left_end := 0\<rparr>"

text \<open>A read copies from \<open>buffer_ - readLen\<close>, which lies before the buffer.\<close>

definition rev_read_to :: "bool \<Rightarrow> int \<Rightarrow> mem_stream \<Rightarrow> (int \<times> byte list \<times> mem_stream) res" where
  "rev_read_to null n s =
     (if n \<le> 0 then Inr (0, [], s\<lparr>read_ok := True\<rparr>)
      else (case io_buffer s of
        None \<Rightarrow> Inr (-1, [], s\<lparr>read_ok := False\<rparr>)
      | Some b \<Rightarrow>
          if io_size s \<le> 0 \<or> null \<or> io_pos s \<le> io_left_end s then Inr (-1, [], s\<lparr>read_ok := False\<rparr>)
          else let readLen = (if io_pos s - io_left_end s < n then io_pos s - io_left_end s else n) in
            bindR (buffer_read b (- readLen) readLen) (\<lambda>xs.
              Inr (readLen, xs, s\<lparr>io_pos := io_pos s - readLen, read_ok := n = readLen\<rparr>))))"

definition rev_write :: "mem_stream io_writer" where
  "rev_write bs s = Inr (0, s)"

definition rev_seek :: "int \<Rightarrow> mem_stream \<Rightarrow> bool \<times> mem_stream" where
  "rev_seek pos s = (if pos < 0 \<or> io_size s < pos then (False, s) else (True, s\<lparr>io_pos := pos\<rparr>))"

definition rev_seekToBegin :: "mem_stream \<Rightarrow> bool \<times> mem_stream" where
  "rev_seekToBegin s = (True, s\<lparr>io_pos := io_left_end s\<rparr>)"

definition rev_seekToEnd :: "mem_stream \<Rightarrow> bool \<times> mem_stream" where
  "rev_seekToEnd s = (True, s\<lparr>io_pos := io_size s\<rparr>)"

definition rev_skip :: "int \<Rightarrow> mem_stream \<Rightarrow> (bool \<times> mem_stream) res" where
  "rev_skip count s =
     (if io_buffer s = None \<or> io_size s \<le> 0 then Inr (False, s)
      else bindR (sum64 (io_pos s) (- count)) (\<lambda>pos.
        if pos < io_left_end s then Inr (False, s\<lparr>io_pos := io_left_end s\<rparr>) else Inr (True, s\<lparr>io_pos := pos\<rparr>)))"

definition rev_atEnd :: "mem_stream \<Rightarrow> bool" where
  "rev_atEnd s = (io_pos s \<le> io_left_end s)"

section \<open>Files\<close>

text \<open>
  How a file is opened: \<open>flags\<close> has the bits 1 for reading, 2 for writing, 4 to append and 8 to truncate; \<open>found\<close>
  says that there is such a file.
\<close>

definition openMode2fopenMode :: "u32 \<Rightarrow> bool \<Rightarrow> string" where
  "openMode2fopenMode flags found =
     (let readable = flags AND 1 \<noteq> 0; writable = flags AND 2 \<noteq> 0; append = flags AND 4 \<noteq> 0; truncate = flags AND 8 \<noteq> 0;
          sMode = (if readable \<and> \<not> truncate then
                     if writable then if found then ''rb+'' else ''wb+'' else ''rb''
                   else if writable then if readable then ''wb+'' else ''wb''
                   else []) in
      if append then if readable then ''ab+'' else ''ab'' else sMode)"

end
