(* ===== verification/Io_Codec.thy ===== *)
theory Io_Codec
  imports Io_Stream
begin

text \<open>
  The memory streams refine a list of bytes with a cursor, and typed values come back from them as they were written.
\<close>

unbundle bit_operations_syntax

section \<open>What a stream holds\<close>

text \<open>A stream with memory of its own, or none; the position is inside the contents.\<close>

definition stream_good :: "mem_stream \<Rightarrow> bool" where
  "stream_good s = (0 \<le> io_pos s \<and> io_pos s \<le> io_size s \<and> io_size s \<le> io_max_size s \<and>
     (case io_buffer s of
        None \<Rightarrow> io_max_size s = 0
      | Some b \<Rightarrow> io_alloc s \<and> io_max_size s = int (length b)))"

definition contents :: "mem_stream \<Rightarrow> byte list" where
  "contents s = take (nat (io_size s)) (case io_buffer s of None \<Rightarrow> [] | Some b \<Rightarrow> b)"

definition cursor :: "mem_stream \<Rightarrow> nat" where
  "cursor s = nat (io_pos s)"

lemma length_contents: "stream_good s \<Longrightarrow> int (length (contents s)) = io_size s"
  by (auto simp: stream_good_def contents_def split: option.splits)

lemma cursor_le: "stream_good s \<Longrightarrow> cursor s \<le> length (contents s)"
  using length_contents [of s] by (auto simp: stream_good_def cursor_def)

lemma stream_good_new: "stream_good (new_stream sys order s)" "contents (new_stream sys order s) = []" "cursor (new_stream sys order s) = 0"
  by (simp_all add: stream_good_def new_stream_def contents_def cursor_def)

text \<open>The fields that no operation on the contents touches.\<close>

definition same_orders :: "mem_stream \<Rightarrow> mem_stream \<Rightarrow> bool" where
  "same_orders s s' = (sys_byte_order s' = sys_byte_order s \<and> io_byte_order s' = io_byte_order s)"

lemma same_orders_refl [simp]: "same_orders s s"
  by (simp add: same_orders_def)

lemma same_orders_trans: "same_orders s s1 \<Longrightarrow> same_orders s1 s2 \<Longrightarrow> same_orders s s2"
  by (simp add: same_orders_def)

section \<open>Growing\<close>

lemma and_not_low: "x AND NOT (2 ^ n - 1) = x - x mod 2 ^ n" for x :: int
proof -
  have "(x AND mask n) + (x AND NOT (mask n)) = (x AND mask n) OR (x AND NOT (mask n))"
    by (rule disjunctive_add) (auto simp: bit_simps)
  also have "\<dots> = x" by (rule bit_eqI) (auto simp: bit_simps)
  finally have "x AND NOT (mask n) = x - take_bit n x" by (simp add: take_bit_eq_mask)
  then show ?thesis by (simp add: mask_eq_exp_minus_1 take_bit_eq_mod)
qed

lemma grown_size_ok:
  assumes "0 \<le> n" "n < 2 ^ 61"
  shows "\<exists>m. grown_size n = Inr m \<and> n < m"
proof -
  have d: "drop_bit 3 (n + 256) = (n + 256) div 8" by (simp add: drop_bit_eq_div)
  have s: "sum64 a b = Inr (a + b)" if "0 \<le> a" "0 \<le> b" "a < 2 ^ 62" "b < 2 ^ 62" for a b
    using that by (simp add: sum64_def)
  define m where "m = n + 256 + (n + 256) div 8"
  have m: "n + 256 \<le> m" "m < 2 ^ 62" using assms by (simp_all add: m_def)
  have k: "x AND NOT 255 = x - x mod 256" "x AND NOT 1023 = x - x mod 1024" for x :: int
    using and_not_low [of x 8] and_not_low [of x 10] by simp_all
  have "sum64 n 256 = Inr (n + 256)" "sum64 (n + 256) (drop_bit 3 (n + 256)) = Inr m"
    "sum64 m 255 = Inr (m + 255)" "sum64 m 4095 = Inr (m + 4095)"
    using assms m by (simp_all add: s d m_def)
  then have "grown_size n = Inr (if m < 4096 then (m + 255) - (m + 255) mod 256 else (m + 4095) - (m + 4095) mod 1024)"
    unfolding grown_size_def by (simp only: bindR_Inr k if_distrib [where f = Inr])
  moreover have "n < (m + 255) - (m + 255) mod 256" "n < (m + 4095) - (m + 4095) mod 1024"
    using m(1) pos_mod_bound [of 256 "m + 255"] pos_mod_bound [of 1024 "m + 4095"] by linarith+
  ultimately show ?thesis by auto
qed

text \<open>Making room keeps the contents, and fills what is new with unknown bytes.\<close>

lemma reallocSize_ok:
  assumes "stream_good s" "0 < n" "n < 2 ^ 61"
  shows "\<exists>s' b. reallocSize n s = Inr s' \<and> io_buffer s' = Some b \<and> io_alloc s' \<and> io_max_size s' = int (length b) \<and>
    io_size s' = max n (io_size s) \<and> io_size s' \<le> io_max_size s' \<and> io_pos s' = io_pos s \<and>
    take (length (contents s)) b = contents s \<and> same_orders s s'"
proof (cases "io_buffer s")
  case None
  then have "reallocSize n s = Inr (s\<lparr>io_buffer := Some (map (io_junk s) [0..<nat n]), io_size := n, io_max_size := n,
      io_pos := 0, io_alloc := True\<rparr>)"
    using assms(2) by (simp add: reallocSize_def allocSize_def allocBufer_def)
  then show ?thesis using assms None
    by (auto simp: stream_good_def contents_def same_orders_def)
next
  case (Some b)
  have g: "io_alloc s" "io_max_size s = int (length b)" "io_size s \<le> int (length b)" "0 \<le> io_size s"
    using assms(1) Some by (auto simp: stream_good_def)
  have c: "contents s = take (nat (io_size s)) b" using Some by (simp add: contents_def)
  show ?thesis
  proof (cases "n \<le> io_max_size s")
    case True
    then show ?thesis using g Some c by (auto simp: reallocSize_def same_orders_def max_def min_def)
  next
    case False
    obtain m where m: "grown_size n = Inr m" "n < m" using grown_size_ok [of n] assms(2,3) by auto
    have "length b \<le> nat m" using g(2) False m(2) by simp
    then show ?thesis
      using g Some c False m assms(2)
      by (auto simp: reallocSize_def reallocBuffer_def same_orders_def max_def min_def)
  qed
qed

section \<open>The operations\<close>

text \<open>Bytes written at a cursor, over what is there.\<close>

definition overwrite :: "byte list \<Rightarrow> byte list \<Rightarrow> nat \<Rightarrow> byte list" where
  "overwrite bs c p = take p c @ bs @ drop (p + length bs) c"

lemma mem_write_ok:
  assumes "stream_good s" "io_pos s + int (length bs) < 2 ^ 61"
  shows "\<exists>s'. mem_write bs s = Inr (int (length bs), s') \<and> stream_good s' \<and> same_orders s s' \<and> write_ok s' \<and>
    contents s' = overwrite bs (contents s) (cursor s) \<and> cursor s' = cursor s + length bs"
proof (cases "bs = []")
  case True
  have "stream_good (s\<lparr>write_ok := True\<rparr>)" "contents (s\<lparr>write_ok := True\<rparr>) = contents s"
    using assms(1) by (auto simp: stream_good_def contents_def split: option.splits)
  then show ?thesis using True
    by (simp add: mem_write_def mem_write_from_def same_orders_def cursor_def overwrite_def)
next
  case False
  define n where "n = int (length bs)"
  define p where "p = io_pos s"
  have n: "0 < n" "0 \<le> p" "p \<le> io_size s" "p + n < 2 ^ 61"
    using False assms by (auto simp: n_def p_def stream_good_def)
  obtain s1 b where s1: "reallocSize (n + p) s = Inr s1" "io_buffer s1 = Some b" "io_alloc s1" "io_max_size s1 = int (length b)"
      "io_size s1 = max (n + p) (io_size s)" "io_size s1 \<le> io_max_size s1" "io_pos s1 = p"
      "take (length (contents s)) b = contents s" "same_orders s s1"
    using reallocSize_ok [OF assms(1), of "n + p"] n by (auto simp: p_def)
  have sum: "sum64 n p = Inr (n + p)" using n by (simp add: sum64_def)
  define b' where "b' = take (nat p) b @ bs @ drop (nat p + length bs) b"
  have "n + p \<le> int (length b)" using s1(4-6) by simp
  then have room: "nat p + length bs \<le> length b" using n by (simp add: n_def)
  define s2 where "s2 = s1\<lparr>io_buffer := Some b', io_pos := n + p, write_ok := True\<rparr>"
  have "read_bytes bs 0 (nat n) = Inr bs" by (simp add: n_def read_bytes_def)
  then have "mem_write bs s = Inr (n, s2)"
    using False n sum s1 room
    by (simp add: mem_write_def mem_write_from_def buffer_write_def b'_def s2_def p_def [symmetric] flip: n_def)
  moreover have "stream_good s2"
    using s1 n room by (simp add: stream_good_def s2_def b'_def)
  moreover have "contents s2 = overwrite bs (contents s) (nat p)"
  proof -
    have len: "length (contents s) = nat (io_size s)" using length_contents [OF assms(1)] by simp
    have c: "contents s = take (nat (io_size s)) b" using s1(8) len by simp
    have "contents s2 = take (nat (max (n + p) (io_size s))) b'" using s1(5) by (simp add: contents_def s2_def)
    also have "\<dots> = take (nat p) b @ bs @ drop (nat p + length bs) (take (nat (io_size s)) b)"
    proof (cases "n + p \<le> io_size s")
      case True
      then have "nat p + length bs \<le> nat (io_size s)" "nat (max (n + p) (io_size s)) = nat (io_size s)"
        using n by (simp_all add: n_def)
      then show ?thesis using room by (simp add: b'_def drop_take)
    next
      case False
      then have "nat (io_size s) \<le> nat p + length bs" "nat (max (n + p) (io_size s)) = nat p + length bs"
        using n by (simp_all add: n_def max_def)
      then show ?thesis using room by (simp add: b'_def)
    qed
    also have "take (nat p) b = take (nat p) (contents s)" using n(2,3) by (simp add: c min_def)
    finally show ?thesis by (simp add: overwrite_def c)
  qed
  ultimately show ?thesis
    using s1(9) n by (auto simp: s2_def same_orders_def cursor_def n_def p_def nat_add_distrib)
qed

lemma mem_read_ok:
  fixes n :: nat
  assumes "stream_good s"
  defines "got \<equiv> take n (drop (cursor s) (contents s))"
  shows "\<exists>k s'. mem_read (int n) s = Inr (k, got, s') \<and> stream_good s' \<and> same_orders s s' \<and>
    (read_ok s' \<longleftrightarrow> length got = n) \<and> contents s' = contents s \<and> cursor s' = cursor s + length got \<and>
    k = (if got = [] \<and> 0 < n then -1 else int (length got))"
proof (cases "n = 0 \<or> io_size s \<le> io_pos s")
  case True
  moreover have "got = []" using True length_contents [OF assms(1)] by (auto simp: got_def cursor_def)
  ultimately show ?thesis using assms(1)
    by (auto simp: mem_read_def mem_read_to_def stream_good_def same_orders_def contents_def cursor_def split: option.splits)
next
  case False
  then obtain b where b: "io_buffer s = Some b" "io_size s \<le> int (length b)" "0 \<le> io_pos s" "io_pos s < io_size s"
    using assms(1) by (auto simp: stream_good_def split: option.splits)
  define k where "k = (if io_size s - io_pos s < int n then io_size s - io_pos s else int n)"
  have k: "0 < k" "k \<le> int n" "io_pos s + k \<le> io_size s" using False b by (auto simp: k_def)
  have got: "got = take (nat k) (drop (nat (io_pos s)) b)"
    using b k by (auto simp: got_def cursor_def contents_def k_def take_drop min_def nat_diff_distrib)
  then have len: "length got = nat k" using b k by simp
  have "buffer_read b (io_pos s) k = Inr got" using b k by (simp add: buffer_read_def got)
  then have "mem_read (int n) s = Inr (k, got, s\<lparr>io_pos := io_pos s + k, read_ok := int n = k\<rparr>)"
    using False b k unfolding mem_read_def mem_read_to_def Let_def k_def [symmetric] by simp
  then show ?thesis using assms(1) b k len
    by (auto simp: stream_good_def same_orders_def contents_def cursor_def nat_add_distrib)
qed

lemma queue_push_ok:
  assumes "stream_good s" "bs \<noteq> []" "io_size s + int (length bs) < 2 ^ 61"
  shows "\<exists>s'. queue_push (Some bs) (int (length bs)) s = Inr (int (length bs), s') \<and> stream_good s' \<and> same_orders s s' \<and>
    contents s' = contents s @ bs \<and> cursor s' = cursor s"
proof -
  define n where "n = int (length bs)"
  define e where "e = io_size s"
  have n: "0 < n" "0 \<le> e" "e + n < 2 ^ 61" "0 \<le> io_pos s" "io_pos s \<le> e"
    using assms by (auto simp: n_def e_def stream_good_def)
  obtain s1 b where s1: "reallocSize (e + n) s = Inr s1" "io_buffer s1 = Some b" "io_alloc s1" "io_max_size s1 = int (length b)"
      "io_size s1 = max (e + n) (io_size s)" "io_size s1 \<le> io_max_size s1" "io_pos s1 = io_pos s"
      "take (length (contents s)) b = contents s" "same_orders s s1"
    using reallocSize_ok [OF assms(1), of "e + n"] n by auto
  have size1: "io_size s1 = e + n" using s1(5) n by (simp add: e_def)
  have sum: "sum64 e n = Inr (e + n)" using n by (simp add: sum64_def)
  have "e + n \<le> int (length b)" using s1(4,6) size1 by simp
  then have room: "nat e + length bs \<le> length b" using n by (simp add: n_def)
  define b' where "b' = take (nat e) b @ bs @ drop (nat e + length bs) b"
  define s2 where "s2 = s1\<lparr>io_buffer := Some b'\<rparr>"
  have rd: "read_bytes bs 0 (nat n) = Inr bs" by (simp add: n_def read_bytes_def)
  have "queue_push (Some bs) n s = Inr (n, s2)"
    using n sum s1(1,2) room rd by (simp add: queue_push_def buffer_write_def b'_def s2_def flip: e_def)
  moreover have "stream_good s2" using s1 size1 n room by (simp add: stream_good_def s2_def b'_def)
  moreover have "contents s2 = contents s @ bs"
  proof -
    have len: "length (contents s) = nat e" using length_contents [OF assms(1)] by (simp add: e_def)
    then have "take (nat e) b = contents s" using s1(8) by simp
    moreover have "nat (e + n) = nat e + length bs" using n by (simp add: n_def nat_add_distrib)
    ultimately show ?thesis using room len unfolding contents_def [of s2] by (simp add: s2_def size1 b'_def)
  qed
  ultimately show ?thesis using s1(7,9) by (auto simp: s2_def same_orders_def cursor_def n_def)
qed

lemma queue_cut_ok:
  assumes "stream_good s" "io_size s < 2 ^ 61"
  shows "\<exists>k s'. queue_cut (int n) s = Inr (k, s') \<and> stream_good s' \<and> same_orders s s' \<and>
    contents s' = drop n (contents s) \<and> cursor s' = cursor s - n"
proof (cases "int n \<le> io_size s")
  case False
  then have "queue_cut (int n) s = Inr (0, s\<lparr>io_size := 0, io_pos := 0\<rparr>)" by (simp add: queue_cut_def)
  moreover have "n \<ge> length (contents s)" "cursor s \<le> n"
    using False length_contents [OF assms(1)] cursor_le [OF assms(1)] by simp_all
  ultimately show ?thesis using assms(1)
    by (auto simp: stream_good_def same_orders_def contents_def cursor_def split: option.splits)
next
  case True
  define r where "r = io_size s - int n"
  have r: "0 \<le> r" "sum64 (io_size s) (- int n) = Inr r" "sum64 (io_pos s) (- int n) = Inr (io_pos s - int n)"
    using True assms by (auto simp: r_def sum64_def stream_good_def)
  show ?thesis
  proof (cases "io_buffer s")
    case None
    then have z: "io_size s = 0" "io_pos s = 0" "n = 0" "r = 0" using assms(1) True by (auto simp: stream_good_def r_def)
    then have "queue_cut (int n) s = Inr (0, s\<lparr>io_buffer := None, io_size := 0, io_pos := 0\<rparr>)"
      using None True r by (simp add: queue_cut_def)
    then show ?thesis using assms(1) None z by (auto simp: stream_good_def same_orders_def contents_def cursor_def)
  next
    case (Some b)
    have g: "io_size s \<le> int (length b)" "io_max_size s = int (length b)" "io_alloc s" "0 \<le> io_pos s" "io_pos s \<le> io_size s"
      using assms(1) Some by (auto simp: stream_good_def)
    define xs where "xs = take (nat r) (drop n b)"
    have fit: "n + nat r \<le> length b" "nat (io_size s) = n + nat r" using g(1) True by (simp_all add: r_def nat_le_iff)
    have len: "length xs = nat r" using fit by (simp add: xs_def)
    have rd: "buffer_read b (int n) r = Inr xs" using r(1) fit by (simp add: buffer_read_def xs_def)
    have wr: "buffer_write b 0 xs = Inr (xs @ drop (nat r) b)" using fit len by (simp add: buffer_write_def)
    define s' where "s' = s\<lparr>io_buffer := Some (xs @ drop (nat r) b), io_size := r,
      io_pos := (if 0 \<le> io_pos s - int n then io_pos s - int n else 0)\<rparr>"
    have "queue_cut (int n) s = Inr (r, s')"
      using True Some r rd wr by (simp add: queue_cut_def s'_def)
    moreover have "stream_good s'" using g fit len r(1) True by (auto simp: stream_good_def s'_def r_def)
    moreover have "contents s' = drop n (contents s)"
      using Some fit len by (simp add: contents_def s'_def xs_def drop_take)
    ultimately show ?thesis by (auto simp: s'_def same_orders_def cursor_def nat_diff_distrib)
  qed
qed

section \<open>Refinement\<close>

text \<open>
  The operations of the streams on bytes, one after the other, and what they are on a list of bytes and a cursor.
  What is read is kept.
\<close>

datatype stream_op =
    Stream_Write "byte list" | Stream_Read nat | Stream_Seek nat | Stream_Begin | Stream_End | Stream_Skip nat
  | Stream_Reset | Stream_Reserve nat | Queue_Push "byte list" | Queue_Cut nat | Queue_Cut_Read

fun stream_perform :: "stream_op \<Rightarrow> mem_stream \<times> byte list \<Rightarrow> (bool \<times> mem_stream \<times> byte list) res" where
  "stream_perform (Stream_Write bs) (s, out) = bindR (mem_write bs s) (\<lambda>(k, s). Inr (k = int (length bs), s, out))"
| "stream_perform (Stream_Read n) (s, out) = bindR (mem_read (int n) s) (\<lambda>(_, got, s). Inr (True, s, out @ got))"
| "stream_perform (Stream_Seek n) (s, out) = (case seek (int n) s of (ok, s) \<Rightarrow> Inr (ok, s, out))"
| "stream_perform Stream_Begin (s, out) = (case seekToBegin s of (ok, s) \<Rightarrow> Inr (ok, s, out))"
| "stream_perform Stream_End (s, out) = (case seekToEnd s of (ok, s) \<Rightarrow> Inr (ok, s, out))"
| "stream_perform (Stream_Skip n) (s, out) = bindR (skip (int n) s) (\<lambda>(ok, s). Inr (ok, s, out))"
| "stream_perform Stream_Reset (s, out) = Inr (True, reset s, out)"
| "stream_perform (Stream_Reserve n) (s, out) = bindR (reserve (int n) s) (\<lambda>s. Inr (True, s, out))"
| "stream_perform (Queue_Push bs) (s, out) =
     bindR (queue_push (Some bs) (int (length bs)) s) (\<lambda>(k, s). Inr (k = int (length bs), s, out))"
| "stream_perform (Queue_Cut n) (s, out) = bindR (queue_cut (int n) s) (\<lambda>(k, s). Inr (True, s, out))"
| "stream_perform Queue_Cut_Read (s, out) = bindR (queue_cut_pos s) (\<lambda>(k, s). Inr (True, s, out))"

fun stream_spec :: "stream_op \<Rightarrow> byte list \<times> nat \<times> byte list \<Rightarrow> byte list \<times> nat \<times> byte list" where
  "stream_spec (Stream_Write bs) (c, p, out) = (take p c @ bs @ drop (p + length bs) c, p + length bs, out)"
| "stream_spec (Stream_Read n) (c, p, out) = (c, min (p + n) (length c), out @ take n (drop p c))"
| "stream_spec (Stream_Seek n) (c, p, out) = (c, n, out)"
| "stream_spec Stream_Begin (c, p, out) = (c, 0, out)"
| "stream_spec Stream_End (c, p, out) = (c, length c, out)"
| "stream_spec (Stream_Skip n) (c, p, out) = (c, p + n, out)"
| "stream_spec Stream_Reset (c, p, out) = ([], 0, out)"
| "stream_spec (Stream_Reserve n) (c, p, out) = (c, p, out)"
| "stream_spec (Queue_Push bs) (c, p, out) = (c @ bs, p, out)"
| "stream_spec (Queue_Cut n) (c, p, out) = (drop n c, p - n, out)"
| "stream_spec Queue_Cut_Read (c, p, out) = (drop p c, 0, out)"

fun stream_fits :: "stream_op \<Rightarrow> mem_stream \<times> byte list \<Rightarrow> bool" where
  "stream_fits (Stream_Write bs) (s, out) = (cursor s + length bs < 2 ^ 61)"
| "stream_fits (Stream_Seek n) (s, out) = (n \<le> length (contents s))"
| "stream_fits (Stream_Skip n) (s, out) =
     (contents s \<noteq> [] \<and> cursor s + n \<le> length (contents s) \<and> length (contents s) < 2 ^ 61)"
| "stream_fits (Stream_Reserve n) (s, out) = (n < 2 ^ 61)"
| "stream_fits (Queue_Push bs) (s, out) = (bs \<noteq> [] \<and> length (contents s) + length bs < 2 ^ 61)"
| "stream_fits (Queue_Cut n) (s, out) = (length (contents s) < 2 ^ 61)"
| "stream_fits Queue_Cut_Read (s, out) = (length (contents s) < 2 ^ 61)"
| "stream_fits _ _ = True"

definition stream_abs :: "mem_stream \<times> byte list \<Rightarrow> byte list \<times> nat \<times> byte list" where
  "stream_abs = (\<lambda>(s, out). (contents s, cursor s, out))"

lemma moved_good:
  assumes "stream_good s" "0 \<le> p" "p \<le> io_size s"
  shows "stream_good (s\<lparr>io_pos := p\<rparr>)" "contents (s\<lparr>io_pos := p\<rparr>) = contents s" "cursor (s\<lparr>io_pos := p\<rparr>) = nat p"
  using assms by (auto simp: stream_good_def contents_def cursor_def split: option.splits)

lemma reserve_ok:
  assumes "stream_good s" "n < 2 ^ 61"
  shows "\<exists>s'. reserve (int n) s = Inr s' \<and> stream_good s' \<and> contents s' = contents s \<and> cursor s' = cursor s"
proof (cases "n = 0")
  case True
  then show ?thesis using assms(1)
    by (auto simp: reserve_def reallocSize_def allocSize_def allocBufer_def stream_good_def contents_def cursor_def
        split: option.splits)
next
  case False
  obtain s1 b where s1: "reallocSize (int n) s = Inr s1" "io_buffer s1 = Some b" "io_alloc s1" "io_max_size s1 = int (length b)"
      "io_size s1 = max (int n) (io_size s)" "io_size s1 \<le> io_max_size s1" "io_pos s1 = io_pos s"
      "take (length (contents s)) b = contents s" "same_orders s s1"
    using reallocSize_ok [OF assms(1), of "int n"] False assms(2) by auto
  have "stream_good (s1\<lparr>io_size := io_size s\<rparr>)" using assms(1) s1 by (simp add: stream_good_def)
  moreover have "contents (s1\<lparr>io_size := io_size s\<rparr>) = contents s"
    using s1(2,8) length_contents [OF assms(1)] by (simp add: contents_def [of "s1\<lparr>io_size := io_size s\<rparr>"]) (metis nat_int)
  ultimately show ?thesis using s1(1,7) by (simp add: reserve_def cursor_def)
qed

lemma stream_simulates:
  assumes "stream_good s" "stream_fits op (s, out)"
  shows "\<exists>s' out'. stream_perform op (s, out) = Inr (True, s', out') \<and> stream_good s' \<and>
    stream_abs (s', out') = stream_spec op (stream_abs (s, out))"
proof (cases op)
  case (Stream_Write bs)
  have "io_pos s + int (length bs) < 2 ^ 61" using assms Stream_Write by (simp add: cursor_def stream_good_def)
  from mem_write_ok [OF assms(1) this] show ?thesis using Stream_Write by (auto simp: stream_abs_def overwrite_def)
next
  case (Stream_Read n)
  have "cursor s + length (take n (drop (cursor s) (contents s))) = min (cursor s + n) (length (contents s))"
    using cursor_le [OF assms(1)] by simp
  then show ?thesis using Stream_Read mem_read_ok [OF assms(1), of n] by (fastforce simp: stream_abs_def simp del: length_take)
next
  case (Stream_Seek n)
  then show ?thesis using assms moved_good [OF assms(1), of "int n"] length_contents [OF assms(1)]
    by (auto simp: seek_def stream_abs_def)
next
  case Stream_Begin
  then show ?thesis using assms moved_good [OF assms(1), of 0] by (auto simp: seekToBegin_def stream_abs_def stream_good_def)
next
  case Stream_End
  then show ?thesis using assms moved_good [OF assms(1), of "io_size s"] length_contents [OF assms(1)]
    by (auto simp: seekToEnd_def stream_abs_def stream_good_def)
next
  case (Stream_Skip n)
  have g: "0 \<le> io_pos s" "int (length (contents s)) = io_size s" using assms(1) length_contents by (simp_all add: stream_good_def)
  have f: "contents s \<noteq> []" "io_pos s + int n \<le> io_size s" "io_size s < 2 ^ 61"
    using assms(2) Stream_Skip g by (auto simp: cursor_def)
  have b: "io_buffer s \<noteq> None" "0 < io_size s" using f(1) g(2) by (auto simp: contents_def split: option.splits)
  have "sum64 (io_pos s) (int n) = Inr (io_pos s + int n)" using f g by (simp add: sum64_def)
  then show ?thesis using Stream_Skip moved_good [OF assms(1), of "io_pos s + int n"] f b g
    by (auto simp: skip_def stream_abs_def cursor_def nat_add_distrib)
next
  case Stream_Reset
  then show ?thesis using assms(1) by (auto simp: reset_def stream_abs_def stream_good_def contents_def cursor_def split: option.splits)
next
  case (Stream_Reserve n)
  then show ?thesis using reserve_ok [OF assms(1), of n] assms(2) by (auto simp: stream_abs_def)
next
  case (Queue_Push bs)
  have "io_size s + int (length bs) < 2 ^ 61" using assms(2) Queue_Push length_contents [OF assms(1)] by simp
  then show ?thesis using Queue_Push queue_push_ok [OF assms(1), of bs] assms(2) by (auto simp: stream_abs_def)
next
  case (Queue_Cut n)
  have "io_size s < 2 ^ 61" using assms(2) Queue_Cut length_contents [OF assms(1)] by simp
  from queue_cut_ok [OF assms(1) this, of n] show ?thesis using Queue_Cut by (auto simp: stream_abs_def)
next
  case Queue_Cut_Read
  have "io_size s < 2 ^ 61" using assms(2) Queue_Cut_Read length_contents [OF assms(1)] by simp
  moreover have "io_pos s = int (cursor s)" using assms(1) by (simp add: cursor_def stream_good_def)
  ultimately show ?thesis using Queue_Cut_Read queue_cut_ok [OF assms(1), of "cursor s"]
    by (auto simp: stream_abs_def queue_cut_pos_def)
qed

interpretation mem: simulation "\<lambda>s. stream_good (fst s)" stream_abs stream_perform stream_spec stream_fits
  by unfold_locales (use stream_simulates in fastforce)


section \<open>Typed values\<close>

lemma bit_little_endian_value:
  "bit (little_endian_value bs :: 'a::len word) n \<longleftrightarrow> n < LENGTH('a) \<and> n < 8 * length bs \<and> bit (bs ! (n div 8)) (n mod 8)"
proof (induction bs arbitrary: n)
  case Nil
  then show ?case by (simp add: little_endian_value_def)
next
  case (Cons b bs)
  have "little_endian_value (b # bs) = push_bit 8 (little_endian_value bs) OR (ucast b :: 'a word)"
    by (simp add: little_endian_value_def)
  then show ?case
    by (cases "n < 8") (auto simp: bit_or_iff bit_push_bit_iff bit_ucast_iff Cons.IH nth_Cons' le_div_geq le_mod_geq
        dest: bit_imp_le_length)
qed

lemma little_endian_roundtrip:
  "little_endian_value (little_endian n (v :: 'a::len word)) = take_bit (8 * n) v"
proof (rule bit_word_eqI)
  fix k assume "k < LENGTH('a)"
  moreover have "8 * (k div 8) + k mod 8 = k" by simp
  moreover have "k < 8 * n \<Longrightarrow> k div 8 < n" by (simp add: less_mult_imp_div_less mult.commute)
  ultimately show "bit (little_endian_value (little_endian n v) :: 'a word) k = bit (take_bit (8 * n) v) k"
    by (auto simp: bit_little_endian_value little_endian_def bit_simps)
qed

lemma length_little_endian [simp]: "length (little_endian n v) = n"
  by (simp add: little_endian_def)

lemma length_memory_of [simp]: "length (memory_of sys n v) = n"
  by (simp add: memory_of_def)

lemma value_of_memory: "value_of sys (memory_of sys n (v :: 'a::len word)) = take_bit (8 * n) v"
  by (simp add: value_of_def memory_of_def little_endian_roundtrip)

text \<open>Swapping the order reverses the bytes.\<close>

lemma swap_loop_rev:
  "k \<le> length xs div 2 \<Longrightarrow> \<exists>ys. swap_loop [k..<length xs div 2] 0 (length xs) xs = Inr ys \<and> length ys = length xs \<and>
     (\<forall>i < length xs. ys ! i = (if k \<le> i \<and> i < length xs - k then xs ! (length xs - 1 - i) else xs ! i))"
proof (induction "length xs div 2 - k" arbitrary: k xs)
  case 0
  then have k: "k = length xs div 2" by simp
  have "n - 1 - i = i" if "n div 2 \<le> i" "i < n - n div 2" for i n :: nat using that by presburger
  from this [of "length xs"] k show ?case by (intro exI [of _ xs]) simp
next
  case (Suc m)
  let ?n = "length xs - k - 1"
  let ?ys = "xs[k := xs ! ?n, ?n := xs ! k]"
  have k: "k < ?n" "?n < length xs" "k < length xs div 2" using Suc.hyps(2) by auto
  have "m = length ?ys div 2 - (k + 1)" "k + 1 \<le> length ?ys div 2" using Suc.hyps(2) k(3) by simp_all
  from Suc.hyps(1) [OF this] obtain zs where
    zs: "swap_loop [k + 1..<length xs div 2] 0 (length xs) ?ys = Inr zs" "length zs = length xs"
      "\<And>i. i < length xs \<Longrightarrow> zs ! i = (if k + 1 \<le> i \<and> i < length xs - (k + 1) then ?ys ! (length xs - 1 - i) else ?ys ! i)"
    by (simp only: length_list_update) blast
  have "[k..<length xs div 2] = k # [k + 1..<length xs div 2]" using k(3) by (simp add: upt_conv_Cons)
  then have "swap_loop [k..<length xs div 2] 0 (length xs) xs = Inr zs" using k zs(1) by (simp add: Let_def)
  moreover have "zs ! i = (if k \<le> i \<and> i < length xs - k then xs ! (length xs - 1 - i) else xs ! i)" if "i < length xs" for i
    using that k by (auto simp: zs(3) nth_list_update)
  ultimately show ?case using zs(2) by auto
qed

lemma swapOrder_rev: "swapOrder xs 0 (int (length xs)) = Inr (True, rev xs)"
proof (cases "length xs \<le> 1")
  case True
  then show ?thesis by (cases xs) (simp_all add: swapOrder_def)
next
  case False
  obtain ys where ys: "swap_loop [0..<length xs div 2] 0 (length xs) xs = Inr ys" "length ys = length xs"
      "\<And>i. i < length xs \<Longrightarrow> ys ! i = (if 0 \<le> i \<and> i < length xs - 0 then xs ! (length xs - 1 - i) else xs ! i)"
    using swap_loop_rev [of 0 xs] by auto
  have "ys = rev xs" using ys(2,3) by (intro nth_equalityI) (auto simp: rev_nth)
  moreover have "xs \<noteq> []" using False by auto
  ultimately show ?thesis using False ys(1) by (simp add: swapOrder_def)
qed

lemma write_value_memory:
  "write_value wr n v s = bindR (wr (memory_of (io_byte_order s) n v) s) (\<lambda>(_, s). Inr s)"
proof -
  have "swapOrder (memory_of (sys_byte_order s) n v) 0 (int n) = Inr (True, rev (memory_of (sys_byte_order s) n v))"
    using swapOrder_rev [of "memory_of (sys_byte_order s) n v"] by simp
  then show ?thesis
    by (cases "sys_byte_order s"; cases "io_byte_order s")
      (simp_all add: write_value_def io_write_def other_order_def memory_of_def)
qed


lemma io_read_memory:
  assumes "length v = n"
  shows "io_read rd v s = bindR (rd (int n) s) (\<lambda>(_, got, s).
    Inr (if read_ok s \<and> other_order s then rev (got @ drop (length got) v) else got @ drop (length got) v, s))"
proof -
  have "bindR (swapOrder xs 0 (int (length xs))) (\<lambda>(_, v2). Inr (v2, s)) = Inr (rev xs, s)" for xs and s :: "'a io_stream_scheme"
    using swapOrder_rev [of xs] by simp
  then show ?thesis
    unfolding io_read_def Let_def assms by (intro arg_cong2 [where f = bindR]) (auto simp: fun_eq_iff simp del: length_append rev_append)
qed

text \<open>A typed value, its bytes in a stream, and the operators on it.\<close>

datatype typed_value = V_Bool bool | V_8 byte | V_16 u16 | V_32 u32 | V_64 u64 | V_String "byte list"

fun typed_bytes :: "byte_order \<Rightarrow> typed_value \<Rightarrow> byte list" where
  "typed_bytes order (V_Bool b) = [if b then 0xFF else 0]"
| "typed_bytes order (V_8 v) = memory_of order 1 v"
| "typed_bytes order (V_16 v) = memory_of order 2 v"
| "typed_bytes order (V_32 v) = memory_of order 4 v"
| "typed_bytes order (V_64 v) = memory_of order 8 v"
| "typed_bytes order (V_String v) = memory_of order 4 (of_nat (length v) :: u32) @ v"

fun write_typed :: "typed_value \<Rightarrow> mem_stream \<Rightarrow> mem_stream res" where
  "write_typed (V_Bool b) s = write_bool mem_write b s"
| "write_typed (V_8 v) s = write_value mem_write 1 v s"
| "write_typed (V_16 v) s = write_value mem_write 2 v s"
| "write_typed (V_32 v) s = write_value mem_write 4 v s"
| "write_typed (V_64 v) s = write_value mem_write 8 v s"
| "write_typed (V_String v) s = write_string mem_write v s"

text \<open>The reading operator for a variable of the type of a given value, which is the old value of the variable.\<close>

fun read_typed :: "typed_value \<Rightarrow> mem_stream \<Rightarrow> (typed_value \<times> mem_stream) res" where
  "read_typed (V_Bool b) s = bindR (read_bool mem_read s) (\<lambda>(v, s). Inr (V_Bool v, s))"
| "read_typed (V_8 v) s = bindR (read_value mem_read 1 v s) (\<lambda>(v, s). Inr (V_8 v, s))"
| "read_typed (V_16 v) s = bindR (read_value mem_read 2 v s) (\<lambda>(v, s). Inr (V_16 v, s))"
| "read_typed (V_32 v) s = bindR (read_value mem_read 4 v s) (\<lambda>(v, s). Inr (V_32 v, s))"
| "read_typed (V_64 v) s = bindR (read_value mem_read 8 v s) (\<lambda>(v, s). Inr (V_64 v, s))"
| "read_typed (V_String v) s = bindR (read_string mem_read v s) (\<lambda>(v, s). Inr (V_String v, s))"

fun write_all_typed :: "typed_value list \<Rightarrow> mem_stream \<Rightarrow> mem_stream res" where
  "write_all_typed [] s = Inr s"
| "write_all_typed (v # vs) s = bindR (write_typed v s) (write_all_typed vs)"

fun read_all_typed :: "typed_value list \<Rightarrow> mem_stream \<Rightarrow> (typed_value list \<times> mem_stream) res" where
  "read_all_typed [] s = Inr ([], s)"
| "read_all_typed (v # vs) s = bindR (read_typed v s) (\<lambda>(x, s). bindR (read_all_typed vs s) (\<lambda>(xs, s). Inr (x # xs, s)))"

text \<open>Appending at the end, and reading what comes next.\<close>

definition at_end :: "mem_stream \<Rightarrow> bool" where
  "at_end s = (stream_good s \<and> cursor s = length (contents s))"

lemma mem_write_end:
  assumes "at_end s" "length (contents s) + length bs < 2 ^ 61"
  shows "\<exists>s'. mem_write bs s = Inr (int (length bs), s') \<and> at_end s' \<and> same_orders s s' \<and> contents s' = contents s @ bs"
proof -
  have g: "stream_good s" "cursor s = length (contents s)" "io_pos s = int (cursor s)"
    using assms(1) by (auto simp: at_end_def cursor_def stream_good_def)
  then have "io_pos s + int (length bs) < 2 ^ 61" using assms(2) by simp
  from mem_write_ok [OF g(1) this] show ?thesis using g(2) by (auto simp: at_end_def overwrite_def)
qed

definition upcoming :: "mem_stream \<Rightarrow> byte list" where
  "upcoming s = drop (cursor s) (contents s)"

lemma mem_read_upcoming:
  assumes "stream_good s" "upcoming s = xs @ rest"
  shows "\<exists>k s'. mem_read (int (length xs)) s = Inr (k, xs, s') \<and> stream_good s' \<and> same_orders s s' \<and> read_ok s' \<and> upcoming s' = rest"
proof -
  have "take (length xs) (drop (cursor s) (contents s)) = xs" using assms(2) by (simp add: upcoming_def)
  with mem_read_ok [OF assms(1), of "length xs"] obtain k s' where s':
    "mem_read (int (length xs)) s = Inr (k, xs, s')" "stream_good s'" "same_orders s s'" "read_ok s'"
    "contents s' = contents s" "cursor s' = cursor s + length xs" by auto
  then have "upcoming s' = drop (length xs) (upcoming s)" by (simp add: upcoming_def add.commute)
  with s' assms(2) show ?thesis by auto
qed

lemma write_value_end:
  assumes "at_end s" "length (contents s) + n < 2 ^ 61"
  shows "\<exists>s'. write_value mem_write n v s = Inr s' \<and> at_end s' \<and> same_orders s s' \<and>
    contents s' = contents s @ memory_of (io_byte_order s) n v"
  using mem_write_end [OF assms(1), of "memory_of (io_byte_order s) n v"] assms(2) by (auto simp: write_value_memory)

lemma read_value_upcoming:
  fixes v :: "'a::len word"
  assumes "stream_good s" "upcoming s = memory_of (io_byte_order s) n v @ rest" "LENGTH('a) \<le> 8 * n"
  shows "\<exists>s'. read_value mem_read n old s = Inr (v, s') \<and> stream_good s' \<and> same_orders s s' \<and> read_ok s' \<and> upcoming s' = rest"
proof -
  obtain k s' where s': "mem_read (int n) s = Inr (k, memory_of (io_byte_order s) n v, s')" "stream_good s'"
      "same_orders s s'" "read_ok s'" "upcoming s' = rest"
    using mem_read_upcoming [OF assms(1,2)] by auto
  have "take_bit (8 * n) v = v"
    using assms(3) by (intro bit_word_eqI) (auto simp: bit_take_bit_iff)
  then have v: "value_of sys (memory_of sys n v) = v" for sys by (simp add: value_of_memory)
  have r: "rev (memory_of BigEndian n v) = memory_of LittleEndian n v" "rev (memory_of LittleEndian n v) = memory_of BigEndian n v"
    by (simp_all add: memory_of_def)
  have "(if other_order s' then rev (memory_of (io_byte_order s) n v) else memory_of (io_byte_order s) n v) =
      memory_of (sys_byte_order s) n v"
    using s'(3) r by (cases "io_byte_order s"; cases "sys_byte_order s") (simp_all add: other_order_def same_orders_def)
  then have "read_value mem_read n old s = Inr (v, s')"
    using s' v by (cases "other_order s'") (simp_all add: read_value_def io_read_memory same_orders_def)
  with s' show ?thesis by blast
qed


definition typed_ok :: "typed_value \<Rightarrow> bool" where
  "typed_ok v = (case v of V_String xs \<Rightarrow> length xs < 2 ^ 32 | _ \<Rightarrow> True)"

lemma write_typed_end:
  assumes "at_end s" "typed_ok v" "length (contents s) + length (typed_bytes (io_byte_order s) v) < 2 ^ 61"
  shows "\<exists>s'. write_typed v s = Inr s' \<and> at_end s' \<and> same_orders s s' \<and>
    contents s' = contents s @ typed_bytes (io_byte_order s) v"
proof (cases v)
  case (V_Bool b)
  have "memory_of order 1 x = [x]" for order and x :: byte by (simp add: memory_of_def little_endian_def)
  then show ?thesis
    using V_Bool write_value_end [OF assms(1), of 1 "if b then 0xFF else 0 :: byte"] assms(3) by (simp add: write_bool_def)
next
  case (V_String xs)
  obtain s1 where s1: "write_value mem_write 4 (of_nat (length xs) :: u32) s = Inr s1" "at_end s1" "same_orders s s1"
      "contents s1 = contents s @ memory_of (io_byte_order s) 4 (of_nat (length xs) :: u32)"
    using write_value_end [OF assms(1), of 4 "of_nat (length xs) :: u32"] assms(3) V_String by auto
  have "unat (of_nat (length xs) :: u32) = length xs" using assms(2) V_String by (simp add: typed_ok_def unat_of_nat)
  then show ?thesis
    using V_String s1 mem_write_end [OF s1(2), of xs] assms(3) by (auto simp: write_string_def intro: same_orders_trans)
next
  case (V_8 x)
  then show ?thesis using write_value_end [OF assms(1), of 1 x] assms(3) by simp
next
  case (V_16 x)
  then show ?thesis using write_value_end [OF assms(1), of 2 x] assms(3) by simp
next
  case (V_32 x)
  then show ?thesis using write_value_end [OF assms(1), of 4 x] assms(3) by simp
next
  case (V_64 x)
  then show ?thesis using write_value_end [OF assms(1), of 8 x] assms(3) by simp
qed

lemma write_all_typed_end:
  "at_end s \<Longrightarrow> list_all typed_ok vs \<Longrightarrow>
   length (contents s) + length (concat (map (typed_bytes (io_byte_order s)) vs)) < 2 ^ 61 \<Longrightarrow>
   \<exists>s'. write_all_typed vs s = Inr s' \<and> at_end s' \<and> same_orders s s' \<and>
     contents s' = contents s @ concat (map (typed_bytes (io_byte_order s)) vs)"
proof (induction vs arbitrary: s)
  case (Cons v vs)
  obtain s1 where s1: "write_typed v s = Inr s1" "at_end s1" "same_orders s s1"
      "contents s1 = contents s @ typed_bytes (io_byte_order s) v"
    using write_typed_end [OF Cons.prems(1), of v] Cons.prems(2,3) by auto
  have "io_byte_order s1 = io_byte_order s" using s1(3) by (simp add: same_orders_def)
  then show ?case using s1 Cons.IH [OF s1(2)] Cons.prems(2,3) by (auto intro: same_orders_trans)
qed simp

text \<open>Only the type of the value is used by the reader.\<close>

lemma read_typed_upcoming:
  assumes "stream_good s" "upcoming s = typed_bytes (io_byte_order s) v @ rest" "typed_ok v"
  shows "\<exists>s'. read_typed v s = Inr (v, s') \<and> stream_good s' \<and> same_orders s s' \<and> read_ok s' \<and> upcoming s' = rest"
proof (cases v)
  case (V_Bool b)
  have "memory_of order 1 x = [x]" for order and x :: byte by (simp add: memory_of_def little_endian_def)
  then show ?thesis
    using V_Bool read_value_upcoming [OF assms(1), of 1 "if b then 0xFF else 0 :: byte" rest "0 :: byte"] assms(2)
    by (auto simp: read_bool_def)
next
  case (V_String xs)
  obtain s1 where s1: "read_value mem_read 4 0 s = Inr (of_nat (length xs) :: u32, s1)" "stream_good s1" "same_orders s s1"
      "upcoming s1 = xs @ rest"
    using read_value_upcoming [OF assms(1), of 4 "of_nat (length xs) :: u32" "xs @ rest" 0] assms(2) V_String by auto
  have "uint (of_nat (length xs) :: u32) = int (length xs)"
    using assms(3) V_String by (simp add: typed_ok_def uint_nat unat_of_nat)
  then show ?thesis
    using V_String s1 mem_read_upcoming [OF s1(2,4)] by (auto simp: read_string_def intro: same_orders_trans)
next
  case (V_8 x)
  then show ?thesis using read_value_upcoming [OF assms(1), of 1 x rest x] assms(2) by auto
next
  case (V_16 x)
  then show ?thesis using read_value_upcoming [OF assms(1), of 2 x rest x] assms(2) by auto
next
  case (V_32 x)
  then show ?thesis using read_value_upcoming [OF assms(1), of 4 x rest x] assms(2) by auto
next
  case (V_64 x)
  then show ?thesis using read_value_upcoming [OF assms(1), of 8 x rest x] assms(2) by auto
qed

lemma read_all_typed_upcoming:
  "stream_good s \<Longrightarrow> list_all typed_ok vs \<Longrightarrow> upcoming s = concat (map (typed_bytes (io_byte_order s)) vs) @ rest \<Longrightarrow>
   \<exists>s'. read_all_typed vs s = Inr (vs, s') \<and> upcoming s' = rest"
proof (induction vs arbitrary: s)
  case (Cons v vs)
  obtain s1 where s1: "read_typed v s = Inr (v, s1)" "stream_good s1" "same_orders s s1"
      "upcoming s1 = concat (map (typed_bytes (io_byte_order s)) vs) @ rest"
    using read_typed_upcoming [OF Cons.prems(1), of v "concat (map (typed_bytes (io_byte_order s)) vs) @ rest"] Cons.prems(2,3)
    by auto
  have "io_byte_order s1 = io_byte_order s" using s1(3) by (simp add: same_orders_def)
  then show ?case using s1 Cons.IH [OF s1(2)] Cons.prems(2) by auto
qed simp

lemma stream_at_start:
  assumes "at_end s"
  shows "stream_good (snd (seekToBegin s))" "upcoming (snd (seekToBegin s)) = contents s" "same_orders s (snd (seekToBegin s))"
  using assms moved_good [of s 0]
  by (auto simp: seekToBegin_def at_end_def upcoming_def same_orders_def stream_good_def)

text \<open>Some bytes of an integer.\<close>

lemma little_endian_step:
  "little_endian (Suc n) (v :: 'a::len word) = ucast (v AND 0xFF) # little_endian n (drop_bit 8 v)"
proof (rule nth_equalityI)
  fix i assume i: "i < length (little_endian (Suc n) v)"
  have "v AND 0xFF = take_bit 8 v" by (simp add: take_bit_eq_mask mask_eq_exp_minus_1)
  moreover have "ucast (take_bit 8 v) = (ucast v :: byte)" by (rule bit_word_eqI) (auto simp: bit_simps)
  ultimately have "ucast (v AND 0xFF) = (ucast v :: byte)" by simp
  then show "little_endian (Suc n) v ! i = (ucast (v AND 0xFF) # little_endian n (drop_bit 8 v)) ! i"
    using i by (cases i) (simp_all add: little_endian_def nth_Cons' add.commute del: upt_Suc)
qed simp


lemma writeBytes_end:
  "at_end s \<Longrightarrow> length (contents s) + n < 2 ^ 61 \<Longrightarrow>
   \<exists>s'. writeBytes mem_write n v s = Inr s' \<and> at_end s' \<and> same_orders s s' \<and> contents s' = contents s @ little_endian n v"
proof (induction n arbitrary: v s)
  case (Suc n)
  have one: "memory_of order 1 x = [x]" for order and x :: byte by (simp add: memory_of_def little_endian_def)
  obtain s1 where s1: "write_value mem_write 1 (ucast (v AND 0xFF) :: byte) s = Inr s1" "at_end s1" "same_orders s s1"
      "contents s1 = contents s @ [ucast (v AND 0xFF)]"
    using write_value_end [OF Suc.prems(1), of 1 "ucast (v AND 0xFF) :: byte"] Suc.prems(2) by (auto simp: one [simplified])
  then show ?case using Suc.IH [OF s1(2)] Suc.prems(2)
    by (auto simp: little_endian_step intro: same_orders_trans)
qed (simp add: little_endian_def)

lemma readBytes64_upcoming:
  "stream_good s \<Longrightarrow> upcoming s = xs @ rest \<Longrightarrow>
   \<exists>s'. readBytes64_loop mem_read (length xs) v8 v s = Inr (foldl (\<lambda>v b. push_bit 8 v OR ucast b) v xs, s')"
proof (induction xs arbitrary: v8 v s)
  case (Cons x xs)
  have one: "memory_of order 1 x = [x]" for order by (simp add: memory_of_def little_endian_def)
  obtain s1 where s1: "read_value mem_read 1 v8 s = Inr (x, s1)" "stream_good s1" "upcoming s1 = xs @ rest"
    using read_value_upcoming [OF Cons.prems(1), of 1 x "xs @ rest" v8] Cons.prems(2) by (auto simp: one [simplified])
  then show ?case using Cons.IH [OF s1(2,3), of x "push_bit 8 v OR ucast x"] by simp
qed simp

lemma readBytes32_upcoming:
  "stream_good s \<Longrightarrow> upcoming s = xs @ rest \<Longrightarrow> k + length xs \<le> 4 \<Longrightarrow>
   \<exists>s'. readBytes32_loop mem_read [k..<k + length xs] v8 v s = Inr (v OR push_bit (8 * k) (little_endian_value xs), s')"
proof (induction xs arbitrary: v8 v k s)
  case Nil
  then show ?case by (simp add: little_endian_value_def)
next
  case (Cons x xs)
  have one: "memory_of order 1 x = [x]" for order by (simp add: memory_of_def little_endian_def)
  obtain s1 where s1: "read_value mem_read 1 v8 s = Inr (x, s1)" "stream_good s1" "upcoming s1 = xs @ rest"
    using read_value_upcoming [OF Cons.prems(1), of 1 x "xs @ rest" v8] Cons.prems(2) by (auto simp: one [simplified])
  have "little_endian_value (x # xs) = (push_bit 8 (little_endian_value xs) OR ucast x :: u32)"
    by (simp add: little_endian_value_def)
  then have "v OR push_bit (8 * k) (little_endian_value (x # xs)) =
      (v OR push_bit (8 * k) (ucast x)) OR push_bit (8 * (k + 1)) (little_endian_value xs :: u32)"
    by (simp add: push_bit_or or.assoc or.commute or.left_commute add.commute)
  moreover have "[k..<k + length (x # xs)] = k # [k + 1..<(k + 1) + length xs]"
    by (subst upt_conv_Cons) auto
  ultimately show ?case
    using s1 Cons.IH [OF s1(2,3), of "k + 1" x "v OR push_bit (8 * k) (ucast x)"] Cons.prems(3) by simp
qed

text \<open>A stream of reversed type never reads inside its buffer.\<close>

lemma reversed_read_overreads:
  assumes "io_buffer s = Some b" "0 < io_size s" "io_left_end s < io_pos s" "0 < n"
  shows "rev_read_to False n s = Inl Over_Read"
  using assms by (simp add: rev_read_to_def buffer_read_def Let_def)

lemma reversed_over_buffer_is_at_its_end: "rev_atEnd (new_reversed_over sys order buffer n s)"
  by (simp add: rev_atEnd_def new_reversed_over_def rev_setBuffer_def rev_freeBuffer_def freeBuffer_def)

text \<open>An integer of 24 bits comes back without its sign.\<close>

lemma int24_loses_sign: "readInt24 = readUInt24" "writeInt24 = writeUInt24"
  by (simp_all add: fun_eq_iff readInt24_def readUInt24_def writeInt24_def writeUInt24_def)

section \<open>Properties\<close>


definition sample_stream :: mem_stream where
  "sample_stream = new_stream LittleEndian BigEndian
     \<lparr>sys_byte_order = LittleEndian, io_byte_order = BigEndian, read_ok = False, write_ok = False, io_buffer = None,
      io_pos = 0, io_size = 0, io_alloc = False, io_max_size = 0, io_left_end = 0, io_junk = \<lambda>_. 0xCD\<rparr>"

lemma sample_stream_good [simp]: "stream_good sample_stream" "contents sample_stream = []" "cursor sample_stream = 0"
  by (simp_all add: sample_stream_def stream_good_new)




text \<open>
  Integers of odd widths: what \<open>writeBytes\<close> has written, \<open>readBytes\<close> of 32 bits reads back; \<open>readBytes\<close> of
  64 bits, however, takes the same bytes in the opposite order.
\<close>

theorem some_bytes_read_back:
  fixes v :: u32 and w :: u64
  assumes "m \<le> 4" "n \<le> 8"
  shows "(\<exists>s s1. writeBytes mem_write m v (new_stream sys order s0) = Inr s \<and>
      readBytes32 mem_read m (snd (seekToBegin s)) = Inr (take_bit (8 * m) v, s1)) \<and>
    (\<exists>s s1. writeBytes mem_write n w (new_stream sys order s0) = Inr s \<and>
      readBytes64 mem_read n (snd (seekToBegin s)) = Inr (little_endian_value (rev (little_endian n w)), s1))"
proof -
  have new: "at_end (new_stream sys order s0)" "contents (new_stream sys order s0) = []"
    by (simp_all add: at_end_def stream_good_new)
  obtain s where s: "writeBytes mem_write m v (new_stream sys order s0) = Inr s" "stream_good (snd (seekToBegin s))"
      "upcoming (snd (seekToBegin s)) = little_endian m v @ []"
    using writeBytes_end [OF new(1), of m v] stream_at_start(1,2) new(2) assms(1) by fastforce
  obtain t where t: "writeBytes mem_write n w (new_stream sys order s0) = Inr t" "stream_good (snd (seekToBegin t))"
      "upcoming (snd (seekToBegin t)) = little_endian n w @ []"
    using writeBytes_end [OF new(1), of n w] stream_at_start(1,2) new(2) assms(2) by fastforce
  have "foldl (\<lambda>v b. push_bit 8 v OR ucast b) 0 xs = (little_endian_value (rev xs) :: u64)" for xs
    by (simp add: little_endian_value_def foldr_conv_foldl)
  then show ?thesis
    using s(1) readBytes32_upcoming [OF s(2,3), of 0 0 0] t(1) readBytes64_upcoming [OF t(2,3), of 0 0] assms(1)
    by (auto simp: readBytes32_def readBytes64_def little_endian_roundtrip)
qed

theorem some_bytes_read_back_witness:
  "(\<exists>s s1. writeBytes mem_write 3 (0x123456 :: u32) (new_stream LittleEndian BigEndian sample_stream) = Inr s \<and>
      readBytes32 mem_read 3 (snd (seekToBegin s)) = Inr (0x123456, s1)) \<and>
   (\<exists>s s1. writeBytes mem_write 3 (0x123456 :: u64) (new_stream LittleEndian BigEndian sample_stream) = Inr s \<and>
      readBytes64 mem_read 3 (snd (seekToBegin s)) = Inr (0x563412, s1))"
proof -
  have "take_bit (8 * 3) (0x123456 :: u32) = 0x123456" by (simp add: take_bit_eq_mask mask_eq_exp_minus_1)
  moreover have "little_endian_value (rev (little_endian 3 (0x123456 :: u64))) = (0x563412 :: u64)"
    by (simp add: little_endian_def little_endian_value_def numeral_3_eq_3)
  ultimately show ?thesis
    using some_bytes_read_back [of 3 3, where v = "0x123456" and w = "0x123456" and sys = LittleEndian and order = BigEndian and ?s0.0 = sample_stream] by simp
qed

end
