(* ===== verification/Md5.thy ===== *)
theory Md5
  imports Engine_Prelude
begin

text \<open>
  \<open>utils/md5.cc\<close> and \<open>utils/md5.h\<close>: the class \<open>MD5\<close>. The object is a record of its members, the four words of
  \<open>state\<close> are a tuple. A new object has a buffer and a digest of unknown contents, which are arguments. The text given
  to \<open>update\<close> is the memory from its pointer on.
\<close>

section \<open>The basic functions\<close>

definition MD5_F :: "u32 \<Rightarrow> u32 \<Rightarrow> u32 \<Rightarrow> u32" where "MD5_F x y z = (x AND y) OR (NOT x AND z)"
definition MD5_G :: "u32 \<Rightarrow> u32 \<Rightarrow> u32 \<Rightarrow> u32" where "MD5_G x y z = (x AND z) OR (y AND NOT z)"
definition MD5_H :: "u32 \<Rightarrow> u32 \<Rightarrow> u32 \<Rightarrow> u32" where "MD5_H x y z = x XOR y XOR z"
definition MD5_I :: "u32 \<Rightarrow> u32 \<Rightarrow> u32 \<Rightarrow> u32" where "MD5_I x y z = y XOR (x OR NOT z)"

definition rotate_left :: "u32 \<Rightarrow> nat \<Rightarrow> u32" where
  "rotate_left x n = push_bit n x OR drop_bit (32 - n) x"

text \<open>\<open>FF\<close>, \<open>GG\<close>, \<open>HH\<close> and \<open>II\<close>: the new value of their first argument.\<close>

definition FF :: "u32 \<Rightarrow> u32 \<Rightarrow> u32 \<Rightarrow> u32 \<Rightarrow> u32 \<Rightarrow> nat \<Rightarrow> u32 \<Rightarrow> u32" where
  "FF a b c d x s ac = rotate_left (a + MD5_F b c d + x + ac) s + b"
definition GG :: "u32 \<Rightarrow> u32 \<Rightarrow> u32 \<Rightarrow> u32 \<Rightarrow> u32 \<Rightarrow> nat \<Rightarrow> u32 \<Rightarrow> u32" where
  "GG a b c d x s ac = rotate_left (a + MD5_G b c d + x + ac) s + b"
definition HH :: "u32 \<Rightarrow> u32 \<Rightarrow> u32 \<Rightarrow> u32 \<Rightarrow> u32 \<Rightarrow> nat \<Rightarrow> u32 \<Rightarrow> u32" where
  "HH a b c d x s ac = rotate_left (a + MD5_H b c d + x + ac) s + b"
definition II :: "u32 \<Rightarrow> u32 \<Rightarrow> u32 \<Rightarrow> u32 \<Rightarrow> u32 \<Rightarrow> nat \<Rightarrow> u32 \<Rightarrow> u32" where
  "II a b c d x s ac = rotate_left (a + MD5_I b c d + x + ac) s + b"

text \<open>\<open>decode\<close> and \<open>encode\<close>: words from and to bytes, the lowest byte first.\<close>

fun md5_decode :: "byte list \<Rightarrow> u32 list" where
  "md5_decode (b0 # b1 # b2 # b3 # bs) =
     (ucast b0 OR push_bit 8 (ucast b1) OR push_bit 16 (ucast b2) OR push_bit 24 (ucast b3)) # md5_decode bs"
| "md5_decode _ = []"

fun md5_encode :: "u32 list \<Rightarrow> byte list" where
  "md5_encode [] = []"
| "md5_encode (w # ws) =
     ucast (w AND 0xff) # ucast (drop_bit 8 w AND 0xff) # ucast (drop_bit 16 w AND 0xff) # ucast (drop_bit 24 w AND 0xff) #
     md5_encode ws"

section \<open>The transformation of a block\<close>

type_synonym md5_words = "u32 \<times> u32 \<times> u32 \<times> u32"

text \<open>Four calls of the same function, whose arguments go round; the rounds of \<open>transform\<close> consist of four such groups.\<close>

definition four_steps ::
    "(u32 \<Rightarrow> u32 \<Rightarrow> u32 \<Rightarrow> u32 \<Rightarrow> u32 \<Rightarrow> nat \<Rightarrow> u32 \<Rightarrow> u32) \<Rightarrow> u32 \<times> u32 \<times> u32 \<times> u32 \<Rightarrow> nat \<times> nat \<times> nat \<times> nat \<Rightarrow>
     u32 \<times> u32 \<times> u32 \<times> u32 \<Rightarrow> md5_words \<Rightarrow> md5_words" where
  "four_steps f = (\<lambda>(x0, x1, x2, x3) (s0, s1, s2, s3) (ac0, ac1, ac2, ac3) (a, b, c, d).
     let a = f a b c d x0 s0 ac0;
         d = f d a b c x1 s1 ac1;
         c = f c d a b x2 s2 ac2;
         b = f b c d a x3 s3 ac3
     in (a, b, c, d))"

definition md5_round1 :: "u32 list \<Rightarrow> md5_words \<Rightarrow> md5_words" where
  "md5_round1 x w = (let s = (7, 12, 17, 22);
     w = four_steps FF (x ! 0, x ! 1, x ! 2, x ! 3) s (0xd76aa478, 0xe8c7b756, 0x242070db, 0xc1bdceee) w;
     w = four_steps FF (x ! 4, x ! 5, x ! 6, x ! 7) s (0xf57c0faf, 0x4787c62a, 0xa8304613, 0xfd469501) w;
     w = four_steps FF (x ! 8, x ! 9, x ! 10, x ! 11) s (0x698098d8, 0x8b44f7af, 0xffff5bb1, 0x895cd7be) w;
     w = four_steps FF (x ! 12, x ! 13, x ! 14, x ! 15) s (0x6b901122, 0xfd987193, 0xa679438e, 0x49b40821) w
   in w)"

definition md5_round2 :: "u32 list \<Rightarrow> md5_words \<Rightarrow> md5_words" where
  "md5_round2 x w = (let s = (5, 9, 14, 20);
     w = four_steps GG (x ! 1, x ! 6, x ! 11, x ! 0) s (0xf61e2562, 0xc040b340, 0x265e5a51, 0xe9b6c7aa) w;
     w = four_steps GG (x ! 5, x ! 10, x ! 15, x ! 4) s (0xd62f105d, 0x2441453, 0xd8a1e681, 0xe7d3fbc8) w;
     w = four_steps GG (x ! 9, x ! 14, x ! 3, x ! 8) s (0x21e1cde6, 0xc33707d6, 0xf4d50d87, 0x455a14ed) w;
     w = four_steps GG (x ! 13, x ! 2, x ! 7, x ! 12) s (0xa9e3e905, 0xfcefa3f8, 0x676f02d9, 0x8d2a4c8a) w
   in w)"

definition md5_round3 :: "u32 list \<Rightarrow> md5_words \<Rightarrow> md5_words" where
  "md5_round3 x w = (let s = (4, 11, 16, 23);
     w = four_steps HH (x ! 5, x ! 8, x ! 11, x ! 14) s (0xfffa3942, 0x8771f681, 0x6d9d6122, 0xfde5380c) w;
     w = four_steps HH (x ! 1, x ! 4, x ! 7, x ! 10) s (0xa4beea44, 0x4bdecfa9, 0xf6bb4b60, 0xbebfbc70) w;
     w = four_steps HH (x ! 13, x ! 0, x ! 3, x ! 6) s (0x289b7ec6, 0xeaa127fa, 0xd4ef3085, 0x4881d05) w;
     w = four_steps HH (x ! 9, x ! 12, x ! 15, x ! 2) s (0xd9d4d039, 0xe6db99e5, 0x1fa27cf8, 0xc4ac5665) w
   in w)"

definition md5_round4 :: "u32 list \<Rightarrow> md5_words \<Rightarrow> md5_words" where
  "md5_round4 x w = (let s = (6, 10, 15, 21);
     w = four_steps II (x ! 0, x ! 7, x ! 14, x ! 5) s (0xf4292244, 0x432aff97, 0xab9423a7, 0xfc93a039) w;
     w = four_steps II (x ! 12, x ! 3, x ! 10, x ! 1) s (0x655b59c3, 0x8f0ccc92, 0xffeff47d, 0x85845dd1) w;
     w = four_steps II (x ! 8, x ! 15, x ! 6, x ! 13) s (0x6fa87e4f, 0xfe2ce6e0, 0xa3014314, 0x4e0811a1) w;
     w = four_steps II (x ! 4, x ! 11, x ! 2, x ! 9) s (0xf7537e82, 0xbd3af235, 0x2ad7d2bb, 0xeb86d391) w
   in w)"

definition md5_transform :: "byte list \<Rightarrow> md5_words \<Rightarrow> md5_words" where
  "md5_transform block = (\<lambda>(s0, s1, s2, s3).
     let x = md5_decode block;
         (a, b, c, d) = md5_round4 x (md5_round3 x (md5_round2 x (md5_round1 x (s0, s1, s2, s3))))
     in (s0 + a, s1 + b, s2 + c, s3 + d))"

section \<open>The object\<close>

record md5_object =
  finalized :: bool
  md5_buffer :: "byte list"
  count_lo :: u32
  count_hi :: u32
  md5_state :: md5_words
  md5_digest :: "byte list"

text \<open>\<open>init\<close>, which the constructor calls.\<close>

definition md5_init :: "md5_object \<Rightarrow> md5_object" where
  "md5_init m = m\<lparr>finalized := False, count_lo := 0, count_hi := 0,
     md5_state := (0x67452301, 0xefcdab89, 0x98badcfe, 0x10325476)\<rparr>"

text \<open>
  The loop over the whole blocks. Its counter has 32 bits; once it has gone round it meets the same blocks again, and
  the loop does not end.
\<close>

function transform_loop :: "byte list \<Rightarrow> u32 \<Rightarrow> u32 \<Rightarrow> md5_words \<Rightarrow> (u32 \<times> md5_words) res" where
  "transform_loop input i len w =
     (if i + 64 \<le> len then
        bindR (read_bytes input (unat i) 64) (\<lambda>block.
          if i + 64 < i then Inl Endless_Loop else transform_loop input (i + 64) len (md5_transform block w))
      else Inr (i, w))"
  by pat_completeness auto
termination
proof (relation "measure (\<lambda>(_, i, _). 2 ^ 32 - unat i)", goal_cases)
  case (2 input i len w block)
  then show ?case
    using unat_less_power [of i] by (simp add: word_less_nat_alt unat_plus_if' split: if_split_asm)
qed simp

declare transform_loop.simps [simp del]

text \<open>\<^verbatim>\<open>memcpy(&buffer[index], ...)\<close>.\<close>

definition fill_buffer :: "byte list \<Rightarrow> u32 \<Rightarrow> byte list \<Rightarrow> byte list res" where
  "fill_buffer b index xs =
     (if unat index + length xs \<le> length b then Inr (take (unat index) b @ xs @ drop (unat index + length xs) b)
      else Inl Over_Write)"

definition md5_update :: "byte list \<Rightarrow> u32 \<Rightarrow> md5_object \<Rightarrow> md5_object res" where
  "md5_update input len m =
     (let index = count_lo m div 8 mod 64;
          lo = count_lo m + push_bit 3 len;
          hi = (if lo < push_bit 3 len then count_hi m + 1 else count_hi m) + drop_bit 29 len;
          m = m\<lparr>count_lo := lo, count_hi := hi\<rparr>;
          firstpart = 64 - index
      in bindR (if firstpart \<le> len then
           bindR (read_bytes input 0 (unat firstpart)) (\<lambda>xs.
           bindR (fill_buffer (md5_buffer m) index xs) (\<lambda>b.
           bindR (transform_loop input firstpart len (md5_transform b (md5_state m))) (\<lambda>(i, w).
             Inr (0, i, m\<lparr>md5_buffer := b, md5_state := w\<rparr>))))
         else Inr (index, 0, m)) (\<lambda>(index, i, m).
         bindR (read_bytes input (unat i) (unat (len - i))) (\<lambda>xs.
         bindR (fill_buffer (md5_buffer m) index xs) (\<lambda>b. Inr (m\<lparr>md5_buffer := b\<rparr>)))))"

definition md5_finalize :: "md5_object \<Rightarrow> md5_object res" where
  "md5_finalize m =
     (if finalized m then Inr m
      else
        let padding = 0x80 # replicate 63 0;
            bits = md5_encode [count_lo m, count_hi m];
            index = count_lo m div 8 mod 64;
            padLen = (if index < 56 then 56 - index else 120 - index)
        in bindR (md5_update padding padLen m) (\<lambda>m.
           bindR (md5_update bits 8 m) (\<lambda>m.
             case md5_state m of (s0, s1, s2, s3) \<Rightarrow>
               Inr (m\<lparr>md5_digest := md5_encode [s0, s1, s2, s3], md5_buffer := replicate 64 0, count_lo := 0, count_hi := 0,
                      finalized := True\<rparr>))))"

text \<open>\<^verbatim>\<open>sprintf("%02x")\<close> of a byte.\<close>

definition hex_lower :: "nat \<Rightarrow> byte" where
  "hex_lower n = of_nat (if n < 10 then 48 + n else 87 + n)"

definition hex_byte :: "byte \<Rightarrow> byte list" where
  "hex_byte b = [hex_lower (unat b div 16), hex_lower (unat b mod 16)]"

definition hexdigest :: "md5_object \<Rightarrow> byte list" where
  "hexdigest m = (if \<not> finalized m then [] else concat (map hex_byte (take 16 (md5_digest m))))"

text \<open>The constructor from a string, whose length it cuts to 32 bits, and the function \<open>md5\<close>.\<close>

definition md5_of_string :: "byte list \<Rightarrow> md5_object \<Rightarrow> md5_object res" where
  "md5_of_string text junk = bindR (md5_update text (of_nat (length text)) (md5_init junk)) md5_finalize"

definition md5_function :: "byte list \<Rightarrow> md5_object \<Rightarrow> byte list res" where
  "md5_function str junk = bindR (md5_of_string str junk) (\<lambda>m. Inr (hexdigest m))"

end
