(* ===== verification/Md5_Codec.thy ===== *)
theory Md5_Codec
  imports Md5
begin

text \<open>
  What \<open>MD5\<close> computes: however a text is cut into pieces that are given to \<open>update\<close>, the digest is the one of RFC
  1321, stated over the whole text with its padding.
\<close>

section \<open>The algorithm of RFC 1321\<close>

text \<open>One of the 64 steps on a block of sixteen words.\<close>

definition rfc_constants :: "u32 list" where
  "rfc_constants =
    [0xd76aa478, 0xe8c7b756, 0x242070db, 0xc1bdceee, 0xf57c0faf, 0x4787c62a, 0xa8304613, 0xfd469501,
     0x698098d8, 0x8b44f7af, 0xffff5bb1, 0x895cd7be, 0x6b901122, 0xfd987193, 0xa679438e, 0x49b40821,
     0xf61e2562, 0xc040b340, 0x265e5a51, 0xe9b6c7aa, 0xd62f105d, 0x02441453, 0xd8a1e681, 0xe7d3fbc8,
     0x21e1cde6, 0xc33707d6, 0xf4d50d87, 0x455a14ed, 0xa9e3e905, 0xfcefa3f8, 0x676f02d9, 0x8d2a4c8a,
     0xfffa3942, 0x8771f681, 0x6d9d6122, 0xfde5380c, 0xa4beea44, 0x4bdecfa9, 0xf6bb4b60, 0xbebfbc70,
     0x289b7ec6, 0xeaa127fa, 0xd4ef3085, 0x04881d05, 0xd9d4d039, 0xe6db99e5, 0x1fa27cf8, 0xc4ac5665,
     0xf4292244, 0x432aff97, 0xab9423a7, 0xfc93a039, 0x655b59c3, 0x8f0ccc92, 0xffeff47d, 0x85845dd1,
     0x6fa87e4f, 0xfe2ce6e0, 0xa3014314, 0x4e0811a1, 0xf7537e82, 0xbd3af235, 0x2ad7d2bb, 0xeb86d391]"

definition rfc_step :: "u32 list \<Rightarrow> md5_words \<Rightarrow> nat \<Rightarrow> md5_words" where
  "rfc_step x = (\<lambda>(a, b, c, d) i.
     let r = i div 16;
         mix = [(b AND c) OR (NOT b AND d), (b AND d) OR (c AND NOT d), b XOR c XOR d, c XOR (b OR NOT d)] ! r;
         k = [i, 5 * i + 1, 3 * i + 5, 7 * i] ! r mod 16;
         s = [[7, 12, 17, 22], [5, 9, 14, 20], [4, 11, 16, 23], [6, 10, 15, 21]] ! r ! (i mod 4)
     in (d, b + word_rotl s (a + mix + x ! k + rfc_constants ! i), b, c))"

definition rfc_block :: "byte list \<Rightarrow> md5_words \<Rightarrow> md5_words" where
  "rfc_block bs = (\<lambda>(s0, s1, s2, s3).
     let x = map (\<lambda>i. \<Sum>j<4. of_nat (unat (bs ! (4 * i + j)) * 256 ^ j)) [0..<16]
     in case foldl (rfc_step x) (s0, s1, s2, s3) [0..<64] of (a, b, c, d) \<Rightarrow> (s0 + a, s1 + b, s2 + c, s3 + d))"

text \<open>The blocks of a text, without the bytes behind the last whole one.\<close>

function rfc_blocks :: "byte list \<Rightarrow> md5_words \<Rightarrow> md5_words" where
  "rfc_blocks xs w = (if length xs < 64 then w else rfc_blocks (drop 64 xs) (rfc_block (take 64 xs) w))"
  by pat_completeness auto
termination by (relation "measure (length \<circ> fst)") auto

declare rfc_blocks.simps [simp del]

text \<open>The padding: a set bit, zeros up to eight bytes below a multiple of 64, and the number of bits in 64 bits.\<close>

definition rfc_length :: "nat \<Rightarrow> byte list" where
  "rfc_length n = map (\<lambda>i. of_nat (8 * n div 256 ^ i)) [0..<8]"

definition rfc_padding :: "nat \<Rightarrow> byte list" where
  "rfc_padding n = 0x80 # replicate ((119 - n mod 64) mod 64) 0"

definition rfc_md5 :: "byte list \<Rightarrow> byte list" where
  "rfc_md5 xs =
     (case rfc_blocks (xs @ rfc_padding (length xs) @ rfc_length (length xs)) (0x67452301, 0xefcdab89, 0x98badcfe, 0x10325476)
      of (a, b, c, d) \<Rightarrow> concat (map (\<lambda>w. map (\<lambda>i. of_nat (unat w div 256 ^ i)) [0..<4]) [a, b, c, d]))"

section \<open>The transformation\<close>

lemma rotate_left_rotl: "0 < n \<Longrightarrow> n < 32 \<Longrightarrow> rotate_left x n = word_rotl n x"
proof (rule bit_word_eqI)
  fix m assume a: "0 < n" "n < 32" "m < LENGTH(32)"
  have "m < n \<Longrightarrow> 32 + m - n = m + 32 - n" "\<not> m < n \<Longrightarrow> (m + 32 - n) mod 32 = m - n" "\<not> m < n \<Longrightarrow> \<not> bit x (32 + m - n)"
    using a by (auto dest: bit_imp_le_length simp: mod_if)
  then show "bit (rotate_left x n) m = bit (word_rotl n x) m"
    using a by (cases "m < n")
      (auto simp: rotate_left_def bit_or_iff bit_push_bit_iff bit_drop_bit_eq bit_word_rotl_iff dest: bit_imp_le_length)
qed

definition md5_row :: "(u32 \<Rightarrow> u32 \<Rightarrow> u32 \<Rightarrow> u32 \<Rightarrow> u32 \<Rightarrow> nat \<Rightarrow> u32 \<Rightarrow> u32) \<Rightarrow> md5_words \<Rightarrow> u32 \<times> nat \<times> u32 \<Rightarrow> md5_words" where
  "md5_row f = (\<lambda>(a, b, c, d) (x, s, ac). (d, f a b c d x s ac, b, c))"

lemma four_steps_rows:
  "four_steps f (x0, x1, x2, x3) (s0, s1, s2, s3) (ac0, ac1, ac2, ac3) w =
   foldl (md5_row f) w [(x0, s0, ac0), (x1, s1, ac1), (x2, s2, ac2), (x3, s3, ac3)]"
  by (cases w) (simp add: four_steps_def md5_row_def Let_def)

lemma word_of_bytes:
  fixes b0 b1 b2 b3 :: byte
  shows "ucast b0 OR push_bit 8 (ucast b1) OR push_bit 16 (ucast b2) OR push_bit 24 (ucast b3) =
   (of_nat (unat b0 + unat b1 * 256 + unat b2 * 65536 + unat b3 * 16777216) :: u32)"
proof -
  have byte: "bit b k \<Longrightarrow> k < 8" for b :: byte and k using bit_imp_le_length [of b k] by simp
  have "push_bit 16 (ucast b2) OR push_bit 24 (ucast b3) = (push_bit 16 (ucast b2) + push_bit 24 (ucast b3) :: u32)"
    by (rule disjunctive_add_eq_or [symmetric]) (auto intro!: bit_word_eqI simp: bit_simps dest!: byte)
  moreover have "push_bit 8 (ucast b1) OR (push_bit 16 (ucast b2) OR push_bit 24 (ucast b3)) = (push_bit 8 (ucast b1) + (push_bit 16 (ucast b2) OR push_bit 24 (ucast b3)) :: u32)"
    by (rule disjunctive_add_eq_or [symmetric]) (auto intro!: bit_word_eqI simp: bit_simps dest!: byte)
  moreover have "ucast b0 OR (push_bit 8 (ucast b1) OR (push_bit 16 (ucast b2) OR push_bit 24 (ucast b3))) = (ucast b0 + (push_bit 8 (ucast b1) OR (push_bit 16 (ucast b2) OR push_bit 24 (ucast b3))) :: u32)"
    by (rule disjunctive_add_eq_or [symmetric]) (auto intro!: bit_word_eqI simp: bit_simps dest!: byte)
  moreover have "(of_nat (unat b) :: u32) = ucast b" for b :: byte by simp
  ultimately show ?thesis by (simp add: push_bit_eq_mult or.assoc add.assoc)
qed
lemma decode_words: "length bs = 4 * n \<Longrightarrow>
  md5_decode bs = map (\<lambda>i. \<Sum>j<4. of_nat (unat (bs ! (4 * i + j)) * 256 ^ j)) [0..<n]"
proof (induction n arbitrary: bs)
  case (Suc n)
  then obtain b0 b1 b2 b3 cs where bs: "bs = b0 # b1 # b2 # b3 # cs" "length cs = 4 * n"
    by (auto simp: length_Suc_conv eval_nat_numeral)
  have "[0..<Suc n] = 0 # map Suc [0..<n]" by (simp add: upt_conv_Cons map_Suc_upt)
  then show ?case using Suc.IH [OF bs(2)] word_of_bytes [of b0 b1 b2 b3]
    by (simp add: bs(1) lessThan_nat_numeral lessThan_Suc add.commute add.left_commute)
qed simp
text \<open>A fold over steps that are rows of the table.\<close>

lemma foldl_rows: "(\<And>i w. i \<in> set is \<Longrightarrow> g w i = md5_row f w (row i)) \<Longrightarrow> foldl g w is = foldl (md5_row f) w (map row is)"
  by (induction "is" arbitrary: w) auto

lemma shifts_in_range: "[[7, 12, 17, 22], [5, 9, 14, 20], [4, 11, 16, 23], [6, 10, 15, 21]] ! r ! (i mod 4) \<in> {1..<32 :: nat}"
  if "r < 4" for i :: nat
proof -
  have "r = 0 \<or> r = 1 \<or> r = 2 \<or> r = 3" "i mod 4 = 0 \<or> i mod 4 = 1 \<or> i mod 4 = 2 \<or> i mod 4 = 3" using that by presburger+
  then show ?thesis by (elim disjE) (simp_all add: numeral_2_eq_2 numeral_3_eq_3)
qed

lemma upt_16: "[0..<16] = [0, 1, 2, 3, 4, 5, 6, 7, 8, 9, 10, 11, 12, 13, 14, 15]"
  by (simp add: upt_rec)

lemma rfc_round1: "foldl (rfc_step x) w [0..<16] = md5_round1 x w"
proof -
  let ?row = "\<lambda>i. (x ! (i), [7, 12, 17, 22] ! (i mod 4), rfc_constants ! i)"
  have row: "rfc_step x w i = md5_row FF w (?row i)" if "0 \<le> i" "i < 16" for i w
  proof -
    have "i div 16 = 0" using that by simp
    then show ?thesis using shifts_in_range [of 0 i] that
      by (cases w) (simp add: rfc_step_def md5_row_def FF_def MD5_F_def Let_def rotate_left_rotl add_ac)
  qed
  have "foldl (rfc_step x) w [0..<16] = foldl (md5_row FF) w (map ?row [0..<16])"
    by (rule foldl_rows, rule row, simp_all only: set_upt atLeastLessThan_iff)
  also have "\<dots> = md5_round1 x w"
    by (simp add: upt_16 upt_rec_numeral md5_round1_def four_steps_rows Let_def rfc_constants_def)
  finally show ?thesis .
qed

lemma rfc_round2: "foldl (rfc_step x) w [16..<32] = md5_round2 x w"
proof -
  let ?row = "\<lambda>i. (x ! ((5 * i + 1) mod 16), [5, 9, 14, 20] ! (i mod 4), rfc_constants ! i)"
  have row: "rfc_step x w i = md5_row GG w (?row i)" if "16 \<le> i" "i < 32" for i w
  proof -
    have "i div 16 = 1" using that by simp
    then show ?thesis using shifts_in_range [of 1 i] that
      by (cases w) (simp add: rfc_step_def md5_row_def GG_def MD5_G_def Let_def rotate_left_rotl add_ac)
  qed
  have "foldl (rfc_step x) w [16..<32] = foldl (md5_row GG) w (map ?row [16..<32])"
    by (rule foldl_rows, rule row, simp_all only: set_upt atLeastLessThan_iff)
  also have "\<dots> = md5_round2 x w"
    by (simp add: upt_16 upt_rec_numeral md5_round2_def four_steps_rows Let_def rfc_constants_def)
  finally show ?thesis .
qed

lemma rfc_round3: "foldl (rfc_step x) w [32..<48] = md5_round3 x w"
proof -
  let ?row = "\<lambda>i. (x ! ((3 * i + 5) mod 16), [4, 11, 16, 23] ! (i mod 4), rfc_constants ! i)"
  have row: "rfc_step x w i = md5_row HH w (?row i)" if "32 \<le> i" "i < 48" for i w
  proof -
    have "i div 16 = 2" using that by simp
    then show ?thesis using shifts_in_range [of 2 i] that
      by (cases w) (simp add: rfc_step_def md5_row_def HH_def MD5_H_def Let_def rotate_left_rotl add_ac)
  qed
  have "foldl (rfc_step x) w [32..<48] = foldl (md5_row HH) w (map ?row [32..<48])"
    by (rule foldl_rows, rule row, simp_all only: set_upt atLeastLessThan_iff)
  also have "\<dots> = md5_round3 x w"
    by (simp add: upt_16 upt_rec_numeral md5_round3_def four_steps_rows Let_def rfc_constants_def)
  finally show ?thesis .
qed

lemma rfc_round4: "foldl (rfc_step x) w [48..<64] = md5_round4 x w"
proof -
  let ?row = "\<lambda>i. (x ! (7 * i mod 16), [6, 10, 15, 21] ! (i mod 4), rfc_constants ! i)"
  have row: "rfc_step x w i = md5_row II w (?row i)" if "48 \<le> i" "i < 64" for i w
  proof -
    have "i div 16 = 3" using that by simp
    then show ?thesis using shifts_in_range [of 3 i] that
      by (cases w) (simp add: rfc_step_def md5_row_def II_def MD5_I_def Let_def rotate_left_rotl add_ac)
  qed
  have "foldl (rfc_step x) w [48..<64] = foldl (md5_row II) w (map ?row [48..<64])"
    by (rule foldl_rows, rule row, simp_all only: set_upt atLeastLessThan_iff)
  also have "\<dots> = md5_round4 x w"
    by (simp add: upt_16 upt_rec_numeral md5_round4_def four_steps_rows Let_def rfc_constants_def)
  finally show ?thesis .
qed

lemma md5_transform_rfc:
  assumes "length bs = 64"
  shows "md5_transform bs w = rfc_block bs w"
proof -
  have split: "[0..<64] = [0..<16] @ [16..<32] @ [32..<48] @ [48..<64]"
    using upt_add_eq_append [of 0 16 48] upt_add_eq_append [of 16 32 32] upt_add_eq_append [of 32 48 16]
    by (simp only: add_0 le0 simp_thms append_assoc) simp
  show ?thesis
    by (cases w) (simp only: md5_transform_def rfc_block_def decode_words [of bs 16] assms split foldl_append
      rfc_round1 rfc_round2 rfc_round3 rfc_round4 Let_def prod.case)
qed

section \<open>The blocks of a text\<close>

abbreviation md5_start :: md5_words where
  "md5_start \<equiv> (0x67452301, 0xefcdab89, 0x98badcfe, 0x10325476)"

text \<open>What does not fill a block yet.\<close>

definition md5_rest :: "byte list \<Rightarrow> byte list" where
  "md5_rest xs = drop (64 * (length xs div 64)) xs"

lemma length_md5_rest: "length (md5_rest xs) = length xs mod 64"
  by (simp add: md5_rest_def minus_mult_div_eq_mod)

lemma rfc_blocks_append: "rfc_blocks (xs @ ys) w = rfc_blocks (md5_rest xs @ ys) (rfc_blocks xs w)"
proof (induction xs w rule: rfc_blocks.induct)
  case (1 xs w)
  show ?case
  proof (cases "length xs < 64")
    case True
    then show ?thesis by (simp add: md5_rest_def rfc_blocks.simps [of xs])
  next
    case False
    then have "md5_rest (drop 64 xs) = md5_rest xs"
      by (simp add: md5_rest_def add.commute le_div_geq)
    with False 1 show ?thesis by (simp add: rfc_blocks.simps [of "xs @ ys"] rfc_blocks.simps [of xs])
  qed
qed

lemma rfc_blocks_short [simp]: "length xs < 64 \<Longrightarrow> rfc_blocks xs w = w"
  by (simp add: rfc_blocks.simps)

lemma rfc_blocks_one: "length xs = 64 \<Longrightarrow> rfc_blocks xs w = rfc_block xs w"
  by (simp add: rfc_blocks.simps [of xs])

lemma transform_loop_blocks:
  assumes "unat len \<le> length input" "unat len + 64 < 2 ^ 32" "unat i \<le> unat len"
  shows "\<exists>i'. transform_loop input i len w = Inr (i', rfc_blocks (take (unat len - unat i) (drop (unat i) input)) w) \<and>
    unat i' = unat i + 64 * ((unat len - unat i) div 64)"
  using assms
proof (induction input i len w rule: transform_loop.induct)
  case (1 input i len w)
  have i: "unat (i + 64) = unat i + 64" using 1(3,4) by (simp add: unat_plus_if')
  show ?case
  proof (cases "i + 64 \<le> len")
    case False
    then have "unat len < unat i + 64" by (simp add: word_le_nat_alt i)
    with False show ?thesis by (simp add: transform_loop.simps)
  next
    case True
    then have le: "unat i + 64 \<le> unat len" by (simp add: word_le_nat_alt i)
    then have rd: "read_bytes input (unat i) 64 = Inr (take 64 (drop (unat i) input))" "\<not> i + 64 < i"
      using 1(2) by (simp_all add: word_less_nat_alt i)
    from 1(1) [OF True this 1(2,3)] le obtain i' where
      i': "transform_loop input (i + 64) len (md5_transform (take 64 (drop (unat i) input)) w) =
        Inr (i', rfc_blocks (take (unat len - (unat i + 64)) (drop (unat i + 64) input))
          (md5_transform (take 64 (drop (unat i) input)) w))"
      "unat i' = unat i + 64 + 64 * ((unat len - (unat i + 64)) div 64)" by (auto simp: i)
    have "(unat len - unat i) div 64 = Suc ((unat len - (unat i + 64)) div 64)" using le by (simp add: le_div_geq)
    moreover have "md5_transform (take 64 (drop (unat i) input)) w = rfc_block (take 64 (drop (unat i) input)) w"
      using le 1(2) by (intro md5_transform_rfc) simp
    moreover have "\<not> length (take (unat len - unat i) (drop (unat i) input)) < 64" using le 1(2) by simp
    then have "rfc_blocks (take (unat len - unat i) (drop (unat i) input)) w =
        rfc_blocks (take (unat len - (unat i + 64)) (drop (unat i + 64) input)) (rfc_block (take 64 (drop (unat i) input)) w)"
      using le by (subst rfc_blocks.simps) (simp add: drop_take min_def add.commute)
    ultimately show ?thesis using True rd i' by (simp add: transform_loop.simps [of input i])
  qed
qed

section \<open>The count\<close>

lemma count_index: "unat ((of_nat (8 * n) :: u32) div 8 mod 64) = n mod 64"
proof -
  have "(8 * n) mod 4294967296 div 8 = n mod 536870912"
    using mult_mod_right [of 8 n 536870912] by simp
  moreover have "n mod 536870912 mod 64 = n mod 64" by (rule mod_mod_cancel) simp
  ultimately show ?thesis by (simp add: unat_mod unat_div unat_of_nat del: of_nat_mult)
qed

lemma count_sum:
  fixes a b :: nat
  defines "lo \<equiv> (of_nat (a + b) :: u32)"
  shows "(if lo < of_nat b then of_nat (a div 2 ^ 32) + 1 else of_nat (a div 2 ^ 32)) + of_nat (b div 2 ^ 32) =
    (of_nat ((a + b) div 2 ^ 32) :: u32)"
proof -
  have "(a + b) mod 4294967296 < b mod 4294967296 \<longleftrightarrow> 4294967296 \<le> a mod 4294967296 + b mod 4294967296"
    by (subst mod_add_eq [symmetric]) (auto simp: mod_if [of "a mod 4294967296 + b mod 4294967296"])
  moreover have "(a + b) div 4294967296 = a div 4294967296 + b div 4294967296 + (a mod 4294967296 + b mod 4294967296) div 4294967296"
    by (rule div_add1_eq)
  moreover have "(a mod 4294967296 + b mod 4294967296) div 4294967296 = of_bool (4294967296 \<le> a mod 4294967296 + b mod 4294967296)"
    using mod_less_divisor [of 4294967296 a] mod_less_divisor [of 4294967296 b] by (auto simp: div_if)
  ultimately show ?thesis by (simp add: lo_def word_less_nat_alt unat_of_nat del: of_nat_add) (simp add: of_nat_add)
qed

section \<open>The object while it is fed\<close>

text \<open>The text so far: its whole blocks are in the state, the rest is in the buffer, its bits are counted in two words.\<close>

definition md5_fed :: "byte list \<Rightarrow> md5_object \<Rightarrow> bool" where
  "md5_fed xs m = (\<not> finalized m \<and> count_lo m = of_nat (8 * length xs) \<and>
     count_hi m = of_nat (8 * length xs div 2 ^ 32) \<and> length (md5_buffer m) = 64 \<and>
     md5_state m = rfc_blocks xs md5_start \<and> take (length xs mod 64) (md5_buffer m) = md5_rest xs)"

lemma md5_fed_init: "length (md5_buffer m) = 64 \<Longrightarrow> md5_fed [] (md5_init m)"
  by (simp add: md5_fed_def md5_init_def md5_rest_def)

lemma fill_buffer_fits:
  "unat index + length xs \<le> length b \<Longrightarrow>
   fill_buffer b index xs = Inr (take (unat index) b @ xs @ drop (unat index + length xs) b)"
  by (simp add: fill_buffer_def)

text \<open>How a piece completes a block: the length of the text, the rest and the blocks.\<close>

lemma split_length_parts:
  fixes L n :: nat
  assumes "L = 64 * l + r" "r + t = 64" "n = t + 64 * q + m" "m < 64"
  shows "(L + n) mod 64 = n - (t + 64 * q)" "64 * ((L + n) div 64) = L + (t + 64 * q)" "t + 64 * q \<le> n"
    "n - (t + 64 * q) < 64"
proof -
  have e: "L + n = m + (l + 1 + q) * 64" "L + (t + 64 * q) = 64 * (l + 1 + q)" "n - (t + 64 * q) = m" using assms by simp_all
  show "(L + n) mod 64 = n - (t + 64 * q)" unfolding e using assms(4) by (simp only: mod_mult_self1 mod_less)
  show "64 * ((L + n) div 64) = L + (t + 64 * q)" unfolding e(1,2) using assms(4) by (simp only: div_mult_self1 div_less) simp
  show "t + 64 * q \<le> n" "n - (t + 64 * q) < 64" unfolding e using assms by simp_all
qed

lemma split_length:
  fixes L n :: nat
  assumes "64 - L mod 64 \<le> n"
  defines "k \<equiv> 64 - L mod 64 + 64 * ((n - (64 - L mod 64)) div 64)"
  shows "(L + n) mod 64 = n - k" "64 * ((L + n) div 64) = L + k" "k \<le> n" "n - k < 64"
proof -
  have L: "L = 64 * (L div 64) + L mod 64" by (simp only: mult_div_mod_eq)
  have r: "L mod 64 + (64 - L mod 64) = 64" using mod_less_divisor [of 64 L] by (simp only: le_add_diff_inverse less_imp_le zero_less_numeral)
  have m: "(n - (64 - L mod 64)) mod 64 < 64" by (simp only: mod_less_divisor zero_less_numeral)
  have "n - (64 - L mod 64) = 64 * ((n - (64 - L mod 64)) div 64) + (n - (64 - L mod 64)) mod 64" by (simp only: mult_div_mod_eq)
  then have n: "n = 64 - L mod 64 + 64 * ((n - (64 - L mod 64)) div 64) + (n - (64 - L mod 64)) mod 64"
    using assms(1) by (metis add.assoc le_add_diff_inverse)
  show "(L + n) mod 64 = n - k" "64 * ((L + n) div 64) = L + k" "k \<le> n" "n - k < 64"
    unfolding k_def using split_length_parts [OF L r n m] by blast+
qed

lemma md5_counts:
  assumes "count_lo m = of_nat (8 * L)" "count_hi m = of_nat (8 * L div 2 ^ 32)" "n < 2 ^ 32"
  shows "count_lo m + push_bit 3 (of_nat n) = of_nat (8 * (L + n))"
    "(if count_lo m + push_bit 3 (of_nat n) < push_bit 3 (of_nat n) then count_hi m + 1 else count_hi m) + drop_bit 29 (of_nat n) =
     of_nat (8 * (L + n) div 2 ^ 32)"
proof -
  have p: "push_bit 3 (of_nat n :: u32) = of_nat (8 * n)" by (simp add: push_bit_eq_mult)
  then show lo: "count_lo m + push_bit 3 (of_nat n) = of_nat (8 * (L + n))" by (simp add: assms(1) algebra_simps)
  have "drop_bit 29 (of_nat n :: u32) = of_nat (n div 2 ^ 29)"
    using assms(3) by (intro word_unat_eq_iff [THEN iffD2]) (simp add: drop_bit_unat unat_of_nat)
  moreover have "n div 2 ^ 29 = 8 * n div 2 ^ 32" by simp
  ultimately have "drop_bit 29 (of_nat n :: u32) = of_nat (8 * n div 2 ^ 32)" by (simp only:)
  then show "(if count_lo m + push_bit 3 (of_nat n) < push_bit 3 (of_nat n) then count_hi m + 1 else count_hi m) + drop_bit 29 (of_nat n) =
     of_nat (8 * (L + n) div 2 ^ 32)"
    using count_sum [of "8 * L" "8 * n"] unfolding p lo [unfolded p] assms(2) by (simp only: add_mult_distrib2)
qed

lemma within_block:
  fixes L n :: nat
  assumes "n < 64 - L mod 64"
  shows "(L + n) div 64 = L div 64" "(L + n) mod 64 = L mod 64 + n"
proof -
  have e: "L + n = (L mod 64 + n) + (L div 64) * 64" using div_mult_mod_eq [of L 64] by linarith
  have "L mod 64 + n < 64" using assms by linarith
  then show "(L + n) div 64 = L div 64" "(L + n) mod 64 = L mod 64 + n"
    by (subst e, simp only: div_mult_self1 mod_mult_self1 div_less mod_less)+
qed

lemma md5_update_short:
  assumes "md5_fed xs m" "unat len = length ys" "length ys < 64 - length xs mod 64"
    "m1 = m\<lparr>count_lo := lo, count_hi := hi\<rparr>" "count_lo m1 = of_nat (8 * length (xs @ ys))" "count_hi m1 = of_nat (8 * length (xs @ ys) div 2 ^ 32)"
    "unat index = length xs mod 64"
  shows "\<exists>b. fill_buffer (md5_buffer m1) index ys = Inr b \<and> md5_fed (xs @ ys) (m1\<lparr>md5_buffer := b\<rparr>)"
proof -
  have fed: "\<not> finalized m1" "length (md5_buffer m1) = 64" "md5_state m1 = rfc_blocks xs md5_start"
    "take (length xs mod 64) (md5_buffer m1) = md5_rest xs" using assms(1) by (simp_all add: md5_fed_def assms(4))
  have "fill_buffer (md5_buffer m1) index ys = Inr (md5_rest xs @ ys @ drop (length xs mod 64 + length ys) (md5_buffer m1))"
    using assms(3,7) by (simp add: fill_buffer_fits fed)
  moreover have "(length xs + length ys) div 64 = length xs div 64" "(length xs + length ys) mod 64 = length xs mod 64 + length ys"
    using within_block [OF assms(3)] by simp_all
  moreover from this(1) have "md5_rest (xs @ ys) = md5_rest xs @ ys" by (simp add: md5_rest_def)
  moreover have "rfc_blocks (xs @ ys) md5_start = rfc_blocks xs md5_start"
    using assms(3) by (subst rfc_blocks_append) (simp add: length_md5_rest)
  ultimately show ?thesis using assms(3,5,6) fed by (simp add: md5_fed_def length_md5_rest)
qed

text \<open>A piece that completes a block: the buffer is transformed, then the blocks of the piece, and what is left is kept.\<close>

lemma md5_block_completed:
  assumes "md5_fed xs m" "t = 64 - length xs mod 64" "t \<le> length ys" "unat index = length xs mod 64"
  shows "\<exists>b. fill_buffer (md5_buffer m) index (take t ys) = Inr b \<and> length b = 64 \<and>
    md5_transform b (md5_state m) = rfc_blocks (xs @ take t ys) md5_start \<and> md5_rest (xs @ take t ys) = []"
proof -
  have r: "length xs mod 64 + t = 64" "length xs mod 64 < 64" using assms(2) by simp_all
  have b: "length (md5_rest xs @ take t ys) = 64" using r assms(3) by (simp add: length_md5_rest)
  have "fill_buffer (md5_buffer m) index (take t ys) = Inr (md5_rest xs @ take t ys)"
    using assms(1,3) r by (simp add: fill_buffer_fits assms(4) md5_fed_def)
  moreover have "md5_transform (md5_rest xs @ take t ys) (md5_state m) = rfc_blocks (xs @ take t ys) md5_start"
    using assms(1) md5_transform_rfc [OF b] rfc_blocks_one [OF b] rfc_blocks_append [of xs "take t ys"] by (simp add: md5_fed_def)
  moreover have "(length xs + t) mod 64 = 0"
    using r(1) by (metis mod_add_left_eq mod_self)
  then have "md5_rest (xs @ take t ys) = []" using assms(3) length_md5_rest [of "xs @ take t ys"] by simp
  ultimately show ?thesis using b by blast
qed

lemma md5_update_long:
  assumes "md5_fed xs m" "unat len = length ys" "length ys + 64 < 2 ^ 32" "t = 64 - length xs mod 64" "t \<le> length ys"
    "m1 = m\<lparr>count_lo := lo, count_hi := hi\<rparr>" "count_lo m1 = of_nat (8 * length (xs @ ys))" "count_hi m1 = of_nat (8 * length (xs @ ys) div 2 ^ 32)"
    "unat index = length xs mod 64" "unat (64 - index) = t"
  shows "\<exists>b i w b2. fill_buffer (md5_buffer m1) index (take t ys) = Inr b \<and>
     transform_loop (ys @ junk) (64 - index) len (md5_transform b (md5_state m1)) = Inr (i, w) \<and>
     fill_buffer b 0 (drop (unat i) ys) = Inr b2 \<and> unat i \<le> length ys \<and> unat (len - i) = length ys - unat i \<and>
     md5_fed (xs @ ys) (m1\<lparr>md5_state := w, md5_buffer := b2\<rparr>)"
proof -
  obtain b where b: "fill_buffer (md5_buffer m) index (take t ys) = Inr b" "length b = 64"
      "md5_transform b (md5_state m) = rfc_blocks (xs @ take t ys) md5_start" "md5_rest (xs @ take t ys) = []"
    using md5_block_completed [OF assms(1,4,5,9)] by blast
  have "unat len \<le> length (ys @ junk)" "unat len + 64 < 2 ^ 32" "unat (64 - index) \<le> unat len"
    using assms(2,3,5,10) by simp_all
  from transform_loop_blocks [OF this, of "rfc_blocks (xs @ take t ys) md5_start"] obtain i where
    i: "transform_loop (ys @ junk) (64 - index) len (rfc_blocks (xs @ take t ys) md5_start) =
        Inr (i, rfc_blocks (drop t ys) (rfc_blocks (xs @ take t ys) md5_start))"
      "unat i = t + 64 * ((length ys - t) div 64)"
    using assms(2,5,10) by auto
  have w: "rfc_blocks (drop t ys) (rfc_blocks (xs @ take t ys) md5_start) = rfc_blocks (xs @ ys) md5_start"
    using rfc_blocks_append [of "xs @ take t ys" "drop t ys" md5_start] b(4) by simp
  note k = split_length [of "length xs" "length ys", folded assms(4), OF assms(5), folded i(2)]
  have rest: "md5_rest (xs @ ys) = drop (unat i) ys" using k(2) by (simp add: md5_rest_def)
  have fill: "fill_buffer b 0 (drop (unat i) ys) = Inr (drop (unat i) ys @ drop (length ys - unat i) b)"
    using k(4) b(2) by (simp add: fill_buffer_fits)
  have "unat (len - i) = length ys - unat i" using k(3) by (simp add: unat_sub word_le_nat_alt assms(2))
  moreover have "md5_fed (xs @ ys) (m1\<lparr>md5_state := rfc_blocks (xs @ ys) md5_start,
      md5_buffer := drop (unat i) ys @ drop (length ys - unat i) b\<rparr>)"
    using assms(1,7,8) k b(2) rest by (simp add: md5_fed_def assms(6))
  ultimately show ?thesis using b(1,3) i(1) fill k(3) by (simp add: w assms(6) del: split_paired_Ex)
qed

lemma md5_update_fed:
  assumes "md5_fed xs m" "length ys + 64 < 2 ^ 32"
  shows "\<exists>m'. md5_update (ys @ junk) (of_nat (length ys)) m = Inr m' \<and> md5_fed (xs @ ys) m'"
proof -
  define len index where "len = (of_nat (length ys) :: u32)" "index = count_lo m div 8 mod 64"
  define t where "t = 64 - length xs mod 64"
  define lo where "lo = count_lo m + push_bit 3 len"
  define hi where "hi = (if lo < push_bit 3 len then count_hi m + 1 else count_hi m) + drop_bit 29 len"
  define m1 where "m1 = m\<lparr>count_lo := lo, count_hi := hi\<rparr>"
  have len: "unat len = length ys" using assms(2) by (simp add: len_index_def unat_of_nat)
  have counts: "count_lo m1 = of_nat (8 * length (xs @ ys))" "count_hi m1 = of_nat (8 * length (xs @ ys) div 2 ^ 32)"
    using md5_counts [of m "length xs" "length ys"] assms by (simp_all only: md5_fed_def m1_def hi_def lo_def len_index_def length_append) simp_all
  have index: "unat index = length xs mod 64"
    using assms(1) count_index [of "length xs"] by (simp add: len_index_def md5_fed_def)
  then have first: "unat (64 - index) = t" by (simp add: unat_sub word_le_nat_alt t_def)
  have upd: "md5_update (ys @ junk) len m =
    bindR (if 64 - index \<le> len then
           bindR (read_bytes (ys @ junk) 0 t) (\<lambda>xs.
           bindR (fill_buffer (md5_buffer m1) index xs) (\<lambda>b.
           bindR (transform_loop (ys @ junk) (64 - index) len (md5_transform b (md5_state m1))) (\<lambda>(i, w).
             Inr (0, i, m1\<lparr>md5_buffer := b, md5_state := w\<rparr>))))
         else Inr (index, 0, m1)) (\<lambda>(index, i, m).
         bindR (read_bytes (ys @ junk) (unat i) (unat (len - i))) (\<lambda>xs.
         bindR (fill_buffer (md5_buffer m) index xs) (\<lambda>b. Inr (m\<lparr>md5_buffer := b\<rparr>))))"
    unfolding md5_update_def Let_def len_index_def(2) [symmetric] lo_def [symmetric] hi_def [symmetric] m1_def [symmetric] first ..
  show ?thesis
  proof (cases "t \<le> length ys")
    case False
    then have "\<not> 64 - index \<le> len" by (simp add: word_le_nat_alt first len)
    moreover obtain b where "fill_buffer (md5_buffer m1) index ys = Inr b" "md5_fed (xs @ ys) (m1\<lparr>md5_buffer := b\<rparr>)"
      using md5_update_short [OF assms(1) len _ m1_def counts index] False by (auto simp: t_def)
    ultimately show ?thesis by (simp add: upd len flip: len_index_def)
  next
    case True
    then have "64 - index \<le> len" by (simp add: word_le_nat_alt first len)
    moreover obtain b i w b2 where "fill_buffer (md5_buffer m1) index (take t ys) = Inr b"
       "transform_loop (ys @ junk) (64 - index) len (md5_transform b (md5_state m1)) = Inr (i, w)"
       "fill_buffer b 0 (drop (unat i) ys) = Inr b2" "unat i \<le> length ys" "unat (len - i) = length ys - unat i"
       "md5_fed (xs @ ys) (m1\<lparr>md5_state := w, md5_buffer := b2\<rparr>)"
      using md5_update_long [OF assms(1) len assms(2) t_def True m1_def counts index first, of junk] by blast
    ultimately show ?thesis using True by (simp add: upd flip: len_index_def)
  qed
qed

section \<open>The end of the text\<close>

lemma encode_byte:
  assumes "k \<le> 24"
  shows "ucast (drop_bit k (of_nat a :: u32) AND 0xff) = (of_nat (a div 2 ^ k) :: byte)"
proof (rule bit_word_eqI)
  fix n assume "n < LENGTH(8)"
  moreover have "(0xff :: u32) = mask 8" by (simp add: mask_eq_exp_minus_1)
  ultimately show "bit (ucast (drop_bit k (of_nat a :: u32) AND 0xff) :: byte) n = bit (of_nat (a div 2 ^ k) :: byte) n"
    using assms by (simp only: bit_simps drop_bit_eq_div [symmetric, where ?'a = nat]) (auto simp: bit_simps)
qed

lemma encode_word: "md5_encode (of_nat a # ws) = map (\<lambda>i. of_nat (a div 256 ^ i)) [0..<4] @ md5_encode ws"
  using encode_byte [of 0 a] encode_byte [of 8 a] encode_byte [of 16 a] encode_byte [of 24 a]
  by (simp add: upt_rec)

lemma encode_counts: "md5_encode [of_nat (8 * n), of_nat (8 * n div 2 ^ 32)] = rfc_length n"
proof -
  have "8 * n div 2 ^ 32 div 256 ^ i = 8 * n div 256 ^ (i + 4)" for i
    by (simp only: div_mult2_eq [symmetric] power_add) (simp add: mult.commute)
  moreover have "[0..<8] = [0..<4] @ map (\<lambda>i. i + 4) [0..<4]" by (simp add: upt_rec)
  ultimately show ?thesis by (simp only: encode_word rfc_length_def map_append map_map comp_def md5_encode.simps(1) append_Nil2)
qed

lemma padding_fits:
  fixes n :: nat
  defines "p \<equiv> if n mod 64 < 56 then 56 - n mod 64 else 120 - n mod 64"
  shows "take p ((0x80 :: byte) # replicate 63 0) = rfc_padding n" "p \<le> 64" "0 < p"
proof -
  define r where "r = n mod 64"
  have r: "r < 64" by (simp add: r_def)
  have m: "(119 - r) mod 64 = p - 1" and p: "p \<le> 64" "0 < p"
  proof -
    show "p \<le> 64" "0 < p" using r by (auto simp: p_def r_def [symmetric])
    show "(119 - r) mod 64 = p - 1"
    proof (cases "r < 56")
      case True
      then have "119 - r = 64 + (55 - r)" by simp
      then have "(119 - r) mod 64 = 55 - r" using True by (simp only: mod_add_self1) simp
      then show ?thesis using True by (simp add: p_def r_def [symmetric])
    qed (use r in \<open>simp add: p_def r_def [symmetric]\<close>)
  qed
  show "p \<le> 64" "0 < p" by (rule p)+
  have "take p ((0x80 :: byte) # replicate 63 0) = 0x80 # take (p - 1) (replicate 63 0)" using p(2) by (simp only: take_Cons' split: if_split) simp
  moreover have "min (p - 1) 63 = p - 1" using p(1) by linarith
  ultimately show "take p ((0x80 :: byte) # replicate 63 0) = rfc_padding n"
    by (simp only: rfc_padding_def r_def [symmetric] m take_replicate)
qed

lemma md5_finalize_fed:
  assumes "md5_fed xs m"
  shows "\<exists>m'. md5_finalize m = Inr m' \<and> finalized m' \<and> md5_digest m' = rfc_md5 xs"
proof -
  define index where "index = count_lo m div 8 mod 64"
  define padding :: "byte list" where "padding = 0x80 # replicate 63 0"
  define p where "p = (if length xs mod 64 < 56 then 56 - length xs mod 64 else 120 - length xs mod 64)"
  have index: "unat index = length xs mod 64"
    using assms count_index [of "length xs"] by (simp add: index_def md5_fed_def)
  note pad = padding_fits [of "length xs", folded p_def padding_def]
  have "length padding = 64" by (simp add: padding_def)
  then have len: "length (rfc_padding (length xs)) = p" using pad(2) by (simp flip: pad(1))
  define padLen where "padLen = (if index < 56 then 56 - index else 120 - index)"
  have "unat padLen = p"
    using unat_less_power [of index] by (simp add: padLen_def word_less_nat_alt index p_def unat_sub word_le_nat_alt)
  then have pl: "padLen = of_nat p" by auto
  have "padding = rfc_padding (length xs) @ drop p padding"
    by (simp only: pad(1) [symmetric] append_take_drop_id)
  then obtain m1 where m1: "md5_update padding (of_nat p) m = Inr m1" "md5_fed (xs @ rfc_padding (length xs)) m1"
    using md5_update_fed [OF assms, of "rfc_padding (length xs)" "drop p padding"] pad(2) len by auto
  have bits: "md5_encode [count_lo m, count_hi m] = rfc_length (length xs)"
    using assms encode_counts [of "length xs"] by (simp only: md5_fed_def)
  have "length (rfc_length (length xs)) = 8" by (simp add: rfc_length_def)
  with md5_update_fed [OF m1(2), of "rfc_length (length xs)" "[]"] obtain m2 where
    m2: "md5_update (rfc_length (length xs)) 8 m1 = Inr m2" "md5_fed (xs @ rfc_padding (length xs) @ rfc_length (length xs)) m2"
    by auto
  obtain a b c d where w: "md5_state m2 = (a, b, c, d)" by (cases "md5_state m2") auto
  have blocks: "rfc_blocks (xs @ rfc_padding (length xs) @ rfc_length (length xs)) md5_start = (a, b, c, d)"
    using m2(2) w by (simp only: md5_fed_def)
  have "md5_encode [a, b, c, d] = concat (map (\<lambda>w. map (\<lambda>i. of_nat (unat w div 256 ^ i)) [0..<4]) [a, b, c, d])"
    using encode_word [of "unat a"] encode_word [of "unat b"] encode_word [of "unat c"] encode_word [of "unat d"]
    by (simp del: md5_encode.simps(2))
  then have "md5_encode [a, b, c, d] = rfc_md5 xs"
    using blocks by (simp only: rfc_md5_def prod.case)
  moreover have "\<not> finalized m" using assms by (simp add: md5_fed_def)
  ultimately show ?thesis using m1(1) m2(1) w
    unfolding md5_finalize_def Let_def index_def [symmetric] padding_def [symmetric] padLen_def [symmetric] pl bits
    by (simp del: md5_encode.simps(2))
qed

section \<open>Properties\<close>

text \<open>The pieces of a text, one call of \<open>update\<close> for each.\<close>

fun md5_updates :: "byte list list \<Rightarrow> md5_object \<Rightarrow> md5_object res" where
  "md5_updates [] m = Inr m"
| "md5_updates (p # ps) m = bindR (md5_update p (of_nat (length p)) m) (md5_updates ps)"

lemma md5_updates_fed:
  "md5_fed xs m \<Longrightarrow> \<forall>p \<in> set ps. length p + 64 < 2 ^ 32 \<Longrightarrow>
   \<exists>m'. md5_updates ps m = Inr m' \<and> md5_fed (xs @ concat ps) m'"
proof (induction ps arbitrary: xs m)
  case (Cons p ps)
  obtain m1 where "md5_update p (of_nat (length p)) m = Inr m1" "md5_fed (xs @ p) m1"
    using md5_update_fed [OF Cons.prems(1), of p "[]"] Cons.prems(2) by auto
  then show ?case using Cons.IH [of "xs @ p" m1] Cons.prems(2) by simp
qed simp

text \<open>
  C17. The digest is the one of RFC 1321. However a text is cut into pieces of less than \<open>2 ^ 32 - 64\<close> bytes, giving the
  pieces to \<open>update\<close> and calling \<open>finalize\<close> succeeds, and \<open>hexdigest\<close> is the algorithm of the RFC applied to the whole
  text with its padding, in hexadecimal; calling \<open>finalize\<close> again changes nothing.
\<close>

theorem md5_of_pieces:
  assumes "length (md5_buffer junk) = 64" "\<forall>p \<in> set ps. length p + 64 < 2 ^ 32"
  shows "\<exists>m. bindR (md5_updates ps (md5_init junk)) md5_finalize = Inr m \<and>
    hexdigest m = concat (map hex_byte (rfc_md5 (concat ps))) \<and> md5_finalize m = Inr m"
proof -
  obtain m where m: "md5_updates ps (md5_init junk) = Inr m" "md5_fed (concat ps) m"
    using md5_updates_fed [OF md5_fed_init [OF assms(1)] assms(2)] by auto
  moreover obtain m' where m': "md5_finalize m = Inr m'" "finalized m'" "md5_digest m' = rfc_md5 (concat ps)"
    using md5_finalize_fed [OF m(2)] by blast
  moreover have "length (rfc_md5 (concat ps)) = 16" by (simp add: rfc_md5_def split: prod.split)
  ultimately show ?thesis by (simp add: hexdigest_def md5_finalize_def [of m'])
qed

theorem md5_of_pieces_witness:
  "\<exists>m. bindR (md5_updates [[97], [98, 99]] (md5_init \<lparr>finalized = True, md5_buffer = replicate 64 0xCD, count_lo = 1, count_hi = 2,
      md5_state = (1, 2, 3, 4), md5_digest = []\<rparr>)) md5_finalize = Inr m \<and>
    hexdigest m = concat (map hex_byte (rfc_md5 [97, 98, 99])) \<and> md5_finalize m = Inr m"
  using md5_of_pieces [of "\<lparr>finalized = True, md5_buffer = replicate 64 0xCD, count_lo = 1, count_hi = 2,
      md5_state = (1, 2, 3, 4), md5_digest = []\<rparr>" "[[97], [98, 99]]"] by simp

end
