(* ===== verification/Ov_String.thy ===== *)
theory Ov_String
  imports C_String
begin

text \<open>
  \<open>core/string.cpp\<close> and \<open>core/string.h\<close>: the class \<open>ov::String\<close> with its buffer, its length and its capacity.
  \<open>Split\<close> and \<open>Join\<close> work on C strings and are in \<open>C_String\<close>.

  A \<^verbatim>\<open>const char *\<close> is \<open>None\<close> for the null pointer, otherwise the memory from the pointer to the end of its object,
  which holds the NUL. What \<^verbatim>\<open>malloc\<close> answers for a size is an argument of every operation that allocates. Arguments
  do not point into the buffer of the string itself. Sizes are natural numbers below \<open>2 ^ 63\<close>, as those of all objects
  are; where the code computes with sizes given to it, the sums and differences are taken modulo \<open>2 ^ 64\<close>.
\<close>

type_synonym allocator = "nat \<Rightarrow> bool"
type_synonym char_ptr = "byte list option"

record ov_string =
  str_buffer :: char_ptr
  str_length :: nat
  str_capacity :: nat

section \<open>Memory\<close>

definition strlen :: "byte list \<Rightarrow> nat res" where
  "strlen mem = (if 0 \<in> set mem then Inr (length (takeWhile (\<lambda>c. c \<noteq> 0) mem)) else Inl Over_Read)"

text \<open>The C string at a pointer, as the functions of the C library read it.\<close>

definition c_text :: "char_ptr \<Rightarrow> cstring res" where
  "c_text p = (case p of None \<Rightarrow> Inl Null_Deref | Some mem \<Rightarrow> bindR (strlen mem) (\<lambda>n. Inr (take n mem)))"

text \<open>\<^verbatim>\<open>memcpy\<close> out of and into a buffer.\<close>

definition fetch_range :: "char_ptr \<Rightarrow> nat \<Rightarrow> nat \<Rightarrow> byte list res" where
  "fetch_range p off n = (case p of None \<Rightarrow> if n = 0 then Inr [] else Inl Null_Deref | Some mem \<Rightarrow> read_bytes mem off n)"

definition put_range :: "char_ptr \<Rightarrow> nat \<Rightarrow> byte list \<Rightarrow> char_ptr res" where
  "put_range p off xs =
     (case p of
        None \<Rightarrow> if xs = [] then Inr None else Inl Null_Deref
      | Some mem \<Rightarrow> if off + length xs \<le> length mem then Inr (Some (take off mem @ xs @ drop (off + length xs) mem))
                    else Inl Over_Write)"

text \<open>A single byte \<^verbatim>\<open>_buffer[index] = c\<close>.\<close>

definition put_char :: "char_ptr \<Rightarrow> nat \<Rightarrow> byte \<Rightarrow> char_ptr res" where
  "put_char p i c = put_range p i [c]"

section \<open>The buffer\<close>

definition null_string :: ov_string where
  "null_string = \<lparr>str_buffer = None, str_length = 0, str_capacity = 0\<rparr>"

definition Release :: "ov_string \<Rightarrow> ov_string" where
  "Release s = s\<lparr>str_buffer := None, str_capacity := 0, str_length := 0\<rparr>"

text \<open>
  The size of the new buffer: 1, 2, 4 and so on up to \<open>2 ^ 20\<close>, then in steps of \<open>2 ^ 20\<close>. The loop starts with 1, so
  that its variable is never 0.
\<close>

function grown_length :: "nat \<Rightarrow> nat \<Rightarrow> nat" where
  "grown_length a len =
     (if a < len \<and> 0 < a then grown_length (if 1024 * 1024 \<le> a then a + 1024 * 1024 else a * 2) len else a)"
  by pat_completeness auto
termination by (relation "measure (\<lambda>(a, len). len - a)") auto

declare grown_length.simps [simp del]

definition Alloc :: "allocator \<Rightarrow> nat \<Rightarrow> bool \<Rightarrow> ov_string \<Rightarrow> (bool \<times> ov_string) res" where
  "Alloc malloc len alloc_exactly s =
     (if str_capacity s < len \<or> 2 * len < str_capacity s \<or> alloc_exactly \<and> str_capacity s \<noteq> len then
        let allocated = (if alloc_exactly then len else grown_length 1 len)
        in if \<not> malloc (allocated + 1) then Inr (False, s)
           else bindR (if 0 < str_length s then fetch_range (str_buffer s) 0 (min allocated (str_length s)) else Inr []) (\<lambda>old.
             Inr (True, s\<lparr>str_buffer := Some (old @ replicate (allocated + 1 - length old) 0), str_capacity := allocated\<rparr>))
      else Inr (True, s))"

section \<open>Appending and prepending\<close>

text \<open>A step that needs room first: the operations return false when they do not get it.\<close>

definition with_room ::
    "allocator \<Rightarrow> nat \<Rightarrow> (ov_string \<Rightarrow> ov_string res) \<Rightarrow> ov_string \<Rightarrow> (bool \<times> ov_string) res" where
  "with_room malloc len f s =
     bindR (Alloc malloc len False s) (\<lambda>(ok, s). if ok then bindR (f s) (\<lambda>s. Inr (True, s)) else Inr (False, s))"

definition Prepend_char :: "allocator \<Rightarrow> byte \<Rightarrow> ov_string \<Rightarrow> (bool \<times> ov_string) res" where
  "Prepend_char malloc c s = with_room malloc (str_length s + 1) (\<lambda>s.
     bindR (fetch_range (str_buffer s) 0 (str_length s)) (\<lambda>old.
     bindR (put_range (str_buffer s) 1 old) (\<lambda>b.
     bindR (put_char b 0 c) (\<lambda>b.
     bindR (put_char b (str_length s + 1) 0) (\<lambda>b.
       Inr (s\<lparr>str_buffer := b, str_length := str_length s + 1\<rparr>)))))) s"

definition Prepend_n :: "allocator \<Rightarrow> char_ptr \<Rightarrow> nat \<Rightarrow> ov_string \<Rightarrow> (bool \<times> ov_string) res" where
  "Prepend_n malloc p len s =
     (if p = None then Inr (False, s) else if len = 0 then Inr (True, s)
      else with_room malloc (str_length s + len) (\<lambda>s.
        bindR (fetch_range (str_buffer s) 0 (str_length s)) (\<lambda>old.
        bindR (put_range (str_buffer s) len old) (\<lambda>b.
        bindR (fetch_range p 0 len) (\<lambda>xs.
        bindR (put_range b 0 xs) (\<lambda>b.
        bindR (put_char b (str_length s + len) 0) (\<lambda>b.
          Inr (s\<lparr>str_buffer := b, str_length := str_length s + len\<rparr>))))))) s)"

definition string_Prepend :: "allocator \<Rightarrow> char_ptr \<Rightarrow> ov_string \<Rightarrow> (bool \<times> ov_string) res" where
  "string_Prepend malloc p s =
     (case p of None \<Rightarrow> Inr (False, s) | Some mem \<Rightarrow> bindR (strlen mem) (\<lambda>n. Prepend_n malloc p n s))"

definition Append_char :: "allocator \<Rightarrow> byte \<Rightarrow> ov_string \<Rightarrow> (bool \<times> ov_string) res" where
  "Append_char malloc c s = with_room malloc (str_length s + 1) (\<lambda>s.
     bindR (put_char (str_buffer s) (str_length s) c) (\<lambda>b.
     bindR (put_char b (str_length s + 1) 0) (\<lambda>b.
       Inr (s\<lparr>str_buffer := b, str_length := str_length s + 1\<rparr>)))) s"

definition Append_n :: "allocator \<Rightarrow> char_ptr \<Rightarrow> nat \<Rightarrow> ov_string \<Rightarrow> (bool \<times> ov_string) res" where
  "Append_n malloc p len s =
     (if p = None then Inr (False, s) else if len = 0 then Inr (True, s)
      else with_room malloc (str_length s + len) (\<lambda>s.
        bindR (if str_buffer s = None then Inr None
               else bindR (fetch_range p 0 len) (put_range (str_buffer s) (str_length s))) (\<lambda>b.
        bindR (if b = None then Inr None else put_char b (str_length s + len) 0) (\<lambda>b.
          Inr (s\<lparr>str_buffer := b, str_length := str_length s + len\<rparr>)))) s)"

definition string_Append :: "allocator \<Rightarrow> char_ptr \<Rightarrow> ov_string \<Rightarrow> (bool \<times> ov_string) res" where
  "string_Append malloc p s =
     (case p of None \<Rightarrow> Inr (False, s) | Some mem \<Rightarrow> bindR (strlen mem) (\<lambda>n. Append_n malloc p n s))"

section \<open>Construction and assignment\<close>

definition new_string :: "allocator \<Rightarrow> char_ptr \<Rightarrow> ov_string res" where
  "new_string malloc p = bindR (string_Append malloc p null_string) (\<lambda>(_, s). Inr s)"

definition new_string_n :: "allocator \<Rightarrow> char_ptr \<Rightarrow> nat \<Rightarrow> ov_string res" where
  "new_string_n malloc p len = bindR (Append_n malloc p len null_string) (\<lambda>(_, s). Inr s)"

definition copy_string :: "allocator \<Rightarrow> ov_string \<Rightarrow> ov_string res" where
  "copy_string malloc s = new_string_n malloc (str_buffer s) (str_length s)"

text \<open>The move constructor: the new object, and what is left of the old one.\<close>

definition move_string :: "ov_string \<Rightarrow> ov_string \<times> ov_string" where
  "move_string s = (s, null_string)"

definition CStr :: "ov_string \<Rightarrow> byte list" where
  "CStr s = (case str_buffer s of None \<Rightarrow> [0] | Some mem \<Rightarrow> mem)"

text \<open>The assignments of another string and of a C string; the assignment of the object itself changes nothing.\<close>

definition assign_chars :: "allocator \<Rightarrow> char_ptr \<Rightarrow> ov_string \<Rightarrow> ov_string res" where
  "assign_chars malloc p s =
     bindR (if str_buffer s = None then Inr s
            else bindR (put_char (str_buffer s) 0 0) (\<lambda>b. Inr (s\<lparr>str_length := 0, str_buffer := b\<rparr>))) (\<lambda>s.
     bindR (string_Append malloc p s) (\<lambda>(_, s). Inr s))"

definition assign_string :: "allocator \<Rightarrow> ov_string \<Rightarrow> ov_string \<Rightarrow> ov_string res" where
  "assign_string malloc other s = assign_chars malloc (str_buffer other) s"

definition append_assign :: "allocator \<Rightarrow> char_ptr \<Rightarrow> ov_string \<Rightarrow> ov_string res" where
  "append_assign malloc p s = bindR (string_Append malloc p s) (\<lambda>(_, s). Inr s)"

definition string_plus :: "allocator \<Rightarrow> ov_string \<Rightarrow> ov_string \<Rightarrow> ov_string res" where
  "string_plus malloc s other = bindR (copy_string malloc s) (append_assign malloc (Some (CStr other)))"

section \<open>Formatting\<close>

text \<open>
  The text that \<^verbatim>\<open>vsnprintf\<close> makes of the format and the arguments is an argument, \<open>None\<close> where it fails. It is written
  with the NUL behind it.
\<close>

definition AppendVFormat :: "allocator \<Rightarrow> cstring option \<Rightarrow> ov_string \<Rightarrow> (nat \<times> ov_string) res" where
  "AppendVFormat malloc formatted s =
     (case formatted of
        None \<Rightarrow> Inr (0, s)
      | Some text \<Rightarrow> bindR (Alloc malloc (str_length s + length text) False s) (\<lambda>(ok, s).
          if \<not> ok then Inr (0, s)
          else if str_buffer s = None then Inr (length text, s)
          else bindR (put_range (str_buffer s) (str_length s) (text @ [0])) (\<lambda>b.
               bindR (put_char b (str_length s + length text) 0) (\<lambda>b.
                 Inr (length text, s\<lparr>str_buffer := b, str_length := str_length s + length text\<rparr>)))))"

definition VFormat :: "allocator \<Rightarrow> cstring option \<Rightarrow> ov_string \<Rightarrow> (nat \<times> ov_string) res" where
  "VFormat malloc formatted s =
     (case formatted of
        None \<Rightarrow> Inr (0, s)
      | Some text \<Rightarrow>
          if text = [] then Inr (0, s)
          else bindR (Alloc malloc (length text) False s) (\<lambda>(ok, s).
            if ok then bindR (put_range (str_buffer s) 0 (text @ [0])) (\<lambda>b.
              Inr (length text, s\<lparr>str_buffer := b, str_length := length text\<rparr>))
            else Inr (str_length s, s)))"

definition string_Format :: "allocator \<Rightarrow> cstring option \<Rightarrow> ov_string \<Rightarrow> (nat \<times> ov_string) res" where
  "string_Format malloc formatted s = bindR (VFormat malloc formatted s) (\<lambda>(_, s). Inr (str_length s, s))"

definition FormatString :: "allocator \<Rightarrow> cstring option \<Rightarrow> ov_string res" where
  "FormatString malloc formatted = bindR (VFormat malloc formatted null_string) (\<lambda>(_, s). Inr s)"

definition AppendFormat :: "allocator \<Rightarrow> cstring option \<Rightarrow> ov_string \<Rightarrow> (nat \<times> ov_string) res" where
  "AppendFormat malloc formatted s = AppendVFormat malloc formatted s"

section \<open>Searching\<close>

definition get_char :: "char_ptr \<Rightarrow> nat \<Rightarrow> byte res" where
  "get_char p i = (case p of None \<Rightarrow> Inl Null_Deref | Some mem \<Rightarrow> byte_at mem i)"

definition ptr_plus :: "char_ptr \<Rightarrow> nat \<Rightarrow> char_ptr" where
  "ptr_plus p n = map_option (drop n) p"

function IndexOf_loop :: "byte \<Rightarrow> ov_string \<Rightarrow> nat \<Rightarrow> int res" where
  "IndexOf_loop c s i =
     (if i < str_length s then bindR (get_char (str_buffer s) i) (\<lambda>x. if x = c then Inr (int i) else IndexOf_loop c s (i + 1))
      else Inr (-1))"
  by pat_completeness auto
termination by (relation "measure (\<lambda>(_, s, i). str_length s - i)") auto

declare IndexOf_loop.simps [simp del]

definition IndexOf_char :: "byte \<Rightarrow> int \<Rightarrow> ov_string \<Rightarrow> int res" where
  "IndexOf_char c start s = (if start < 0 then Inr (-1) else IndexOf_loop c s (nat start))"

text \<open>A negative start is before the buffer.\<close>

definition IndexOf :: "char_ptr \<Rightarrow> int \<Rightarrow> ov_string \<Rightarrow> int res" where
  "IndexOf str start s =
     (if int (str_length s) \<le> start then Inr (-1)
      else if start < 0 then Inl Over_Read
      else bindR (c_text (ptr_plus (str_buffer s) (nat start))) (\<lambda>hay. bindR (c_text str) (\<lambda>pat.
        Inr (case strstr hay pat of None \<Rightarrow> -1 | Some n \<Rightarrow> start + int n))))"

fun IndexOfRev_loop :: "byte \<Rightarrow> ov_string \<Rightarrow> nat \<Rightarrow> int res" where
  "IndexOfRev_loop c s 0 = Inr (-1)"
| "IndexOfRev_loop c s (Suc i) =
     bindR (get_char (str_buffer s) i) (\<lambda>x. if x = c then Inr (int i) else IndexOfRev_loop c s i)"

definition IndexOfRev :: "byte \<Rightarrow> int \<Rightarrow> ov_string \<Rightarrow> int res" where
  "IndexOfRev c start s =
     (if str_length s = 0 \<or> start < -1 \<or> int (str_length s) \<le> start then Inr (-1)
      else let start = (if start = -1 then int (str_length s) - 1 else min (int (str_length s) - 1) start)
           in IndexOfRev_loop c s (nat (start + 1)))"

section \<open>Padding, case\<close>

fun pad_loop :: "allocator \<Rightarrow> byte \<Rightarrow> nat \<Rightarrow> ov_string \<Rightarrow> ov_string res" where
  "pad_loop malloc pad 0 padding = Inr padding"
| "pad_loop malloc pad (Suc n) padding = bindR (Append_char malloc pad padding) (\<lambda>(_, padding). pad_loop malloc pad n padding)"

text \<open>The difference is unsigned.\<close>

definition PadLeft :: "allocator \<Rightarrow> nat \<Rightarrow> byte \<Rightarrow> ov_string \<Rightarrow> ov_string res" where
  "PadLeft malloc len pad s =
     (let remained = nat ((int len - int (str_length s)) mod 2 ^ 64)
      in if 0 < remained then
           bindR (pad_loop malloc pad remained null_string) (\<lambda>padding.
           bindR (string_Prepend malloc (Some (CStr padding)) s) (\<lambda>(_, s). Inr s))
         else Inr s)"

definition PadRight :: "allocator \<Rightarrow> nat \<Rightarrow> byte \<Rightarrow> ov_string \<Rightarrow> ov_string res" where
  "PadRight malloc len pad s =
     (if len \<le> str_length s then Inr s
      else bindR (pad_loop malloc pad (len - str_length s) null_string) (\<lambda>padding.
           bindR (string_Append malloc (Some (CStr padding)) s) (\<lambda>(_, s). Inr s)))"

definition map_chars :: "(byte \<Rightarrow> byte) \<Rightarrow> ov_string \<Rightarrow> ov_string res" where
  "map_chars f s =
     bindR (fetch_range (str_buffer s) 0 (str_length s)) (\<lambda>xs.
     bindR (put_range (str_buffer s) 0 (map f xs)) (\<lambda>b. Inr (s\<lparr>str_buffer := b\<rparr>)))"

definition MakeUpper :: "ov_string \<Rightarrow> ov_string res" where "MakeUpper = map_chars to_upper"

definition MakeLower :: "ov_string \<Rightarrow> ov_string res" where "MakeLower = map_chars to_lower"

definition PadLeftString :: "allocator \<Rightarrow> nat \<Rightarrow> byte \<Rightarrow> ov_string \<Rightarrow> ov_string res" where
  "PadLeftString malloc len pad s = bindR (copy_string malloc s) (PadLeft malloc len pad)"

definition PadRightString :: "allocator \<Rightarrow> nat \<Rightarrow> byte \<Rightarrow> ov_string \<Rightarrow> ov_string res" where
  "PadRightString malloc len pad s = bindR (copy_string malloc s) (PadRight malloc len pad)"

definition upper_copy :: "allocator \<Rightarrow> ov_string \<Rightarrow> ov_string res" where
  "upper_copy malloc s = bindR (copy_string malloc s) MakeUpper"

definition LowerCaseString :: "allocator \<Rightarrow> ov_string \<Rightarrow> ov_string res" where
  "LowerCaseString malloc s = bindR (copy_string malloc s) MakeLower"

section \<open>Parts\<close>

text \<open>\<open>Substring\<close>: the sum of start and length is unsigned.\<close>

definition Substring :: "allocator \<Rightarrow> int \<Rightarrow> nat \<Rightarrow> ov_string \<Rightarrow> ov_string res" where
  "Substring malloc start len s =
     (if start < 0 \<or> int (str_length s) < start then Inr null_string
      else let len = (if str_length s < (nat start + len) mod 2 ^ 64 then str_length s - nat start else len)
           in new_string_n malloc (ptr_plus (str_buffer s) (nat start)) len)"

definition Substring_from :: "allocator \<Rightarrow> int \<Rightarrow> ov_string \<Rightarrow> ov_string res" where
  "Substring_from malloc start s =
     (if start < 0 \<or> int (str_length s) < start then Inr null_string
      else Substring malloc start (str_length s - nat start) s)"

definition is_blank :: "byte \<Rightarrow> bool" where
  "is_blank c = (c = 13 \<or> c = 10 \<or> c = 9 \<or> c = 32)"

function trim_left :: "ov_string \<Rightarrow> nat \<Rightarrow> nat res" where
  "trim_left s i =
     (if i < str_length s then bindR (get_char (str_buffer s) i) (\<lambda>x. if is_blank x then trim_left s (i + 1) else Inr i)
      else Inr i)"
  by pat_completeness auto
termination by (relation "measure (\<lambda>(s, i). str_length s - i)") auto

declare trim_left.simps [simp del]

text \<open>The loop from the right goes on while the index is at least \<open>left\<close>; it would wrap below 0, where it begins with 0.\<close>

fun trim_right :: "ov_string \<Rightarrow> nat \<Rightarrow> nat \<Rightarrow> nat res" where
  "trim_right s left i =
     (if left \<le> i then
        bindR (get_char (str_buffer s) i) (\<lambda>x.
          if \<not> is_blank x then Inr i
          else case i of 0 \<Rightarrow> Inl Over_Read | Suc i' \<Rightarrow> trim_right s left i')
      else Inr i)"

declare trim_right.simps [simp del]

definition Trim :: "allocator \<Rightarrow> ov_string \<Rightarrow> ov_string res" where
  "Trim malloc s =
     (if str_length s = 0 then Inr null_string
      else bindR (trim_left s 0) (\<lambda>left. bindR (trim_right s left (str_length s - 1)) (\<lambda>right.
        if left = 0 \<and> right = str_length s - 1 then copy_string malloc s
        else if right < left then Inr null_string
        else Substring malloc (int left) (right - left + 1) s)))"

definition Left :: "allocator \<Rightarrow> nat \<Rightarrow> ov_string \<Rightarrow> ov_string res" where
  "Left malloc len s = new_string_n malloc (str_buffer s) (min len (str_length s))"

definition Right :: "allocator \<Rightarrow> nat \<Rightarrow> ov_string \<Rightarrow> ov_string res" where
  "Right malloc len s =
     (let len = min len (str_length s)
      in new_string_n malloc (ptr_plus (str_buffer s) (str_length s - len)) len)"

definition Get :: "int \<Rightarrow> ov_string \<Rightarrow> byte res" where
  "Get i s = (if i < 0 \<or> int (str_length s) \<le> i then Inr 0 else get_char (str_buffer s) (nat i))"

section \<open>Replacing\<close>

lemma IndexOf_bound: "IndexOf p pos s = Inr q \<Longrightarrow> q \<noteq> -1 \<Longrightarrow> 0 \<le> pos \<and> pos \<le> q \<and> pos < int (str_length s)"
  by (auto simp: IndexOf_def bindR_eq_Inr split: if_split_asm option.splits)

text \<open>
  \<open>target_buffer\<close> is always \<open>pos\<close> bytes into the buffer. With an empty token the position stays where it is, and the
  loop has no end.
\<close>

function Replace_loop ::
    "allocator \<Rightarrow> byte list \<Rightarrow> nat \<Rightarrow> byte list \<Rightarrow> nat \<Rightarrow> ov_string \<Rightarrow> nat \<Rightarrow> ov_string \<Rightarrow> ov_string res" where
  "Replace_loop malloc old old_len new new_len s pos target =
     bindR (IndexOf (Some old) (int pos) s) (\<lambda>new_pos.
       if new_pos = -1 then bindR (string_Append malloc (ptr_plus (str_buffer s) pos) target) (\<lambda>(_, target). Inr target)
       else
         bindR (Append_n malloc (ptr_plus (str_buffer s) pos) (nat new_pos - pos) target) (\<lambda>(_, target).
         bindR (Append_n malloc (Some new) new_len target) (\<lambda>(_, target).
           if old_len = 0 then Inl Endless_Loop
           else Replace_loop malloc old old_len new new_len s (nat new_pos + old_len) target)))"
  by pat_completeness auto
termination
  by (relation "measure (\<lambda>(_, _, _, _, _, s, pos, _). str_length s - pos)") (auto dest!: IndexOf_bound)

declare Replace_loop.simps [simp del]

definition Replace :: "allocator \<Rightarrow> char_ptr \<Rightarrow> char_ptr \<Rightarrow> ov_string \<Rightarrow> ov_string res" where
  "Replace malloc old_token new_token s =
     (case (old_token, new_token) of
        (Some old, Some new) \<Rightarrow> bindR (strlen old) (\<lambda>old_len. bindR (strlen new) (\<lambda>new_len.
          Replace_loop malloc old old_len new new_len s 0 null_string))
      | _ \<Rightarrow> Inr null_string)"

section \<open>Comparing\<close>

text \<open>Two different objects have the same buffer only when both have none.\<close>

definition string_eq :: "ov_string \<Rightarrow> ov_string \<Rightarrow> bool res" where
  "string_eq s t =
     (if str_buffer s = None \<and> str_buffer t = None then Inr True
      else if str_buffer s = None \<or> str_buffer t = None then Inr False
      else bindR (c_text (str_buffer s)) (\<lambda>a. bindR (c_text (str_buffer t)) (\<lambda>b. Inr (a = b))))"

definition string_eq_chars :: "ov_string \<Rightarrow> char_ptr \<Rightarrow> bool res" where
  "string_eq_chars s p =
     (if str_buffer s = None \<and> p = None then Inr True
      else case p of None \<Rightarrow> Inr False
      | Some mem \<Rightarrow>
          if str_buffer s = None then bindR (byte_at mem 0) (\<lambda>c. Inr (c = 0))
          else bindR (c_text (str_buffer s)) (\<lambda>a. bindR (c_text p) (\<lambda>b. Inr (a = b))))"

definition string_neq_chars :: "ov_string \<Rightarrow> char_ptr \<Rightarrow> bool res" where
  "string_neq_chars s p = bindR (string_eq_chars s p) (\<lambda>e. Inr (if e then False else True))"

text \<open>\<^verbatim>\<open>strcmp(a, b) < 0\<close>: bytes are compared without their sign.\<close>

fun strcmp_less :: "cstring \<Rightarrow> cstring \<Rightarrow> bool" where
  "strcmp_less _ [] = False"
| "strcmp_less [] (y # ys) = True"
| "strcmp_less (x # xs) (y # ys) = (x < y \<or> x = y \<and> strcmp_less xs ys)"

definition string_less :: "ov_string \<Rightarrow> ov_string \<Rightarrow> bool res" where
  "string_less s t =
     (if str_buffer s = None then Inr (str_buffer t \<noteq> None)
      else if str_buffer t = None then Inr False
      else bindR (c_text (str_buffer s)) (\<lambda>a. bindR (c_text (str_buffer t)) (\<lambda>b. Inr (strcmp_less a b))))"

definition string_greater :: "ov_string \<Rightarrow> ov_string \<Rightarrow> bool res" where
  "string_greater s t =
     (if str_buffer s = None then Inr False
      else if str_buffer t = None then Inr True
      else bindR (c_text (str_buffer s)) (\<lambda>a. bindR (c_text (str_buffer t)) (\<lambda>b. Inr (strcmp_less b a))))"

text \<open>The argument is passed by value, so that it is copied.\<close>

definition HasPrefix :: "allocator \<Rightarrow> ov_string \<Rightarrow> ov_string \<Rightarrow> bool res" where
  "HasPrefix malloc prefix s = bindR (copy_string malloc prefix) (\<lambda>prefix.
     bindR (Left malloc (str_length prefix) s) (\<lambda>l. string_eq l prefix))"

definition HasSuffix :: "allocator \<Rightarrow> ov_string \<Rightarrow> ov_string \<Rightarrow> bool res" where
  "HasSuffix malloc suffix s = bindR (copy_string malloc suffix) (\<lambda>suffix.
     bindR (Right malloc (str_length suffix) s) (\<lambda>r. string_eq r suffix))"

section \<open>Capacity and length\<close>

definition SetCapacity :: "allocator \<Rightarrow> nat \<Rightarrow> ov_string \<Rightarrow> (bool \<times> ov_string) res" where
  "SetCapacity malloc len s = Alloc malloc len True s"

definition string_SetLength :: "allocator \<Rightarrow> nat \<Rightarrow> ov_string \<Rightarrow> (bool \<times> ov_string) res" where
  "string_SetLength malloc len s =
     (if len < str_length s then
        bindR (put_range (str_buffer s) len (replicate (str_length s - len) 0)) (\<lambda>b.
          Inr (True, s\<lparr>str_buffer := b, str_length := len\<rparr>))
      else with_room malloc len (\<lambda>s. Inr (s\<lparr>str_length := len\<rparr>)) s)"

definition string_Clear :: "ov_string \<Rightarrow> bool \<times> ov_string" where
  "string_Clear s = (True, Release s)"

definition string_IsEmpty :: "ov_string \<Rightarrow> bool" where
  "string_IsEmpty s = (str_length s = 0)"

text \<open>The bytes of the \<open>Data\<close> made of the string.\<close>

definition ToData :: "bool \<Rightarrow> ov_string \<Rightarrow> byte list res" where
  "ToData include_null_char s =
     (if str_buffer s = None then Inr []
      else fetch_range (str_buffer s) 0 (str_length s + (if include_null_char then 1 else 0)))"

end
