(* ===== verification/String_Refinement.thy ===== *)
theory String_Refinement
  imports Ov_String Simulation
begin

text \<open>
  The class \<open>ov::String\<close> refines lists of characters: what a string holds, that every operation keeps its buffer
  well-formed and is on the text what the list operation is, and what its queries answer.
\<close>

section \<open>What a string holds\<close>

text \<open>A buffer is one byte longer than its capacity, and the text in it is followed by its NUL.\<close>

definition str_holds :: "ov_string \<Rightarrow> cstring \<Rightarrow> bool" where
  "str_holds s xs = (str_length s = length xs \<and> 0 \<notin> set xs \<and>
     (case str_buffer s of
        None \<Rightarrow> xs = [] \<and> str_capacity s = 0
      | Some b \<Rightarrow> length b = str_capacity s + 1 \<and> length xs \<le> str_capacity s \<and> take (length xs + 1) b = xs @ [0]))"

lemma str_holds_null: "str_holds null_string []"
  by (simp add: str_holds_def null_string_def)

lemma str_holds_length: "str_holds s xs \<Longrightarrow> str_length s = length xs"
  by (simp add: str_holds_def)

lemma str_holds_take: "str_holds s xs \<Longrightarrow> str_buffer s = Some b \<Longrightarrow> take (length xs) b = xs \<and> length xs < length b"
  by (auto simp: str_holds_def take_Suc_conv_app_nth split: if_split_asm)

lemma strlen_text: "0 \<notin> set xs \<Longrightarrow> strlen (xs @ 0 # ys) = Inr (length xs)"
  by (auto simp: strlen_def takeWhile_append)

lemma c_text_text: "0 \<notin> set xs \<Longrightarrow> c_text (Some (xs @ 0 # ys)) = Inr xs"
  by (simp add: c_text_def strlen_text)

lemma str_holds_split:
  assumes "str_holds s xs" "str_buffer s = Some b"
  obtains rest where "b = xs @ 0 # rest" "length xs + length rest = str_capacity s"
proof -
  have t: "take (length xs + 1) b = xs @ [0]" "length b = str_capacity s + 1" using assms by (simp_all add: str_holds_def)
  define rest where "rest = drop (length xs + 1) b"
  have b: "b = xs @ 0 # rest" using t(1) append_take_drop_id [of "length xs + 1" b] by (simp add: rest_def)
  then have "length b = length xs + length rest + 1" by simp
  with b t(2) show thesis by (intro that [of rest]) simp_all
qed

section \<open>Room\<close>

lemma grown_length_ge: "0 < a \<Longrightarrow> len \<le> grown_length a len"
  by (induction a len rule: grown_length.induct) (subst grown_length.simps, auto)

abbreviation all_memory :: allocator where
  "all_memory \<equiv> \<lambda>_. True"

lemma Alloc_holds:
  assumes "str_holds s xs" "length xs \<le> n"
  shows "\<exists>s'. Alloc all_memory n e s = Inr (True, s') \<and> str_holds s' xs \<and> n \<le> str_capacity s' \<and>
    (0 < n \<longrightarrow> str_buffer s' \<noteq> None)"
proof (cases "str_capacity s < n \<or> 2 * n < str_capacity s \<or> e \<and> str_capacity s \<noteq> n")
  case False
  then show ?thesis using assms by (intro exI [of _ s]) (auto simp: Alloc_def str_holds_def split: option.splits)
next
  case True
  define a where "a = (if e then n else grown_length 1 n)"
  have a: "n \<le> a" by (simp add: a_def grown_length_ge)
  have "(if 0 < str_length s then fetch_range (str_buffer s) 0 (min a (str_length s)) else Inr []) = Inr xs"
  proof (cases "str_buffer s")
    case None
    then show ?thesis using assms(1) by (simp add: str_holds_def)
  next
    case (Some b)
    then show ?thesis
      using str_holds_take [OF assms(1) Some] str_holds_length [OF assms(1)] assms(2) a
      by (simp add: fetch_range_def min_absorb2)
  qed
  then show ?thesis using True a assms
    by (auto simp: Alloc_def a_def [symmetric] str_holds_def Let_def take_Cons' Suc_diff_le replicate_add [symmetric])
qed

lemma put_range_fits: "off + length xs \<le> length b \<Longrightarrow>
  put_range (Some b) off xs = Inr (Some (take off b @ xs @ drop (off + length xs) b))"
  by (simp add: put_range_def)

lemma with_room_holds:
  assumes "str_holds s xs" "length xs \<le> n" "0 < n"
    and "\<And>s' b. str_holds s' xs \<Longrightarrow> str_buffer s' = Some b \<Longrightarrow> n < length b \<Longrightarrow> \<exists>s''. f s' = Inr s'' \<and> str_holds s'' ys"
  shows "\<exists>s'. with_room all_memory n f s = Inr (True, s') \<and> str_holds s' ys"
proof -
  obtain s' where s': "Alloc all_memory n False s = Inr (True, s')" "str_holds s' xs" "n \<le> str_capacity s'" "str_buffer s' \<noteq> None"
    using Alloc_holds [OF assms(1,2), of False] assms(3) by auto
  then obtain b where b: "str_buffer s' = Some b" by blast
  with s' have "n < length b" by (simp add: str_holds_def)
  from assms(4) [OF s'(2) b this] s'(1) show ?thesis by (auto simp: with_room_def)
qed

lemma str_holds_written:
  assumes "str_holds s xs" "str_buffer s = Some b" "length b' = length b" "length ys < length b" "0 \<notin> set ys"
    "take (length ys + 1) b' = ys @ [0]"
  shows "str_holds (s\<lparr>str_buffer := Some b', str_length := length ys\<rparr>) ys"
  using assms by (simp add: str_holds_def)

section \<open>The operations\<close>

lemma Append_n_holds:
  assumes "str_holds s xs" "0 \<notin> set ys" "take (length ys) mem = ys" "length ys \<le> length mem"
  shows "\<exists>s'. Append_n all_memory (Some mem) (length ys) s = Inr (True, s') \<and> str_holds s' (xs @ ys)"
proof (cases "ys = []")
  case False
  have "\<exists>s''. bindR (if str_buffer s' = None then Inr None
               else bindR (fetch_range (Some mem) 0 (length ys)) (put_range (str_buffer s') (str_length s'))) (\<lambda>b.
        bindR (if b = None then Inr None else put_char b (str_length s' + length ys) 0) (\<lambda>b.
          Inr (s'\<lparr>str_buffer := b, str_length := str_length s' + length ys\<rparr>))) = Inr s'' \<and> str_holds s'' (xs @ ys)"
    if s': "str_holds s' xs" "str_buffer s' = Some b" "length xs + length ys < length b" for s' b
  proof -
    have "take (length xs) b = xs" using str_holds_take [OF s'(1,2)] by simp
    with s' show ?thesis using assms(2-4)
      by (simp add: str_holds_length [OF s'(1)] fetch_range_def put_range_fits put_char_def)
        (rule str_holds_written [OF s'(1,2), of _ "xs @ ys", simplified], simp_all add: str_holds_def min_def)
  qed
  from with_room_holds [OF assms(1), of "length xs + length ys", OF _ _ this] False show ?thesis
    by (simp add: Append_n_def str_holds_length [OF assms(1)])
qed (use assms in \<open>simp add: Append_n_def\<close>)

lemma Append_holds:
  "str_holds s xs \<Longrightarrow> 0 \<notin> set ys \<Longrightarrow>
   \<exists>s'. string_Append all_memory (Some (ys @ 0 # junk)) s = Inr (True, s') \<and> str_holds s' (xs @ ys)"
  using Append_n_holds [of s xs ys "ys @ 0 # junk"] by (simp add: string_Append_def strlen_text)

text \<open>Written bytes: one after the other, at the places they have in the new text.\<close>

lemma Append_char_holds:
  assumes "str_holds s xs" "c \<noteq> 0"
  shows "\<exists>s'. Append_char all_memory c s = Inr (True, s') \<and> str_holds s' (xs @ [c])"
proof -
  have "\<exists>s''. bindR (put_char (str_buffer s') (str_length s') c) (\<lambda>b.
     bindR (put_char b (str_length s' + 1) 0) (\<lambda>b.
       Inr (s'\<lparr>str_buffer := b, str_length := str_length s' + 1\<rparr>))) = Inr s'' \<and> str_holds s'' (xs @ [c])"
    if s': "str_holds s' xs" "str_buffer s' = Some b" "length xs + 1 < length b" for s' b
  proof -
    have "take (length xs) b = xs" using str_holds_take [OF s'(1,2)] by simp
    with s' show ?thesis using assms(2)
      by (simp add: str_holds_length [OF s'(1)] put_range_fits put_char_def)
        (rule str_holds_written [OF s'(1,2), of _ "xs @ [c]", simplified], simp_all add: str_holds_def min_def)
  qed
  from with_room_holds [OF assms(1), of "length xs + 1", OF _ _ this] show ?thesis
    by (simp add: Append_char_def str_holds_length [OF assms(1)])
qed

lemma Prepend_n_holds:
  assumes "str_holds s xs" "0 \<notin> set ys" "take (length ys) mem = ys" "length ys \<le> length mem"
  shows "\<exists>s'. Prepend_n all_memory (Some mem) (length ys) s = Inr (True, s') \<and> str_holds s' (ys @ xs)"
proof (cases "ys = []")
  case False
  have "\<exists>s''. bindR (fetch_range (str_buffer s') 0 (str_length s')) (\<lambda>old.
        bindR (put_range (str_buffer s') (length ys) old) (\<lambda>b.
        bindR (fetch_range (Some mem) 0 (length ys)) (\<lambda>xs.
        bindR (put_range b 0 xs) (\<lambda>b.
        bindR (put_char b (str_length s' + length ys) 0) (\<lambda>b.
          Inr (s'\<lparr>str_buffer := b, str_length := str_length s' + length ys\<rparr>)))))) = Inr s'' \<and> str_holds s'' (ys @ xs)"
    if s': "str_holds s' xs" "str_buffer s' = Some b" "length xs + length ys < length b" for s' b
  proof -
    have "take (length xs) b = xs" using str_holds_take [OF s'(1,2)] by simp
    with s' show ?thesis using assms(2-4)
      by (simp add: str_holds_length [OF s'(1)] fetch_range_def put_range_fits put_char_def)
        (rule str_holds_written [OF s'(1,2), of _ "ys @ xs", simplified, unfolded add.commute [of "length ys"]],
          simp_all add: str_holds_def min_def)
  qed
  from with_room_holds [OF assms(1), of "length xs + length ys", OF _ _ this] False show ?thesis
    by (simp add: Prepend_n_def str_holds_length [OF assms(1)])
qed (use assms in \<open>simp add: Prepend_n_def\<close>)

lemma Prepend_holds:
  "str_holds s xs \<Longrightarrow> 0 \<notin> set ys \<Longrightarrow>
   \<exists>s'. string_Prepend all_memory (Some (ys @ 0 # junk)) s = Inr (True, s') \<and> str_holds s' (ys @ xs)"
  using Prepend_n_holds [of s xs ys "ys @ 0 # junk"] by (simp add: string_Prepend_def strlen_text)

lemma Prepend_char_holds:
  assumes "str_holds s xs" "c \<noteq> 0"
  shows "\<exists>s'. Prepend_char all_memory c s = Inr (True, s') \<and> str_holds s' (c # xs)"
proof -
  have "\<exists>s''. bindR (fetch_range (str_buffer s') 0 (str_length s')) (\<lambda>old.
     bindR (put_range (str_buffer s') 1 old) (\<lambda>b.
     bindR (put_char b 0 c) (\<lambda>b.
     bindR (put_char b (str_length s' + 1) 0) (\<lambda>b.
       Inr (s'\<lparr>str_buffer := b, str_length := str_length s' + 1\<rparr>))))) = Inr s'' \<and> str_holds s'' (c # xs)"
    if s': "str_holds s' xs" "str_buffer s' = Some b" "length xs + 1 < length b" for s' b
  proof -
    have "take (length xs) b = xs" using str_holds_take [OF s'(1,2)] by simp
    with s' show ?thesis using assms(2)
      by (simp add: str_holds_length [OF s'(1)] fetch_range_def put_range_fits put_char_def)
        (rule str_holds_written [OF s'(1,2), of _ "c # xs", simplified], simp_all add: str_holds_def min_def)
  qed
  from with_room_holds [OF assms(1), of "length xs + 1", OF _ _ this] show ?thesis
    by (simp add: Prepend_char_def str_holds_length [OF assms(1)])
qed

lemma assign_holds:
  assumes "str_holds s xs" "0 \<notin> set ys"
  shows "\<exists>s'. assign_chars all_memory (Some (ys @ 0 # junk)) s = Inr s' \<and> str_holds s' ys"
proof -
  obtain s1 where s1: "(if str_buffer s = None then Inr s
            else bindR (put_char (str_buffer s) 0 0) (\<lambda>b. Inr (s\<lparr>str_length := 0, str_buffer := b\<rparr>))) = Inr s1" "str_holds s1 []"
  proof (cases "str_buffer s")
    case (Some b)
    with assms(1) have "b \<noteq> []" "length b = str_capacity s + 1" by (auto simp: str_holds_def)
    with Some show ?thesis
      by (intro that [of "s\<lparr>str_length := 0, str_buffer := Some (0 # tl b)\<rparr>"])
        (cases b, auto simp: put_char_def put_range_def str_holds_def)
  qed (use assms(1) that in \<open>auto simp: str_holds_def\<close>)
  obtain s' where "string_Append all_memory (Some (ys @ 0 # junk)) s1 = Inr (True, s')" "str_holds s' ([] @ ys)"
    using Append_holds [OF s1(2) assms(2)] by blast
  with s1(1) show ?thesis by (simp add: assign_chars_def)
qed

lemma AppendVFormat_holds:
  assumes "str_holds s xs" "0 \<notin> set ys"
  shows "\<exists>s'. AppendVFormat all_memory (Some ys) s = Inr (length ys, s') \<and> str_holds s' (xs @ ys)"
proof -
  obtain s' where s': "Alloc all_memory (length xs + length ys) False s = Inr (True, s')" "str_holds s' xs"
      "length xs + length ys \<le> str_capacity s'" "0 < length xs + length ys \<longrightarrow> str_buffer s' \<noteq> None"
    using Alloc_holds [OF assms(1) le_add1, of "length ys" False] by blast
  show ?thesis
  proof (cases "str_buffer s'")
    case None
    with s' show ?thesis using str_holds_length [OF assms(1)] by (simp add: AppendVFormat_def)
  next
    case (Some b)
    have b: "take (length xs) b = xs" "length xs + length ys < length b"
      using str_holds_take [OF s'(2) Some] s'(2,3) Some by (simp_all add: str_holds_def)
    have "str_holds (s'\<lparr>str_buffer := Some (xs @ ys @ 0 # drop (length xs + length ys + 1) b),
        str_length := length xs + length ys\<rparr>) (xs @ ys)"
      using str_holds_written [OF s'(2) Some, of "xs @ ys @ 0 # drop (length xs + length ys + 1) b" "xs @ ys"]
        b(2) assms s'(2) by (simp add: str_holds_def)
    then show ?thesis using s'(1) b Some
      by (simp add: AppendVFormat_def str_holds_length [OF assms(1)] str_holds_length [OF s'(2)] put_range_fits put_char_def)
  qed
qed

text \<open>Room for less than the text, of which only the beginning is kept.\<close>

lemma Alloc_room:
  assumes "str_holds s xs" "0 < n"
  shows "\<exists>s'. Alloc all_memory n False s = Inr (True, s') \<and> n \<le> str_capacity s' \<and>
    (\<exists>b. str_buffer s' = Some b \<and> length b = str_capacity s' + 1)"
proof (cases "str_capacity s < n \<or> 2 * n < str_capacity s")
  case False
  then show ?thesis using assms by (intro exI [of _ s]) (auto simp: Alloc_def str_holds_def split: option.splits)
next
  case True
  have "\<exists>old. (if 0 < str_length s then fetch_range (str_buffer s) 0 (min a (str_length s)) else Inr []) = Inr old \<and> length old \<le> a" for a
    using assms(1) by (auto simp: fetch_range_def str_holds_def split: option.splits)
  then obtain old where "(if 0 < str_length s then fetch_range (str_buffer s) 0 (min (grown_length 1 n) (str_length s)) else Inr []) = Inr old"
    "length old \<le> grown_length 1 n" by blast
  with True show ?thesis using grown_length_ge [of 1 n] by (auto simp: Alloc_def Let_def)
qed

lemma VFormat_holds:
  assumes "str_holds s xs" "0 \<notin> set ys" "ys \<noteq> []"
  shows "\<exists>s'. VFormat all_memory (Some ys) s = Inr (length ys, s') \<and> str_holds s' ys"
proof -
  obtain s' where s': "Alloc all_memory (length ys) False s = Inr (True, s')" "length ys \<le> str_capacity s'"
      "\<exists>b. str_buffer s' = Some b \<and> length b = str_capacity s' + 1"
    using Alloc_room [OF assms(1), of "length ys"] assms(3) by auto
  then obtain b where b: "str_buffer s' = Some b" "length b = str_capacity s' + 1" by blast
  let ?b = "ys @ 0 # drop (length ys + 1) b"
  have "VFormat all_memory (Some ys) s = Inr (length ys, s'\<lparr>str_buffer := Some ?b, str_length := length ys\<rparr>)"
    using s'(1,2) b assms(3) by (simp add: VFormat_def put_range_fits)
  moreover have "str_holds (s'\<lparr>str_buffer := Some ?b, str_length := length ys\<rparr>) ys"
    using s'(2) b assms(2) by (simp add: str_holds_def)
  ultimately show ?thesis by blast
qed

lemma pad_loop_holds:
  "str_holds s xs \<Longrightarrow> c \<noteq> 0 \<Longrightarrow> \<exists>s'. pad_loop all_memory c n s = Inr s' \<and> str_holds s' (xs @ replicate n c)"
proof (induction n arbitrary: s xs)
  case (Suc n)
  obtain s1 where "Append_char all_memory c s = Inr (True, s1)" "str_holds s1 (xs @ [c])"
    using Append_char_holds [OF Suc.prems] by blast
  then show ?case using Suc.IH [of s1 "xs @ [c]"] Suc.prems(2) by auto
qed auto

lemma CStr_holds: "str_holds s xs \<Longrightarrow> \<exists>rest. CStr s = xs @ 0 # rest"
proof (cases "str_buffer s")
  case (Some b)
  assume "str_holds s xs"
  from this Some obtain rest where "b = xs @ 0 # rest" by (rule str_holds_split)
  with Some show ?thesis by (simp add: CStr_def)
qed (simp add: CStr_def str_holds_def)

lemma PadLeft_holds:
  assumes "str_holds s xs" "length xs \<le> n" "n < 2 ^ 64" "c \<noteq> 0"
  shows "\<exists>s'. PadLeft all_memory n c s = Inr s' \<and> str_holds s' (replicate (n - length xs) c @ xs)"
proof -
  have "nat ((int n - int (str_length s)) mod 2 ^ 64) = n - length xs"
    using assms(2,3) str_holds_length [OF assms(1)] by (simp add: nat_diff_distrib)
  moreover obtain p where p: "pad_loop all_memory c (n - length xs) null_string = Inr p" "str_holds p (replicate (n - length xs) c)"
    using pad_loop_holds [OF str_holds_null assms(4), of "n - length xs"] by auto
  moreover obtain rest where "CStr p = replicate (n - length xs) c @ 0 # rest" using CStr_holds [OF p(2)] by blast
  moreover have "0 \<notin> set (replicate (n - length xs) c)" using assms(4) by auto
  ultimately show ?thesis using Prepend_holds [OF assms(1), of "replicate (n - length xs) c" rest] assms(1)
    by (auto simp: PadLeft_def Let_def)
qed

lemma PadRight_holds:
  assumes "str_holds s xs" "c \<noteq> 0"
  shows "\<exists>s'. PadRight all_memory n c s = Inr s' \<and> str_holds s' (xs @ replicate (n - length xs) c)"
proof -
  obtain p where p: "pad_loop all_memory c (n - length xs) null_string = Inr p" "str_holds p (replicate (n - length xs) c)"
    using pad_loop_holds [OF str_holds_null assms(2), of "n - length xs"] by auto
  moreover obtain rest where "CStr p = replicate (n - length xs) c @ 0 # rest" using CStr_holds [OF p(2)] by blast
  moreover have "0 \<notin> set (replicate (n - length xs) c)" using assms(2) by auto
  ultimately show ?thesis using Append_holds [OF assms(1), of "replicate (n - length xs) c" rest] assms(1)
    by (auto simp: PadRight_def str_holds_length [OF assms(1)])
qed

lemma map_chars_holds:
  assumes "str_holds s xs" "\<And>c. c \<noteq> 0 \<Longrightarrow> f c \<noteq> 0"
  shows "\<exists>s'. map_chars f s = Inr s' \<and> str_holds s' (map f xs)"
proof (cases "str_buffer s")
  case (Some b)
  obtain rest where b: "b = xs @ 0 # rest" using str_holds_split [OF assms(1) Some] by blast
  have "map_chars f s = Inr (s\<lparr>str_buffer := Some (map f xs @ 0 # rest)\<rparr>)"
    by (simp add: map_chars_def str_holds_length [OF assms(1)] Some b fetch_range_def put_range_fits)
  moreover have "f c \<noteq> 0" if "c \<in> set xs" for c using assms(2) [of c] assms(1) that by (auto simp: str_holds_def)
  then have "0 \<notin> set (map f xs)" by force
  ultimately show ?thesis using assms(1) Some b by (simp add: str_holds_def)
qed (use assms(1) in \<open>simp add: map_chars_def str_holds_def fetch_range_def put_range_def\<close>)

lemma cut_holds:
  assumes "str_holds s xs" "n \<le> length xs"
  shows "\<exists>s'. string_SetLength all_memory n s = Inr (True, s') \<and> str_holds s' (take n xs)"
proof (cases "n < length xs")
  case True
  with assms(1) obtain b where b: "str_buffer s = Some b" by (auto simp: str_holds_def split: option.splits)
  obtain rest where r: "b = xs @ 0 # rest" using str_holds_split [OF assms(1) b] by blast
  have "string_SetLength all_memory n s =
      Inr (True, s\<lparr>str_buffer := Some (take n xs @ replicate (length xs - n) 0 @ 0 # rest), str_length := n\<rparr>)"
    using True by (simp add: string_SetLength_def str_holds_length [OF assms(1)] b r put_range_fits)
  moreover have "replicate (length xs - n) 0 @ 0 # rest = 0 # replicate (length xs - n) (0 :: byte) @ rest"
    by (simp add: replicate_app_Cons_same)
  moreover have "0 \<notin> set (take n xs)" using assms(1) by (auto simp: str_holds_def dest: in_set_takeD)
  ultimately show ?thesis using assms(1) True b r by (simp add: str_holds_def)
next
  case False
  with assms obtain s' where "Alloc all_memory n False s = Inr (True, s')" "str_holds s' xs" "n = length xs"
    using Alloc_holds [OF assms(1), of n False] by auto
  then show ?thesis using assms(1) by (auto simp: string_SetLength_def with_room_def str_holds_def split: option.splits)
qed

lemma Clear_holds: "str_holds (Release s) []"
  by (simp add: Release_def str_holds_def)

section \<open>The refinement\<close>

datatype string_op =
    Op_Append cstring | Op_Append_char byte | Op_Prepend cstring | Op_Prepend_char byte | Op_Assign cstring
  | Op_AppendFormat cstring | Op_Format cstring | Op_PadLeft nat byte | Op_PadRight nat byte | Op_MakeUpper | Op_MakeLower
  | Op_SetLength nat | Op_SetCapacity nat | Op_Clear

text \<open>The operations on the object, with C strings as arguments, and on its text.\<close>

definition c_string :: "cstring \<Rightarrow> char_ptr" where
  "c_string xs = Some (xs @ [0])"

fun string_perform :: "string_op \<Rightarrow> ov_string \<Rightarrow> (bool \<times> ov_string) res" where
  "string_perform (Op_Append xs) s = string_Append all_memory (c_string xs) s"
| "string_perform (Op_Append_char c) s = Append_char all_memory c s"
| "string_perform (Op_Prepend xs) s = string_Prepend all_memory (c_string xs) s"
| "string_perform (Op_Prepend_char c) s = Prepend_char all_memory c s"
| "string_perform (Op_Assign xs) s = bindR (assign_chars all_memory (c_string xs) s) (\<lambda>s. Inr (True, s))"
| "string_perform (Op_AppendFormat xs) s = bindR (AppendFormat all_memory (Some xs) s) (\<lambda>(n, s). Inr (n = length xs, s))"
| "string_perform (Op_Format xs) s = bindR (string_Format all_memory (Some xs) s) (\<lambda>(n, s). Inr (n = length xs, s))"
| "string_perform (Op_PadLeft n c) s = bindR (PadLeft all_memory n c s) (\<lambda>s. Inr (True, s))"
| "string_perform (Op_PadRight n c) s = bindR (PadRight all_memory n c s) (\<lambda>s. Inr (True, s))"
| "string_perform Op_MakeUpper s = bindR (MakeUpper s) (\<lambda>s. Inr (True, s))"
| "string_perform Op_MakeLower s = bindR (MakeLower s) (\<lambda>s. Inr (True, s))"
| "string_perform (Op_SetLength n) s = string_SetLength all_memory n s"
| "string_perform (Op_SetCapacity n) s = SetCapacity all_memory n s"
| "string_perform Op_Clear s = Inr (string_Clear s)"

fun string_spec :: "string_op \<Rightarrow> cstring \<Rightarrow> cstring" where
  "string_spec (Op_Append xs) t = t @ xs"
| "string_spec (Op_Append_char c) t = t @ [c]"
| "string_spec (Op_Prepend xs) t = xs @ t"
| "string_spec (Op_Prepend_char c) t = c # t"
| "string_spec (Op_Assign xs) t = xs"
| "string_spec (Op_AppendFormat xs) t = t @ xs"
| "string_spec (Op_Format xs) t = xs"
| "string_spec (Op_PadLeft n c) t = replicate (n - length t) c @ t"
| "string_spec (Op_PadRight n c) t = t @ replicate (n - length t) c"
| "string_spec Op_MakeUpper t = map to_upper t"
| "string_spec Op_MakeLower t = map to_lower t"
| "string_spec (Op_SetLength n) t = take n t"
| "string_spec (Op_SetCapacity n) t = t"
| "string_spec Op_Clear t = []"

text \<open>
  The arguments the operations are made for: characters that are not NUL, a format that gives a text, a width that is
  not below the length, a length that is not above it, and a capacity that is not below it.
\<close>

fun string_fits :: "string_op \<Rightarrow> ov_string \<Rightarrow> bool" where
  "string_fits (Op_Append xs) s = (0 \<notin> set xs)"
| "string_fits (Op_Append_char c) s = (c \<noteq> 0)"
| "string_fits (Op_Prepend xs) s = (0 \<notin> set xs)"
| "string_fits (Op_Prepend_char c) s = (c \<noteq> 0)"
| "string_fits (Op_Assign xs) s = (0 \<notin> set xs)"
| "string_fits (Op_AppendFormat xs) s = (0 \<notin> set xs)"
| "string_fits (Op_Format xs) s = (0 \<notin> set xs \<and> xs \<noteq> [])"
| "string_fits (Op_PadLeft n c) s = (c \<noteq> 0 \<and> str_length s \<le> n \<and> n < 2 ^ 64)"
| "string_fits (Op_PadRight n c) s = (c \<noteq> 0)"
| "string_fits (Op_SetLength n) s = (n \<le> str_length s)"
| "string_fits (Op_SetCapacity n) s = (str_length s \<le> n)"
| "string_fits _ s = True"

definition string_text :: "ov_string \<Rightarrow> cstring" where
  "string_text s = (case str_buffer s of None \<Rightarrow> [] | Some b \<Rightarrow> take (str_length s) b)"

definition string_good :: "ov_string \<Rightarrow> bool" where
  "string_good s = str_holds s (string_text s)"

lemma str_holds_text: "str_holds s xs \<Longrightarrow> string_text s = xs"
  using str_holds_take [of s xs] by (auto simp: string_text_def str_holds_def split: option.splits)

lemma str_holds_good: "str_holds s xs \<longleftrightarrow> string_good s \<and> string_text s = xs"
  using str_holds_text by (auto simp: string_good_def)

lemma case_nonzero: "c \<noteq> 0 \<Longrightarrow> to_upper c \<noteq> 0" "c \<noteq> 0 \<Longrightarrow> to_lower c \<noteq> 0"
proof -
  show "c \<noteq> 0 \<Longrightarrow> to_upper c \<noteq> 0" by (auto simp: to_upper_def is_lower_def)
  have "c + 32 \<noteq> 0" if "is_upper c"
    using that by (auto simp: is_upper_def word_le_nat_alt word_unat_eq_iff unat_word_ariths)
  then show "c \<noteq> 0 \<Longrightarrow> to_lower c \<noteq> 0" by (auto simp: to_lower_def)
qed

lemma string_simulates:
  assumes "string_good s" "string_fits op s"
  shows "\<exists>s'. string_perform op s = Inr (True, s') \<and> string_good s' \<and> string_text s' = string_spec op (string_text s)"
proof -
  define t where "t = string_text s"
  have h: "str_holds s t" using assms(1) by (simp add: string_good_def t_def)
  have l: "str_length s = length t" by (rule str_holds_length [OF h])
  have "\<exists>s'. string_perform op s = Inr (True, s') \<and> str_holds s' (string_spec op t)"
  proof (cases op)
    case (Op_Append xs) then show ?thesis using Append_holds [OF h, of xs "[]"] assms(2) by (simp add: c_string_def)
  next
    case (Op_Append_char c) then show ?thesis using Append_char_holds [OF h, of c] assms(2) by simp
  next
    case (Op_Prepend xs) then show ?thesis using Prepend_holds [OF h, of xs "[]"] assms(2) by (simp add: c_string_def)
  next
    case (Op_Prepend_char c) then show ?thesis using Prepend_char_holds [OF h, of c] assms(2) by simp
  next
    case (Op_Assign xs) then show ?thesis using assign_holds [OF h, of xs "[]"] assms(2) by (auto simp: c_string_def)
  next
    case (Op_AppendFormat xs)
    then show ?thesis using AppendVFormat_holds [OF h, of xs] assms(2) by (auto simp: AppendFormat_def)
  next
    case (Op_Format xs)
    then obtain s' where "VFormat all_memory (Some xs) s = Inr (length xs, s')" "str_holds s' xs"
      using VFormat_holds [OF h, of xs] assms(2) by auto
    with Op_Format show ?thesis by (simp add: string_Format_def str_holds_length)
  next
    case (Op_PadLeft n c) then show ?thesis using PadLeft_holds [OF h, of n c] assms(2) l by auto
  next
    case (Op_PadRight n c) then show ?thesis using PadRight_holds [OF h, of c n] assms(2) by auto
  next
    case Op_MakeUpper then show ?thesis using map_chars_holds [OF h, of to_upper] case_nonzero by (auto simp: MakeUpper_def)
  next
    case Op_MakeLower then show ?thesis using map_chars_holds [OF h, of to_lower] case_nonzero by (auto simp: MakeLower_def)
  next
    case (Op_SetLength n) then show ?thesis using cut_holds [OF h, of n] assms(2) l by simp
  next
    case (Op_SetCapacity n) then show ?thesis using Alloc_holds [OF h, of n True] assms(2) l by (auto simp: SetCapacity_def)
  next
    case Op_Clear then show ?thesis using Clear_holds by (simp add: string_Clear_def)
  qed
  then show ?thesis by (simp add: str_holds_good t_def)
qed

interpretation str: simulation string_good string_text string_perform string_spec string_fits
  by unfold_locales (rule string_simulates)

end
