(* ===== verification/String_Queries.thy ===== *)
theory String_Queries
  imports String_Refinement
begin

text \<open>What the queries of \<open>ov::String\<close> answer, and that \<open>Replace\<close> splits and joins.\<close>

section \<open>Parts\<close>

text \<open>A new string of a part of another one, which has no buffer exactly when it is empty.\<close>

definition fresh_holds :: "ov_string \<Rightarrow> cstring \<Rightarrow> bool" where
  "fresh_holds s xs = (str_holds s xs \<and> (str_buffer s = None \<longleftrightarrow> xs = []))"

lemma fresh_holdsD: "fresh_holds s xs \<Longrightarrow> str_holds s xs"
  by (simp add: fresh_holds_def)

lemma fresh_null: "fresh_holds null_string []"
  by (simp add: fresh_holds_def str_holds_null) (simp add: null_string_def)

lemma part_holds:
  assumes "str_holds s xs" "off + n \<le> length xs"
  shows "\<exists>t. new_string_n all_memory (ptr_plus (str_buffer s) off) n = Inr t \<and> fresh_holds t (take n (drop off xs))"
proof (cases "n = 0")
  case True
  then show ?thesis using fresh_null by (simp add: new_string_n_def Append_n_def)
next
  case False
  with assms obtain b where b: "str_buffer s = Some b" by (auto simp: str_holds_def split: option.splits)
  obtain rest where r: "b = xs @ 0 # rest" using str_holds_split [OF assms(1) b] by blast
  define ys where "ys = take n (drop off xs)"
  have ys: "length ys = n" "take (length ys) (drop off b) = ys" "0 \<notin> set ys" "ys \<noteq> []"
    using assms False by (auto simp: ys_def r str_holds_def dest: in_set_takeD in_set_dropD)
  have "length ys \<le> length (drop off b)" using assms(2) by (simp add: ys(1) r)
  from Append_n_holds [OF str_holds_null ys(3,2) this] obtain t where
    "Append_n all_memory (Some (drop off b)) n null_string = Inr (True, t)" "str_holds t ys" using ys(1) by auto
  with ys(4) show ?thesis
    by (auto simp: new_string_n_def ptr_plus_def b ys_def [symmetric] fresh_holds_def str_holds_def split: option.splits)
qed

lemma ptr_plus_0 [simp]: "ptr_plus p 0 = p"
  by (cases p) (simp_all add: ptr_plus_def)

lemma copy_holds: "str_holds s xs \<Longrightarrow> \<exists>t. copy_string all_memory s = Inr t \<and> fresh_holds t xs"
  using part_holds [of s xs 0 "length xs"] by (simp add: copy_string_def str_holds_length)

lemma Substring_holds:
  assumes "str_holds s xs" "i \<le> length xs" "i + n < 2 ^ 64"
  shows "\<exists>t. Substring all_memory (int i) n s = Inr t \<and> fresh_holds t (take n (drop i xs))"
proof -
  define m where "m = (if length xs < i + n then length xs - i else n)"
  have "take m (drop i xs) = take n (drop i xs)" "i + m \<le> length xs" using assms(2) by (simp_all add: m_def)
  then show ?thesis using part_holds [OF assms(1), of i m] assms
    by (simp add: Substring_def str_holds_length [OF assms(1)] m_def [symmetric] Let_def cong: if_cong)
qed

lemma Left_holds: "str_holds s xs \<Longrightarrow> \<exists>t. Left all_memory n s = Inr t \<and> fresh_holds t (take n xs)"
proof -
  assume "str_holds s xs"
  moreover have "take (min n (length xs)) xs = take n xs" by (simp add: min_def)
  ultimately show ?thesis using part_holds [of s xs 0 "min n (length xs)"] by (simp add: Left_def str_holds_length)
qed

lemma Right_holds: "str_holds s xs \<Longrightarrow> \<exists>t. Right all_memory n s = Inr t \<and> fresh_holds t (drop (length xs - n) xs)"
  using part_holds [of s xs "length xs - min n (length xs)" "min n (length xs)"]
  by (simp add: Right_def Let_def str_holds_length min_def split: if_split_asm)

section \<open>Comparisons\<close>

lemma text_of_buffer: "str_holds s xs \<Longrightarrow> str_buffer s = Some b \<Longrightarrow> c_text (Some b) = Inr xs"
proof -
  assume h: "str_holds s xs" "str_buffer s = Some b"
  then obtain rest where "b = xs @ 0 # rest" by (rule str_holds_split)
  with h(1) show ?thesis by (simp add: c_text_text str_holds_def)
qed

lemma string_eq_fresh: "fresh_holds s xs \<Longrightarrow> fresh_holds t ys \<Longrightarrow> string_eq s t = Inr (xs = ys)"
  by (cases "str_buffer s"; cases "str_buffer t") (auto simp: string_eq_def fresh_holds_def text_of_buffer)

lemma HasPrefix_holds:
  assumes "str_holds s xs" "str_holds p ps"
  shows "HasPrefix all_memory p s = Inr (take (length ps) xs = ps)"
proof -
  obtain q where q: "copy_string all_memory p = Inr q" "fresh_holds q ps" using copy_holds [OF assms(2)] by blast
  moreover obtain l where "Left all_memory (length ps) s = Inr l" "fresh_holds l (take (length ps) xs)"
    using Left_holds [OF assms(1)] by blast
  ultimately show ?thesis by (simp add: HasPrefix_def str_holds_length [OF fresh_holdsD [OF q(2)]] string_eq_fresh)
qed

lemma HasSuffix_holds:
  assumes "str_holds s xs" "str_holds p ps"
  shows "HasSuffix all_memory p s = Inr (drop (length xs - length ps) xs = ps)"
proof -
  obtain q where q: "copy_string all_memory p = Inr q" "fresh_holds q ps" using copy_holds [OF assms(2)] by blast
  moreover obtain l where "Right all_memory (length ps) s = Inr l" "fresh_holds l (drop (length xs - length ps) xs)"
    using Right_holds [OF assms(1)] by blast
  ultimately show ?thesis by (simp add: HasSuffix_def str_holds_length [OF fresh_holdsD [OF q(2)]] string_eq_fresh)
qed

section \<open>Searching\<close>

lemma IndexOf_holds:
  assumes "str_holds s xs" "0 \<notin> set ps"
  shows "IndexOf (c_string ps) (int i) s =
    Inr (if length xs \<le> i then -1 else case strstr (drop i xs) ps of None \<Rightarrow> -1 | Some n \<Rightarrow> int (i + n))"
proof (cases "length xs \<le> i")
  case False
  with assms(1) obtain b where b: "str_buffer s = Some b" by (auto simp: str_holds_def split: option.splits)
  obtain rest where r: "b = xs @ 0 # rest" using str_holds_split [OF assms(1) b] by blast
  have "0 \<notin> set (drop i xs)" using assms(1) by (auto simp: str_holds_def dest: in_set_dropD)
  then have "c_text (ptr_plus (str_buffer s) i) = Inr (drop i xs)" using False by (simp add: ptr_plus_def b r c_text_text)
  moreover have "c_text (c_string ps) = Inr ps" using assms(2) c_text_text [of ps "[]"] by (simp add: c_string_def)
  ultimately show ?thesis using False by (simp add: IndexOf_def str_holds_length [OF assms(1)] split: option.split)
qed (simp add: IndexOf_def str_holds_length [OF assms(1)])

section \<open>Trimming\<close>

lemma get_char_holds:
  assumes "str_holds s xs" "i < length xs"
  shows "get_char (str_buffer s) i = Inr (xs ! i)"
proof -
  from assms obtain b where b: "str_buffer s = Some b" by (auto simp: str_holds_def split: option.splits)
  obtain rest where "b = xs @ 0 # rest" using str_holds_split [OF assms(1) b] by blast
  with b assms(2) show ?thesis by (simp add: get_char_def nth_append)
qed

lemma trim_left_holds:
  "str_holds s xs \<Longrightarrow> i \<le> length xs \<Longrightarrow> trim_left s i = Inr (i + length (takeWhile is_blank (drop i xs)))"
proof (induction s i rule: trim_left.induct)
  case (1 s i)
  show ?case
  proof (cases "i < length xs")
    case True
    then have "drop i xs = xs ! i # drop (i + 1) xs" by (simp add: Cons_nth_drop_Suc)
    with 1 True show ?thesis
      by (simp add: trim_left.simps [of s i] get_char_holds str_holds_length [OF 1(2)])
  next
    case False
    with 1(3) have "i = length xs" by simp
    then show ?thesis by (simp add: trim_left.simps [of s "length xs"] str_holds_length [OF 1(2)])
  qed
qed

text \<open>The text without the blanks at both ends.\<close>

definition trimmed :: "cstring \<Rightarrow> cstring" where
  "trimmed xs = rev (dropWhile is_blank (rev (dropWhile is_blank xs)))"

lemma trim_right_holds:
  assumes "str_holds s xs" "left < length xs" "\<not> is_blank (xs ! left)" "left \<le> i" "i < length xs"
  shows "\<exists>r. trim_right s left i = Inr r \<and> left \<le> r \<and> r \<le> i \<and> \<not> is_blank (xs ! r) \<and> (\<forall>j. r < j \<and> j \<le> i \<longrightarrow> is_blank (xs ! j))"
  using assms(4,5)
proof (induction i)
  case 0
  then show ?case using assms(2,3) get_char_holds [OF assms(1), of 0] by (simp add: trim_right.simps)
next
  case (Suc i)
  show ?case
  proof (cases "is_blank (xs ! Suc i)")
    case False
    then show ?thesis using Suc.prems get_char_holds [OF assms(1), of "Suc i"] by (auto simp: trim_right.simps [of s left "Suc i"])
  next
    case True
    then have "left \<le> i" using Suc.prems(1) assms(3) le_Suc_eq by auto
    with Suc obtain r where "trim_right s left i = Inr r" "left \<le> r" "r \<le> i" "\<not> is_blank (xs ! r)"
      "\<forall>j. r < j \<and> j \<le> i \<longrightarrow> is_blank (xs ! j)" by auto
    then show ?thesis using True Suc.prems get_char_holds [OF assms(1), of "Suc i"]
      by (auto simp: trim_right.simps [of s left "Suc i"] le_Suc_eq)
  qed
qed

lemma trim_end:
  "\<forall>x \<in> set zs. is_blank x \<Longrightarrow> \<not> is_blank y \<Longrightarrow> rev (dropWhile is_blank (rev (ys @ y # zs))) = ys @ [y]"
proof -
  assume "\<forall>x \<in> set zs. is_blank x" and y: "\<not> is_blank y"
  then have "dropWhile is_blank (rev zs @ y # rev ys) = dropWhile is_blank (y # rev ys)" by (intro dropWhile_append2) simp
  with y show ?thesis by simp
qed

lemma Trim_holds:
  assumes "str_holds s xs" "length xs < 2 ^ 63"
  shows "\<exists>t. Trim all_memory s = Inr t \<and> fresh_holds t (trimmed xs)"
proof (cases "xs = []")
  case True
  then show ?thesis using fresh_null by (simp add: Trim_def str_holds_length [OF assms(1)] trimmed_def)
next
  case False
  define l where "l = length (takeWhile is_blank xs)"
  have left: "trim_left s 0 = Inr l" using trim_left_holds [OF assms(1), of 0] by (simp add: l_def)
  have d: "dropWhile is_blank xs = drop l xs" by (simp add: dropWhile_eq_drop l_def)
  show ?thesis
  proof (cases "l < length xs")
    case False
    then have l: "l = length xs" using length_takeWhile_le [of is_blank xs] by (simp add: l_def)
    then have "trimmed xs = []" by (simp add: trimmed_def d)
    moreover have "trim_right s l (length xs - 1) = Inr (length xs - 1)"
    proof -
      have "\<not> l \<le> length xs - 1" using \<open>xs \<noteq> []\<close> l by (cases xs) auto
      then show ?thesis by (simp add: trim_right.simps)
    qed
    ultimately show ?thesis using left l \<open>xs \<noteq> []\<close> fresh_null by (simp add: Trim_def str_holds_length [OF assms(1)])
  next
    case True
    then have nb: "\<not> is_blank (xs ! l)" using nth_length_takeWhile [of is_blank xs] by (simp add: l_def)
    have last: "l \<le> length xs - 1" "length xs - 1 < length xs" using True by simp_all
    obtain r where r: "trim_right s l (length xs - 1) = Inr r" "l \<le> r" "r \<le> length xs - 1" "\<not> is_blank (xs ! r)"
        "\<forall>j. r < j \<and> j \<le> length xs - 1 \<longrightarrow> is_blank (xs ! j)"
      using trim_right_holds [OF assms(1) True nb, of "length xs - 1"] last by blast
    have "drop l xs = take (r - l) (drop l xs) @ xs ! r # drop (r + 1) xs"
      using r(2,3) True id_take_nth_drop [of "r - l" "drop l xs"] by simp
    moreover have "\<forall>x \<in> set (drop (r + 1) xs). is_blank x" using r(5) by (auto simp: in_set_conv_nth)
    ultimately have t: "trimmed xs = take (r - l) (drop l xs) @ [xs ! r]"
      using r(4) trim_end [of "drop (r + 1) xs" "xs ! r" "take (r - l) (drop l xs)"] by (simp only: trimmed_def d not_False_eq_True simp_thms)
    then have t: "trimmed xs = take (r - l + 1) (drop l xs)" using r(2,3) True by (simp add: take_Suc_conv_app_nth)
    show ?thesis
    proof (cases "l = 0 \<and> r = length xs - 1")
      case True
      then show ?thesis using left r t copy_holds [OF assms(1)] \<open>xs \<noteq> []\<close> by (simp add: Trim_def str_holds_length [OF assms(1)])
    next
      case False
      then show ?thesis using left r t Substring_holds [OF assms(1), of l "r - l + 1"] assms(2) \<open>xs \<noteq> []\<close> True
        by (auto simp: Trim_def str_holds_length [OF assms(1)])
    qed
  qed
qed

section \<open>Replacing\<close>

lemma split_loop_all: "sep \<noteq> [] \<Longrightarrow> split_loop sep None k s = split_loop sep None 0 s"
proof (induction "length s" arbitrary: s k rule: less_induct)
  case less
  show ?case
  proof (cases "strstr s sep")
    case (Some n)
    then have "length (drop (n + length sep) s) < length s" using strstr_Some [OF Some] less.prems by (cases sep) auto
    from less.hyps [OF this less.prems] Some less.prems show ?thesis
      by (subst split_loop.simps, subst (2) split_loop.simps) (simp, metis)
  qed (use less.prems in \<open>simp add: split_loop.simps\<close>)
qed

lemma split_loop_step: "sep \<noteq> [] \<Longrightarrow> split_loop sep None 0 s =
    (case strstr s sep of None \<Rightarrow> [s] | Some n \<Rightarrow> take n s # split_loop sep None 0 (drop (n + length sep) s))"
  using split_loop_all [of sep "Suc 0"] by (subst split_loop.simps) (simp split: option.split)

lemma split_loop_nonempty: "sep \<noteq> [] \<Longrightarrow> split_loop sep None 0 s \<noteq> []"
  by (subst split_loop_step) (auto split: option.split)

lemma Replace_loop_holds:
  assumes "str_holds s xs" "0 \<notin> set old" "old \<noteq> []" "0 \<notin> set new"
  shows "str_holds t acc \<Longrightarrow> pos \<le> length xs \<Longrightarrow>
    \<exists>t'. Replace_loop all_memory (old @ [0]) (length old) (new @ [0]) (length new) s pos t = Inr t' \<and>
      str_holds t' (acc @ Join (split_loop old None 0 (drop pos xs)) new)"
proof (induction "length xs - pos" arbitrary: pos t acc rule: less_induct)
  case less
  have idx: "IndexOf (Some (old @ [0])) (int pos) s =
      Inr (if length xs \<le> pos then -1 else case strstr (drop pos xs) old of None \<Rightarrow> -1 | Some n \<Rightarrow> int (pos + n))"
    using IndexOf_holds [OF assms(1,2), of pos] by (simp add: c_string_def)
  show ?case
  proof (cases "strstr (drop pos xs) old")
    case None
    then have split: "split_loop old None 0 (drop pos xs) = [drop pos xs]" using assms(3) by (simp add: split_loop_step)
    have "\<exists>ok t'. string_Append all_memory (ptr_plus (str_buffer s) pos) t = Inr (ok, t') \<and> str_holds t' (acc @ drop pos xs)"
    proof (cases "str_buffer s")
      case None
      with assms(1) have "xs = []" by (simp add: str_holds_def)
      with None less.prems show ?thesis by (intro exI [of _ False] exI [of _ t]) (simp add: ptr_plus_def string_Append_def)
    next
      case (Some b)
      obtain rest where "b = xs @ 0 # rest" using str_holds_split [OF assms(1) Some] by blast
      moreover have "0 \<notin> set (drop pos xs)" using assms(1) by (auto simp: str_holds_def dest: in_set_dropD)
      ultimately show ?thesis using Append_holds [OF less.prems(1), of "drop pos xs" rest] Some less.prems(2)
        by (auto simp: ptr_plus_def)
    qed
    then show ?thesis using None idx by (auto simp: Replace_loop.simps [of _ _ _ _ _ s pos] split)
  next
    case (Some n)
    have n: "n + length old \<le> length xs - pos" using strstr_Some [OF Some] by simp
    then have pos: "pos < length xs" using assms(3) by (cases old) auto
    with assms(1) obtain b where b: "str_buffer s = Some b" by (auto simp: str_holds_def split: option.splits)
    obtain rest where r: "b = xs @ 0 # rest" using str_holds_split [OF assms(1) b] by blast
    define ys where "ys = take n (drop pos xs)"
    have ys: "length ys = n" "0 \<notin> set ys" "take (length ys) (drop pos b) = ys" "length ys \<le> length (drop pos b)"
      using n assms(1) by (auto simp: ys_def r str_holds_def dest: in_set_takeD in_set_dropD)
    obtain t1 where t1: "Append_n all_memory (Some (drop pos b)) n t = Inr (True, t1)" "str_holds t1 (acc @ ys)"
      using Append_n_holds [OF less.prems(1) ys(2-4)] ys(1) by auto
    obtain t2 where t2: "Append_n all_memory (Some (new @ [0])) (length new) t1 = Inr (True, t2)" "str_holds t2 (acc @ ys @ new)"
      using Append_n_holds [OF t1(2) assms(4), of "new @ [0]"] by auto
    have "length xs - (pos + n + length old) < length xs - pos" using pos assms(3) by (cases old) auto
    moreover have "pos + n + length old \<le> length xs" using n pos by linarith
    ultimately obtain t' where
      t': "Replace_loop all_memory (old @ [0]) (length old) (new @ [0]) (length new) s (pos + n + length old) t2 = Inr t'"
        "str_holds t' (acc @ ys @ new @ Join (split_loop old None 0 (drop (pos + n + length old) xs)) new)"
      using less.hyps [of "pos + n + length old" t2 "acc @ ys @ new"] t2(2) by (auto simp: add.assoc)
    have "Join (split_loop old None 0 (drop pos xs)) new =
        ys @ new @ Join (split_loop old None 0 (drop (pos + n + length old) xs)) new"
      using Some assms(3) split_loop_nonempty [OF assms(3), of "drop (pos + n + length old) xs"]
      by (subst split_loop_step) (auto simp: ys_def add_ac neq_Nil_conv)
    then show ?thesis using t' idx pos Some t1 t2 b assms(3)
      by (simp add: Replace_loop.simps [of _ _ _ _ _ s pos] ptr_plus_def nat_int_add add.assoc)
  qed
qed

lemma Replace_loop_empty_token:
  assumes "str_holds s xs" "xs \<noteq> []" "0 \<notin> set new"
  shows "Replace_loop all_memory [0] 0 (new @ [0]) (length new) s 0 null_string = Inl Endless_Loop"
proof -
  have "IndexOf (Some [0]) 0 s = Inr 0"
    using IndexOf_holds [OF assms(1), of "[]" 0] assms(2) by (simp add: c_string_def strstr.simps)
  moreover obtain t where "Append_n all_memory (Some (new @ [0])) (length new) null_string = Inr (True, t)"
    using Append_n_holds [OF str_holds_null assms(3), of "new @ [0]"] by auto
  moreover obtain b where "str_buffer s = Some b" using assms(1,2) by (auto simp: str_holds_def split: option.splits)
  ultimately show ?thesis by (simp add: Replace_loop.simps [of _ _ _ _ _ s 0] Append_n_def [of _ _ 0])
qed

section \<open>Properties\<close>


lemma steps_fit_always:
  "string_good s \<Longrightarrow> \<forall>op \<in> set ops. \<forall>s. string_fits op s \<Longrightarrow> steps_fit string_perform string_fits ops s"
proof (induction ops arbitrary: s)
  case (Cons op ops)
  then obtain s' where "string_perform op s = Inr (True, s')" "string_good s'" using string_simulates [of s op] by auto
  with Cons show ?case by simp
qed simp


text \<open>
  C36. \<open>Replace\<close> is splitting and joining: the text at the old token, cut with \<open>split_loop\<close> as \<open>Split\<close> does, and joined with the
  new token. With an empty old token, however, its loop never ends unless the string is empty.
\<close>

theorem string_replace:
  assumes "string_good s" "0 \<notin> set old" "0 \<notin> set new"
  shows "if old \<noteq> [] then
      \<exists>t. Replace all_memory (c_string old) (c_string new) s = Inr t \<and> string_good t \<and>
        string_text t = Join (split_loop old None 0 (string_text s)) new
    else Replace all_memory (c_string old) (c_string new) s =
      (if string_text s = [] then Inr null_string else Inl Endless_Loop)"
proof -
  have h: "str_holds s (string_text s)" using assms(1) by (simp add: string_good_def)
  have r: "Replace all_memory (c_string old) (c_string new) s =
      Replace_loop all_memory (old @ [0]) (length old) (new @ [0]) (length new) s 0 null_string"
    using strlen_text [OF assms(2), of "[]"] strlen_text [OF assms(3), of "[]"] by (simp add: Replace_def c_string_def)
  show ?thesis
  proof (cases "old = []")
    case False
    then show ?thesis using Replace_loop_holds [OF h assms(2) False assms(3) str_holds_null, of 0]
      by (simp add: r str_holds_good)
  next
    case True
    have "Replace_loop all_memory [0] 0 (new @ [0]) (length new) s 0 null_string = Inr null_string" if e: "string_text s = []"
    proof -
      have "IndexOf (Some [0]) 0 s = Inr (-1)" using str_holds_length [OF h] e by (simp add: IndexOf_def)
      moreover have "string_Append all_memory (str_buffer s) null_string = Inr (str_buffer s \<noteq> None, null_string)"
      proof (cases "str_buffer s")
        case (Some b)
        then obtain rest where "b = 0 # rest" using str_holds_split [OF h] e by auto
        with Some show ?thesis by (simp add: string_Append_def strlen_def Append_n_def)
      qed (simp add: string_Append_def)
      ultimately show ?thesis by (simp add: Replace_loop.simps [of _ _ _ _ _ s 0])
    qed
    with True Replace_loop_empty_token [OF h _ assms(3)] show ?thesis using r by (cases "string_text s = []") simp_all
  qed
qed

text \<open>A string whose three occurrences of a token of two characters are replaced.\<close>

theorem string_replace_witness:
  "\<exists>s t. new_string all_memory (c_string [97, 98, 99, 97, 98, 97, 98]) = Inr s \<and>
    Replace all_memory (c_string [97, 98]) (c_string [120]) s = Inr t \<and> string_good t \<and> string_text t = [120, 99, 120, 120]"
proof -
  obtain s where s: "new_string all_memory (c_string [97, 98, 99, 97, 98, 97, 98]) = Inr s" "str_holds s [97, 98, 99, 97, 98, 97, 98]"
    using Append_holds [OF str_holds_null, of "[97, 98, 99, 97, 98, 97, 98]" "[]"] by (auto simp: new_string_def c_string_def)
  have "Join (split_loop [97, 98] None 0 [97, 98, 99, 97, 98, 97, 98]) [120] = [120, 99, 120, 120]" by code_simp
  then show ?thesis using string_replace [of s "[97, 98]" "[120]"] s by (auto simp: str_holds_good)
qed

text \<open>
  C37. The parts and tests of a string: \<open>Trim\<close> takes the blanks off both ends, \<open>Substring\<close>, \<open>Left\<close> and \<open>Right\<close> deliver the
  part they name as far as the text goes, \<open>HasPrefix\<close> and \<open>HasSuffix\<close> say whether the text begins or ends so, and
  \<open>IndexOf\<close> finds the first occurrence.
\<close>

theorem string_queries:
  assumes "string_good s" "string_good p" "length (string_text s) < 2 ^ 63" "i + n < 2 ^ 64"
  defines "xs \<equiv> string_text s" and "ps \<equiv> string_text p"
  shows "(\<exists>t. Trim all_memory s = Inr t \<and> string_text t = rev (dropWhile is_blank (rev (dropWhile is_blank xs)))) \<and>
    (\<exists>t. Substring all_memory (int i) n s = Inr t \<and> string_text t = take n (drop i xs)) \<and>
    (\<exists>t. Left all_memory n s = Inr t \<and> string_text t = take n xs) \<and>
    (\<exists>t. Right all_memory n s = Inr t \<and> string_text t = drop (length xs - n) xs) \<and>
    HasPrefix all_memory p s = Inr (take (length ps) xs = ps) \<and>
    HasSuffix all_memory p s = Inr (drop (length xs - length ps) xs = ps) \<and>
    IndexOf (c_string ps) (int i) s =
      Inr (if length xs \<le> i then -1 else case strstr (drop i xs) ps of None \<Rightarrow> -1 | Some k \<Rightarrow> int (i + k))"
proof -
  have h: "str_holds s xs" "str_holds p ps" using assms(1,2) by (simp_all add: string_good_def xs_def ps_def)
  have tx: "fresh_holds t ys \<Longrightarrow> string_text t = ys" for t ys by (simp add: fresh_holds_def str_holds_text)
  have "\<exists>t. Substring all_memory (int i) n s = Inr t \<and> string_text t = take n (drop i xs)"
  proof (cases "i \<le> length xs")
    case True
    then show ?thesis using Substring_holds [OF h(1) True assms(4)] tx by blast
  next
    case False
    then show ?thesis using str_holds_text [OF str_holds_null] by (simp add: Substring_def str_holds_length [OF h(1)])
  qed
  moreover have "0 \<notin> set ps" using h(2) by (simp add: str_holds_def)
  moreover have "length xs < 2 ^ 63" using assms(3) by (simp add: xs_def)
  ultimately show ?thesis
    using Trim_holds [OF h(1)] Left_holds [OF h(1)] Right_holds [OF h(1)] HasPrefix_holds [OF h] HasSuffix_holds [OF h]
      IndexOf_holds [OF h(1)] tx unfolding trimmed_def by metis
qed

text \<open>A string of nine characters, with blanks around it.\<close>

theorem string_queries_witness:
  "\<exists>s p t. new_string all_memory (c_string [32, 97, 98, 99, 97, 98, 9, 10, 32]) = Inr s \<and> new_string all_memory (c_string [97, 98]) = Inr p \<and>
    Trim all_memory s = Inr t \<and> string_text t = [97, 98, 99, 97, 98] \<and> HasPrefix all_memory p s = Inr False \<and>
    IndexOf (c_string [97, 98]) 2 s = Inr 4"
proof -
  obtain s where s: "new_string all_memory (c_string [32, 97, 98, 99, 97, 98, 9, 10, 32]) = Inr s"
      "str_holds s [32, 97, 98, 99, 97, 98, 9, 10, 32]"
    using Append_holds [OF str_holds_null, of "[32, 97, 98, 99, 97, 98, 9, 10, 32]" "[]"] by (auto simp: new_string_def c_string_def)
  obtain p where p: "new_string all_memory (c_string [97, 98]) = Inr p" "str_holds p [97, 98]"
    using Append_holds [OF str_holds_null, of "[97, 98]" "[]"] by (auto simp: new_string_def c_string_def)
  have "strstr [98, 99, 97, 98, 9, 10, 32] [97, 98] = Some 2" by code_simp
  then show ?thesis using string_queries [of s p 2 0] s p by (simp add: str_holds_good is_blank_def)
qed


section \<open>Two calls that go wrong\<close>

text \<open>
  A capacity below the length: the buffer becomes shorter than the text, while the length stays, and the next append
  reads past the buffer.
\<close>

lemma small_capacity_overreads:
  "\<exists>s s'. new_string all_memory (c_string [97, 98, 99, 100]) = Inr s \<and> SetCapacity all_memory 2 s = Inr (True, s') \<and>
    str_length s' = 4 \<and> str_capacity s' = 2 \<and> Append_char all_memory 101 s' = Inl Over_Read"
  by (simp add: new_string_def c_string_def string_Append_def strlen_def Append_n_def with_room_def Alloc_def null_string_def
      grown_length.simps Let_def fetch_range_def put_range_def put_char_def SetCapacity_def Append_char_def read_bytes_def)

text \<open>Padding on the left to a width below the length: the number of characters to pad with wraps.\<close>

lemma PadLeft_wraps:
  assumes "n < str_length s" "str_length s < 2 ^ 63"
  shows "PadLeft malloc n c s =
    bindR (pad_loop malloc c (2 ^ 64 - (str_length s - n)) null_string) (\<lambda>padding.
      bindR (string_Prepend malloc (Some (CStr padding)) s) (\<lambda>(_, s). Inr s))"
proof -
  have "(int n - int (str_length s)) mod 2 ^ 64 = int n - int (str_length s) + 2 ^ 64"
    using assms mod_pos_pos_trivial [of "int n - int (str_length s) + 2 ^ 64" "2 ^ 64"] by simp
  moreover have "nat (int n - int (str_length s) + 2 ^ 64) = 2 ^ 64 - (str_length s - n)" "0 < 2 ^ 64 - (str_length s - n)"
    using assms by simp_all
  ultimately show ?thesis by (simp only: PadLeft_def Let_def if_True)
qed

end
