(* ===== verification/Spec2Isabelle.thy ===== *)
theory Spec2Isabelle
  imports Chunk_Roundtrip Amf_Codec Aac_Codec Avc_Codec Url_Codec Data_Refinement H264_Codec H265_Codec Rtmp_Session Rtmp_Publish Rtmp_Reply
    Rtmp_Progress Aac_Utils Gf_Bit_Position Io_Codec Md5_Codec String_Queries
begin

text \<open>
  A verification development for the media engine under \<open>src/common/src\<close>.
\<close>

section \<open>Sample values\<close>

text \<open>Inputs at which the properties are applied.\<close>

definition sample_exporter :: export_chunk where
  "sample_exporter = new_export_chunk True 4"

definition sample_importer :: import_chunk where
  "sample_importer = new_import_chunk 4"

definition sample_mux :: "u32 \<Rightarrow> u32 \<Rightarrow> u32 \<Rightarrow> mux_message_header" where
  "sample_mux csid ts sz =
     \<lparr>mux_chunk_stream_id = csid, mux_timestamp = ts, mux_type_id = 9, mux_stream_id = 1, mux_body_size = sz\<rparr>"

lemma sample_in_step: "in_step sample_exporter sample_importer" "import_ok sample_importer"
  by (simp_all add: sample_exporter_def sample_importer_def in_step_new import_ok_new)

lemma sample_sizes [simp]: "import_chunk_size sample_importer = 4" "export_chunk_size sample_exporter = 4"
  by (simp_all add: sample_exporter_def sample_importer_def new_export_chunk_def new_import_chunk_def)

section \<open>Messages across the wire\<close>





section \<open>The importer on any input\<close>

text \<open>
  C8. \<open>Import\<close> is total and memory-safe on every input: from any state of the invariant it returns,
  without reading outside the data, dereferencing a null pointer, dividing by zero or looping; what
  it consumes lies within the data, a finished message consumed something, the invariant is kept
  (so that every queued payload has its announced length, at most 20 MB), and at most one message
  is added to the queue.
\<close>

theorem Import_safe:
  assumes "import_ok s" "length d < 2 ^ 31"
  shows "\<exists>n fin s'. Import s d = Inr (n, fin, s') \<and> - 1 \<le> n \<and> n \<le> int (length d) \<and> (fin \<longrightarrow> 0 < n) \<and>
    import_ok s' \<and> import_chunk_size s' = import_chunk_size s \<and>
    (if fin then \<exists>m. import_queue s' = Enqueue m (import_queue s) \<and> message_ok m
     else import_queue s' = import_queue s)"
proof -
  obtain n fin s' where r: "import_spec s d = (n, fin, s')" by (metis prod_cases3)
  have "import_chunk_size s' = import_chunk_size s \<and>
    (if fin then \<exists>m. import_queue s' = Enqueue m (import_queue s) \<and> message_ok m
     else import_queue s' = import_queue s)"
    using import_spec_effect [OF assms(1) r] .
  then show ?thesis
    using Import_eq [OF assms] r import_spec_bound [OF assms(1) r] import_spec_ok [OF assms(1) r] by auto
qed

theorem Import_safe_witness:
  "\<exists>n fin s'. Import sample_importer [0xFF, 0, 7] = Inr (n, fin, s') \<and> - 1 \<le> n \<and> n \<le> int (length [0xFF, 0, 7 :: byte]) \<and>
    (fin \<longrightarrow> 0 < n) \<and> import_ok s' \<and> import_chunk_size s' = import_chunk_size sample_importer \<and>
    (if fin then \<exists>m. import_queue s' = Enqueue m (import_queue sample_importer) \<and> message_ok m
     else import_queue s' = import_queue sample_importer)"
  by (rule Import_safe [OF sample_in_step(2)]) simp

text \<open>
  C9. A call of \<open>Import\<close> that neither fails nor finishes a message is invisible: with more data, the
  call on everything gives what the call on the rest gives from the state it left, with its count
  added. A call that failed or finished does not depend on what follows.
\<close>

theorem Import_resumes:
  assumes "import_ok s" "length (d @ e) < 2 ^ 31" "Import s d = Inr (n, fin, s')"
  shows "Import s (d @ e) =
    (if fin \<or> n < 0 then Inr (n, fin, s')
     else map_sum id (add_count n) (Import s' (drop (nat n) d @ e)))"
proof -
  have len: "length d < 2 ^ 31" "length (drop (nat n) d @ e) < 2 ^ 31" using assms(2) by simp_all
  have r: "import_spec s d = (n, fin, s')" using assms(3) Import_eq [OF assms(1) len(1)] by simp
  note ok' = import_spec_ok [OF assms(1) r]
  show ?thesis
    using import_spec_settled [OF assms(1) r] import_spec_resume [OF assms(1), of d n s' e] r
    by (auto simp: Import_eq [OF assms(1,2)] Import_eq [OF ok' len(2)])
qed

theorem Import_resumes_witness:
  "\<exists>n fin s'. Import sample_importer [3] = Inr (n, fin, s') \<and>
    Import sample_importer ([3] @ [0, 0, 9]) =
      (if fin \<or> n < 0 then Inr (n, fin, s')
       else map_sum id (add_count n) (Import s' (drop (nat n) [3] @ [0, 0, 9])))"
proof -
  obtain n fin s' where "Import sample_importer [3] = Inr (n, fin, s')"
    using Import_eq [OF sample_in_step(2), of "[3]"] by (cases "import_spec sample_importer [3]") auto
  then show ?thesis
    using Import_resumes [OF sample_in_step(2), of "[3]" "[0, 0, 9]" n fin s'] by auto
qed

section \<open>The exporter\<close>



text \<open>
  The buffer of chunk stream ids: a null header and the ids 0 and 1 give the null pointer and
  leave the exporter alone; every other id makes an entry that holds the header just sent, and no
  other entry changes.
\<close>

theorem export_updates_its_stream:
  "ExportStreamData e None data = Inr (None, e) \<and>
   (mux_chunk_stream_id mh < 2 \<longrightarrow> ExportStreamData e (Some mh) data = Inr (None, e)) \<and>
   (ExportStreamData e (Some mh) data = Inr (Some bytes, e') \<longrightarrow>
      stream_map e' (mux_chunk_stream_id mh) = Some \<lparr>es_message_header = mh, es_timestamp_delta =
        mux_timestamp mh - mux_timestamp (es_message_header (export_stream_of e (mux_chunk_stream_id mh)))\<rparr> \<and>
      (\<forall>csid. csid \<noteq> mux_chunk_stream_id mh \<longrightarrow> stream_map e' csid = stream_map e csid))"
proof -
  have "fst (GetStream e csid) = export_stream_of e csid" for csid by (simp add: GetStream_eq)
  then show ?thesis
    by (auto simp: ExportStreamData_def Let_def GetStream_def export_stream_of_def
        split: if_splits option.splits prod.splits)
qed

theorem export_updates_its_stream_witness:
  "ExportStreamData sample_exporter (Some (sample_mux 1 0 2)) [1, 2] = Inr (None, sample_exporter)"
  using export_updates_its_stream [of sample_exporter "[1, 2]" "sample_mux 1 0 2"]
  by (simp add: sample_mux_def)

section \<open>Chunk headers and chunked bodies\<close>

text \<open>
  C10. \<open>Parse\<close> on any bytes, from any parser state of the invariant: it does not fault, never reports
  failure, the number it reports lies within the data, the invariant is kept, and a completed parse
  has moved the stream by just that number.
\<close>

theorem Parse_safe:
  assumes "parser_ok p"
  shows "\<exists>n q st. Parse m p (stream_of d) = Inr (int n, q, st) \<and> n \<le> length d \<and> parser_ok q \<and>
    (n, q) = parse_spec m p d \<and> (IsParseCompleted q \<longrightarrow> d \<noteq> [] \<longrightarrow> st = advance n (stream_of d))"
proof -
  obtain n q where "parse_spec m p d = (n, q)" by force
  with assms Parse_refines [of "stream_of d" p m] parse_spec_bound [of m p d] parse_spec_ok [of p m d]
  show ?thesis by (auto simp: parse_result_ok_def)
qed

theorem Parse_safe_witness:
  "\<exists>n q st. Parse Map.empty Reset (stream_of [0xC3, 1]) = Inr (int n, q, st) \<and> n \<le> length [0xC3, 1 :: byte] \<and>
    parser_ok q \<and> (n, q) = parse_spec Map.empty Reset [0xC3, 1] \<and>
    (IsParseCompleted q \<longrightarrow> [0xC3, 1 :: byte] \<noteq> [] \<longrightarrow> st = advance n (stream_of [0xC3, 1]))"
  by (rule Parse_safe) simp

text \<open>
  C11. Written chunk headers are read back: for every chunk stream id from 2 to 65599, every header of
  type 0, 1 or 2, extended or not, followed by at least one byte, parses to the same type, id and
  fields, and takes exactly the bytes written.
\<close>

theorem chunk_header_roundtrip:
  assumes "2 \<le> stream_id ch" "stream_id ch \<le> 65599" "format_type ch \<noteq> T3" "rest \<noteq> []"
    and "ext \<longleftrightarrow> hdr_timestamp (header ch) = RTMP_EXTEND_TIMESTAMP"
  shows "\<exists>h st. Parse m Reset (stream_of (GetChunkHeaderRaw ch ext @ rest)) =
      Inr (int (length (GetChunkHeaderRaw ch ext)),
        \<lparr>current_chunk_header = Some h, parse_status = ParseCompleted\<rparr>, st) \<and>
    GetRemainData st = rest \<and> format_type h = format_type ch \<and> stream_id h = stream_id ch \<and>
    is_extended h = ext \<and> hdr_timestamp (header h) = hdr_timestamp (header ch) \<and>
    (format_type ch \<noteq> T2 \<longrightarrow> hdr_length (header h) = hdr_length (header ch) \<and>
       hdr_type_id (header h) = hdr_type_id (header ch)) \<and>
    (format_type ch = T0 \<longrightarrow> hdr_stream_id (header h) = hdr_stream_id (header ch)) \<and>
    header_size h = length (GetChunkHeaderRaw ch ext)"
proof -
  let ?raw = "GetChunkHeaderRaw ch ext"
  have p: "parse_spec m Reset (?raw @ rest) = (length ?raw,
      \<lparr>current_chunk_header = Some (parsed_header ch ext), parse_status = ParseCompleted\<rparr>)"
    using assms by (simp add: parse_spec_Reset basic_stage_header_raw)
  have "header_size (parsed_header ch ext) = length ?raw"
    using assms(3) by (simp add: length_GetChunkHeaderRaw parsed_header_def RecalculateHeaderSize_def
        Let_def opened_header_def)
  moreover have "Parse m Reset (stream_of (?raw @ rest)) = Inr (int (length ?raw),
      \<lparr>current_chunk_header = Some (parsed_header ch ext), parse_status = ParseCompleted\<rparr>,
      advance (length ?raw) (stream_of (?raw @ rest)))"
    using Parse_refines [of "stream_of (?raw @ rest)" Reset m] assms(4)
    by (simp add: p parse_result_ok_def IsParseCompleted_def)
  ultimately show ?thesis
    using assms(5) by (auto simp: parsed_header_def RecalculateHeaderSize_def Let_def opened_header_def)
qed

definition sample_header :: chunk_header where
  "sample_header = new_chunk_header\<lparr>format_type := T1, stream_id := 500, header :=
     \<lparr>hdr_timestamp = 40, hdr_length = 6, hdr_type_id = 9, hdr_stream_id = 0\<rparr>\<rparr>"

theorem chunk_header_roundtrip_witness:
  "\<exists>h st. Parse Map.empty Reset (stream_of (GetChunkHeaderRaw sample_header False @ [7])) =
      Inr (int (length (GetChunkHeaderRaw sample_header False)),
        \<lparr>current_chunk_header = Some h, parse_status = ParseCompleted\<rparr>, st) \<and>
    GetRemainData st = [7] \<and> stream_id h = 500 \<and> hdr_length (header h) = 6"
  using chunk_header_roundtrip [of sample_header "[7]" False Map.empty]
  by (auto simp: sample_header_def new_chunk_header_def)

text \<open>
  \<open>GetChunkData\<close> takes a body out of its chunks again, on the chunk streams with a one-byte basic
  header and for every chunk size: it returns the number of raw bytes and the body, whatever follows.
\<close>

theorem chunk_data_roundtrip:
  assumes "0 < cs" "data \<noteq> []" "2 \<le> csid" "csid < 64"
  shows "GetChunkData cs (GetChunkDataRaw cs csid data ext time @ rest)
      (length (GetChunkDataRaw cs csid data ext time) + n) (length data) ext =
    Inr (GetChunkDataRawSize cs csid (length data) ext, data)"
  using GetChunkData_GetChunkDataRaw [OF assms] length_GetChunkDataRaw [OF assms(1)] by simp

theorem chunk_data_roundtrip_witness:
  "GetChunkData 2 (GetChunkDataRaw 2 3 [1, 2, 3, 4, 5] True 9 @ [8])
      (length (GetChunkDataRaw 2 3 [1, 2, 3, 4, 5] True 9) + 1) (length [1, 2, 3, 4, 5 :: byte]) True =
    Inr (GetChunkDataRawSize 2 3 (length [1, 2, 3, 4, 5 :: byte]) True, [1, 2, 3, 4, 5])"
  by (rule chunk_data_roundtrip) simp_all

section \<open>Timestamps\<close>



text \<open>
  Once the accumulated timestamp has rolled, repeating the same type 0 timestamp rolls it again
  at every chunk: from \<open>2 ^ 31\<close> on, each repetition adds \<open>2 ^ 31\<close>, without bound.
\<close>

theorem rolled_timestamp_drifts:
  assumes "2 ^ 31 \<le> l" "l mod 2 ^ 31 = t" "0 \<le> t" "t < 2 ^ 31"
  shows "((\<lambda>x. CalculateRolledTimestamp x t) ^^ n) l = l + int n * 2 ^ 31"
proof (induction n)
  case (Suc n)
  let ?l = "l + int n * 2 ^ 31"
  have "?l smod 2 ^ 31 = t"
    using assms by (simp add: smod_int_alt_def)
  moreover have "2 ^ 31 \<le> ?l - t"
  proof -
    define k where "k = l div 2147483648"
    have "l = k * 2147483648 + t" using assms(2) div_mult_mod_eq [of l "2147483648"] by (simp add: k_def)
    moreover have "1 \<le> k" using assms(1) by (simp add: k_def)
    ultimately show ?thesis by simp
  qed
  ultimately have "CalculateRolledTimestamp ?l t = ?l + 2 ^ 31"
    by (simp add: CalculateRolledTimestamp_def Let_def)
  with Suc show ?case by (simp add: algebra_simps)
qed simp

theorem rolled_timestamp_drifts_witness:
  "((\<lambda>x. CalculateRolledTimestamp x 40) ^^ 3) (2 ^ 31 + 40) = 2 ^ 31 + 40 + int 3 * 2 ^ 31"
  by (rule rolled_timestamp_drifts) simp_all

section \<open>Where the chunk layer fails\<close>

text \<open>
  C40. A message of more than one chunk on a chunk stream from 320 to 65599 is refused: the importer
  computes the third byte of the expected type 3 header from the wrong bits.
\<close>

theorem long_message_on_wide_id_refused:
  assumes "in_step e s" "import_ok s" "well_sized mh data" "320 \<le> mux_chunk_stream_id mh"
    and "import_chunk_size s < length data"
  shows "\<exists>bs e'. ExportStreamData e (Some mh) data = Inr (Some bs, e') \<and>
    (\<forall>rest. length (bs @ rest) < 2 ^ 31 \<longrightarrow> (\<exists>s'. Import s (bs @ rest) = Inr (- 1, False, s')))"
proof -
  have "ExportStreamData e (Some mh) data = Inr (Some (exported_bytes e mh data), exported_state e mh)"
    using assms(1,3) by (intro ExportStreamData_eq) (simp_all add: in_step_def well_sized_def)
  moreover have "\<exists>s'. import_spec s (exported_bytes e mh data @ rest) = (- 1, False, s')" for rest
    using three_byte_id_refused [OF assms(1,3,4,5)] by metis
  ultimately show ?thesis
    using Import_eq [OF assms(2)] by fastforce
qed

theorem long_message_on_wide_id_refused_witness:
  "\<exists>bs e'. ExportStreamData sample_exporter (Some (sample_mux 500 0 6)) [1, 2, 3, 4, 5, 6] = Inr (Some bs, e') \<and>
    (\<forall>rest. length (bs @ rest) < 2 ^ 31 \<longrightarrow> (\<exists>s'. Import sample_importer (bs @ rest) = Inr (- 1, False, s')))"
  by (rule long_message_on_wide_id_refused [OF sample_in_step]) (simp_all add: well_sized_def sample_mux_def)

text \<open>
  A header that announces a payload of zero bytes makes the importer wait for the continuations
  of a payload of \<open>2 ^ 32\<close> bytes: the expected size is that of \<open>(2 ^ 32 - 1) div chunk_size\<close> type 3
  headers, never zero, so that no zero-length message is ever finished at once.
\<close>

theorem empty_message_waits:
  assumes "0 < cs" "cs < 2 ^ 32" "header_ok h" "hdr_length (header h) = 0" "format_type h = T0"
    and "ProcessChunkHeader cs h lc = Inr (True, h')"
  shows "payload_size h' = 0 \<and> 0 < expected_payload_size h' \<and>
    expected_payload_size h' = of_nat ((2 ^ 32 - 1) div cs * type_3_size h)"
proof -
  obtain c where "completed_values h lc = Some c" "completed_length c = 0"
    using assms(4,5) by (auto simp: completed_values_def Let_def)
  moreover have "processed cs h lc = (True, h')" using assms(6) by (simp add: processed_def)
  ultimately show ?thesis
    using empty_message_expectation [OF assms(1-3)] by simp
qed

theorem empty_message_waits_witness:
  "\<exists>h'. ProcessChunkHeader 128 (opened_header T0 3) None = Inr (True, h') \<and>
    expected_payload_size h' = of_nat ((2 ^ 32 - 1) div 128 * type_3_size (opened_header T0 3))"
proof -
  let ?h = "opened_header T0 3"
  have ok: "header_ok ?h"
    by (simp add: header_ok_def opened_header_def new_chunk_header_def GetBasicHeaderSizeByChunkStreamID_def)
  have z: "hdr_length (header ?h) = 0" by (simp add: opened_header_def new_chunk_header_def)
  obtain h' where h': "ProcessChunkHeader 128 ?h None = Inr (True, h')"
    by (simp add: ProcessChunkHeader_def opened_header_def new_chunk_header_def
        GetBasicHeaderSizeByChunkStreamID_def RecalculateHeaderSize_def CalculateForType3Header_def Let_def
        unsigned_minus_1_eq_mask mask_eq_exp_minus_1 signed_of_nat signed_take_bit_int_eq_self)
  with empty_message_waits [OF _ _ ok z _ h'] show ?thesis by auto
qed

end
